(* ===== verification/Motu_Prelude.thy ===== *)
theory Motu_Prelude
  imports Main "HOL-Library.Word" "HOL-Library.Sublist"
begin

unbundle bit_operations_syntax

text \<open>
  The vocabulary shared by every component of the proxy: Python's \<open>bytes\<close> and \<open>str\<close>, the
  exceptions the program raises (one constructor per exception class of the source), the result
  type of code that may raise, the little-endian integers of \<open>struct\<close>, slices, decimal rendering
  and UTF-8.

  \<^item> \<open>bytes\<close> is a list of \<^typ>\<open>8 word\<close>; Python's unbounded integers are \<^typ>\<open>int\<close>.
  \<^item> A \<open>str\<close> is the list of its code points (\<open>pystr\<close>), so that lengths, slices and the UTF-8
    encoding are the ones Python computes; \<open>lit\<close> and \<open>blit\<close> write literals.
  \<^item> A function that may raise returns \<open>exc + 'a\<close>: \<open>Inl\<close> is the exception. The values an
    exception's message interpolates are constructor arguments where other code looks at them.
  The \<open>named_theorems\<close> collect the facts that component proofs pass to the simplifier.
\<close>

named_theorems wire_simps \<open>layout of encoded integers, words and frames\<close>
named_theorems result_simps \<open>inversion of results that may be exceptions\<close>
named_theorems step_defs \<open>definitions of the atomic steps of a component\<close>
named_theorems keeps_intros \<open>rules for predicates that stateful code keeps\<close>

section \<open>Bytes, strings, exceptions\<close>

type_synonym byte = "8 word"
type_synonym bytes = "byte list"
type_synonym pystr = "nat list"

definition lit :: "string \<Rightarrow> pystr" where
  "lit s = map of_char s"

definition blit :: "string \<Rightarrow> bytes" where
  "blit s = map of_char s"

lemma lit_simps [simp]: "lit [] = []" "lit (c # cs) = of_char c # lit cs"
  by (simp_all add: lit_def)

lemma blit_simps [simp]: "blit [] = []" "blit (c # cs) = of_char c # blit cs"
  by (simp_all add: blit_def)

lemma length_lit [simp]: "length (lit s) = length s"
  by (simp add: lit_def)

lemma length_blit [simp]: "length (blit s) = length s"
  by (simp add: blit_def)

text \<open>Why a received frame is refused (the messages of \<open>ResponseFrameError\<close>).\<close>

datatype frame_fault =
    ShortFrame nat
  | WrapperType int
  | WrapperLength int
  | ShortOf nat int
  | BadHeader bytes
  | MessageSeq int int
  | FinalField int
  | PayloadExceeds int
  | TrailerLength int
  | CrcMismatch int int
  | TrailerMismatch bytes bytes
  | SegmentIndex int nat
  | EarlyFinal nat
  | MissingFinal

text \<open>The exception classes of the program and of the standard library it relies on.\<close>

datatype exc =
    StructError
  | ValueError
  | UnicodeEncodeError
  | UnicodeDecodeError
  | AssertionError
  | ProtocolFrameTooLarge int int
  | InvalidHostSequence int
  | ResponseFrameError frame_fault
  | InvalidJsonBody
  | DatastorePermissionError pystr
  | DatastoreValidationError pystr
  | DeviceDiscoveryError bool
  | NoDeviceFound
  | MultipleDevicesFound
  | NoControlInterfaceFound
  | ShortUsbFrame nat
  | ShortUsbWrite int nat
  | DatastoreNoResponse
  | DatastoreTimeout
  | DatastoreResponseLimit
  | DatastoreCancelled
  | DatastoreDeviceUnavailable
  | OSError int
  | InterruptedError
  | RuntimeError
  | WritesDisabled
  | CrossOriginWrite
  | HostNotAllowed
  | WriteTokenRequired
  | RequestBodyTooLarge
  | RequestBodyTimeout
  | BadRequest
  | OtherException

type_synonym 'a result = "exc + 'a"

section \<open>Results that may be exceptions\<close>

definition bindR :: "'e + 'a \<Rightarrow> ('a \<Rightarrow> 'e + 'b) \<Rightarrow> 'e + 'b" where
  "bindR m f = (case m of Inl e \<Rightarrow> Inl e | Inr x \<Rightarrow> f x)"

lemma bindR_simps [simp]:
  "bindR (Inl e) f = Inl e"
  "bindR (Inr x) f = f x"
  by (simp_all add: bindR_def)

lemma bindR_Inr_iff [result_simps]:
  "bindR m f = Inr y \<longleftrightarrow> (\<exists>x. m = Inr x \<and> f x = Inr y)"
  by (cases m) auto

lemma bindR_Inl_iff [result_simps]:
  "bindR m f = Inl e \<longleftrightarrow> m = Inl e \<or> (\<exists>x. m = Inr x \<and> f x = Inl e)"
  by (cases m) auto

lemma bindR_assoc: "bindR (bindR m f) g = bindR m (\<lambda>x. bindR (f x) g)"
  by (cases m) auto

lemma bindR_cong [fundef_cong]:
  "m = m' \<Longrightarrow> (\<And>x. m' = Inr x \<Longrightarrow> f x = f' x) \<Longrightarrow> bindR m f = bindR m' f'"
  by (cases m') auto

text \<open>A comprehension whose element expression may raise.\<close>

fun mapR :: "('a \<Rightarrow> 'e + 'b) \<Rightarrow> 'a list \<Rightarrow> 'e + 'b list" where
  "mapR f [] = Inr []"
| "mapR f (x # xs) = bindR (f x) (\<lambda>y. bindR (mapR f xs) (\<lambda>ys. Inr (y # ys)))"

lemma mapR_Inr: "(\<And>x. x \<in> set xs \<Longrightarrow> f x = Inr (g x)) \<Longrightarrow> mapR f xs = Inr (map g xs)"
  by (induction xs) auto

lemma mapR_Inr_iff: "mapR f xs = Inr ys \<longleftrightarrow> list_all2 (\<lambda>x y. f x = Inr y) xs ys"
  by (induction xs arbitrary: ys) (auto simp: result_simps list_all2_Cons1)

section \<open>Slices\<close>

text \<open>\<open>data[a:b]\<close> for offsets that are not negative.\<close>

definition pyslice :: "'a list \<Rightarrow> nat \<Rightarrow> nat \<Rightarrow> 'a list" where
  "pyslice xs a b = take (b - a) (drop a xs)"

lemma length_pyslice [simp]: "length (pyslice xs a b) = min (b - a) (length xs - a)"
  by (simp add: pyslice_def)

lemma pyslice_append_left: "b \<le> length xs \<Longrightarrow> pyslice (xs @ ys) a b = pyslice xs a b"
  by (cases "a \<le> length xs") (auto simp: pyslice_def)

lemma pyslice_append_right:
  "length xs \<le> a \<Longrightarrow> pyslice (xs @ ys) a b = pyslice ys (a - length xs) (b - length xs)"
  by (simp add: pyslice_def)

lemma pyslice_0 [simp]: "pyslice xs 0 b = take b xs"
  by (simp add: pyslice_def)

lemma take_pyslice_drop:
  assumes "a \<le> b" "b \<le> length xs"
  shows "take a xs @ pyslice xs a b @ drop b xs = xs"
proof -
  have "pyslice xs a b @ drop b xs = drop a xs"
    using assms by (metis pyslice_def append_take_drop_id drop_drop le_add_diff_inverse2)
  then show ?thesis by simp
qed

section \<open>Little-endian integers (\<open>struct\<close>)\<close>

fun le_bytes :: "nat \<Rightarrow> int \<Rightarrow> bytes" where
  "le_bytes 0 v = []"
| "le_bytes (Suc n) v = word_of_int v # le_bytes n (v div 256)"

fun le_val :: "bytes \<Rightarrow> int" where
  "le_val [] = 0"
| "le_val (b # bs) = uint b + 256 * le_val bs"

lemma length_le_bytes [simp]: "length (le_bytes n v) = n"
  by (induction n v rule: le_bytes.induct) auto

lemma uint_byte_bounds: "0 \<le> uint (b :: byte)" "uint (b :: byte) < 256"
  using uint_bounded [of b] by simp_all

lemma le_val_bounds: "0 \<le> le_val bs" "le_val bs < 256 ^ length bs"
proof (induction bs)
  case (Cons b bs)
  have b: "0 \<le> uint b" "uint b < 256" by (rule uint_byte_bounds)+
  { case 1 show ?case using Cons b by simp }
  { case 2 show ?case using Cons b by simp }
qed simp_all

lemma div_less_of_less_mult: "(v :: int) < 256 * k \<Longrightarrow> v div 256 < k"
  by linarith

lemma byte_256 [simp]: "(256 :: byte) = 0"
  by simp

lemma word_of_int_add_256: "word_of_int (v + 256 * k) = (word_of_int v :: byte)"
  by simp

lemma le_val_le_bytes [wire_simps]: "0 \<le> v \<Longrightarrow> v < 256 ^ n \<Longrightarrow> le_val (le_bytes n v) = v"
proof (induction n arbitrary: v)
  case (Suc n)
  have "v div 256 < 256 ^ n" using Suc.prems by (auto intro: div_less_of_less_mult simp: mult.commute)
  with Suc show ?case by (simp add: uint_word_of_int)
qed simp

lemma le_bytes_le_val: "le_bytes (length bs) (le_val bs) = bs"
proof (induction bs)
  case (Cons b bs)
  have b: "0 \<le> uint b" "uint b < 256" by (rule uint_byte_bounds)+
  have "(uint b + 256 * le_val bs) div 256 = le_val bs"
    using b by simp
  with Cons b show ?case by (simp add: word_of_int_add_256)
qed simp

lemma le_bytes_inj:
  "0 \<le> v \<Longrightarrow> v < 256 ^ n \<Longrightarrow> 0 \<le> w \<Longrightarrow> w < 256 ^ n \<Longrightarrow> le_bytes n v = le_bytes n w \<longleftrightarrow> v = w"
  by (metis le_val_le_bytes)

lemma le_val_inj: "length bs = length cs \<Longrightarrow> le_val bs = le_val cs \<longleftrightarrow> bs = cs"
  by (metis le_bytes_le_val)

section \<open>Decimal rendering (\<open>str(int)\<close>)\<close>

fun digits_nat :: "nat \<Rightarrow> pystr" where
  "digits_nat n = (if n < 10 then [48 + n] else digits_nat (n div 10) @ [48 + n mod 10])"

declare digits_nat.simps [simp del]

definition str_int :: "int \<Rightarrow> pystr" where
  "str_int i = (if i < 0 then 45 # digits_nat (nat (- i)) else digits_nat (nat i))"

fun digits_val :: "nat \<Rightarrow> pystr \<Rightarrow> nat" where
  "digits_val acc [] = acc"
| "digits_val acc (c # cs) = digits_val (10 * acc + (c - 48)) cs"

lemma digits_val_append: "digits_val acc (xs @ ys) = digits_val (digits_val acc xs) ys"
  by (induction acc xs rule: digits_val.induct) auto

lemma digits_val_digits_nat: "digits_val 0 (digits_nat n) = n"
proof (induction n rule: digits_nat.induct)
  case (1 n)
  show ?case
  proof (cases "n < 10")
    case True
    then show ?thesis by (simp add: digits_nat.simps [of n])
  next
    case False
    with 1 show ?thesis by (simp add: digits_nat.simps [of n] digits_val_append)
  qed
qed

lemma digits_nat_inj: "digits_nat m = digits_nat n \<longleftrightarrow> m = n"
  by (metis digits_val_digits_nat)

lemma digits_nat_range: "c \<in> set (digits_nat n) \<Longrightarrow> 48 \<le> c \<and> c \<le> 57"
proof (induction n rule: digits_nat.induct)
  case (1 n)
  show ?case
  proof (cases "n < 10")
    case True
    with "1.prems" show ?thesis by (simp add: digits_nat.simps [of n])
  next
    case False
    with 1 show ?thesis by (auto simp: digits_nat.simps [of n])
  qed
qed

lemma digits_nat_nonempty [simp]: "digits_nat n \<noteq> []"
  by (subst digits_nat.simps) simp

lemma str_int_inj: "str_int i = str_int j \<longleftrightarrow> i = j"
proof
  assume eq: "str_int i = str_int j"
  have minus: "hd (digits_nat n) \<noteq> 45" for n
    using digits_nat_range [of "hd (digits_nat n)" n] by auto
  show "i = j"
  proof (cases "i < 0"; cases "j < 0")
    assume "i < 0" "j < 0"
    with eq have "nat (- i) = nat (- j)" by (simp add: str_int_def digits_nat_inj)
    then show ?thesis using \<open>i < 0\<close> \<open>j < 0\<close> by linarith
  next
    assume "\<not> i < 0" "\<not> j < 0"
    with eq have "nat i = nat j" by (simp add: str_int_def digits_nat_inj)
    then show ?thesis using \<open>\<not> i < 0\<close> \<open>\<not> j < 0\<close> by linarith
  next
    assume "i < 0" "\<not> j < 0"
    with eq minus show ?thesis by (metis str_int_def list.sel(1))
  next
    assume "\<not> i < 0" "j < 0"
    with eq minus show ?thesis by (metis str_int_def list.sel(1))
  qed
qed simp

section \<open>UTF-8\<close>

text \<open>
  \<open>str.encode("utf-8")\<close>: a surrogate (or a number that is no code point) raises
  \<open>UnicodeEncodeError\<close>.
\<close>

definition utf8_char :: "nat \<Rightarrow> bytes result" where
  "utf8_char c =
     (if c < 0x80 then Inr [of_nat c]
      else if c < 0x800 then Inr [of_nat (0xC0 + c div 64), of_nat (0x80 + c mod 64)]
      else if 0xD800 \<le> c \<and> c < 0xE000 then Inl UnicodeEncodeError
      else if c < 0x10000 then
        Inr [of_nat (0xE0 + c div 4096), of_nat (0x80 + c div 64 mod 64), of_nat (0x80 + c mod 64)]
      else if c < 0x110000 then
        Inr [of_nat (0xF0 + c div 262144), of_nat (0x80 + c div 4096 mod 64),
             of_nat (0x80 + c div 64 mod 64), of_nat (0x80 + c mod 64)]
      else Inl UnicodeEncodeError)"

definition utf8_encode :: "pystr \<Rightarrow> bytes result" where
  "utf8_encode s = bindR (mapR utf8_char s) (\<lambda>bs. Inr (concat bs))"

definition ascii_str :: "pystr \<Rightarrow> bool" where
  "ascii_str s \<longleftrightarrow> (\<forall>c\<in>set s. c < 0x80)"

lemma utf8_encode_ascii: "ascii_str s \<Longrightarrow> utf8_encode s = Inr (map of_nat s)"
  unfolding utf8_encode_def ascii_str_def
  by (subst mapR_Inr [where g = "\<lambda>c. [of_nat c]"]) (auto simp: utf8_char_def)

lemma ascii_str_digits: "ascii_str (digits_nat n)"
  using digits_nat_range by (force simp: ascii_str_def)

lemma ascii_str_str_int: "ascii_str (str_int i)"
  using ascii_str_digits by (auto simp: str_int_def ascii_str_def)

text \<open>
  \<open>bytes.decode("utf-8")\<close> in strict mode, one character at a time: continuation bytes are
  required, and overlong forms, surrogates and numbers beyond the last code point are refused.
\<close>

definition utf8_cont :: "byte \<Rightarrow> bool" where
  "utf8_cont b \<longleftrightarrow> 0x80 \<le> unat b \<and> unat b < 0xC0"

fun utf8_take :: "bytes \<Rightarrow> (nat \<times> bytes) option" where
  "utf8_take [] = None"
| "utf8_take (b # bs) =
     (let n = unat b in
      if n < 0x80 then Some (n, bs)
      else if 0xC2 \<le> n \<and> n < 0xE0 then
        (case bs of
           b1 # r \<Rightarrow> if utf8_cont b1 then Some ((n - 0xC0) * 64 + (unat b1 - 0x80), r) else None
         | _ \<Rightarrow> None)
      else if 0xE0 \<le> n \<and> n < 0xF0 then
        (case bs of
           b1 # b2 # r \<Rightarrow>
             let c = (n - 0xE0) * 4096 + (unat b1 - 0x80) * 64 + (unat b2 - 0x80)
             in if utf8_cont b1 \<and> utf8_cont b2 \<and> 0x800 \<le> c \<and> \<not> (0xD800 \<le> c \<and> c < 0xE000)
                then Some (c, r) else None
         | _ \<Rightarrow> None)
      else if 0xF0 \<le> n \<and> n < 0xF5 then
        (case bs of
           b1 # b2 # b3 # r \<Rightarrow>
             let c = (n - 0xF0) * 262144 + (unat b1 - 0x80) * 4096 + (unat b2 - 0x80) * 64 + (unat b3 - 0x80)
             in if utf8_cont b1 \<and> utf8_cont b2 \<and> utf8_cont b3 \<and> 0x10000 \<le> c \<and> c < 0x110000
                then Some (c, r) else None
         | _ \<Rightarrow> None)
      else None)"

lemma unat_of_nat_byte: "n < 256 \<Longrightarrow> unat (of_nat n :: byte) = n"
  by (simp add: unat_of_nat)

lemma utf8_take_char:
  assumes "utf8_char c = Inr x"
  shows "utf8_take (x @ r) = Some (c, r)"
proof -
  have split: "c div 64 * 64 + c mod 64 = c" "c div 4096 * 64 + c div 64 mod 64 = c div 64"
     "c div 262144 * 64 + c div 4096 mod 64 = c div 4096" 
    by (simp_all add: div_mult2_eq [of c 64 64, simplified] div_mult2_eq [of c 4096 64, simplified])
  have join3: "c div 4096 * 4096 + c div 64 mod 64 * 64 + c mod 64 = c"
    using split(1,2) by linarith
  have join4: "c div 262144 * 262144 + c div 4096 mod 64 * 4096 + c div 64 mod 64 * 64 + c mod 64 = c"
    using split by linarith
  consider "c < 0x80" | "0x80 \<le> c" "c < 0x800" | "0x800 \<le> c" "c < 0x10000" "\<not> (0xD800 \<le> c \<and> c < 0xE000)"
    | "0x10000 \<le> c" "c < 0x110000"
    using assms by (force simp: utf8_char_def split: if_splits)
  then show ?thesis
  proof cases
    case 1
    with assms show ?thesis by (auto simp: utf8_char_def unat_of_nat_byte)
  next
    case 2
    then have "c div 64 < 32" "2 \<le> c div 64" by simp_all
    with 2 assms split(1) show ?thesis
      by (auto simp: utf8_char_def unat_of_nat_byte utf8_cont_def Let_def simp del: of_nat_add)
  next
    case 3
    then have "c div 4096 < 16" by simp
    with 3 assms show ?thesis
      by (auto simp: utf8_char_def unat_of_nat_byte join3 utf8_cont_def Let_def simp del: of_nat_add)
  next
    case 4
    then have "c div 262144 < 5" by simp
    with 4 assms show ?thesis
      by (auto simp: utf8_char_def unat_of_nat_byte join4 utf8_cont_def Let_def simp del: of_nat_add)
  qed
qed

lemma utf8_char_prefix:
  assumes "utf8_char c = Inr x" "utf8_char d = Inr y" "x @ r = y @ s"
  shows "c = d \<and> r = s"
  using utf8_take_char [OF assms(1), of r] utf8_take_char [OF assms(2), of s] assms(3) by simp

lemma utf8_char_nonempty: "utf8_char c = Inr x \<Longrightarrow> x \<noteq> []"
  by (auto simp: utf8_char_def split: if_splits)

lemma utf8_encode_simps:
  "utf8_encode [] = Inr []"
  "utf8_encode (c # cs) = bindR (utf8_char c) (\<lambda>x. bindR (utf8_encode cs) (\<lambda>y. Inr (x @ y)))"
  by (simp_all add: utf8_encode_def bindR_assoc)

lemma utf8_encode_inj:
  "utf8_encode s = Inr x \<Longrightarrow> utf8_encode t = Inr x \<Longrightarrow> s = t"
proof (induction s arbitrary: t x)
  case Nil
  then show ?case
    by (cases t) (auto simp: utf8_encode_simps result_simps dest: utf8_char_nonempty)
next
  case (Cons c s)
  from Cons.prems(1) obtain y z where c: "utf8_char c = Inr y" "utf8_encode s = Inr z" "x = y @ z"
    by (auto simp: utf8_encode_simps result_simps)
  with Cons.prems(2) obtain d t' where t: "t = d # t'"
    by (cases t) (auto simp: utf8_encode_simps dest: utf8_char_nonempty)
  with Cons.prems(2) obtain y' z' where d: "utf8_char d = Inr y'" "utf8_encode t' = Inr z'" "x = y' @ z'"
    by (auto simp: utf8_encode_simps result_simps)
  have "c = d \<and> z = z'"
    by (rule utf8_char_prefix [OF c(1) d(1)]) (use c(3) d(3) in simp)
  with Cons.IH c d t show ?case by simp
qed

lemma utf8_take_shorter: "utf8_take bs = Some (c, r) \<Longrightarrow> length r < length bs"
  by (cases bs) (auto simp: Let_def split: if_splits list.splits)

text \<open>The strict decoder as a whole, and that it undoes the encoder.\<close>

function utf8_decode :: "bytes \<Rightarrow> pystr result" where
  "utf8_decode bs =
     (if bs = [] then Inr []
      else case utf8_take bs of
             None \<Rightarrow> Inl UnicodeDecodeError
           | Some (c, r) \<Rightarrow> bindR (utf8_decode r) (\<lambda>cs. Inr (c # cs)))"
  by pat_completeness auto
termination
  by (relation "measure length") (auto dest: utf8_take_shorter)

declare utf8_decode.simps [simp del]

lemma utf8_decode_encode: "utf8_encode s = Inr x \<Longrightarrow> utf8_decode x = Inr s"
proof (induction s arbitrary: x)
  case Nil
  then show ?case by (simp add: utf8_encode_simps utf8_decode.simps)
next
  case (Cons c s)
  then obtain y z where c: "utf8_char c = Inr y" "utf8_encode s = Inr z" "x = y @ z"
    by (auto simp: utf8_encode_simps result_simps)
  then show ?case
    using Cons.IH [OF c(2)] utf8_take_char [OF c(1), of z] utf8_char_nonempty [OF c(1)]
    by (simp add: utf8_decode.simps [of "y @ z"])
qed

section \<open>Fixed-width wire fields\<close>

text \<open>
  The contract of a fixed-width field: what is written can be read back, and the width is known,
  so that a field can be read at its offset inside a larger frame. Every frame layout of the
  program is read and written through the two interpretations below.
\<close>

locale wire_codec =
  fixes enc :: "'a \<Rightarrow> bytes"
    and dec :: "bytes \<Rightarrow> 'a"
    and valid :: "'a \<Rightarrow> bool"
    and width :: nat
  assumes dec_enc: "valid x \<Longrightarrow> dec (enc x) = x"
    and length_enc: "length (enc x) = width"
    and enc_dec: "length bs = width \<Longrightarrow> enc (dec bs) = bs"
    and valid_dec: "length bs = width \<Longrightarrow> valid (dec bs)"
begin

lemma enc_inj: "valid x \<Longrightarrow> valid y \<Longrightarrow> enc x = enc y \<longleftrightarrow> x = y"
  by (metis dec_enc)

lemma dec_inj: "length bs = width \<Longrightarrow> length cs = width \<Longrightarrow> dec bs = dec cs \<longleftrightarrow> bs = cs"
  by (metis enc_dec)

lemma enc_eq_iff: "length bs = width \<Longrightarrow> valid x \<Longrightarrow> bs = enc x \<longleftrightarrow> dec bs = x"
  by (metis dec_enc enc_dec)

lemma read_field:
  "length pre = k \<Longrightarrow> k' = k + width \<Longrightarrow> valid x \<Longrightarrow> dec (pyslice (pre @ enc x @ post) k k') = x"
  by (simp add: pyslice_def length_enc dec_enc)

lemma read_head: "valid x \<Longrightarrow> dec (take width (enc x @ post)) = x"
  by (simp add: length_enc dec_enc)

end

interpretation le16: wire_codec "le_bytes 2" le_val "\<lambda>v. 0 \<le> v \<and> v < 65536" 2
proof unfold_locales
  fix x :: int assume "0 \<le> x \<and> x < 65536"
  then show "le_val (le_bytes 2 x) = x" by (intro le_val_le_bytes) simp_all
next
  fix bs :: bytes assume "length bs = 2"
  then show "le_bytes 2 (le_val bs) = bs" "0 \<le> le_val bs \<and> le_val bs < 65536"
    using le_bytes_le_val [of bs] le_val_bounds [of bs] by auto
qed simp

interpretation le32: wire_codec "le_bytes 4" le_val "\<lambda>v. 0 \<le> v \<and> v < 4294967296" 4
proof unfold_locales
  fix x :: int assume "0 \<le> x \<and> x < 4294967296"
  then show "le_val (le_bytes 4 x) = x" by (intro le_val_le_bytes) simp_all
next
  fix bs :: bytes assume "length bs = 4"
  then show "le_bytes 4 (le_val bs) = bs" "0 \<le> le_val bs \<and> le_val bs < 4294967296"
    using le_bytes_le_val [of bs] le_val_bounds [of bs] by auto
qed simp

section \<open>Counters that wrap\<close>

text \<open>
  The contract of a counter that runs through \<open>lo, \<dots>, lo + period - 1\<close> and starts again. The host
  sequence and the message sequence are its two instances.
\<close>

locale cyclic_counter =
  fixes step :: "int \<Rightarrow> int" and lo :: int and period :: int
  assumes period_pos: "0 < period"
    and step_eq: "lo \<le> x \<Longrightarrow> x < lo + period \<Longrightarrow> step x = (if x + 1 = lo + period then lo else x + 1)"
begin

definition in_cycle :: "int \<Rightarrow> bool" where
  "in_cycle x \<longleftrightarrow> lo \<le> x \<and> x < lo + period"

lemma step_in_cycle: "in_cycle x \<Longrightarrow> in_cycle (step x)"
  using period_pos by (auto simp: in_cycle_def step_eq)

lemma iter_in_cycle: "in_cycle x \<Longrightarrow> in_cycle ((step ^^ n) x)"
  by (induction n) (auto intro: step_in_cycle)

lemma iter_eq: "in_cycle x \<Longrightarrow> (step ^^ n) x = lo + (x - lo + int n) mod period"
proof (induction n)
  case 0
  then show ?case by (simp add: in_cycle_def)
next
  case (Suc n)
  let ?y = "(step ^^ n) x"
  have y: "?y = lo + (x - lo + int n) mod period" using Suc by simp
  have "in_cycle ?y" using Suc.prems by (rule iter_in_cycle)
  then have s: "step ?y = (if ?y + 1 = lo + period then lo else ?y + 1)" by (simp add: in_cycle_def step_eq)
  have m: "(x - lo + int (Suc n)) mod period = ((x - lo + int n) mod period + 1) mod period"
    unfolding mod_add_left_eq by (simp add: algebra_simps)
  show ?case
  proof (cases "?y + 1 = lo + period")
    case True
    with y have "(x - lo + int n) mod period + 1 = period" by linarith
    with m s True show ?thesis by simp
  next
    case False
    with y have "(x - lo + int n) mod period + 1 \<noteq> period" by linarith
    moreover have "0 \<le> (x - lo + int n) mod period" "(x - lo + int n) mod period < period"
      using period_pos by simp_all
    ultimately have "((x - lo + int n) mod period + 1) mod period = (x - lo + int n) mod period + 1"
      by (intro mod_pos_pos_trivial) linarith+
    with m s False y show ?thesis by simp
  qed
qed

lemma iter_distinct:
  assumes "in_cycle x" "i < j" "int j < int i + period"
  shows "(step ^^ i) x \<noteq> (step ^^ j) x"
proof
  assume "(step ^^ i) x = (step ^^ j) x"
  then have "(x - lo + int i) mod period = (x - lo + int j) mod period" using assms(1) by (simp add: iter_eq)
  then have "period dvd int j - int i" by (simp add: mod_eq_dvd_iff dvd_diff_commute)
  with assms(2,3) show False using zdvd_imp_le [of period "int j - int i"] by simp
qed

lemma iter_period: "in_cycle x \<Longrightarrow> (step ^^ (n + nat period)) x = (step ^^ n) x"
  using period_pos by (simp add: iter_eq add.assoc [symmetric])

end

section \<open>Stateful code that may raise\<close>

text \<open>
  A method of an object: it takes the state and returns its result, or the exception it raises,
  together with the state at that moment (an exception does not undo what was done before it).
\<close>

type_synonym ('s, 'a) sop = "'s \<Rightarrow> 'a result \<times> 's"

definition retS :: "'a \<Rightarrow> ('s, 'a) sop" where
  "retS x = (\<lambda>s. (Inr x, s))"

definition raiseS :: "exc \<Rightarrow> ('s, 'a) sop" where
  "raiseS e = (\<lambda>s. (Inl e, s))"

definition liftR :: "'a result \<Rightarrow> ('s, 'a) sop" where
  "liftR r = (\<lambda>s. (r, s))"

definition bindS :: "('s, 'a) sop \<Rightarrow> ('a \<Rightarrow> ('s, 'b) sop) \<Rightarrow> ('s, 'b) sop" where
  "bindS m f = (\<lambda>s. case m s of (Inl e, t) \<Rightarrow> (Inl e, t) | (Inr x, t) \<Rightarrow> f x t)"

definition modS :: "('s \<Rightarrow> 's) \<Rightarrow> ('s, unit) sop" where
  "modS f = (\<lambda>s. (Inr (), f s))"

text \<open>\<open>try m except E: handler; raise\<close> and \<open>try m finally: f\<close>.\<close>

definition onErrorS :: "('s, 'a) sop \<Rightarrow> (exc \<Rightarrow> ('s, 'a) sop) \<Rightarrow> ('s, 'a) sop" where
  "onErrorS m h = (\<lambda>s. case m s of (Inl e, t) \<Rightarrow> h e t | (Inr x, t) \<Rightarrow> (Inr x, t))"

definition finallyS :: "('s, 'a) sop \<Rightarrow> ('s, unit) sop \<Rightarrow> ('s, 'a) sop" where
  "finallyS m f =
     (\<lambda>s. case m s of (r, t) \<Rightarrow> (case f t of (Inl e, u) \<Rightarrow> (Inl e, u) | (Inr _, u) \<Rightarrow> (r, u)))"

lemma sop_apply [simp]:
  "retS x s = (Inr x, s)" "raiseS e s = (Inl e, s)" "liftR r s = (r, s)" "modS f s = (Inr (), f s)"
  by (simp_all add: retS_def raiseS_def liftR_def modS_def)

lemma bindS_apply:
  "m s = (Inl e, t) \<Longrightarrow> bindS m f s = (Inl e, t)"
  "m s = (Inr x, t) \<Longrightarrow> bindS m f s = f x t"
  by (simp_all add: bindS_def)

lemma bindS_simps [simp]:
  "bindS (retS x) f s = f x s" "bindS (raiseS e) f s = (Inl e, s)" "bindS (modS g) h s = h () (g s)"
  "bindS (liftR (Inl e)) f s = (Inl e, s)" "bindS (liftR (Inr x)) f s = f x s"
  by (simp_all add: bindS_def)

lemma bindS_Inr_iff [result_simps]:
  "bindS m f s = (Inr y, u) \<longleftrightarrow> (\<exists>x t. m s = (Inr x, t) \<and> f x t = (Inr y, u))"
  by (auto simp: bindS_def split: prod.splits sum.splits)

lemma bindS_Inl_iff [result_simps]:
  "bindS m f s = (Inl e, u) \<longleftrightarrow> m s = (Inl e, u) \<or> (\<exists>x t. m s = (Inr x, t) \<and> f x t = (Inl e, u))"
  by (auto simp: bindS_def split: prod.splits sum.splits)

text \<open>A relation between the state before and after that code keeps, whether it raises or not.\<close>

definition keepsS :: "('s \<Rightarrow> 's \<Rightarrow> bool) \<Rightarrow> ('s, 'a) sop \<Rightarrow> bool" where
  "keepsS R m \<longleftrightarrow> (\<forall>s. R s (snd (m s)))"

lemma keepsS_pure [keeps_intros]:
  "reflp R \<Longrightarrow> keepsS R (retS x)" "reflp R \<Longrightarrow> keepsS R (raiseS e)" "reflp R \<Longrightarrow> keepsS R (liftR r)"
  by (auto simp: keepsS_def reflp_def)

lemma keepsS_modS [keeps_intros]: "(\<And>s. R s (f s)) \<Longrightarrow> keepsS R (modS f)"
  by (simp add: keepsS_def)

lemma keepsS_bindS [keeps_intros]:
  assumes "transp R" "keepsS R m" "\<And>x. keepsS R (f x)"
  shows "keepsS R (bindS m f)"
  unfolding keepsS_def
proof
  fix s
  obtain r t where m: "m s = (r, t)" by (cases "m s")
  have 1: "R s t" using assms(2) m by (metis keepsS_def snd_conv)
  show "R s (snd (bindS m f s))"
  proof (cases r)
    case (Inl e)
    with m 1 show ?thesis by (simp add: bindS_apply)
  next
    case (Inr x)
    with m have "bindS m f s = f x t" by (simp add: bindS_apply)
    moreover have "R t (snd (f x t))" using assms(3) by (simp add: keepsS_def)
    ultimately show ?thesis using 1 assms(1) by (metis transpD)
  qed
qed

lemma keepsS_onErrorS [keeps_intros]:
  assumes "transp R" "keepsS R m" "\<And>e. keepsS R (h e)"
  shows "keepsS R (onErrorS m h)"
  unfolding keepsS_def
proof
  fix s
  obtain r t where m: "m s = (r, t)" by (cases "m s")
  have 1: "R s t" using assms(2) m by (metis keepsS_def snd_conv)
  show "R s (snd (onErrorS m h s))"
  proof (cases r)
    case (Inl e)
    moreover have "R t (snd (h e t))" using assms(3) by (simp add: keepsS_def)
    ultimately show ?thesis using m 1 assms(1) by (auto simp: onErrorS_def dest: transpD)
  next
    case (Inr x)
    with m 1 show ?thesis by (simp add: onErrorS_def)
  qed
qed

lemma keepsS_finallyS [keeps_intros]:
  assumes "transp R" "keepsS R m" "keepsS R f"
  shows "keepsS R (finallyS m f)"
  unfolding keepsS_def
proof
  fix s
  obtain r t where m: "m s = (r, t)" by (cases "m s")
  obtain r' u where f: "f t = (r', u)" by (cases "f t")
  have "R s u" using assms m f by (metis keepsS_def snd_conv transpD)
  then show "R s (snd (finallyS m f s))" using m f by (cases r') (auto simp: finallyS_def)
qed

lemma keepsS_cond [keeps_intros]:
  "(b \<Longrightarrow> keepsS R m) \<Longrightarrow> (\<not> b \<Longrightarrow> keepsS R n) \<Longrightarrow> keepsS R (if b then m else n)"
  by simp

end
