(* ===== verification/Motu_Protocol.thy ===== *)
theory Motu_Protocol
  imports Motu_Prelude
begin

text \<open>
  Request frame construction (\<^verbatim>\<open>motu_proxy/protocol.py\<close>, with the captured frames of
  \<^verbatim>\<open>motu_proxy/fixtures.py\<close>): CRC-32, \<open>struct\<close> packing, sized words, query fields, the host
  sequence counter and the GET, POST, ACK and init frames.
\<close>

unbundle bit_operations_syntax

section \<open>Constants\<close>

definition HOST_SEQ_MIN :: int where "HOST_SEQ_MIN = 0x20"
definition HOST_SEQ_COUNT :: int where "HOST_SEQ_COUNT = 0x20"
definition HOST_SEQ_MAX_EXCLUSIVE :: int where
  "HOST_SEQ_MAX_EXCLUSIVE = HOST_SEQ_MIN + HOST_SEQ_COUNT"
definition MAX_U16 :: int where "MAX_U16 = 0xFFFF"
definition USB_LOGICAL_HEADER_BYTES :: int where "USB_LOGICAL_HEADER_BYTES = 4"
definition MOTU_FRAME_CONTROL_BYTES :: int where "MOTU_FRAME_CONTROL_BYTES = 16"
definition UTOM_REQUEST_PREFIX_BYTES :: int where "UTOM_REQUEST_PREFIX_BYTES = 20"
definition POST_BODY_PREFIX_BYTES :: int where "POST_BODY_PREFIX_BYTES = 12"

lemmas protocol_consts =
  HOST_SEQ_MIN_def HOST_SEQ_COUNT_def HOST_SEQ_MAX_EXCLUSIVE_def MAX_U16_def
  USB_LOGICAL_HEADER_BYTES_def MOTU_FRAME_CONTROL_BYTES_def UTOM_REQUEST_PREFIX_BYTES_def
  POST_BODY_PREFIX_BYTES_def

section \<open>CRC-32\<close>

text \<open>
  \<open>zlib.crc32\<close>: the reflected CRC-32 of polynomial \<open>0x04C11DB7\<close> (reversed \<open>0xEDB88320\<close>), with
  initial value and final complement of all ones.
\<close>

definition crc_bit :: "32 word \<Rightarrow> 32 word" where
  "crc_bit c = (if bit c 0 then drop_bit 1 c XOR 0xEDB88320 else drop_bit 1 c)"

definition crc_byte :: "32 word \<Rightarrow> byte \<Rightarrow> 32 word" where
  "crc_byte c b =
     crc_bit (crc_bit (crc_bit (crc_bit (crc_bit (crc_bit (crc_bit (crc_bit (c XOR ucast b))))))))"

definition zlib_crc32 :: "bytes \<Rightarrow> 32 word" where
  "zlib_crc32 data = NOT (foldl crc_byte (NOT 0) data)"

definition crc32 :: "bytes \<Rightarrow> int" where
  "crc32 data = uint (zlib_crc32 data) AND 0xFFFFFFFF"

section \<open>Packing\<close>

definition u16 :: "int \<Rightarrow> bytes result" where
  "u16 value = (if 0 \<le> value \<and> value < 65536 then Inr (le_bytes 2 value) else Inl StructError)"

definition u32 :: "int \<Rightarrow> bytes result" where
  "u32 value = (if 0 \<le> value \<and> value < 4294967296 then Inr (le_bytes 4 value) else Inl StructError)"

datatype wire_value = WStr pystr | WBytes bytes

definition value_bytes :: "wire_value \<Rightarrow> bytes result" where
  "value_bytes v = (case v of WStr s \<Rightarrow> utf8_encode s | WBytes b \<Rightarrow> Inr b)"

definition sized_word :: "wire_value \<Rightarrow> bytes result" where
  "sized_word v = bindR (value_bytes v) (\<lambda>b. bindR (u32 (int (length b))) (\<lambda>n. Inr (n @ b)))"

definition sized_word_len :: "wire_value \<Rightarrow> int result" where
  "sized_word_len v = bindR (value_bytes v) (\<lambda>b. Inr (4 + int (length b)))"

datatype query_field_value = QStr pystr | QInt int

type_synonym query_field = "pystr \<times> query_field_value"

text \<open>The \<open>fields\<close> argument: \<open>None\<close>, a single client value, or an iterable of pairs.\<close>

datatype query_fields_arg =
    NoFields
  | ClientField query_field_value
  | FieldPairs "query_field list"

definition query_value_str :: "query_field_value \<Rightarrow> pystr" where
  "query_value_str v = (case v of QStr s \<Rightarrow> s | QInt i \<Rightarrow> str_int i)"

definition normalize_query_fields ::
    "query_fields_arg \<Rightarrow> query_field_value option \<Rightarrow> (pystr \<times> pystr) list" where
  "normalize_query_fields flds client =
     (let normalized =
        (case flds of
           NoFields \<Rightarrow> []
         | ClientField v \<Rightarrow> [(lit ''client'', query_value_str v)]
         | FieldPairs ps \<Rightarrow> map (\<lambda>(name, value). (name, query_value_str value)) ps)
      in case client of
           None \<Rightarrow> normalized
         | Some c \<Rightarrow> normalized @ [(lit ''client'', query_value_str c)])"

definition encode_pair :: "pystr \<times> pystr \<Rightarrow> bytes result" where
  "encode_pair p =
     bindR (sized_word (WStr (fst p))) (\<lambda>n. bindR (sized_word (WStr (snd p))) (\<lambda>v. Inr (n @ v)))"

definition encode_query_fields ::
    "query_fields_arg \<Rightarrow> query_field_value option \<Rightarrow> bytes result" where
  "encode_query_fields flds client =
     (let normalized = normalize_query_fields flds client
      in bindR (u32 (int (length normalized))) (\<lambda>n.
         bindR (mapR encode_pair normalized) (\<lambda>ps. Inr (n @ concat ps))))"

definition query_fields ::
    "query_fields_arg \<Rightarrow> query_field_value option \<Rightarrow> bytes result" where
  "query_fields flds client = encode_query_fields flds client"

definition pair_len :: "pystr \<times> pystr \<Rightarrow> int result" where
  "pair_len p =
     bindR (sized_word_len (WStr (fst p))) (\<lambda>n.
     bindR (sized_word_len (WStr (snd p))) (\<lambda>v. Inr (n + v)))"

definition query_fields_len ::
    "query_fields_arg \<Rightarrow> query_field_value option \<Rightarrow> int result" where
  "query_fields_len flds client =
     bindR (mapR pair_len (normalize_query_fields flds client)) (\<lambda>ns. Inr (4 + sum_list ns))"

section \<open>Host sequence numbers\<close>

definition next_host_seq :: "int \<Rightarrow> int" where
  "next_host_seq seq = ((seq + 1 - HOST_SEQ_MIN) mod HOST_SEQ_COUNT) + HOST_SEQ_MIN"

definition validate_host_seq :: "int \<Rightarrow> int result" where
  "validate_host_seq seq =
     (if \<not> (HOST_SEQ_MIN \<le> seq \<and> seq < HOST_SEQ_MAX_EXCLUSIVE)
      then Inl (InvalidHostSequence seq) else Inr seq)"

record host_sequencer =
  hs_next :: int

definition host_sequencer_init :: "int \<Rightarrow> host_sequencer result" where
  "host_sequencer_init seq_start =
     bindR (validate_host_seq seq_start) (\<lambda>s. Inr \<lparr>hs_next = s\<rparr>)"

definition take_host_seq :: "host_sequencer \<Rightarrow> int \<times> host_sequencer" where
  "take_host_seq hs =
     (let seq = hs_next hs in (seq, hs\<lparr>hs_next := next_host_seq (hs_next hs)\<rparr>))"

section \<open>Frames\<close>

definition header_bytes :: "pystr \<Rightarrow> bytes result" where
  "header_bytes header =
     (if \<not> ascii_str header then Inl UnicodeEncodeError
      else let encoded = map of_nat header
           in if length encoded \<noteq> 4 then Inl ValueError else Inr encoded)"

definition max_motu_payload_bytes :: "pystr \<Rightarrow> int result" where
  "max_motu_payload_bytes header =
     bindR (header_bytes header) (\<lambda>h.
       Inr (MAX_U16 - USB_LOGICAL_HEADER_BYTES - int (length h) - MOTU_FRAME_CONTROL_BYTES))"

definition max_post_json_body_bytes ::
    "pystr \<Rightarrow> pystr \<Rightarrow> query_field_value option \<Rightarrow> int result" where
  "max_post_json_body_bytes path header client =
     bindR (sized_word_len (WStr (lit ''POST''))) (\<lambda>l1.
     bindR (sized_word_len (WStr path)) (\<lambda>l2.
     bindR (sized_word_len (WStr (lit ''Unsecure-Auth-MOTU''))) (\<lambda>l3.
     bindR (sized_word_len (WStr (lit ''unicorn666''))) (\<lambda>l4.
     bindR (query_fields_len (case client of None \<Rightarrow> NoFields | Some c \<Rightarrow> ClientField c) None) (\<lambda>l5.
     let request_len = l1 + l2 + 4 + l3 + l4 + l5;
         fixed_payload_len =
           UTOM_REQUEST_PREFIX_BYTES + request_len + 4 + POST_BODY_PREFIX_BYTES
     in bindR (max_motu_payload_bytes header) (\<lambda>m. Inr (m - fixed_payload_len)))))))"

definition validate_post_frame_size ::
    "pystr \<Rightarrow> bytes \<Rightarrow> pystr \<Rightarrow> query_field_value option \<Rightarrow> unit result" where
  "validate_post_frame_size path json_body header client =
     (let body_len = int (length json_body)
      in bindR (max_post_json_body_bytes path header client) (\<lambda>max_body_len.
         if body_len > max_body_len then Inl (ProtocolFrameTooLarge body_len max_body_len)
         else Inr ()))"

definition build_motu_frame :: "int \<Rightarrow> pystr \<Rightarrow> int \<Rightarrow> bytes \<Rightarrow> bytes result" where
  "build_motu_frame seq header message_seq motu_payload =
     bindR (header_bytes header) (\<lambda>hb.
     bindR (max_motu_payload_bytes header) (\<lambda>max_payload_len.
     if int (length motu_payload) > max_payload_len
     then Inl (ProtocolFrameTooLarge (int (length motu_payload)) max_payload_len)
     else
       bindR (u32 (crc32 motu_payload)) (\<lambda>crc.
       bindR (u32 message_seq) (\<lambda>ms.
       bindR (u32 1) (\<lambda>one.
       bindR (u16 0) (\<lambda>zero.
       bindR (u16 (int (length motu_payload))) (\<lambda>plen.
       let body = hb @ crc @ ms @ one @ zero @ plen @ motu_payload
       in bindR (u16 (int (length body) + 4)) (\<lambda>wlen.
          Inr ([word_of_int (seq AND 0xFF), 0x80] @ wlen @ body)))))))))"

definition utom_prefix :: "bytes \<Rightarrow> bytes result" where
  "utom_prefix request =
     bindR (u32 8) (\<lambda>a. bindR (u32 1) (\<lambda>b. bindR (u32 0) (\<lambda>c.
     bindR (u32 (int (length request))) (\<lambda>n. Inr (blit ''UTOM'' @ a @ b @ c @ n @ request)))))"

definition get_request ::
    "pystr \<Rightarrow> pystr \<Rightarrow> query_field_value option \<Rightarrow> query_fields_arg \<Rightarrow> bytes result" where
  "get_request path etag client flds =
     bindR (sized_word (WStr (lit ''GET''))) (\<lambda>m.
     bindR (sized_word (WStr path)) (\<lambda>p.
     bindR (u32 1) (\<lambda>n.
     bindR (sized_word (WStr (lit ''If-None-Match''))) (\<lambda>h.
     bindR (sized_word (WStr etag)) (\<lambda>e.
     bindR (encode_query_fields flds client) (\<lambda>q. Inr (m @ p @ n @ h @ e @ q)))))))"

definition build_get_frame ::
    "int \<Rightarrow> int \<Rightarrow> pystr \<Rightarrow> pystr \<Rightarrow> pystr \<Rightarrow> query_field_value option \<Rightarrow> query_fields_arg
     \<Rightarrow> bytes result" where
  "build_get_frame seq message_seq path etag header client flds =
     bindR (get_request path etag client flds) (\<lambda>request.
     bindR (utom_prefix request) (\<lambda>motu_payload.
     build_motu_frame seq header message_seq motu_payload))"

definition post_request :: "pystr \<Rightarrow> query_field_value option \<Rightarrow> bytes result" where
  "post_request path client =
     bindR (sized_word (WStr (lit ''POST''))) (\<lambda>m.
     bindR (sized_word (WStr path)) (\<lambda>p.
     bindR (u32 1) (\<lambda>n.
     bindR (sized_word (WStr (lit ''Unsecure-Auth-MOTU''))) (\<lambda>h.
     bindR (sized_word (WStr (lit ''unicorn666''))) (\<lambda>e.
     bindR (query_fields (case client of None \<Rightarrow> NoFields | Some c \<Rightarrow> ClientField c) None) (\<lambda>q.
     Inr (m @ p @ n @ h @ e @ q)))))))"

definition build_post_frame ::
    "int \<Rightarrow> int \<Rightarrow> pystr \<Rightarrow> bytes \<Rightarrow> pystr \<Rightarrow> query_field_value option \<Rightarrow> bytes result" where
  "build_post_frame seq message_seq path json_body header client =
     bindR (post_request path client) (\<lambda>request.
     bindR (validate_post_frame_size path json_body header client) (\<lambda>_.
     bindR (sized_word (WStr (lit ''json''))) (\<lambda>j.
     bindR (sized_word (WBytes json_body)) (\<lambda>b.
     let body = j @ b
     in bindR (utom_prefix request) (\<lambda>pre.
        bindR (u32 (int (length body))) (\<lambda>n.
        build_motu_frame seq header message_seq (pre @ n @ body)))))))"

definition build_ack :: "int \<Rightarrow> bytes" where
  "build_ack seq = [word_of_int (seq AND 0xFF), 0x81, 0x04, 0x00]"

definition build_init :: "int \<Rightarrow> bytes" where
  "build_init seq = [word_of_int (seq AND 0xFF), 0x82, 0x04, 0x00]"

section \<open>Captured frames\<close>

definition EXPECTED_GET_DATASTORE :: bytes where
  "EXPECTED_GET_DATASTORE =
     [0x24, 0x80, 0x5F, 0x00, 0x4E, 0x52, 0x45, 0x4B, 0x43, 0x48, 0xD1, 0xAC, 0x02, 0x00, 0x00, 0x00,
      0x01, 0x00, 0x00, 0x00, 0x00, 0x00, 0x47, 0x00, 0x55, 0x54, 0x4F, 0x4D, 0x08, 0x00, 0x00, 0x00,
      0x01, 0x00, 0x00, 0x00, 0x00, 0x00, 0x00, 0x00, 0x33, 0x00, 0x00, 0x00, 0x03, 0x00, 0x00, 0x00,
      0x47, 0x45, 0x54, 0x0A, 0x00, 0x00, 0x00, 0x2F, 0x64, 0x61, 0x74, 0x61, 0x73, 0x74, 0x6F, 0x72,
      0x65, 0x01, 0x00, 0x00, 0x00, 0x0D, 0x00, 0x00, 0x00, 0x49, 0x66, 0x2D, 0x4E, 0x6F, 0x6E, 0x65,
      0x2D, 0x4D, 0x61, 0x74, 0x63, 0x68, 0x01, 0x00, 0x00, 0x00, 0x30, 0x00, 0x00, 0x00, 0x00]"

definition EXPECTED_POST_HOST_OS :: bytes where
  "EXPECTED_POST_HOST_OS =
     [0x23, 0x80, 0x96, 0x00, 0x50, 0x54, 0x54, 0x48, 0x73, 0x2E, 0xE0, 0x07, 0x02, 0x00, 0x00, 0x00,
      0x01, 0x00, 0x00, 0x00, 0x00, 0x00, 0x7E, 0x00, 0x55, 0x54, 0x4F, 0x4D, 0x08, 0x00, 0x00, 0x00,
      0x01, 0x00, 0x00, 0x00, 0x00, 0x00, 0x00, 0x00, 0x4A, 0x00, 0x00, 0x00, 0x04, 0x00, 0x00, 0x00,
      0x50, 0x4F, 0x53, 0x54, 0x12, 0x00, 0x00, 0x00, 0x2F, 0x64, 0x61, 0x74, 0x61, 0x73, 0x74, 0x6F,
      0x72, 0x65, 0x2F, 0x68, 0x6F, 0x73, 0x74, 0x2F, 0x6F, 0x73, 0x01, 0x00, 0x00, 0x00, 0x12, 0x00,
      0x00, 0x00, 0x55, 0x6E, 0x73, 0x65, 0x63, 0x75, 0x72, 0x65, 0x2D, 0x41, 0x75, 0x74, 0x68, 0x2D,
      0x4D, 0x4F, 0x54, 0x55, 0x0A, 0x00, 0x00, 0x00, 0x75, 0x6E, 0x69, 0x63, 0x6F, 0x72, 0x6E, 0x36,
      0x36, 0x36, 0x00, 0x00, 0x00, 0x00, 0x1C, 0x00, 0x00, 0x00, 0x04, 0x00, 0x00, 0x00, 0x6A, 0x73,
      0x6F, 0x6E, 0x10, 0x00, 0x00, 0x00, 0x7B, 0x22, 0x76, 0x61, 0x6C, 0x75, 0x65, 0x22, 0x3A, 0x20,
      0x22, 0x77, 0x69, 0x6E, 0x22, 0x7D]"

text \<open>
  \<^verbatim>\<open>cli.command_selftest\<close>: the two frames against the captures, and the CRC check value.
\<close>

definition command_selftest :: "int result" where
  "command_selftest =
     bindR (build_get_frame 0x24 2 (lit ''/datastore'') (lit ''0'') (lit ''NREK'') None NoFields) (\<lambda>got_get.
     bindR (build_post_frame 0x23 2 (lit ''/datastore/host/os'') (blit (''{'' @ [CHR 0x22] @ ''value'' @ [CHR 0x22] @ '': '' @ [CHR 0x22] @ ''win'' @ [CHR 0x22] @ ''}''))
              (lit ''PTTH'') None) (\<lambda>got_post.
     if got_get \<noteq> EXPECTED_GET_DATASTORE then Inl AssertionError
     else if got_post \<noteq> EXPECTED_POST_HOST_OS then Inl AssertionError
     else if crc32 (blit ''123456789'') \<noteq> 0xCBF43926 then Inl AssertionError
     else Inr 0))"

section \<open>CRC-32 detects every change of a single byte\<close>

lemma crc_bit_xor: "crc_bit (a XOR b) = crc_bit a XOR crc_bit b"
proof (cases "bit a 0"; cases "bit b 0")
  assume "bit a 0" "bit b 0"
  then show ?thesis
    by (simp add: crc_bit_def bit_simps xor.left_commute xor.commute xor.assoc)
qed (simp_all add: crc_bit_def bit_simps xor.left_commute xor.commute xor.assoc)

lemma crc_bit_eq_0: "crc_bit a = 0 \<longleftrightarrow> a = 0"
proof
  assume z: "crc_bit a = 0"
  have n0: "\<not> bit a 0"
  proof
    assume "bit a 0"
    with z have "drop_bit 1 a XOR 0xEDB88320 = 0" by (simp add: crc_bit_def)
    then have "bit (drop_bit 1 a XOR (0xEDB88320 :: 32 word)) 31 = bit (0 :: 32 word) 31" by (rule arg_cong)
    moreover have "\<not> bit a 32" by (simp add: bit_imp_le_length [of a 32] impossible_bit)
    ultimately show False by (simp add: bit_simps)
  qed
  show "a = 0"
  proof (rule bit_eqI)
    fix n
    from z n0 have "bit (drop_bit 1 a) m = bit (0 :: 32 word) m" for m
      by (simp add: crc_bit_def)
    with n0 show "bit a n = bit 0 n"
      by (cases n) (auto simp: bit_simps)
  qed
qed (simp add: crc_bit_def)

lemma crc_bit_inj [simp]: "crc_bit a = crc_bit b \<longleftrightarrow> a = b"
proof
  assume "crc_bit a = crc_bit b"
  then have "crc_bit (a XOR b) = 0" by (simp add: crc_bit_xor)
  then have z: "a XOR b = 0" by (simp add: crc_bit_eq_0)
  have "a = (a XOR b) XOR b" by (simp add: xor.assoc)
  with z show "a = b" by simp
qed simp

lemma xor_cancel_left: "a XOR b = a XOR c \<longleftrightarrow> b = (c :: 'a :: len word)"
  by (metis xor.left_commute xor_self_eq xor.right_neutral xor.assoc)

lemma xor_cancel_right: "b XOR a = c XOR a \<longleftrightarrow> b = (c :: 'a :: len word)"
  by (metis xor.commute xor_cancel_left)

lemma crc_byte_state_inj: "crc_byte c b = crc_byte c' b \<longleftrightarrow> c = c'"
  by (simp add: crc_byte_def xor_cancel_right)

lemma uint_byte_small: "uint (b :: byte) < 4294967296"
  using uint_byte_bounds [of b] by simp

lemma crc_byte_byte_inj: "crc_byte c b = crc_byte c b' \<longleftrightarrow> b = b'"
proof -
  have "ucast b = (ucast b' :: 32 word) \<longleftrightarrow> b = b'"
    by (simp add: word_uint_eq_iff unsigned_ucast_eq take_bit_int_eq_self uint_byte_small)
  then show ?thesis by (simp add: crc_byte_def xor_cancel_left)
qed

lemma foldl_crc_byte_inj: "foldl crc_byte c bs = foldl crc_byte c' bs \<longleftrightarrow> c = c'"
  by (induction bs arbitrary: c c') (simp_all add: crc_byte_state_inj)

lemma crc32_eq: "crc32 data = uint (zlib_crc32 data)"
proof -
  have "uint (zlib_crc32 data) AND mask 32 = uint (zlib_crc32 data)"
    using uint_bounded [of "zlib_crc32 data"] by (simp add: take_bit_eq_mask [symmetric] take_bit_int_eq_self)
  then show ?thesis by (simp add: crc32_def mask_eq_exp_minus_1)
qed

lemma crc32_bounds [simp]: "0 \<le> crc32 data" "crc32 data < 4294967296"
  using uint_bounded [of "zlib_crc32 data"] by (simp_all add: crc32_eq)

lemma zlib_crc32_eq_iff:
  "zlib_crc32 xs = zlib_crc32 ys \<longleftrightarrow> foldl crc_byte (NOT 0) xs = foldl crc_byte (NOT 0) ys"
  by (simp add: zlib_crc32_def)

lemma crc32_single_byte:
  assumes "b \<noteq> b'"
  shows "crc32 (xs @ b # ys) \<noteq> crc32 (xs @ b' # ys)"
  using assms
  by (simp add: crc32_eq zlib_crc32_eq_iff foldl_crc_byte_inj crc_byte_byte_inj
      flip: word_uint_eq_iff)

section \<open>Layout of the encoded words and frames\<close>

lemma u16_Inr_iff [result_simps]: "u16 v = Inr x \<longleftrightarrow> 0 \<le> v \<and> v < 65536 \<and> x = le_bytes 2 v"
  by (auto simp: u16_def)

lemma u32_Inr_iff [result_simps]: "u32 v = Inr x \<longleftrightarrow> 0 \<le> v \<and> v < 4294967296 \<and> x = le_bytes 4 v"
  by (auto simp: u32_def)

lemma sized_word_Inr_iff [result_simps]:
  "sized_word v = Inr x \<longleftrightarrow>
     (\<exists>b. value_bytes v = Inr b \<and> int (length b) < 4294967296 \<and> x = le_bytes 4 (int (length b)) @ b)"
  by (auto simp: sized_word_def result_simps)

lemma sized_word_len_Inr: "sized_word v = Inr x \<Longrightarrow> sized_word_len v = Inr (int (length x))"
  by (auto simp: sized_word_len_def result_simps)

text \<open>A sized word can be split off the front of a request without knowing what follows it.\<close>

lemma sized_word_prefix:
  assumes "sized_word v = Inr x" "sized_word w = Inr y" "x @ r = y @ s"
  shows "value_bytes v = value_bytes w \<and> r = s"
proof -
  from assms(1,2) obtain b c where b: "value_bytes v = Inr b" "int (length b) < 4294967296"
      "x = le_bytes 4 (int (length b)) @ b"
    and c: "value_bytes w = Inr c" "int (length c) < 4294967296"
      "y = le_bytes 4 (int (length c)) @ c"
    by (auto simp: sized_word_Inr_iff)
  from assms(3) b(3) c(3) have eq: "le_bytes 4 (int (length b)) = le_bytes 4 (int (length c))"
      "b @ r = c @ s" by (simp_all add: append_eq_append_conv)
  then have "length b = length c" using b(2) c(2) by (simp add: le32.enc_inj)
  with eq b c show ?thesis by simp
qed

lemma header_bytes_Inr_iff [result_simps]:
  "header_bytes h = Inr x \<longleftrightarrow> ascii_str h \<and> length h = 4 \<and> x = map of_nat h"
  by (auto simp: header_bytes_def Let_def)

lemma max_motu_payload_bytes_Inr_iff [result_simps]:
  "max_motu_payload_bytes h = Inr m \<longleftrightarrow> ascii_str h \<and> length h = 4 \<and> m = 65511"
  by (auto simp: max_motu_payload_bytes_def protocol_consts result_simps)

lemma build_motu_frame_Inr_iff:
  "build_motu_frame seq header message_seq payload = Inr f \<longleftrightarrow>
     ascii_str header \<and> length header = 4 \<and> length payload \<le> 65511 \<and>
     0 \<le> message_seq \<and> message_seq < 4294967296 \<and>
     f = [word_of_int (seq AND 0xFF), 0x80] @ le_bytes 2 (24 + int (length payload)) @
         map of_nat header @ le_bytes 4 (crc32 payload) @ le_bytes 4 message_seq @
         le_bytes 4 1 @ le_bytes 2 0 @ le_bytes 2 (int (length payload)) @ payload"
  by (auto simp: build_motu_frame_def result_simps Let_def add.commute)

lemma word_of_int_mask_byte: "word_of_int (seq AND 255) = (word_of_int seq :: byte)"
proof -
  have "seq AND 255 = take_bit 8 seq" by (simp add: take_bit_eq_mask mask_eq_exp_minus_1)
  then show ?thesis by (simp add: word_of_int_eq_iff)
qed

lemma build_motu_frame_layout:
  assumes "build_motu_frame seq header message_seq payload = Inr f"
  shows "length f = 24 + length payload" "length f \<le> 65535"
    "f ! 0 = word_of_int seq" "f ! 1 = 0x80"
    "le_val (pyslice f 2 4) = int (length f)"
    "pyslice f 4 8 = map of_nat header"
    "le_val (pyslice f 8 12) = crc32 payload"
    "le_val (pyslice f 12 16) = message_seq"
    "le_val (pyslice f 22 24) = int (length payload)"
    "drop 24 f = payload"
proof -
  have l: "length payload \<le> 65511" and h: "length header = 4"
    and m: "0 \<le> message_seq" "message_seq < 4294967296"
    and f: "f = [word_of_int (seq AND 0xFF), 0x80] @ le_bytes 2 (24 + int (length payload)) @
         map of_nat header @ le_bytes 4 (crc32 payload) @ le_bytes 4 message_seq @
         le_bytes 4 1 @ le_bytes 2 0 @ le_bytes 2 (int (length payload)) @ payload"
    using assms by (auto simp: build_motu_frame_Inr_iff)
  show "length f = 24 + length payload" "length f \<le> 65535" using l h f by simp_all
  show "f ! 0 = word_of_int seq" "f ! 1 = 0x80" using f by (simp_all add: word_of_int_mask_byte)
  show "drop 24 f = payload" using f h by simp
  show "le_val (pyslice f 2 4) = int (length f)"
    using l h f by (simp add: pyslice_def le16.dec_enc)
  show "pyslice f 4 8 = map of_nat header"
    using l h f by (simp add: pyslice_def)
  show "le_val (pyslice f 8 12) = crc32 payload"
    using l h f by (simp add: pyslice_def le32.dec_enc)
  show "le_val (pyslice f 12 16) = message_seq"
    using l h f m by (simp add: pyslice_def le32.dec_enc)
  show "le_val (pyslice f 22 24) = int (length payload)"
    using l h f by (simp add: pyslice_def le16.dec_enc)
qed

lemma utom_prefix_Inr_iff [result_simps]:
  "utom_prefix r = Inr x \<longleftrightarrow> int (length r) < 4294967296 \<and>
     x = blit ''UTOM'' @ le_bytes 4 8 @ le_bytes 4 1 @ le_bytes 4 0 @ le_bytes 4 (int (length r)) @ r"
  by (auto simp: utom_prefix_def result_simps)


interpretation hseq: cyclic_counter next_host_seq "0x20" "0x20"
proof unfold_locales
  fix x :: int assume "0x20 \<le> x" "x < 0x20 + 0x20"
  then show "next_host_seq x = (if x + 1 = 0x20 + 0x20 then 0x20 else x + 1)"
    by (simp add: next_host_seq_def protocol_consts)
qed simp

text \<open>The number the \<open>n\<close>-th \<open>take\<close> of a sequencer returns.\<close>

definition nth_host_seq :: "host_sequencer \<Rightarrow> nat \<Rightarrow> int" where
  "nth_host_seq hs n = fst (take_host_seq (((\<lambda>h. snd (take_host_seq h)) ^^ n) hs))"

lemma nth_host_seq_iter: "nth_host_seq hs n = (next_host_seq ^^ n) (hs_next hs)"
proof -
  have "hs_next (((\<lambda>h. snd (take_host_seq h)) ^^ n) hs) = (next_host_seq ^^ n) (hs_next hs)"
    by (induction n) (simp_all add: take_host_seq_def Let_def)
  then show ?thesis by (simp add: nth_host_seq_def take_host_seq_def Let_def)
qed

text \<open>The host sequence counter, once \<open>HostSequencer\<close> accepted its start value, starts there,
  stays in \<open>0x20 .. 0x3f\<close>, does not hand out a number twice within 32 consecutive calls of
  \<open>take\<close>, and repeats with period 32.\<close>

theorem host_seq_window:
  assumes "host_sequencer_init seq_start = Inr hs"
  shows "nth_host_seq hs 0 = seq_start \<and>
    HOST_SEQ_MIN \<le> nth_host_seq hs i \<and> nth_host_seq hs i < HOST_SEQ_MAX_EXCLUSIVE \<and>
    (i < j \<longrightarrow> j < i + 32 \<longrightarrow> nth_host_seq hs i \<noteq> nth_host_seq hs j) \<and>
    nth_host_seq hs (i + 32) = nth_host_seq hs i"
proof -
  have c: "hseq.in_cycle (hs_next hs)" and s: "hs_next hs = seq_start"
    using assms by (auto simp: host_sequencer_init_def validate_host_seq_def result_simps
        hseq.in_cycle_def protocol_consts split: if_splits)
  show ?thesis
    using hseq.iter_in_cycle [OF c, of i] hseq.iter_distinct [OF c, of i j] hseq.iter_period [OF c, of i] s
    by (simp add: nth_host_seq_iter hseq.in_cycle_def protocol_consts)
qed

theorem host_seq_window_witness:
  "host_sequencer_init 0x24 = Inr \<lparr>hs_next = 0x24\<rparr> \<and> nth_host_seq \<lparr>hs_next = 0x24\<rparr> 0 = 0x24 \<and>
   nth_host_seq \<lparr>hs_next = 0x24\<rparr> 3 \<noteq> nth_host_seq \<lparr>hs_next = 0x24\<rparr> 34"
proof -
  have h: "host_sequencer_init 0x24 = Inr \<lparr>hs_next = 0x24\<rparr>"
    by (simp add: host_sequencer_init_def validate_host_seq_def protocol_consts)
  show ?thesis using h host_seq_window [OF h, of 3 34] by simp
qed

section \<open>Query fields\<close>

lemma sized_str_prefix:
  assumes "sized_word (WStr s) = Inr x" "sized_word (WStr t) = Inr y" "x @ r = y @ u"
  shows "s = t \<and> r = u"
proof -
  have "utf8_encode s = utf8_encode t" "r = u"
    using sized_word_prefix [OF assms] by (simp_all add: value_bytes_def)
  moreover obtain b where "utf8_encode s = Inr b"
    using assms(1) by (auto simp: sized_word_Inr_iff value_bytes_def)
  ultimately show ?thesis by (metis utf8_encode_inj)
qed

lemma encode_pair_prefix:
  assumes "encode_pair p = Inr x" "encode_pair q = Inr y" "x @ r = y @ s"
  shows "p = q \<and> r = s"
proof -
  obtain n v where p: "p = (n, v)" by (cases p)
  obtain n' v' where q: "q = (n', v')" by (cases q)
  from assms(1) p obtain a b where x: "sized_word (WStr n) = Inr a" "sized_word (WStr v) = Inr b" "x = a @ b"
    by (auto simp: encode_pair_def bindR_Inr_iff)
  from assms(2) q obtain c d where y: "sized_word (WStr n') = Inr c" "sized_word (WStr v') = Inr d" "y = c @ d"
    by (auto simp: encode_pair_def bindR_Inr_iff)
  have 1: "n = n' \<and> b @ r = d @ s"
    by (rule sized_str_prefix [OF x(1) y(1)]) (use x y assms in simp)
  then have "v = v' \<and> r = s"
    by (intro sized_str_prefix [OF x(2) y(2)]) simp
  with 1 p q show ?thesis by simp
qed

lemma encode_pairs_inj:
  "mapR encode_pair ps = Inr xs \<Longrightarrow> mapR encode_pair qs = Inr ys \<Longrightarrow> length ps = length qs \<Longrightarrow>
   concat xs @ r = concat ys @ s \<Longrightarrow> ps = qs \<and> r = s"
proof (induction ps arbitrary: qs xs ys)
  case (Cons p ps)
  from Cons.prems(3) obtain q qs' where qs: "qs = q # qs'" by (cases qs) auto
  from Cons.prems(1) obtain a xs' where a: "encode_pair p = Inr a" "mapR encode_pair ps = Inr xs'" "xs = a # xs'"
    by (auto simp: bindR_Inr_iff)
  from Cons.prems(2) qs obtain b ys' where b: "encode_pair q = Inr b" "mapR encode_pair qs' = Inr ys'" "ys = b # ys'"
    by (auto simp: bindR_Inr_iff)
  have "p = q \<and> concat xs' @ r = concat ys' @ s"
    by (rule encode_pair_prefix [OF a(1) b(1)]) (use a b Cons.prems in simp)
  with Cons.IH [OF a(2) b(2)] Cons.prems(3) qs show ?case by simp
qed simp

lemma encode_query_fields_inj:
  assumes "encode_query_fields f c = Inr x" "encode_query_fields g d = Inr x"
  shows "normalize_query_fields f c = normalize_query_fields g d"
proof -
  let ?ps = "normalize_query_fields f c" and ?qs = "normalize_query_fields g d"
  from assms(1) obtain xs where x: "int (length ?ps) < 4294967296" "mapR encode_pair ?ps = Inr xs"
      "x = le_bytes 4 (int (length ?ps)) @ concat xs"
    by (auto simp: encode_query_fields_def Let_def result_simps)
  from assms(2) obtain ys where y: "int (length ?qs) < 4294967296" "mapR encode_pair ?qs = Inr ys"
      "x = le_bytes 4 (int (length ?qs)) @ concat ys"
    by (auto simp: encode_query_fields_def Let_def result_simps)
  from x(3) y(3) have e: "le_bytes 4 (int (length ?ps)) = le_bytes 4 (int (length ?qs))" "concat xs = concat ys"
    by (simp_all add: append_eq_append_conv)
  then have "length ?ps = length ?qs" using x(1) y(1) by (simp add: le32.enc_inj)
  with encode_pairs_inj [OF x(2) y(2), of "[]" "[]"] e(2) show ?thesis by simp
qed

lemma get_request_inj:
  assumes "get_request p e c f = Inr r" "get_request p' e' c' f' = Inr r"
  shows "p = p' \<and> e = e' \<and> normalize_query_fields f c = normalize_query_fields f' c'"
proof -
  from assms(1) obtain a1 a2 a3 a4 a5 where a: "sized_word (WStr p) = Inr a2" "sized_word (WStr e) = Inr a4"
      "sized_word (WStr (lit ''GET'')) = Inr a1" "sized_word (WStr (lit ''If-None-Match'')) = Inr a3"
      "encode_query_fields f c = Inr a5" "r = a1 @ a2 @ le_bytes 4 1 @ a3 @ a4 @ a5"
    by (auto simp: get_request_def bindR_Inr_iff u32_Inr_iff)
  from assms(2) obtain b2 b4 b5 where b: "sized_word (WStr p') = Inr b2" "sized_word (WStr e') = Inr b4"
      "encode_query_fields f' c' = Inr b5" "r = a1 @ b2 @ le_bytes 4 1 @ a3 @ b4 @ b5"
    using a(3,4) by (auto simp: get_request_def bindR_Inr_iff u32_Inr_iff)
  have 1: "p = p' \<and> le_bytes 4 1 @ a3 @ a4 @ a5 = le_bytes 4 1 @ a3 @ b4 @ b5"
    by (rule sized_str_prefix [OF a(1) b(1)]) (use a(6) b(4) in simp)
  then have 2: "e = e' \<and> a5 = b5"
    by (intro sized_str_prefix [OF a(2) b(2)]) simp
  with 1 encode_query_fields_inj [OF a(5)] b(3) show ?thesis by simp
qed

lemma utom_prefix_drop: "utom_prefix r = Inr p \<Longrightarrow> drop 20 p = r"
  by (simp add: utom_prefix_Inr_iff)

text \<open>C18: A GET frame determines what it asks for: two calls of \<open>build_get_frame\<close> that produce the
  same bytes have the same message sequence, path, ETag and normalized query fields, so no two
  different requests collide on the wire.\<close>

theorem build_get_frame_inj:
  assumes "build_get_frame seq ms path etag header client flds = Inr f"
    and "build_get_frame seq' ms' path' etag' header' client' flds' = Inr f"
  shows "ms = ms' \<and> path = path' \<and> etag = etag' \<and>
    normalize_query_fields flds client = normalize_query_fields flds' client'"
proof -
  from assms(1) obtain r p where r: "get_request path etag client flds = Inr r" "utom_prefix r = Inr p"
      "build_motu_frame seq header ms p = Inr f"
    by (auto simp: build_get_frame_def bindR_Inr_iff)
  from assms(2) obtain r' p' where r': "get_request path' etag' client' flds' = Inr r'" "utom_prefix r' = Inr p'"
      "build_motu_frame seq' header' ms' p' = Inr f"
    by (auto simp: build_get_frame_def bindR_Inr_iff)
  have "p = p'" using build_motu_frame_layout(10) [OF r(3)] build_motu_frame_layout(10) [OF r'(3)] by simp
  moreover have "ms = ms'"
    using build_motu_frame_layout(8) [OF r(3)] build_motu_frame_layout(8) [OF r'(3)] by simp
  moreover have "r = r'" using utom_prefix_drop [OF r(2)] utom_prefix_drop [OF r'(2)] \<open>p = p'\<close> by simp
  ultimately show ?thesis using get_request_inj [OF r(1)] r'(1) by simp
qed

section \<open>The size check of a POST\<close>

lemma encode_pair_len: "encode_pair p = Inr x \<Longrightarrow> pair_len p = Inr (int (length x))"
  by (auto simp: encode_pair_def pair_len_def bindR_Inr_iff dest!: sized_word_len_Inr)

lemma encode_pairs_len:
  "mapR encode_pair ps = Inr xs \<Longrightarrow> mapR pair_len ps = Inr (map (\<lambda>x. int (length x)) xs)"
  by (induction ps arbitrary: xs) (auto simp: bindR_Inr_iff dest!: encode_pair_len)

lemma encode_query_fields_len:
  "encode_query_fields f c = Inr x \<Longrightarrow> query_fields_len f c = Inr (int (length x))"
  by (auto simp: encode_query_fields_def query_fields_len_def Let_def bindR_Inr_iff u32_Inr_iff
      length_concat comp_def dest!: encode_pairs_len simp flip: sum_list_of_nat)

text \<open>The body sizes the check admits, in closed form: what is left of one frame.\<close>

lemma max_post_json_body_bytes_eq:
  assumes "post_request path client = Inr r" "header_bytes header = Inr hb"
  shows "max_post_json_body_bytes path header client = Inr (65511 - (36 + int (length r)))"
proof -
  from assms(1) obtain m p h e q where
      "sized_word (WStr (lit ''POST'')) = Inr m" "sized_word (WStr path) = Inr p"
      "sized_word (WStr (lit ''Unsecure-Auth-MOTU'')) = Inr h"
      "sized_word (WStr (lit ''unicorn666'')) = Inr e"
      "encode_query_fields (case client of None \<Rightarrow> NoFields | Some c \<Rightarrow> ClientField c) None = Inr q"
      "r = m @ p @ le_bytes 4 1 @ h @ e @ q"
    by (auto simp: post_request_def query_fields_def bindR_Inr_iff u32_Inr_iff)
  moreover have "max_motu_payload_bytes header = Inr 65511"
    using assms(2) by (auto simp: result_simps)
  ultimately show ?thesis
    by (simp add: max_post_json_body_bytes_def sized_word_len_Inr encode_query_fields_len protocol_consts)
qed

text \<open>C17: The pre-flight size check of a write is exact. For an encodable path and client, with
  \<open>m = max_post_json_body_bytes(path)\<close>: a body of at most \<open>m\<close> bytes is framed, and the frame is
  exactly \<open>m - len(body)\<close> bytes short of the 65535 a \<open>u16\<close> length can express; a longer body raises
  \<open>ProtocolFrameTooLarge\<close> with both sizes.\<close>

theorem post_size_check_exact:
  assumes "post_request path client = Inr request" "header_bytes header = Inr hb"
    and "0 \<le> message_seq" "message_seq < 4294967296"
  shows "\<exists>m. max_post_json_body_bytes path header client = Inr m \<and>
    (if int (length json_body) \<le> m
     then \<exists>f. build_post_frame seq message_seq path json_body header client = Inr f \<and>
              int (length f) = 65535 - (m - int (length json_body))
     else build_post_frame seq message_seq path json_body header client =
            Inl (ProtocolFrameTooLarge (int (length json_body)) m))"
proof -
  let ?m = "65511 - (36 + int (length request))"
  have m: "max_post_json_body_bytes path header client = Inr ?m"
    by (rule max_post_json_body_bytes_eq [OF assms(1,2)])
  have h: "ascii_str header" "length header = 4" using assms(2) by (auto simp: result_simps)
  have j: "sized_word (WStr (lit ''json'')) = Inr (le_bytes 4 4 @ map of_nat (lit ''json''))"
    by (simp add: sized_word_Inr_iff value_bytes_def utf8_encode_ascii ascii_str_def)
  have "build_post_frame seq message_seq path json_body header client =
      Inl (ProtocolFrameTooLarge (int (length json_body)) ?m)" if "\<not> int (length json_body) \<le> ?m"
    using that assms(1) m by (simp add: build_post_frame_def validate_post_frame_size_def Let_def)
  moreover have "\<exists>f. build_post_frame seq message_seq path json_body header client = Inr f \<and>
              int (length f) = 65535 - (?m - int (length json_body))" if le: "int (length json_body) \<le> ?m"
  proof -
    let ?body = "le_bytes 4 4 @ map of_nat (lit ''json'') @ le_bytes 4 (int (length json_body)) @ json_body"
    let ?pre = "blit ''UTOM'' @ le_bytes 4 8 @ le_bytes 4 1 @ le_bytes 4 0 @
      le_bytes 4 (int (length request)) @ request"
    let ?payload = "?pre @ le_bytes 4 (12 + int (length json_body)) @ ?body"
    have v: "validate_post_frame_size path json_body header client = Inr ()"
      using le m by (simp add: validate_post_frame_size_def Let_def)
    have b: "sized_word (WBytes json_body) = Inr (le_bytes 4 (int (length json_body)) @ json_body)"
      using le by (simp add: sized_word_Inr_iff value_bytes_def)
    have u: "utom_prefix request = Inr ?pre" using le by (simp add: utom_prefix_Inr_iff)
    have n: "u32 (12 + int (length json_body)) = Inr (le_bytes 4 (12 + int (length json_body)))"
      using le by (simp add: u32_def)
    have "length ?payload \<le> 65511" using le by simp
    then obtain f where f: "build_motu_frame seq header message_seq ?payload = Inr f"
      using h assms(3,4) by (simp add: build_motu_frame_Inr_iff)
    have "build_post_frame seq message_seq path json_body header client = Inr f"
      using f by (simp add: build_post_frame_def assms(1) v j b u n Let_def del: lit_simps)
    moreover have "int (length f) = 65535 - (?m - int (length json_body))"
      using build_motu_frame_layout(1) [OF f] by simp
    ultimately show ?thesis by blast
  qed
  ultimately show ?thesis using m by auto
qed
section \<open>The captured frames\<close>

lemmas crc_eval = crc32_def zlib_crc32_def crc_byte_def crc_bit_def

lemmas frame_eval =
  build_get_frame_def build_post_frame_def get_request_def post_request_def build_motu_frame_def
  utom_prefix_def sized_word_def sized_word_len_def value_bytes_def u16_def u32_def header_bytes_def
  encode_query_fields_def query_fields_def query_fields_len_def normalize_query_fields_def
  max_motu_payload_bytes_def max_post_json_body_bytes_def validate_post_frame_size_def
  utf8_encode_def utf8_char_def ascii_str_def protocol_consts

lemma crc_nine: "crc32 (blit ''123456789'') = 0xCBF43926"
  by (simp add: crc_eval)


lemma le_bytes_eval:
  "le_bytes 2 v = [word_of_int v, word_of_int (v div 256)]"
  "le_bytes 4 v = [word_of_int v, word_of_int (v div 256), word_of_int (v div 65536), word_of_int (v div 16777216)]"
  by (simp_all add: eval_nat_numeral flip: zdiv_zmult2_eq)

lemma get_capture:
  "build_get_frame 0x24 2 (lit ''/datastore'') (lit ''0'') (lit ''NREK'') None NoFields = Inr EXPECTED_GET_DATASTORE"
  by (simp add: frame_eval Let_def le_bytes_eval crc_eval EXPECTED_GET_DATASTORE_def)
lemma get_capture_pairs:
  "build_get_frame 0x24 2 (lit ''/datastore'') (lit ''0'') (lit ''NREK'') None (FieldPairs []) =
     Inr EXPECTED_GET_DATASTORE"
  using get_capture
  by (simp add: build_get_frame_def get_request_def encode_query_fields_def normalize_query_fields_def)

lemma post_capture:
  "build_post_frame 0x23 2 (lit ''/datastore/host/os'')
     (blit (''{'' @ [CHR 0x22] @ ''value'' @ [CHR 0x22] @ '': '' @ [CHR 0x22] @ ''win'' @ [CHR 0x22] @ ''}''))
     (lit ''PTTH'') None = Inr EXPECTED_POST_HOST_OS"
  by (simp add: frame_eval Let_def le_bytes_eval crc_eval EXPECTED_POST_HOST_OS_def)

text \<open>The self-test of the command line passes: the GET and POST frames equal the captured
  frames byte for byte, and CRC-32 of \<open>123456789\<close> is \<open>0xCBF43926\<close>.\<close>

theorem selftest_passes: "command_selftest = Inr 0"
  unfolding command_selftest_def get_capture post_capture crc_nine by simp

theorem build_get_frame_inj_witness:
  "build_get_frame 0x24 2 (lit ''/datastore'') (lit ''0'') (lit ''NREK'') None NoFields = Inr EXPECTED_GET_DATASTORE \<and>
   build_get_frame 0x24 2 (lit ''/datastore'') (lit ''0'') (lit ''NREK'') None (FieldPairs []) = Inr EXPECTED_GET_DATASTORE \<and>
   normalize_query_fields NoFields None = normalize_query_fields (FieldPairs []) None"
  using get_capture get_capture_pairs build_get_frame_inj [OF get_capture get_capture_pairs] by simp

theorem post_size_check_exact_witness:
  "\<exists>m f. max_post_json_body_bytes (lit ''/a'') (lit ''NREK'') None = Inr m \<and>
     build_post_frame 0x20 2 (lit ''/a'') (blit ''{}'') (lit ''NREK'') None = Inr f \<and>
     int (length f) = 65535 - (m - 2)"
proof -
  have r: "\<exists>r. post_request (lit ''/a'') None = Inr r \<and> length r = 58"
    by (simp add: frame_eval Let_def)
  then obtain r where r: "post_request (lit ''/a'') None = Inr r" "length r = 58" by blast
  have h: "header_bytes (lit ''NREK'') = Inr (map of_nat (lit ''NREK''))"
    by (simp add: header_bytes_def ascii_str_def)
  have m: "max_post_json_body_bytes (lit ''/a'') (lit ''NREK'') None = Inr 65417"
    using max_post_json_body_bytes_eq [OF r(1) h] r(2) by simp
  from post_size_check_exact [OF r(1) h, of 2 "blit ''{}''" "0x20"] m show ?thesis by auto
qed

end
