(* ===== verification/Motu_Text.thy ===== *)
theory Motu_Text
  imports Motu_Prelude
begin

text \<open>
  The operations of Python's \<open>str\<close> and \<open>bytes\<close> that the proxy uses, on lists of code points (or
  bytes): whitespace and \<open>strip\<close>, \<open>lower\<close>, \<open>split\<close>, \<open>partition\<close>, \<open>find\<close>, \<open>replace\<close>, \<open>isdecimal\<close> and
  \<open>int\<close> of a string. The tables of whitespace and decimal digits are those of Unicode.
\<close>

section \<open>Character classes\<close>

definition py_space :: "nat \<Rightarrow> bool" where
  "py_space c \<longleftrightarrow> 9 \<le> c \<and> c \<le> 13 \<or> 28 \<le> c \<and> c \<le> 32 \<or> c = 133 \<or> c = 160 \<or> c = 5760 \<or>
     8192 \<le> c \<and> c \<le> 8202 \<or> c = 8232 \<or> c = 8233 \<or> c = 8239 \<or> c = 8287 \<or> c = 12288"

text \<open>The code points of the zeros of the decimal digit blocks; a block is ten consecutive digits.\<close>

definition decimal_zeros :: "nat list" where
  "decimal_zeros =
     [48, 1632, 1776, 1984, 2406, 2534, 2662, 2790, 2918, 3046, 3174, 3302, 3430, 3558, 3664, 3792,
      3872, 4160, 4240, 6112, 6160, 6470, 6608, 6784, 6800, 6992, 7088, 7232, 7248, 42528, 43216,
      43264, 43472, 43504, 43600, 44016, 65296, 66720, 68912, 69734, 69872, 69942, 70096, 70384,
      70736, 70864, 71248, 71360, 71472, 71904, 72016, 72784, 73040, 73120, 92768, 92864, 93008,
      120782, 120792, 120802, 120812, 120822, 123200, 123632, 125264, 130032]"

definition decimal_digit :: "nat \<Rightarrow> nat option" where
  "decimal_digit c =
     (case filter (\<lambda>z. z \<le> c \<and> c < z + 10) decimal_zeros of [] \<Rightarrow> None | z # _ \<Rightarrow> Some (c - z))"

definition py_isdecimal :: "pystr \<Rightarrow> bool" where
  "py_isdecimal s \<longleftrightarrow> s \<noteq> [] \<and> list_all (\<lambda>c. decimal_digit c \<noteq> None) s"

text \<open>
  \<open>lower\<close> on the code points below 256, the only ones the program lower-cases (header and status
  text is ASCII or ISO-8859-1).
\<close>

definition lower_char :: "nat \<Rightarrow> nat" where
  "lower_char c =
     (if 65 \<le> c \<and> c \<le> 90 \<or> 192 \<le> c \<and> c \<le> 222 \<and> c \<noteq> 215 then c + 32 else c)"

definition py_lower :: "pystr \<Rightarrow> pystr" where
  "py_lower s = map lower_char s"

section \<open>Strip, split, partition, find\<close>

definition strip_by :: "('a \<Rightarrow> bool) \<Rightarrow> 'a list \<Rightarrow> 'a list" where
  "strip_by p s = dropWhile p (rev (dropWhile p (rev s)))"

definition py_strip :: "pystr \<Rightarrow> pystr" where
  "py_strip s = strip_by py_space s"

definition py_rstrip_char :: "'a \<Rightarrow> 'a list \<Rightarrow> 'a list" where
  "py_rstrip_char c s = rev (dropWhile (\<lambda>x. x = c) (rev s))"

fun split_on :: "'a \<Rightarrow> 'a list \<Rightarrow> 'a list list" where
  "split_on sep [] = [[]]"
| "split_on sep (x # xs) =
     (if x = sep then [] # split_on sep xs
      else case split_on sep xs of [] \<Rightarrow> [[x]] | w # ws \<Rightarrow> (x # w) # ws)"

text \<open>\<open>s.partition(sep)\<close>: the text before the separator, whether it was found, the text after.\<close>

fun partition_at :: "'a \<Rightarrow> 'a list \<Rightarrow> 'a list \<times> bool \<times> 'a list" where
  "partition_at sep [] = ([], False, [])"
| "partition_at sep (x # xs) =
     (if x = sep then ([], True, xs)
      else case partition_at sep xs of (a, found, b) \<Rightarrow> (x # a, found, b))"

text \<open>\<open>s.find(sub)\<close>: the first index, \<open>None\<close> for \<open>-1\<close>.\<close>

fun find_sub :: "'a list \<Rightarrow> 'a list \<Rightarrow> nat option" where
  "find_sub sub [] = (if sub = [] then Some 0 else None)"
| "find_sub sub (x # xs) =
     (if prefix sub (x # xs) then Some 0 else map_option Suc (find_sub sub xs))"

text \<open>\<open>s.split(None, n)\<close>: at most \<open>n\<close> splits on runs of whitespace, leading whitespace dropped.\<close>

fun split_ws :: "nat \<Rightarrow> pystr \<Rightarrow> pystr list" where
  "split_ws n s =
     (let t = dropWhile py_space s in
      if t = [] then []
      else case n of
             0 \<Rightarrow> [rev (dropWhile py_space (rev t))]
           | Suc m \<Rightarrow> takeWhile (\<lambda>c. \<not> py_space c) t # split_ws m (dropWhile (\<lambda>c. \<not> py_space c) t))"

declare split_ws.simps [simp del]

text \<open>\<open>s.replace("\r\n", "\n").replace("\r", "\n")\<close>\<close>

fun replace_crlf :: "pystr \<Rightarrow> pystr" where
  "replace_crlf [] = []"
| "replace_crlf [c] = [c]"
| "replace_crlf (c # d # cs) =
     (if c = 13 \<and> d = 10 then 10 # replace_crlf cs else c # replace_crlf (d # cs))"

definition replace_cr :: "pystr \<Rightarrow> pystr" where
  "replace_cr s = map (\<lambda>c. if c = 13 then 10 else c) s"

section \<open>\<open>int(s, 10)\<close>\<close>

text \<open>
  Surrounding whitespace (not the separators 28 to 31), one optional sign, decimal digits with
  single underscores between them; anything else raises \<open>ValueError\<close>, here \<open>None\<close>.
\<close>

definition int_space :: "nat \<Rightarrow> bool" where
  "int_space c \<longleftrightarrow> py_space c \<and> \<not> (28 \<le> c \<and> c \<le> 31)"

text \<open>The flag says whether the character before was a digit.\<close>

fun int_digits :: "bool \<Rightarrow> nat \<Rightarrow> pystr \<Rightarrow> nat option" where
  "int_digits prev acc [] = (if prev then Some acc else None)"
| "int_digits prev acc (c # cs) =
     (if c = 95 then (if prev \<and> cs \<noteq> [] then int_digits False acc cs else None)
      else case decimal_digit c of
             None \<Rightarrow> None
           | Some d \<Rightarrow> int_digits True (10 * acc + d) cs)"

definition int_text :: "pystr \<Rightarrow> int option" where
  "int_text s =
     (case strip_by int_space s of
        [] \<Rightarrow> None
      | c # cs \<Rightarrow>
          if c = 45 then map_option (\<lambda>n. - int n) (int_digits False 0 cs)
          else if c = 43 then map_option int (int_digits False 0 cs)
          else map_option int (int_digits False 0 (c # cs)))"

text \<open>More than 4300 digits raise \<open>ValueError\<close> too (the interpreter's default limit).\<close>

definition MAX_STR_DIGITS :: nat where "MAX_STR_DIGITS = 4300"

definition py_int :: "pystr \<Rightarrow> int option" where
  "py_int s =
     (if MAX_STR_DIGITS < length (filter (\<lambda>c. decimal_digit c \<noteq> None) s) then None else int_text s)"

section \<open>\<open>bytes.hex()\<close>\<close>

definition hex_lower :: "nat \<Rightarrow> nat" where
  "hex_lower d = (if d < 10 then 48 + d else 87 + d)"

definition bytes_hex :: "bytes \<Rightarrow> pystr" where
  "bytes_hex b = concat (map (\<lambda>x. [hex_lower (unat x div 16), hex_lower (unat x mod 16)]) b)"

section \<open>Facts\<close>

lemma split_on_nonempty [simp]: "split_on sep s \<noteq> []"
  by (induction s) (auto split: list.splits)

lemma split_on_no_sep: "sep \<notin> set s \<Longrightarrow> split_on sep s = [s]"
  by (induction s) auto

lemma split_on_append_sep: "sep \<notin> set s \<Longrightarrow> split_on sep (s @ sep # t) = s # split_on sep t"
  by (induction s) auto

lemma split_on_elems: "w \<in> set (split_on sep s) \<Longrightarrow> sep \<notin> set w"
  by (induction s arbitrary: w) (auto split: list.splits if_splits)

lemma partition_at_found: "sep \<notin> set s \<Longrightarrow> partition_at sep (s @ sep # t) = (s, True, t)"
  by (induction s) auto

lemma partition_at_absent: "sep \<notin> set s \<Longrightarrow> partition_at sep s = (s, False, [])"
  by (induction s) auto

lemma find_sub_Some:
  "find_sub sub s = Some i \<Longrightarrow> prefix sub (drop i s) \<and> (\<forall>j<i. \<not> prefix sub (drop j s))"
proof (induction s arbitrary: i)
  case (Cons x xs)
  show ?case
  proof (cases "prefix sub (x # xs)")
    case True
    with Cons.prems show ?thesis by simp
  next
    case False
    with Cons.prems obtain k where k: "find_sub sub xs = Some k" "i = Suc k" by auto
    show ?thesis
    proof (intro conjI allI impI)
      show "prefix sub (drop i (x # xs))" using Cons.IH [OF k(1)] k(2) by simp
      fix j assume "j < i"
      then show "\<not> prefix sub (drop j (x # xs))"
        using Cons.IH [OF k(1)] k(2) False by (cases j) auto
    qed
  qed
qed (simp split: if_splits)

lemma find_sub_None: "find_sub sub s = None \<Longrightarrow> \<not> prefix sub (drop j s)"
proof (induction s arbitrary: j)
  case (Cons x xs)
  then show ?case by (cases j) (auto split: if_splits)
qed (simp split: if_splits)

lemma find_sub_eqI:
  assumes "prefix sub (drop i s)" "\<And>j. j < i \<Longrightarrow> \<not> prefix sub (drop j s)"
  shows "find_sub sub s = Some i"
proof (cases "find_sub sub s")
  case None
  with assms(1) show ?thesis using find_sub_None by blast
next
  case (Some k)
  then have "prefix sub (drop k s)" "\<forall>j<k. \<not> prefix sub (drop j s)" by (auto dest: find_sub_Some)
  with assms have "\<not> k < i" "\<not> i < k" by auto
  with Some show ?thesis by simp
qed

lemma dropWhile_hd: "s = [] \<or> \<not> p (hd s) \<Longrightarrow> dropWhile p s = s"
  by (cases s) auto

lemma strip_by_id: "s = [] \<or> \<not> p (hd s) \<and> \<not> p (last s) \<Longrightarrow> strip_by p s = s"
  unfolding strip_by_def by (subst dropWhile_hd [of "rev s"]) (auto simp: hd_rev dropWhile_hd)

lemma strip_by_hd: "strip_by p s \<noteq> [] \<Longrightarrow> \<not> p (hd (strip_by p s))"
  by (metis strip_by_def hd_dropWhile)

lemma strip_by_last: "strip_by p s \<noteq> [] \<Longrightarrow> \<not> p (last (strip_by p s))"
proof -
  let ?t = "rev (dropWhile p (rev s))"
  assume ne: "strip_by p s \<noteq> []"
  have "suffix (strip_by p s) ?t" unfolding strip_by_def by (simp add: suffix_dropWhile)
  with ne have l: "last (strip_by p s) = last ?t" by (metis suffix_def last_appendR)
  have "?t \<noteq> []" using ne by (metis strip_by_def dropWhile.simps(1))
  then have "dropWhile p (rev s) \<noteq> []" by simp
  then have "\<not> p (hd (dropWhile p (rev s)))" by (rule hd_dropWhile)
  then show ?thesis using l \<open>?t \<noteq> []\<close> by (simp add: last_rev)
qed

lemma strip_by_idem: "strip_by p (strip_by p s) = strip_by p s"
  by (rule strip_by_id) (metis strip_by_hd strip_by_last)

lemma length_strip_by: "length (strip_by p s) \<le> length s"
  unfolding strip_by_def
  by (metis length_dropWhile_le length_rev le_trans)

lemma decimal_digit_ascii: "48 \<le> c \<Longrightarrow> c \<le> 57 \<Longrightarrow> decimal_digit c = Some (c - 48)"
  by (simp add: decimal_digit_def decimal_zeros_def)

lemma decimal_digit_lt: "decimal_digit c = Some d \<Longrightarrow> d < 10"
proof -
  assume a: "decimal_digit c = Some d"
  then obtain z zs where z: "filter (\<lambda>z. z \<le> c \<and> c < z + 10) decimal_zeros = z # zs" "d = c - z"
    by (auto simp: decimal_digit_def split: list.splits)
  then have "z \<in> set (filter (\<lambda>z. z \<le> c \<and> c < z + 10) decimal_zeros)" by simp
  with z(2) show ?thesis by auto
qed

lemma int_digits_digits:
  "(\<And>c. c \<in> set s \<Longrightarrow> 48 \<le> c \<and> c \<le> 57) \<Longrightarrow> prev \<or> s \<noteq> [] \<Longrightarrow> int_digits prev acc s = Some (digits_val acc s)"
proof (induction s arbitrary: prev acc)
  case (Cons c cs)
  then have "48 \<le> c \<and> c \<le> 57" by simp
  moreover have "int_digits True (10 * acc + (c - 48)) cs = Some (digits_val (10 * acc + (c - 48)) cs)"
    by (rule Cons.IH) (use Cons.prems in auto)
  ultimately show ?case by (simp add: decimal_digit_ascii)
qed simp

lemma int_text_str_int: "int_text (str_int i) = Some i"
proof -
  have no_ws: "\<not> int_space c" if "48 \<le> c \<and> c \<le> 57 \<or> c = 45" for c
    using that by (auto simp: int_space_def py_space_def)
  have sp: "strip_by int_space (str_int i) = str_int i"
  proof (rule strip_by_id, intro disjI2 conjI)
    have ne: "str_int i \<noteq> []" by (simp add: str_int_def)
    have "\<forall>c\<in>set (str_int i). 48 \<le> c \<and> c \<le> 57 \<or> c = 45"
      using digits_nat_range by (auto simp: str_int_def)
    then show "\<not> int_space (hd (str_int i))" "\<not> int_space (last (str_int i))"
      using no_ws ne by (meson hd_in_set last_in_set)+
  qed
  have d: "int_digits False 0 (digits_nat n) = Some n" for n
    using int_digits_digits [of "digits_nat n" False 0] digits_nat_range digits_val_digits_nat by simp
  show ?thesis
  proof (cases "i < 0")
    case True
    then have "strip_by int_space (str_int i) = 45 # digits_nat (nat (- i))" using sp by (simp add: str_int_def)
    with True show ?thesis by (simp add: int_text_def d)
  next
    case False
    then have e: "str_int i = digits_nat (nat i)" by (simp add: str_int_def)
    obtain c cs where c: "digits_nat (nat i) = c # cs" by (cases "digits_nat (nat i)") auto
    then have "48 \<le> c \<and> c \<le> 57" using digits_nat_range [of c "nat i"] by simp
    with False sp e c d [of "nat i"] show ?thesis by (simp add: int_text_def)
  qed
qed

lemma py_int_str_int:
  assumes "length (str_int i) \<le> MAX_STR_DIGITS"
  shows "py_int (str_int i) = Some i"
proof -
  have "length (filter (\<lambda>c. decimal_digit c \<noteq> None) (str_int i)) \<le> MAX_STR_DIGITS"
    using assms length_filter_le order_trans by blast
  then show ?thesis by (simp add: py_int_def int_text_str_int)
qed

end
