(* ===== verification/Motu_Parser.thy ===== *)
theory Motu_Parser
  imports Motu_Protocol Motu_Text
begin

text \<open>
  Response parsing (\<^verbatim>\<open>motu_proxy/parser.py\<close>): the strict validation of a response frame, the
  reassembly of segments, the MOTU (\<open>UTOM\<close>) and text HTTP response envelopes, and the
  classification of a response body as JSON.
\<close>

unbundle bit_operations_syntax

section \<open>Response frames\<close>

record response_frame =
  rf_header :: bytes
  rf_wrapper_seq :: int
  rf_wrapper_type :: int
  rf_wrapper_len :: int
  rf_message_seq :: int
  rf_final :: bool
  rf_segment_index :: int
  rf_payload :: bytes

record datastore_payload =
  dp_body :: bytes
  dp_etag :: "pystr option"
  dp_status :: "int option"
  dp_content_type :: "pystr option"

definition not_modified :: "datastore_payload \<Rightarrow> bool" where
  "not_modified p \<longleftrightarrow> dp_status p = Some 304"

definition is_device_ack :: "bytes \<Rightarrow> bool" where
  "is_device_ack packet \<longleftrightarrow>
     length packet = 8 \<and> take 4 packet = drop 4 packet \<and> packet ! 1 = 0 \<and>
     pyslice packet 2 4 = [0x08, 0x00]"

definition read_u16 :: "bytes \<Rightarrow> nat \<Rightarrow> int result" where
  "read_u16 data offset =
     (if offset + 2 \<le> length data then Inr (le_val (pyslice data offset (offset + 2)))
      else Inl StructError)"

definition read_u32 :: "bytes \<Rightarrow> nat \<Rightarrow> int result" where
  "read_u32 data offset =
     (if offset + 4 \<le> length data then Inr (le_val (pyslice data offset (offset + 4)))
      else Inl StructError)"

definition NREK :: bytes where "NREK = blit ''NREK''"
definition PTTH :: bytes where "PTTH = blit ''PTTH''"

definition parse_response_frame :: "bytes \<Rightarrow> int \<Rightarrow> response_frame result" where
  "parse_response_frame packet expected_message_seq =
     (if length packet < 28 then Inl (ResponseFrameError (ShortFrame (length packet)))
      else
        let wrapper_seq = uint (packet ! 0); wrapper_type = uint (packet ! 1) in
        bindR (read_u16 packet 2) (\<lambda>wrapper_len.
        if wrapper_type \<noteq> 0 then Inl (ResponseFrameError (WrapperType wrapper_type))
        else if wrapper_len < 28 then Inl (ResponseFrameError (WrapperLength wrapper_len))
        else if wrapper_len > int (length packet)
        then Inl (ResponseFrameError (ShortOf (length packet) wrapper_len))
        else
          let logical_packet = take (nat wrapper_len) packet;
              wrapper = take 4 logical_packet;
              body = drop 4 logical_packet;
              header = take 4 body
          in if header \<noteq> NREK \<and> header \<noteq> PTTH then Inl (ResponseFrameError (BadHeader header))
          else
            bindR (read_u32 body 4) (\<lambda>stored_crc.
            bindR (read_u32 body 8) (\<lambda>message_seq.
            bindR (read_u32 body 12) (\<lambda>final_field.
            bindR (read_u16 body 16) (\<lambda>segment_index.
            bindR (read_u16 body 18) (\<lambda>payload_len.
            let payload_end = 20 + nat payload_len; trailer_end = payload_end + 4 in
            if message_seq \<noteq> expected_message_seq
            then Inl (ResponseFrameError (MessageSeq message_seq expected_message_seq))
            else if final_field \<noteq> 0 \<and> final_field \<noteq> 1
            then Inl (ResponseFrameError (FinalField final_field))
            else if trailer_end > length body
            then Inl (ResponseFrameError (PayloadExceeds payload_len))
            else if trailer_end \<noteq> length body
            then Inl (ResponseFrameError (TrailerLength (int (length body) - int payload_end)))
            else
              let payload = pyslice body 20 payload_end; computed_crc = crc32 payload in
              if stored_crc \<noteq> computed_crc
              then Inl (ResponseFrameError (CrcMismatch stored_crc computed_crc))
              else
                let trailer = pyslice body payload_end trailer_end in
                if trailer \<noteq> wrapper
                then Inl (ResponseFrameError (TrailerMismatch trailer wrapper))
                else Inr \<lparr>rf_header = header, rf_wrapper_seq = wrapper_seq,
                          rf_wrapper_type = wrapper_type, rf_wrapper_len = wrapper_len,
                          rf_message_seq = message_seq, rf_final = (final_field \<noteq> 0),
                          rf_segment_index = segment_index, rf_payload = payload\<rparr>)))))))"

section \<open>Reassembly\<close>

text \<open>The loop over \<open>enumerate(frames)\<close>, with \<open>count = len(frames)\<close>.\<close>

fun join_loop :: "nat \<Rightarrow> nat \<Rightarrow> response_frame list \<Rightarrow> bytes result" where
  "join_loop count expected_index [] = Inr []"
| "join_loop count expected_index (frame # frames) =
     (if rf_segment_index frame \<noteq> int expected_index
      then Inl (ResponseFrameError (SegmentIndex (rf_segment_index frame) expected_index))
      else if rf_final frame \<and> expected_index \<noteq> count - 1
      then Inl (ResponseFrameError (EarlyFinal expected_index))
      else if \<not> rf_final frame \<and> expected_index = count - 1
      then Inl (ResponseFrameError MissingFinal)
      else bindR (join_loop count (Suc expected_index) frames) (\<lambda>rest. Inr (rf_payload frame @ rest)))"

definition join_parsed_response_frames :: "response_frame list \<Rightarrow> bytes result" where
  "join_parsed_response_frames frames =
     (if frames = [] then Inr [] else join_loop (length frames) 0 frames)"

definition join_response_frames :: "bytes list \<Rightarrow> int \<Rightarrow> bytes result" where
  "join_response_frames frames expected_message_seq =
     bindR (mapR (\<lambda>frame. parse_response_frame frame expected_message_seq) frames)
       join_parsed_response_frames"

section \<open>The first JSON object in a response\<close>

text \<open>The loop of \<open>extract_json_bytes\<close>: the index one past the closing brace, if there is one.\<close>

fun json_scan :: "bytes \<Rightarrow> nat \<Rightarrow> int \<Rightarrow> bool \<Rightarrow> bool \<Rightarrow> nat option" where
  "json_scan [] index depth in_string escape = None"
| "json_scan (b # bs) index depth in_string escape =
     (if in_string then
        (if escape then json_scan bs (Suc index) depth in_string False
         else if b = 0x5C then json_scan bs (Suc index) depth in_string True
         else if b = 0x22 then json_scan bs (Suc index) depth False escape
         else json_scan bs (Suc index) depth in_string escape)
      else if b = 0x22 then json_scan bs (Suc index) depth True escape
      else if b = 0x7B then json_scan bs (Suc index) (depth + 1) in_string escape
      else if b = 0x7D then
        (if depth - 1 = 0 then Some (Suc index)
         else json_scan bs (Suc index) (depth - 1) in_string escape)
      else json_scan bs (Suc index) depth in_string escape)"

definition extract_json_bytes :: "bytes \<Rightarrow> bytes option" where
  "extract_json_bytes response =
     (case find_sub [0x7B] response of
        None \<Rightarrow> None
      | Some start \<Rightarrow>
          (case json_scan (drop start response) start 0 False False of
             None \<Rightarrow> None
           | Some stop \<Rightarrow> Some (pyslice response start stop)))"

section \<open>Body classification\<close>

definition json_ws :: "byte \<Rightarrow> bool" where
  "json_ws b \<longleftrightarrow> b = 0x20 \<or> b = 0x09 \<or> b = 0x0D \<or> b = 0x0A"

text \<open>
  The loop of \<open>is_single_json_container\<close> over the bytes after the opening bracket; the list is
  what remains of the stripped body, so \<open>index == end - 1\<close> says nothing remains.
\<close>

fun container_loop :: "bytes \<Rightarrow> byte list \<Rightarrow> bool \<Rightarrow> bool \<Rightarrow> bool" where
  "container_loop [] expected_stack in_string escaped = False"
| "container_loop (b # bs) expected_stack in_string escaped =
     (if in_string then
        (if escaped then container_loop bs expected_stack in_string False
         else if b = 0x5C then container_loop bs expected_stack in_string True
         else if b = 0x22 then container_loop bs expected_stack False escaped
         else container_loop bs expected_stack in_string escaped)
      else if b = 0x22 then container_loop bs expected_stack True escaped
      else if b = 0x7B then container_loop bs (0x7D # expected_stack) in_string escaped
      else if b = 0x5B then container_loop bs (0x5D # expected_stack) in_string escaped
      else if b = 0x7D \<or> b = 0x5D then
        (case expected_stack of
           [] \<Rightarrow> False
         | e # rest \<Rightarrow>
             if b \<noteq> e then False
             else if rest = [] then bs = []
             else container_loop bs rest in_string escaped)
      else container_loop bs expected_stack in_string escaped)"

definition is_single_json_container :: "bytes \<Rightarrow> bool" where
  "is_single_json_container body =
     (case strip_by json_ws body of
        [] \<Rightarrow> False
      | b # bs \<Rightarrow>
          if b = 0x7B then container_loop bs [0x7D] False False
          else if b = 0x5B then container_loop bs [0x5D] False False
          else False)"

definition datastore_body_content_type :: "bytes \<Rightarrow> pystr" where
  "datastore_body_content_type body =
     (if is_single_json_container body then lit ''application/json''
      else lit ''application/octet-stream'')"

section \<open>Response envelopes\<close>

text \<open>\<open>_read_sized_value\<close>: the value (or \<open>None\<close>) and the next offset.\<close>

definition read_sized_value :: "bytes \<Rightarrow> nat \<Rightarrow> nat \<Rightarrow> (bytes option \<times> nat) result" where
  "read_sized_value data offset stop =
     (if offset + 4 > stop then Inr (None, offset)
      else bindR (read_u32 data offset) (\<lambda>size.
        let value_start = offset + 4; value_end = value_start + nat size in
        if size > 4096 \<or> value_end > stop then Inr (None, offset)
        else Inr (Some (pyslice data value_start value_end), value_end)))"

definition decode_header_value :: "bytes \<Rightarrow> pystr option" where
  "decode_header_value value =
     (if list_ex (\<lambda>b. unat b < 0x20 \<or> unat b > 0x7E) value then None
      else let decoded = py_strip (map unat value)
           in if decoded = [] then None else Some decoded)"

text \<open>\<open>for _ in range(header_count)\<close>: the ETag the loop ends with.\<close>

fun utom_headers :: "nat \<Rightarrow> bytes \<Rightarrow> nat \<Rightarrow> nat \<Rightarrow> pystr option \<Rightarrow> pystr option result" where
  "utom_headers 0 response offset metadata_end etag = Inr etag"
| "utom_headers (Suc count) response offset metadata_end etag =
     bindR (read_sized_value response offset metadata_end) (\<lambda>(name, offset1).
     bindR (read_sized_value response offset1 metadata_end) (\<lambda>(val, offset2).
     case (name, val) of
       (Some n, Some v) \<Rightarrow>
         utom_headers count response offset2 metadata_end
           (case decode_header_value n of
              Some d \<Rightarrow> if py_lower d = lit ''etag'' then decode_header_value v else etag
            | None \<Rightarrow> etag)
     | _ \<Rightarrow> Inr etag))"

definition status_in_range :: "int \<Rightarrow> int option" where
  "status_in_range s = (if 100 \<le> s \<and> s \<le> 599 then Some s else None)"

definition parse_utom_response ::
    "bytes \<Rightarrow> (bytes \<times> pystr option \<times> int option) option result" where
  "parse_utom_response response =
     (if length response < 28 \<or> \<not> prefix (blit ''UTOM'') response then Inr None
      else
        bindR (read_u32 response 16) (\<lambda>metadata_len.
        let metadata_end = 20 + nat metadata_len in
        if metadata_end > length response \<or> metadata_len < 8 then Inr None
        else
          bindR (read_u32 response 20) (\<lambda>raw_status.
          bindR (read_u32 response 24) (\<lambda>header_count.
          bindR (utom_headers (nat header_count) response 28 metadata_end None) (\<lambda>etag.
          Inr (Some (drop metadata_end response, etag, status_in_range raw_status)))))))"

definition split_text_http_response :: "bytes \<Rightarrow> (bytes \<times> bytes) option" where
  "split_text_http_response response =
     (if \<not> prefix (blit ''HTTP/'') response then None
      else case find_sub [0x0D, 0x0A, 0x0D, 0x0A] response of
             Some index \<Rightarrow> Some (take index response, drop (index + 4) response)
           | None \<Rightarrow>
               (case find_sub [0x0A, 0x0A] response of
                  Some index \<Rightarrow> Some (take index response, drop (index + 2) response)
                | None \<Rightarrow> None))"

definition parse_text_status :: "pystr \<Rightarrow> int option" where
  "parse_text_status status_line =
     (let parts = split_ws 2 (py_strip status_line) in
      if length parts < 2 then None
      else case py_int (parts ! 1) of None \<Rightarrow> None | Some s \<Rightarrow> status_in_range s)"

fun text_etag :: "pystr list \<Rightarrow> pystr option \<Rightarrow> pystr option" where
  "text_etag [] etag = etag"
| "text_etag (line # lines) etag =
     (case partition_at 58 line of
        (name, separator, val) \<Rightarrow>
          if separator \<and> py_lower (py_strip name) = lit ''etag''
          then let v = py_strip val in text_etag lines (if v = [] then None else Some v)
          else text_etag lines etag)"

definition parse_text_http_response ::
    "bytes \<Rightarrow> (bytes \<times> pystr option \<times> int option) option" where
  "parse_text_http_response response =
     (case split_text_http_response response of
        None \<Rightarrow> None
      | Some (header_block, body) \<Rightarrow>
          let text = map unat header_block;
              lines = split_on 10 (replace_cr (replace_crlf text))
          in Some (body, text_etag (tl lines) None, parse_text_status (hd lines)))"

text \<open>
  \<open>_parse_utom_response(r) or _parse_text_http_response(r)\<close>: a parsed triple is a non-empty tuple
  and therefore true.
\<close>

definition parse_datastore_response :: "bytes \<Rightarrow> bool \<Rightarrow> datastore_payload result" where
  "parse_datastore_response response classify_body =
     bindR (parse_utom_response response) (\<lambda>utom.
     let parsed = (case utom of Some t \<Rightarrow> Some t | None \<Rightarrow> parse_text_http_response response);
         (body, etag, status) = (case parsed of None \<Rightarrow> (response, None, None) | Some t \<Rightarrow> t)
     in Inr \<lparr>dp_body = body, dp_etag = etag, dp_status = status,
             dp_content_type =
               (if classify_body then Some (datastore_body_content_type body) else None)\<rparr>)"

definition extract_response_etag :: "bytes \<Rightarrow> pystr option result" where
  "extract_response_etag response =
     bindR (parse_datastore_response response False) (\<lambda>p. Inr (dp_etag p))"

definition response_status_code :: "bytes \<Rightarrow> int option result" where
  "response_status_code response =
     bindR (parse_datastore_response response False) (\<lambda>p. Inr (dp_status p))"

definition extract_datastore_body :: "bytes \<Rightarrow> bytes result" where
  "extract_datastore_body response =
     bindR (parse_datastore_response response False) (\<lambda>p. Inr (dp_body p))"

section \<open>The wire format of response frames\<close>

text \<open>
  The frame a device sends, as a specification: wrapper, header, CRC, message sequence, final
  flag, segment index, payload length, payload, and the wrapper again.
\<close>

definition wrapper_bytes :: "int \<Rightarrow> nat \<Rightarrow> bytes" where
  "wrapper_bytes seq n = [word_of_int seq, 0] @ le_bytes 2 (28 + int n)"

definition raw_response_frame ::
    "int \<Rightarrow> bytes \<Rightarrow> int \<Rightarrow> int \<Rightarrow> bool \<Rightarrow> int \<Rightarrow> bytes \<Rightarrow> bytes" where
  "raw_response_frame seq header crc ms final seg payload =
     wrapper_bytes seq (length payload) @ header @ le_bytes 4 crc @ le_bytes 4 ms @
     le_bytes 4 (of_bool final) @ le_bytes 2 seg @ le_bytes 2 (int (length payload)) @
     payload @ wrapper_bytes seq (length payload)"

definition response_frame_bytes :: "response_frame \<Rightarrow> bytes" where
  "response_frame_bytes f =
     raw_response_frame (rf_wrapper_seq f) (rf_header f) (crc32 (rf_payload f)) (rf_message_seq f)
       (rf_final f) (rf_segment_index f) (rf_payload f)"

definition wf_response_frame :: "response_frame \<Rightarrow> bool" where
  "wf_response_frame f \<longleftrightarrow>
     (rf_header f = NREK \<or> rf_header f = PTTH) \<and>
     0 \<le> rf_wrapper_seq f \<and> rf_wrapper_seq f < 256 \<and> rf_wrapper_type f = 0 \<and>
     rf_wrapper_len f = 28 + int (length (rf_payload f)) \<and> rf_wrapper_len f < 65536 \<and>
     0 \<le> rf_message_seq f \<and> rf_message_seq f < 4294967296 \<and>
     0 \<le> rf_segment_index f \<and> rf_segment_index f < 65536"

lemma length_headers [simp]: "length NREK = 4" "length PTTH = 4"
  by (simp_all add: NREK_def PTTH_def)

lemma length_wrapper_bytes [simp]: "length (wrapper_bytes s n) = 4"
  by (simp add: wrapper_bytes_def)

lemma length_raw_response_frame:
  "length header = 4 \<Longrightarrow>
   length (raw_response_frame s header crc ms fin seg payload) = 28 + length payload"
  by (simp add: raw_response_frame_def)

lemma length_response_frame_bytes:
  "wf_response_frame f \<Longrightarrow> length (response_frame_bytes f) = 28 + length (rf_payload f)"
  by (auto simp: response_frame_bytes_def wf_response_frame_def length_raw_response_frame)

lemma uint_word_of_int_byte: "0 \<le> s \<Longrightarrow> s < 256 \<Longrightarrow> uint (word_of_int s :: byte) = s"
  by (simp add: uint_word_of_int)

text \<open>What the parser makes of a frame whose stored CRC may be wrong.\<close>

lemma parse_raw_response_frame:
  assumes hd: "header = NREK \<or> header = PTTH" and n: "28 + int (length payload) < 65536"
    and s: "0 \<le> seq" "seq < 256" and c: "0 \<le> crc" "crc < 4294967296"
    and m: "0 \<le> ms" "ms < 4294967296" and sg: "0 \<le> seg" "seg < 65536"
  shows "parse_response_frame (raw_response_frame seq header crc ms final seg payload @ padding) ms =
    (if crc \<noteq> crc32 payload then Inl (ResponseFrameError (CrcMismatch crc (crc32 payload)))
     else Inr \<lparr>rf_header = header, rf_wrapper_seq = seq, rf_wrapper_type = 0,
               rf_wrapper_len = 28 + int (length payload), rf_message_seq = ms, rf_final = final,
               rf_segment_index = seg, rf_payload = payload\<rparr>)"
proof -
  let ?n = "length payload" and ?w = "wrapper_bytes seq (length payload)"
  define packet where "packet = raw_response_frame seq header crc ms final seg payload @ padding"
  define body where "body = header @ le_bytes 4 crc @ le_bytes 4 ms @ le_bytes 4 (of_bool final) @
     le_bytes 2 seg @ le_bytes 2 (int ?n) @ payload @ ?w"
  have h: "length header = 4" using hd by auto
  have len: "length packet = 28 + ?n + length padding"
    using h by (simp add: packet_def length_raw_response_frame)
  have pk: "packet = ?w @ body @ padding" by (simp add: packet_def body_def raw_response_frame_def)
  have lb: "length body = 24 + ?n" using h by (simp add: body_def)
  have r0: "read_u16 packet 2 = Inr (28 + int ?n)"
    using len n by (simp add: read_u16_def pk wrapper_bytes_def pyslice_def le16.dec_enc)
  have sq: "uint (packet ! 0) = seq" "uint (packet ! 1) = 0"
    using s by (simp_all add: pk wrapper_bytes_def uint_word_of_int_byte)
  have lp: "take (nat (28 + int ?n)) packet = ?w @ body"
    using lb by (simp add: pk nat_add_distrib)
  have r: "read_u32 body 4 = Inr crc" "read_u32 body 8 = Inr ms"
    "read_u32 body 12 = Inr (of_bool final)" "read_u16 body 16 = Inr seg"
    "read_u16 body 18 = Inr (int ?n)" "take 4 body = header"
    using h n c m sg
    by (simp_all add: body_def read_u32_def read_u16_def pyslice_def le32.dec_enc le16.dec_enc)
  have pay: "pyslice body 20 (20 + ?n) = payload" "pyslice body (20 + ?n) (24 + ?n) = ?w"
    using h by (simp_all add: body_def pyslice_def)
  show ?thesis unfolding packet_def [symmetric]
    using hd n by (simp add: parse_response_frame_def Let_def len r0 sq [simplified] lp r pay lb)
qed

lemma parse_response_frame_complete:
  "wf_response_frame f \<Longrightarrow>
   parse_response_frame (response_frame_bytes f @ padding) (rf_message_seq f) = Inr f"
  unfolding response_frame_bytes_def
  by (subst parse_raw_response_frame) (auto simp: wf_response_frame_def)

lemma take_2: "2 \<le> length xs \<Longrightarrow> take 2 xs = [xs ! 0, xs ! 1]"
  by (cases xs; cases "tl xs") (auto simp: numeral_2_eq_2)

lemma pyslice_join:
  "a \<le> b \<Longrightarrow> b \<le> c \<Longrightarrow> pyslice xs a b @ pyslice xs b c = pyslice xs a c"
  using take_add [of "b - a" "c - b" "drop a xs"] by (simp add: pyslice_def)

lemma pyslice_join_more:
  "a \<le> b \<Longrightarrow> b \<le> c \<Longrightarrow> pyslice xs a b @ pyslice xs b c @ r = pyslice xs a c @ r"
  by (metis append_assoc pyslice_join)

lemma pyslice_all: "length xs \<le> b \<Longrightarrow> pyslice xs 0 b = xs"
  by (simp add: pyslice_def)

lemma read_u16_Inr_iff [result_simps]:
  "read_u16 d k = Inr v \<longleftrightarrow> k + 2 \<le> length d \<and> v = le_val (pyslice d k (k + 2))"
  by (auto simp: read_u16_def)

lemma read_u32_Inr_iff [result_simps]:
  "read_u32 d k = Inr v \<longleftrightarrow> k + 4 \<le> length d \<and> v = le_val (pyslice d k (k + 4))"
  by (auto simp: read_u32_def)

lemma read_u16_bounds: "read_u16 d k = Inr v \<Longrightarrow> 0 \<le> v \<and> v < 65536"
  using le16.valid_dec [of "pyslice d k (k + 2)"] by (auto simp: result_simps)

lemma read_u32_bounds: "read_u32 d k = Inr v \<Longrightarrow> 0 \<le> v \<and> v < 4294967296"
  using le32.valid_dec [of "pyslice d k (k + 4)"] by (auto simp: result_simps)

lemma read_u16_bytes: "read_u16 d k = Inr v \<Longrightarrow> le_bytes 2 v = pyslice d k (k + 2)"
  using le16.enc_dec [of "pyslice d k (k + 2)"] by (auto simp: result_simps)

lemma read_u32_bytes: "read_u32 d k = Inr v \<Longrightarrow> le_bytes 4 v = pyslice d k (k + 4)"
  using le32.enc_dec [of "pyslice d k (k + 4)"] by (auto simp: result_simps)

text \<open>Everything an accepted frame has passed.\<close>

lemma parse_response_frame_InrE:
  assumes "parse_response_frame packet ms = Inr f"
  obtains wlen crc fin seg plen body where
    "28 \<le> length packet" "uint (packet ! 1) = 0" "read_u16 packet 2 = Inr wlen"
    "28 \<le> wlen" "wlen \<le> int (length packet)" "body = drop 4 (take (nat wlen) packet)"
    "take 4 body = NREK \<or> take 4 body = PTTH"
    "read_u32 body 4 = Inr crc" "read_u32 body 8 = Inr ms" "read_u32 body 12 = Inr fin"
    "read_u16 body 16 = Inr seg" "read_u16 body 18 = Inr plen" "fin = 0 \<or> fin = 1"
    "24 + nat plen = length body" "crc = crc32 (pyslice body 20 (20 + nat plen))"
    "pyslice body (20 + nat plen) (24 + nat plen) = take 4 packet"
    "f = \<lparr>rf_header = take 4 body, rf_wrapper_seq = uint (packet ! 0), rf_wrapper_type = 0,
          rf_wrapper_len = wlen, rf_message_seq = ms, rf_final = (fin \<noteq> 0),
          rf_segment_index = seg, rf_payload = pyslice body 20 (20 + nat plen)\<rparr>"
proof -
  have l: "28 \<le> length packet"
    using assms by (auto simp: parse_response_frame_def split: if_splits)
  then obtain wlen where wl: "read_u16 packet 2 = Inr wlen" by (auto simp: result_simps)
  have t: "uint (packet ! 1) = 0" and w: "28 \<le> wlen" "wlen \<le> int (length packet)"
    using assms l wl by (auto simp: parse_response_frame_def Let_def split: if_splits)
  let ?b = "drop 4 (take (nat wlen) packet)"
  have b: "24 \<le> length ?b" using w by auto
  then obtain crc m fin seg plen where r: "read_u32 ?b 4 = Inr crc" "read_u32 ?b 8 = Inr m"
      "read_u32 ?b 12 = Inr fin" "read_u16 ?b 16 = Inr seg" "read_u16 ?b 18 = Inr plen"
    by (simp add: read_u16_def read_u32_def)
  have h: "take 4 ?b = NREK \<or> take 4 ?b = PTTH"
    using assms l wl t w by (auto simp: parse_response_frame_def Let_def split: if_splits)
  have tk: "take 4 (take (nat wlen) packet) = take 4 packet" using w by simp
  from assms l wl t w h r have res: "m = ms \<and> (fin = 0 \<or> fin = 1) \<and> 24 + nat plen = length ?b \<and>
      crc = crc32 (pyslice ?b 20 (20 + nat plen)) \<and>
      pyslice ?b (20 + nat plen) (24 + nat plen) = take 4 packet \<and>
      f = \<lparr>rf_header = take 4 ?b, rf_wrapper_seq = uint (packet ! 0), rf_wrapper_type = 0,
          rf_wrapper_len = wlen, rf_message_seq = ms, rf_final = (fin \<noteq> 0),
          rf_segment_index = seg, rf_payload = pyslice ?b 20 (20 + nat plen)\<rparr>"
    unfolding parse_response_frame_def Let_def bindR_simps tk
    by (simp add: tk split: if_splits)
  show ?thesis
    by (rule that [OF l t wl w refl h r(1) _ r(3-5)]) (use res r(2) in auto)
qed


lemma parse_response_frame_sound:
  assumes "parse_response_frame packet ms = Inr f"
  shows "wf_response_frame f \<and> rf_message_seq f = ms \<and>
    take (28 + length (rf_payload f)) packet = response_frame_bytes f"
  using assms
proof (rule parse_response_frame_InrE)
  fix wlen crc fin seg plen body
  assume a: "28 \<le> length packet" "uint (packet ! 1) = 0" "read_u16 packet 2 = Inr wlen"
    "28 \<le> wlen" "wlen \<le> int (length packet)" "body = drop 4 (take (nat wlen) packet)"
    "take 4 body = NREK \<or> take 4 body = PTTH"
    "read_u32 body 4 = Inr crc" "read_u32 body 8 = Inr ms" "read_u32 body 12 = Inr fin"
    "read_u16 body 16 = Inr seg" "read_u16 body 18 = Inr plen" "fin = 0 \<or> fin = 1"
    "24 + nat plen = length body" "crc = crc32 (pyslice body 20 (20 + nat plen))"
    "pyslice body (20 + nat plen) (24 + nat plen) = take 4 packet"
    "f = \<lparr>rf_header = take 4 body, rf_wrapper_seq = uint (packet ! 0), rf_wrapper_type = 0,
          rf_wrapper_len = wlen, rf_message_seq = ms, rf_final = (fin \<noteq> 0),
          rf_segment_index = seg, rf_payload = pyslice body 20 (20 + nat plen)\<rparr>"
  let ?pay = "pyslice body 20 (20 + nat plen)"
  have lb: "int (length body) = wlen - 4" using a(4,5,6) by simp
  have pl: "0 \<le> plen" using read_u16_bounds [OF a(12)] by simp
  have lp: "length ?pay = nat plen" using a(14) by simp
  have wl: "wlen = 28 + int (length ?pay)" using lb a(14) pl lp by linarith
  have wlt: "wlen < 65536" using read_u16_bounds [OF a(3)] by simp
  have wr: "wrapper_bytes (rf_wrapper_seq f) (length ?pay) = take 4 packet"
  proof -
    have "take 2 packet = [packet ! 0, packet ! 1]"
      using a(1) by (simp add: take_2)
    then have "take 4 packet = [packet ! 0, packet ! 1] @ pyslice packet 2 4"
      using pyslice_join [of 0 2 4 packet] by simp
    moreover have "packet ! 1 = 0" using a(2) by (simp add: word_uint_eq_iff)
    moreover have "le_bytes 2 wlen = pyslice packet 2 4" using read_u16_bytes [OF a(3)] by simp
    ultimately show ?thesis using a(17) wl by (simp add: wrapper_bytes_def)
  qed
  have "body = take 4 body @ pyslice body 4 8 @ pyslice body 8 12 @ pyslice body 12 16 @
      pyslice body 16 18 @ pyslice body 18 20 @ ?pay @ pyslice body (20 + nat plen) (24 + nat plen)"
    using a(14) by (simp add: pyslice_join_more pyslice_join pyslice_all flip: pyslice_0)
  also have "\<dots> = rf_header f @ le_bytes 4 (crc32 ?pay) @ le_bytes 4 ms @ le_bytes 4 fin @
      le_bytes 2 seg @ le_bytes 2 plen @ ?pay @ wrapper_bytes (rf_wrapper_seq f) (length ?pay)"
    using read_u32_bytes [OF a(8)] read_u32_bytes [OF a(9)] read_u32_bytes [OF a(10)]
      read_u16_bytes [OF a(11)] read_u16_bytes [OF a(12)] a(15,16,17) wr by simp
  finally have body: "body = rf_header f @ le_bytes 4 (crc32 ?pay) @ le_bytes 4 ms @ le_bytes 4 fin @
      le_bytes 2 seg @ le_bytes 2 plen @ ?pay @ wrapper_bytes (rf_wrapper_seq f) (length ?pay)" .
  have fin: "of_bool (rf_final f) = fin" using a(13,17) by auto
  have pf: "rf_payload f = ?pay" "rf_message_seq f = ms" "rf_segment_index f = seg" using a(17) by simp_all
  have "take (nat wlen) packet = take 4 packet @ body"
    using append_take_drop_id [of 4 "take (nat wlen) packet"] a(4,6) by simp
  then have "take (nat wlen) packet = response_frame_bytes f"
    using wr pf fin lp pl by (subst (asm) body) (simp add: response_frame_bytes_def raw_response_frame_def)
  moreover have "nat wlen = 28 + length (rf_payload f)" unfolding pf(1) using wl by linarith
  moreover have "wf_response_frame f"
    using a(7,17) wl wlt read_u32_bounds [OF a(9)] read_u16_bounds [OF a(11)]
      uint_byte_bounds [of "packet ! 0"] by (auto simp: wf_response_frame_def)
  ultimately show ?thesis using pf by simp
qed


text \<open>C14: The strict frame parser accepts exactly the wire format: it returns \<open>f\<close> for a packet if and
  only if \<open>f\<close> is well formed, carries the expected message sequence, and its encoding (wrapper, header,
  CRC of the payload, sequence, final flag, segment index, length, payload, repeated wrapper) is a
  prefix of the packet; what follows is padding.\<close>

theorem parse_response_frame_iff:
  "parse_response_frame packet ms = Inr f \<longleftrightarrow>
     wf_response_frame f \<and> rf_message_seq f = ms \<and> prefix (response_frame_bytes f) packet"
proof
  assume "parse_response_frame packet ms = Inr f"
  from parse_response_frame_sound [OF this]
  show "wf_response_frame f \<and> rf_message_seq f = ms \<and> prefix (response_frame_bytes f) packet"
    by (metis take_is_prefix)
next
  assume "wf_response_frame f \<and> rf_message_seq f = ms \<and> prefix (response_frame_bytes f) packet"
  then show "parse_response_frame packet ms = Inr f"
    by (auto simp: prefix_def parse_response_frame_complete)
qed

text \<open>The frame parser fails only with \<open>ResponseFrameError\<close>: no packet of any length makes one of
  its \<open>struct\<close> reads or index accesses raise.\<close>

lemma parse_response_frame_error:
  "parse_response_frame packet ms = Inl e \<Longrightarrow> \<exists>fault. e = ResponseFrameError fault"
proof -
  assume a: "parse_response_frame packet ms = Inl e"
  show ?thesis
  proof (cases "length packet < 28")
    case True
    with a show ?thesis by (auto simp: parse_response_frame_def)
  next
    case False
    then obtain wlen where wl: "read_u16 packet 2 = Inr wlen" by (auto simp: result_simps)
    show ?thesis
    proof (cases "uint (packet ! 1) = 0 \<and> 28 \<le> wlen \<and> wlen \<le> int (length packet)")
      case True
      let ?b = "drop 4 (take (nat wlen) packet)"
      have b: "24 \<le> length ?b" using True by auto
      then obtain crc m fin seg plen where r: "read_u32 ?b 4 = Inr crc" "read_u32 ?b 8 = Inr m"
          "read_u32 ?b 12 = Inr fin" "read_u16 ?b 16 = Inr seg" "read_u16 ?b 18 = Inr plen"
        by (simp add: read_u16_def read_u32_def)
      with a False wl True show ?thesis
        unfolding parse_response_frame_def Let_def by (auto split: if_splits)
    next
      case f: False
      with a False wl show ?thesis
        unfolding parse_response_frame_def Let_def by (auto split: if_splits)
    qed
  qed
qed

text \<open>C15: Integrity of a received frame: changing any single byte of the payload of a valid frame, to any
  other value, makes the parser refuse it with a CRC mismatch.\<close>

theorem corrupted_payload_rejected:
  assumes wf: "wf_response_frame f" and i: "i < length (rf_payload f)" and b: "b \<noteq> rf_payload f ! i"
  shows "\<exists>stored computed.
    parse_response_frame ((response_frame_bytes f @ padding)[24 + i := b]) (rf_message_seq f) =
      Inl (ResponseFrameError (CrcMismatch stored computed))"
proof -
  let ?p = "rf_payload f"
  have h: "length (rf_header f) = 4" using wf by (auto simp: wf_response_frame_def)
  have upd: "(response_frame_bytes f @ padding)[24 + i := b] =
      raw_response_frame (rf_wrapper_seq f) (rf_header f) (crc32 ?p) (rf_message_seq f)
        (rf_final f) (rf_segment_index f) (?p[i := b]) @ padding"
    using i h by (simp add: response_frame_bytes_def raw_response_frame_def list_update_append)
  have "?p = take i ?p @ (?p ! i) # drop (Suc i) ?p" using i by (rule id_take_nth_drop)
  moreover have "?p[i := b] = take i ?p @ b # drop (Suc i) ?p" using i by (rule upd_conv_take_nth_drop)
  ultimately have "crc32 ?p \<noteq> crc32 (?p[i := b])"
    using crc32_single_byte [OF b [symmetric], of "take i ?p" "drop (Suc i) ?p"] by metis
  with wf show ?thesis unfolding upd
    by (subst parse_raw_response_frame) (auto simp: wf_response_frame_def)
qed

theorem corrupted_payload_rejected_witness:
  "let f = \<lparr>rf_header = NREK, rf_wrapper_seq = 7, rf_wrapper_type = 0, rf_wrapper_len = 30,
            rf_message_seq = 2, rf_final = True, rf_segment_index = 0, rf_payload = [1, 2]\<rparr>
   in wf_response_frame f \<and>
     (\<exists>stored computed. parse_response_frame ((response_frame_bytes f @ [])[24 + 1 := 9]) 2 =
        Inl (ResponseFrameError (CrcMismatch stored computed)))"
proof -
  let ?f = "\<lparr>rf_header = NREK, rf_wrapper_seq = 7, rf_wrapper_type = 0, rf_wrapper_len = 30,
            rf_message_seq = 2, rf_final = True, rf_segment_index = 0, rf_payload = [1, 2]\<rparr>"
  have w: "wf_response_frame ?f" by (simp add: wf_response_frame_def)
  have "\<exists>stored computed. parse_response_frame ((response_frame_bytes ?f @ [])[24 + 1 := 9]) (rf_message_seq ?f) =
        Inl (ResponseFrameError (CrcMismatch stored computed))"
    by (rule corrupted_payload_rejected [OF w]) simp_all
  with w show ?thesis by (simp add: Let_def)
qed

section \<open>Reassembly\<close>

definition segments_in_order :: "response_frame list \<Rightarrow> bool" where
  "segments_in_order frames \<longleftrightarrow>
     (\<forall>i<length frames. rf_segment_index (frames ! i) = int i \<and>
        (rf_final (frames ! i) \<longleftrightarrow> Suc i = length frames))"

lemma join_loop_Inr_iff:
  "k + length frames = count \<Longrightarrow>
   join_loop count k frames = Inr r \<longleftrightarrow>
     (\<forall>i<length frames. rf_segment_index (frames ! i) = int (k + i) \<and>
        (rf_final (frames ! i) \<longleftrightarrow> Suc (k + i) = count)) \<and>
     r = concat (map rf_payload frames)"
proof (induction frames arbitrary: k r)
  case (Cons f fs)
  have "Suc k + length fs = count" using Cons.prems by simp
  from Cons.IH [OF this] Cons.prems show ?case
    by (auto simp: All_less_Suc2 result_simps)
qed auto

lemma join_loop_error: "join_loop count k frames = Inl e \<Longrightarrow> \<exists>fault. e = ResponseFrameError fault"
  by (induction frames arbitrary: k) (auto simp: result_simps split: if_splits)

text \<open>Reassembly succeeds exactly on a complete, ordered set of segments (indices \<open>0, 1, \<dots>\<close>, the
  final flag on the last and only there) and then returns the payloads in order.\<close>

theorem join_parsed_response_frames_iff:
  "join_parsed_response_frames frames = Inr r \<longleftrightarrow>
     segments_in_order frames \<and> r = concat (map rf_payload frames)"
  using join_loop_Inr_iff [of 0 frames "length frames"]
  by (auto simp: join_parsed_response_frames_def segments_in_order_def)

lemma join_parsed_response_frames_error:
  "join_parsed_response_frames frames = Inl e \<Longrightarrow> \<exists>fault. e = ResponseFrameError fault"
  by (auto simp: join_parsed_response_frames_def dest: join_loop_error split: if_splits)

text \<open>How a device cuts a response into frames: one frame per chunk, the last one final.\<close>

definition segment_frame :: "int \<Rightarrow> bytes list \<Rightarrow> nat \<Rightarrow> response_frame" where
  "segment_frame ms chunks i =
     \<lparr>rf_header = NREK, rf_wrapper_seq = int (i mod 256), rf_wrapper_type = 0,
      rf_wrapper_len = 28 + int (length (chunks ! i)), rf_message_seq = ms,
      rf_final = (Suc i = length chunks), rf_segment_index = int i, rf_payload = chunks ! i\<rparr>"

definition segment_frames :: "int \<Rightarrow> bytes list \<Rightarrow> response_frame list" where
  "segment_frames ms chunks = map (segment_frame ms chunks) [0..<length chunks]"

lemma payloads_segment_frames: "map rf_payload (segment_frames ms chunks) = chunks"
  by (simp add: segment_frames_def segment_frame_def comp_def map_nth)

lemma segment_frames_in_order: "segments_in_order (segment_frames ms chunks)"
  by (auto simp: segments_in_order_def segment_frames_def segment_frame_def)

lemma wf_segment_frame:
  assumes "i < length chunks" "length chunks \<le> 65536" "\<forall>c\<in>set chunks. length c \<le> 65507"
    and "0 \<le> ms" "ms < 4294967296"
  shows "wf_response_frame (segment_frame ms chunks i)"
proof -
  have "chunks ! i \<in> set chunks" using assms(1) by simp
  with assms(3) have "length (chunks ! i) < 65508" by fastforce
  with assms(1,2,4,5) show ?thesis by (simp add: wf_response_frame_def segment_frame_def)
qed

text \<open>Round trip of a segmented response: cut into up to 65536 chunks of up to 65507 bytes, framed by
  the device, parsed frame by frame and joined, a response comes back unchanged.\<close>

theorem segmentation_roundtrip:
  assumes "length chunks \<le> 65536" "\<forall>c\<in>set chunks. length c \<le> 65507"
    and "0 \<le> ms" "ms < 4294967296"
  shows "join_response_frames (map response_frame_bytes (segment_frames ms chunks)) ms =
    Inr (concat chunks)"
proof -
  have "mapR (\<lambda>frame. parse_response_frame frame ms) (map response_frame_bytes (segment_frames ms chunks)) =
      Inr (segment_frames ms chunks)"
    unfolding mapR_Inr_iff
  proof (clarsimp simp: list_all2_conv_all_nth)
    fix i assume i: "i < length (segment_frames ms chunks)"
    then have w: "wf_response_frame (segment_frame ms chunks i)"
      using assms by (intro wf_segment_frame) (simp_all add: segment_frames_def)
    have "segment_frames ms chunks ! i = segment_frame ms chunks i" using i by (simp add: segment_frames_def)
    moreover have "rf_message_seq (segment_frame ms chunks i) = ms" by (simp add: segment_frame_def)
    ultimately show "parse_response_frame (response_frame_bytes (segment_frames ms chunks ! i)) ms =
        Inr (segment_frames ms chunks ! i)"
      using parse_response_frame_complete [OF w, of "[]"] by simp
  qed
  moreover have "join_parsed_response_frames (segment_frames ms chunks) = Inr (concat chunks)"
    using join_loop_Inr_iff [of 0 "segment_frames ms chunks" "length (segment_frames ms chunks)"]
      segment_frames_in_order [of ms chunks] payloads_segment_frames [of ms chunks]
    by (auto simp: join_parsed_response_frames_def segments_in_order_def)
  ultimately show ?thesis by (simp add: join_response_frames_def)
qed
theorem segmentation_roundtrip_witness:
  "length [blit ''ab'', blit ''c''] \<le> 65536 \<and>
   join_response_frames (map response_frame_bytes (segment_frames 2 [blit ''ab'', blit ''c''])) 2 =
     Inr (blit ''abc'')"
proof -
  have h: "length [blit ''ab'', blit ''c''] \<le> 65536" "\<forall>c\<in>set [blit ''ab'', blit ''c'']. length c \<le> 65507"
    by simp_all
  show ?thesis using h(1) segmentation_roundtrip [OF h, of 2] by simp
qed

section \<open>What a single JSON container is\<close>

text \<open>
  The reference for \<open>is_single_json_container\<close>: bracketed text in which brackets nest and strings
  hide them. \<open>jstring_rest\<close> is the rest of a string after its opening quote, \<open>jitems\<close> what may stand
  between two matching brackets.
\<close>

inductive jstring_rest :: "bytes \<Rightarrow> bool" where
  close: "jstring_rest [0x22]"
| escaped: "jstring_rest s \<Longrightarrow> jstring_rest (0x5C # b # s)"
| plain: "b \<noteq> 0x22 \<Longrightarrow> b \<noteq> 0x5C \<Longrightarrow> jstring_rest s \<Longrightarrow> jstring_rest (b # s)"

inductive jitems :: "bytes \<Rightarrow> bool" where
  empty: "jitems []"
| plain: "b \<notin> {0x22, 0x7B, 0x5B, 0x7D, 0x5D} \<Longrightarrow> jitems s \<Longrightarrow> jitems (b # s)"
| quoted: "jstring_rest t \<Longrightarrow> jitems s \<Longrightarrow> jitems (0x22 # t @ s)"
| braces: "jitems u \<Longrightarrow> jitems s \<Longrightarrow> jitems (0x7B # u @ 0x7D # s)"
| brackets: "jitems u \<Longrightarrow> jitems s \<Longrightarrow> jitems (0x5B # u @ 0x5D # s)"

definition json_container :: "bytes \<Rightarrow> bool" where
  "json_container x \<longleftrightarrow>
     (\<exists>u. jitems u \<and> (x = 0x7B # u @ [0x7D] \<or> x = 0x5B # u @ [0x5D]))"

lemma container_loop_string:
  "jstring_rest t \<Longrightarrow> container_loop (t @ s) stk True False = container_loop s stk False False"
  by (induction rule: jstring_rest.induct) auto

lemma container_loop_items:
  "jitems u \<Longrightarrow> stk \<noteq> [] \<Longrightarrow> container_loop (u @ s) stk False False = container_loop s stk False False"
  by (induction arbitrary: stk s rule: jitems.induct) (auto simp: container_loop_string)

text \<open>The text that pops the whole stack, closing bracket by closing bracket.\<close>

fun closes :: "byte list \<Rightarrow> bytes \<Rightarrow> bool" where
  "closes [] xs = (xs = [])"
| "closes (c # stk) xs = (\<exists>u s. jitems u \<and> xs = u @ c # s \<and> closes stk s)"

lemma closes_prepend:
  assumes "\<And>u. jitems u \<Longrightarrow> jitems (v @ u)" "stk \<noteq> []" "closes stk xs"
  shows "closes stk (v @ xs)"
  using assms by (cases stk) (auto, metis append_assoc)

lemma container_loop_in_string:
  "container_loop xs stk True esc \<Longrightarrow>
   \<exists>t s. xs = t @ s \<and> (if esc then \<exists>b t'. t = b # t' \<and> jstring_rest t' else jstring_rest t) \<and>
     container_loop s stk False False"
proof (induction xs arbitrary: esc)
  case (Cons b bs)
  show ?case
  proof (cases esc)
    case True
    with Cons.prems have "container_loop bs stk True False" by simp
    from Cons.IH [OF this] True show ?thesis by (metis append_Cons)
  next
    case False
    show ?thesis
    proof (cases "b = 0x5C")
      case True
      with False Cons.prems have "container_loop bs stk True True" by simp
      from Cons.IH [OF this] True False show ?thesis
        by (metis append_Cons jstring_rest.escaped)
    next
      case nb: False
      show ?thesis
      proof (cases "b = 0x22")
        case True
        with False Cons.prems nb have "container_loop bs stk False False" by simp
        with True False show ?thesis by (metis append_Cons append_Nil jstring_rest.close)
      next
        case nq: False
        with False Cons.prems nb have "container_loop bs stk True False" by simp
        from Cons.IH [OF this] nb nq False show ?thesis
          by (metis append_Cons jstring_rest.plain)
      qed
    qed
  qed
qed simp

lemma container_loop_closes:
  "container_loop xs stk False False \<Longrightarrow> stk \<noteq> [] \<Longrightarrow> closes stk xs"
proof (induction "length xs" arbitrary: xs stk rule: less_induct)
  case less
  then obtain b bs where xs: "xs = b # bs" by (cases xs) auto
  consider "b = 0x22" | "b = 0x7B" | "b = 0x5B" | "b = 0x7D \<or> b = 0x5D"
    | "b \<notin> {0x22, 0x7B, 0x5B, 0x7D, 0x5D}" by blast
  then show ?case
  proof cases
    case 1
    with less.prems xs have "container_loop bs stk True False" by simp
    from container_loop_in_string [OF this] obtain t s where
      t: "bs = t @ s" "jstring_rest t" "container_loop s stk False False" by auto
    then have "closes stk s" using less.hyps [of s stk] less.prems(2) xs by simp
    then have "closes stk ((0x22 # t) @ s)"
      using t(2) less.prems(2) by (intro closes_prepend) (auto intro: jitems.quoted)
    then show ?thesis using xs 1 t(1) by simp
  next
    case 2
    with less.prems xs have "container_loop bs (0x7D # stk) False False" by simp
    then have "closes (0x7D # stk) bs" using less.hyps [of bs "0x7D # stk"] xs by simp
    then obtain u s where u: "jitems u" "bs = u @ 0x7D # s" "closes stk s" by auto
    then have "closes stk ((0x7B # u @ [0x7D]) @ s)"
      using less.prems(2) by (intro closes_prepend) (auto intro: jitems.braces)
    then show ?thesis using xs 2 u(2) by simp
  next
    case 3
    with less.prems xs have "container_loop bs (0x5D # stk) False False" by simp
    then have "closes (0x5D # stk) bs" using less.hyps [of bs "0x5D # stk"] xs by simp
    then obtain u s where u: "jitems u" "bs = u @ 0x5D # s" "closes stk s" by auto
    then have "closes stk ((0x5B # u @ [0x5D]) @ s)"
      using less.prems(2) by (intro closes_prepend) (auto intro: jitems.brackets)
    then show ?thesis using xs 3 u(2) by simp
  next
    case 4
    obtain e rest where stk: "stk = e # rest" using less.prems(2) by (cases stk) auto
    have e: "b = e" "if rest = [] then bs = [] else container_loop bs rest False False"
      using 4 less.prems(1) xs stk by (auto split: if_splits)
    then have "closes rest bs" using less.hyps [of bs rest] xs by (cases "rest = []") auto
    then show ?thesis using xs stk e(1) jitems.empty by (metis append_Nil closes.simps(2))
  next
    case 5
    with less.prems xs have "container_loop bs stk False False" by auto
    then have "closes stk bs" using less.hyps [of bs stk] less.prems(2) xs by simp
    then have "closes stk ([b] @ bs)"
      using 5 less.prems(2) by (intro closes_prepend) (auto intro: jitems.plain)
    then show ?thesis using xs by simp
  qed
qed

lemma container_loop_single:
  "c = 0x7D \<or> c = 0x5D \<Longrightarrow> container_loop xs [c] False False \<longleftrightarrow> (\<exists>u. jitems u \<and> xs = u @ [c])"
  using container_loop_closes [of xs "[c]"] container_loop_items [of _ "[c]" "[c]"] by auto

text \<open>C21: The byte scanner that decides the \<open>Content-Type\<close> of a response accepts exactly the texts of the
  grammar \<open>json_container\<close>: after trimming JSON whitespace, one bracketed group whose brackets nest
  correctly outside of strings, with nothing after it.\<close>

theorem is_single_json_container_iff:
  "is_single_json_container body \<longleftrightarrow> json_container (strip_by json_ws body)"
  by (cases "strip_by json_ws body")
    (auto simp: is_single_json_container_def json_container_def container_loop_single)

section \<open>The MOTU response envelope\<close>

definition sized_bytes :: "bytes \<Rightarrow> bytes" where
  "sized_bytes v = le_bytes 4 (int (length v)) @ v"

definition utom_header_bytes :: "(bytes \<times> bytes) list \<Rightarrow> bytes" where
  "utom_header_bytes hs = concat (map (\<lambda>(n, v). sized_bytes n @ sized_bytes v) hs)"

text \<open>A response as a device sends it: status, headers and body behind a 16-byte preamble.\<close>

definition utom_response_bytes :: "bytes \<Rightarrow> int \<Rightarrow> (bytes \<times> bytes) list \<Rightarrow> bytes \<Rightarrow> bytes" where
  "utom_response_bytes pre status hs body =
     blit ''UTOM'' @ pre @ le_bytes 4 (8 + int (length (utom_header_bytes hs))) @ le_bytes 4 status @
     le_bytes 4 (int (length hs)) @ utom_header_bytes hs @ body"

text \<open>The ETag the headers carry: the last header whose decoded name is \<open>etag\<close> wins.\<close>

fun headers_etag :: "pystr option \<Rightarrow> (bytes \<times> bytes) list \<Rightarrow> pystr option" where
  "headers_etag etag [] = etag"
| "headers_etag etag ((n, v) # hs) =
     headers_etag
       (case decode_header_value n of
          Some d \<Rightarrow> if py_lower d = lit ''etag'' then decode_header_value v else etag
        | None \<Rightarrow> etag) hs"

lemma read_sized_value_sized:
  assumes "data = pre @ sized_bytes v @ post" "offset = length pre" "length v \<le> 4096"
    and "offset + 4 + length v \<le> stop"
  shows "read_sized_value data offset stop = Inr (Some v, offset + 4 + length v)"
proof -
  have "read_u32 data offset = Inr (int (length v))"
    using assms by (simp add: read_u32_def sized_bytes_def pyslice_def le32.dec_enc)
  moreover have "pyslice data (offset + 4) (offset + 4 + length v) = v"
    using assms by (simp add: sized_bytes_def pyslice_def)
  ultimately show ?thesis using assms by (simp add: read_sized_value_def Let_def)
qed

lemma length_sized_bytes [simp]: "length (sized_bytes v) = 4 + length v"
  by (simp add: sized_bytes_def)

lemma utom_header_bytes_Cons:
  "utom_header_bytes ((n, v) # hs) = sized_bytes n @ sized_bytes v @ utom_header_bytes hs"
  by (simp add: utom_header_bytes_def)

lemma utom_headers_complete:
  "\<forall>(n, v)\<in>set hs. length n \<le> 4096 \<and> length v \<le> 4096 \<Longrightarrow>
   data = pre @ utom_header_bytes hs @ post \<Longrightarrow> offset = length pre \<Longrightarrow>
   stop = offset + length (utom_header_bytes hs) \<Longrightarrow>
   utom_headers (length hs) data offset stop etag = Inr (headers_etag etag hs)"
proof (induction hs arbitrary: pre offset etag)
  case (Cons h hs)
  obtain n v where h: "h = (n, v)" by (cases h)
  have nv: "length n \<le> 4096" "length v \<le> 4096" using Cons.prems(1) h by auto
  have d: "data = pre @ sized_bytes n @ sized_bytes v @ utom_header_bytes hs @ post"
    using Cons.prems(2) h by (simp add: utom_header_bytes_Cons)
  define o1 where "o1 = offset + 4 + length n"
  define o2 where "o2 = o1 + 4 + length v"
  have s: "stop = o2 + length (utom_header_bytes hs)"
    using Cons.prems(4) h by (simp add: utom_header_bytes_Cons o1_def o2_def)
  have 1: "read_sized_value data offset stop = Inr (Some n, o1)"
    unfolding o1_def by (rule read_sized_value_sized [OF d Cons.prems(3) nv(1)]) (use s in \<open>simp add: o2_def o1_def\<close>)
  have 2: "read_sized_value data o1 stop = Inr (Some v, o2)"
    unfolding o2_def
    by (rule read_sized_value_sized [of _ "pre @ sized_bytes n" _ "utom_header_bytes hs @ post"])
      (use d s nv Cons.prems(3) in \<open>simp_all add: o1_def o2_def\<close>)
  have 3: "utom_headers (length hs) data o2 stop e = Inr (headers_etag e hs)" for e
    by (rule Cons.IH [of "pre @ sized_bytes n @ sized_bytes v"]) (use Cons.prems d s in \<open>auto simp: o1_def o2_def\<close>)
  show ?case by (simp add: h 1 2 3)
qed (simp add: utom_header_bytes_def)

text \<open>C22: The MOTU response envelope is read as it was written: body, status (when it is an HTTP status)
  and the ETag of the last \<open>etag\<close> header come back, for any headers of at most 4096 bytes.\<close>

theorem utom_response_roundtrip:
  assumes "length pre = 12" "0 \<le> status" "status < 4294967296"
    and "\<forall>(n, v)\<in>set hs. length n \<le> 4096 \<and> length v \<le> 4096"
    and "length (utom_response_bytes pre status hs body) < 4294967296"
  shows "parse_datastore_response (utom_response_bytes pre status hs body) classify =
    Inr \<lparr>dp_body = body, dp_etag = headers_etag None hs, dp_status = status_in_range status,
         dp_content_type = (if classify then Some (datastore_body_content_type body) else None)\<rparr>"
proof -
  let ?h = "utom_header_bytes hs"
  define r where "r = utom_response_bytes pre status hs body"
  have len: "length r = 28 + length ?h + length body"
    using assms(1) by (simp add: r_def utom_response_bytes_def)
  have small: "int (length ?h) + 28 < 4294967296" using len assms(5) by (simp add: r_def)
  have hsl: "length hs \<le> length ?h"
    by (induction hs) (auto simp: utom_header_bytes_def sized_bytes_def split: prod.splits)
  have r: "r = (blit ''UTOM'' @ pre) @ le_bytes 4 (8 + int (length ?h)) @ le_bytes 4 status @
     le_bytes 4 (int (length hs)) @ ?h @ body"
    by (simp add: r_def utom_response_bytes_def)
  have rd: "read_u32 r 16 = Inr (8 + int (length ?h))" "read_u32 r 20 = Inr status"
    "read_u32 r 24 = Inr (int (length hs))"
    using assms(1-3) len small hsl
    by (simp_all add: read_u32_def) (simp_all add: r pyslice_def le32.dec_enc)
  have loop: "utom_headers (length hs) r 28 (28 + length ?h) None = Inr (headers_etag None hs)"
    by (rule utom_headers_complete [OF assms(4), of _ "(blit ''UTOM'' @ pre) @
         le_bytes 4 (8 + int (length ?h)) @ le_bytes 4 status @ le_bytes 4 (int (length hs))" body])
      (use r assms(1) in simp_all)
  have dr: "drop (28 + length ?h) r = body"
    using assms(1) by (simp add: r del: blit_simps)
  have pf: "prefix (blit ''UTOM'') r" by (simp add: r)
  have e: "20 + nat (8 + int (length ?h)) = 28 + length ?h" by simp
  have "parse_utom_response r = Inr (Some (body, headers_etag None hs, status_in_range status))"
    unfolding parse_utom_response_def
    using len pf by (simp add: rd e loop dr Let_def del: blit_simps)
  then show ?thesis by (simp add: parse_datastore_response_def r_def [symmetric])
qed

theorem utom_response_roundtrip_witness:
  "parse_datastore_response (utom_response_bytes (replicate 12 0) 304 [(blit ''ETag'', blit '' 77'')] []) False =
     Inr \<lparr>dp_body = [], dp_etag = Some (lit ''77''), dp_status = Some 304, dp_content_type = None\<rparr>"
proof -
  have h: "\<forall>(n, v)\<in>set [(blit ''ETag'', blit '' 77'')]. length n \<le> 4096 \<and> length v \<le> 4096"
    by simp
  have l: "length (utom_response_bytes (replicate 12 0) 304 [(blit ''ETag'', blit '' 77'')] []) < 4294967296"
    by (simp add: utom_response_bytes_def utom_header_bytes_def)
  have e: "headers_etag None [(blit ''ETag'', blit '' 77'')] = Some (lit ''77'')"
    by (simp add: decode_header_value_def py_strip_def strip_by_def py_space_def py_lower_def lower_char_def)
  show ?thesis
    using utom_response_roundtrip [OF _ _ _ h l, of False] e
    by (simp add: status_in_range_def del: blit_simps lit_simps headers_etag.simps)
qed

section \<open>Parsing a response never raises\<close>

lemma read_sized_value_ok:
  "stop \<le> length data \<Longrightarrow> \<exists>x. read_sized_value data offset stop = Inr x"
  by (auto simp: read_sized_value_def read_u32_def Let_def)

lemma utom_headers_ok:
  "stop \<le> length data \<Longrightarrow> \<exists>x. utom_headers count data offset stop etag = Inr x"
proof (induction count arbitrary: offset etag)
  case (Suc count)
  obtain n o1 where 1: "read_sized_value data offset stop = Inr (n, o1)"
    using read_sized_value_ok [OF Suc.prems] by (metis surj_pair)
  obtain v o2 where 2: "read_sized_value data o1 stop = Inr (v, o2)"
    using read_sized_value_ok [OF Suc.prems] by (metis surj_pair)
  show ?case using Suc by (auto simp: 1 2 split: option.splits)
qed simp

lemma parse_datastore_response_ok: "\<exists>p. parse_datastore_response response classify = Inr p"
proof -
  have "\<exists>t. parse_utom_response response = Inr t"
  proof (cases "length response < 28")
    case False
    then obtain m where m: "read_u32 response 16 = Inr m" by (simp add: read_u32_def)
    show ?thesis
    proof (cases "20 + nat m > length response \<or> m < 8")
      case True
      then show ?thesis by (simp add: parse_utom_response_def m Let_def)
    next
      case f: False
      obtain s c where "read_u32 response 20 = Inr s" "read_u32 response 24 = Inr c"
        using False by (simp add: read_u32_def)
      moreover have "20 + nat m \<le> length response" using f by simp
      then obtain e where "utom_headers (nat c) response 28 (20 + nat m) None = Inr e"
        using utom_headers_ok by blast
      ultimately show ?thesis using f by (simp add: parse_utom_response_def m Let_def)
    qed
  qed (simp add: parse_utom_response_def)
  then show ?thesis by (auto simp: parse_datastore_response_def Let_def split: prod.splits)
qed

text \<open>C23: Whatever bytes a device returns, parsing them succeeds: no length field, header count or status
  line makes \<open>parse_datastore_response\<close> raise, nor the accessors for the body, the ETag and the status
  code.\<close>

theorem parse_datastore_response_total:
  "(\<exists>p. parse_datastore_response response classify = Inr p) \<and>
   (\<exists>b. extract_datastore_body response = Inr b) \<and> (\<exists>e. extract_response_etag response = Inr e) \<and>
   (\<exists>c. response_status_code response = Inr c)"
  using parse_datastore_response_ok[of response classify] parse_datastore_response_ok[of response False]
  by (auto simp: extract_datastore_body_def extract_response_etag_def response_status_code_def)

end
