(* ===== verification/Motu_Session.thy ===== *)
theory Motu_Session
  imports Motu_Parser Complex_Main
begin

text \<open>
  One session with the device (\<open>MotuUsbDatastore\<close> of \<^verbatim>\<open>motu_proxy/datastore.py\<close>): sequence numbers,
  the reassembly of logical frames from USB reads, and the collection of a response with its
  acknowledgements, limits and time-outs.

  The transport and the clock are the code outside the session. They are a record of operations on
  a world of any type \<open>'w\<close>; every operation may raise, and the theorems hold for each of them.
  Times are rationals (the source's floats are seconds of \<open>time.monotonic\<close>).
\<close>

section \<open>The transport a session talks to\<close>

text \<open>
  \<open>tr_begin_read\<close> is absent for a transport without \<open>begin_cancellable_bulk_read\<close>; its result is
  the handle of the pending read, on which \<open>tr_pending_read\<close> is \<open>read()\<close>.
\<close>

record 'w transport =
  tr_max_packet_size :: "nat option"
  tr_bulk_write :: "bytes \<Rightarrow> ('w, int) sop"
  tr_bulk_read :: "nat \<Rightarrow> int option \<Rightarrow> ('w, bytes) sop"
  tr_begin_read :: "(nat \<Rightarrow> int option \<Rightarrow> ('w, nat) sop) option"
  tr_pending_read :: "nat \<Rightarrow> ('w, bytes) sop"
  tr_monotonic :: "'w \<Rightarrow> rat \<times> 'w"

definition DEFAULT_TIMEOUT_MS :: int where "DEFAULT_TIMEOUT_MS = 600"
definition DEFAULT_SEQ_START :: int where "DEFAULT_SEQ_START = 0x20"
definition DEFAULT_MESSAGE_SEQ :: int where "DEFAULT_MESSAGE_SEQ = 2"
definition DEFAULT_MAX_USB_CHUNK :: nat where "DEFAULT_MAX_USB_CHUNK = 512"
definition DEFAULT_RESPONSE_TIMEOUT_MS :: int where
  "DEFAULT_RESPONSE_TIMEOUT_MS = DEFAULT_TIMEOUT_MS * 2"
definition DEFAULT_MAX_RESPONSE_FRAMES :: nat where "DEFAULT_MAX_RESPONSE_FRAMES = 256"
definition DEFAULT_MAX_IGNORED_PACKETS :: nat where "DEFAULT_MAX_IGNORED_PACKETS = 32"
definition DEFAULT_MAX_RESPONSE_READS :: nat where
  "DEFAULT_MAX_RESPONSE_READS = DEFAULT_MAX_RESPONSE_FRAMES * 2 + DEFAULT_MAX_IGNORED_PACKETS + 2"
definition DEFAULT_MAX_RESPONSE_BYTES :: nat where "DEFAULT_MAX_RESPONSE_BYTES = 1024 * 1024"
definition MAX_MESSAGE_SEQ :: int where "MAX_MESSAGE_SEQ = 0xFFFFFFFF"

lemmas session_consts =
  DEFAULT_TIMEOUT_MS_def DEFAULT_SEQ_START_def DEFAULT_MESSAGE_SEQ_def DEFAULT_MAX_USB_CHUNK_def
  DEFAULT_RESPONSE_TIMEOUT_MS_def DEFAULT_MAX_RESPONSE_FRAMES_def DEFAULT_MAX_IGNORED_PACKETS_def
  DEFAULT_MAX_RESPONSE_READS_def DEFAULT_MAX_RESPONSE_BYTES_def MAX_MESSAGE_SEQ_def

section \<open>Session state\<close>

record response_stats =
  st_timeout_ms :: int
  st_elapsed_ms :: rat
  st_reads :: nat
  st_accepted_frames :: nat
  st_ignored_packets :: nat
  st_ack_packets :: nat
  st_response_bytes :: nat

record motu_session =
  ms_host_seq :: host_sequencer
  ms_message_seq :: int
  ms_last_response_stats :: "response_stats option"
  ms_last_response_etag :: "pystr option"
  ms_last_response_payload :: "datastore_payload option"

text \<open>Session code changes the session and the world.\<close>

type_synonym ('w, 'a) sess = "(motu_session \<times> 'w, 'a) sop"

definition onWorld :: "('w, 'a) sop \<Rightarrow> ('w, 'a) sess" where
  "onWorld m = (\<lambda>(d, w). case m w of (r, w') \<Rightarrow> (r, (d, w')))"

definition monotonic :: "'w transport \<Rightarrow> ('w, rat) sess" where
  "monotonic tr = (\<lambda>(d, w). case tr_monotonic tr w of (now, w') \<Rightarrow> (Inr now, (d, w')))"

definition new_session :: "int \<Rightarrow> int \<Rightarrow> motu_session result" where
  "new_session seq_start message_seq =
     bindR (host_sequencer_init seq_start) (\<lambda>hs.
       Inr \<lparr>ms_host_seq = hs, ms_message_seq = message_seq, ms_last_response_stats = None,
            ms_last_response_etag = None, ms_last_response_payload = None\<rparr>)"

definition supports_cancellable_bulk_reads :: "'w transport \<Rightarrow> bool" where
  "supports_cancellable_bulk_reads tr \<longleftrightarrow> tr_begin_read tr \<noteq> None"

definition sess_next_host_seq :: "('w, int) sess" where
  "sess_next_host_seq = (\<lambda>(d, w). case take_host_seq (ms_host_seq d) of
     (q, hs) \<Rightarrow> (Inr q, (d\<lparr>ms_host_seq := hs\<rparr>, w)))"

definition current_message_seq :: "motu_session \<Rightarrow> int" where
  "current_message_seq d = ms_message_seq d AND MAX_MESSAGE_SEQ"

definition advance_message_seq :: "motu_session \<Rightarrow> motu_session" where
  "advance_message_seq d = d\<lparr>ms_message_seq := (current_message_seq d + 1) AND MAX_MESSAGE_SEQ\<rparr>"

definition write_frame :: "'w transport \<Rightarrow> bytes \<Rightarrow> ('w, unit) sess" where
  "write_frame tr frame =
     bindS (onWorld (tr_bulk_write tr frame)) (\<lambda>written.
       if written \<noteq> int (length frame) then raiseS (ShortUsbWrite written (length frame))
       else retS ())"

definition write_ack :: "'w transport \<Rightarrow> ('w, unit) sess" where
  "write_ack tr = bindS sess_next_host_seq (\<lambda>q. write_frame tr (build_ack q))"

section \<open>Reading logical frames\<close>

text \<open>How a call reads: the arguments \<open>timeout_ms\<close>, \<open>use_cancellable_read\<close> and \<open>read_started\<close>.\<close>

record 'w read_mode =
  rm_cancellable :: bool
  rm_read_started :: "(nat option \<Rightarrow> ('w, unit) sop) option"

definition plain_read :: "'w read_mode" where
  "plain_read = \<lparr>rm_cancellable = False, rm_read_started = None\<rparr>"

definition note_read :: "'w read_mode \<Rightarrow> nat option \<Rightarrow> ('w, unit) sop" where
  "note_read rm h = (case rm_read_started rm of None \<Rightarrow> retS () | Some f \<Rightarrow> f h)"

definition bulk_read :: "'w transport \<Rightarrow> 'w read_mode \<Rightarrow> nat \<Rightarrow> int option \<Rightarrow> ('w, bytes) sop" where
  "bulk_read tr rm nbytes timeout_ms =
     (if \<not> rm_cancellable rm then tr_bulk_read tr nbytes timeout_ms
      else case tr_begin_read tr of
        None \<Rightarrow> raiseS RuntimeError
      | Some begin_read \<Rightarrow>
          bindS (begin_read nbytes timeout_ms) (\<lambda>h.
          bindS (note_read rm (Some h)) (\<lambda>_.
          finallyS
            (onErrorS (tr_pending_read tr h)
               (\<lambda>e. raiseS (if e = InterruptedError then DatastoreCancelled else e)))
            (note_read rm None))))"

definition max_chunk :: "'w transport \<Rightarrow> nat" where
  "max_chunk tr =
     (case tr_max_packet_size tr of
        None \<Rightarrow> DEFAULT_MAX_USB_CHUNK
      | Some n \<Rightarrow> if n = 0 then DEFAULT_MAX_USB_CHUNK else n)"

text \<open>The loop \<open>while got < expected\<close>; \<open>acc\<close> joins the chunks read so far.\<close>

function read_more :: "'w transport \<Rightarrow> 'w read_mode \<Rightarrow> int option \<Rightarrow> nat \<Rightarrow> bytes \<Rightarrow> ('w, bytes) sop" where
  "read_more tr rm timeout_ms expected acc w =
     (if length acc < expected then
        (case bulk_read tr rm (max_chunk tr) timeout_ms w of
           (Inl e, w') \<Rightarrow> (Inl e, w')
         | (Inr chunk, w') \<Rightarrow>
             if chunk = [] then (Inr acc, w')
             else read_more tr rm timeout_ms expected (acc @ chunk) w')
      else (Inr acc, w))"
  by pat_completeness auto
termination
  by (relation "measure (\<lambda>(tr, rm, t, expected, acc, w). expected - length acc)")
    (auto intro: diff_less_mono2)

declare read_more.simps [simp del]

definition read_logical_frame ::
    "'w transport \<Rightarrow> 'w read_mode \<Rightarrow> int option \<Rightarrow> ('w, bytes) sop" where
  "read_logical_frame tr rm timeout_ms =
     bindS (bulk_read tr rm (max_chunk tr) timeout_ms) (\<lambda>first.
     if first = [] then retS []
     else if length first < 4 then raiseS (ShortUsbFrame (length first))
     else bindS (liftR (read_u16 first 2)) (\<lambda>expected.
     if expected < 4 then raiseS (ShortUsbFrame (nat expected))
     else bindS (read_more tr rm timeout_ms (nat expected) first) (\<lambda>joined.
     if length joined < nat expected then raiseS (ShortUsbFrame (length joined))
     else retS joined)))"

section \<open>Collecting a response\<close>

text \<open>The arguments of \<open>_collect_response\<close> and the two times it computes before its loop.\<close>

record 'w collect_args =
  ca_expected_message_seq :: int
  ca_max_bytes :: nat
  ca_timeout_ms :: int
  ca_max_reads :: nat
  ca_max_ignored_packets :: nat
  ca_max_response_frames :: nat
  ca_should_cancel :: "('w, bool) sop option"
  ca_read_timeout_slice_ms :: "int option"
  ca_read_mode :: "'w read_mode"
  ca_started :: rat
  ca_deadline :: rat

text \<open>The local variables of the loop.\<close>

record collect_state =
  cs_frames :: "response_frame list"
  cs_total :: nat
  cs_quiet_reads :: nat
  cs_reads :: nat
  cs_ignored_packets :: nat
  cs_ack_packets :: nat
  cs_stale_message_seq :: "int option"
  cs_stale_frames :: nat
  cs_stale_total :: nat

definition collect_start :: collect_state where
  "collect_start =
     \<lparr>cs_frames = [], cs_total = 0, cs_quiet_reads = 0, cs_reads = 0, cs_ignored_packets = 0,
      cs_ack_packets = 0, cs_stale_message_seq = None, cs_stale_frames = 0, cs_stale_total = 0\<rparr>"

definition record_response_stats ::
    "'w transport \<Rightarrow> 'w collect_args \<Rightarrow> collect_state \<Rightarrow> ('w, unit) sess" where
  "record_response_stats tr ca cs =
     bindS (monotonic tr) (\<lambda>now.
     modS (\<lambda>(d, w). (d\<lparr>ms_last_response_stats :=
       Some \<lparr>st_timeout_ms = ca_timeout_ms ca, st_elapsed_ms = (now - ca_started ca) * 1000,
             st_reads = cs_reads cs, st_accepted_frames = length (cs_frames cs),
             st_ignored_packets = cs_ignored_packets cs, st_ack_packets = cs_ack_packets cs,
             st_response_bytes = cs_total cs\<rparr>\<rparr>, w)))"

text \<open>\<open>self._record_response_stats(...); raise e\<close>\<close>

definition collect_fail ::
    "'w transport \<Rightarrow> 'w collect_args \<Rightarrow> collect_state \<Rightarrow> exc \<Rightarrow> ('w, 'a) sess" where
  "collect_fail tr ca cs e = bindS (record_response_stats tr ca cs) (\<lambda>_. raiseS e)"

definition asks_cancel :: "'w collect_args \<Rightarrow> ('w, bool) sess" where
  "asks_cancel ca = (case ca_should_cancel ca of None \<Rightarrow> retS False | Some f \<Rightarrow> onWorld f)"

definition response_message_seq :: "bytes \<Rightarrow> int option result" where
  "response_message_seq packet =
     (if length packet < 16 then Inr None
      else bindR (read_u16 packet 2) (\<lambda>wrapper_len.
        if wrapper_len < 16 \<or> wrapper_len > int (length packet) then Inr None
        else let body = pyslice packet 4 (nat wrapper_len) in
          if length body < 12 \<or> (take 4 body \<noteq> NREK \<and> take 4 body \<noteq> PTTH) then Inr None
          else bindR (read_u32 body 8) (\<lambda>v. Inr (Some v))))"

text \<open>
  The head of an iteration: cancellation, the read limit and the deadline; the result is the
  time-out of the next read.
\<close>

definition collect_guard ::
    "'w transport \<Rightarrow> 'w collect_args \<Rightarrow> collect_state \<Rightarrow> ('w, int) sess" where
  "collect_guard tr ca cs =
     bindS (asks_cancel ca) (\<lambda>cancel.
     if cancel then collect_fail tr ca cs DatastoreCancelled
     else if ca_max_reads ca \<le> cs_reads cs then collect_fail tr ca cs DatastoreTimeout
     else bindS (monotonic tr) (\<lambda>now.
     if ca_deadline ca \<le> now
     then collect_fail tr ca cs (if cs_frames cs \<noteq> [] then DatastoreTimeout else DatastoreNoResponse)
     else
       let read_timeout_ms = max 1 \<lfloor>(ca_deadline ca - now) * 1000\<rfloor>
       in retS (case ca_read_timeout_slice_ms ca of
                  None \<Rightarrow> read_timeout_ms
                | Some slice_ms \<Rightarrow> min read_timeout_ms (max 1 slice_ms))))"

text \<open>
  The branches for a non-empty packet. Each returns the new local variables and whether the loop
  is left (\<open>break\<close>).
\<close>

definition ignore_packet ::
    "'w transport \<Rightarrow> 'w collect_args \<Rightarrow> collect_state \<Rightarrow> ('w, collect_state \<times> bool) sess" where
  "ignore_packet tr ca cs =
     (if ca_max_ignored_packets ca < cs_ignored_packets cs then collect_fail tr ca cs DatastoreTimeout
      else retS (cs, False))"

definition collect_stale ::
    "'w transport \<Rightarrow> 'w collect_args \<Rightarrow> collect_state \<Rightarrow> bytes \<Rightarrow> int
     \<Rightarrow> ('w, collect_state \<times> bool) sess" where
  "collect_stale tr ca cs packet message_seq =
     (case parse_response_frame packet message_seq of
        Inl (ResponseFrameError _) \<Rightarrow>
          (let cs = cs\<lparr>cs_ignored_packets := cs_ignored_packets cs + 1\<rparr>
           in bindS (write_ack tr) (\<lambda>_. ignore_packet tr ca cs))
      | Inl e \<Rightarrow> raiseS e
      | Inr parsed_stale \<Rightarrow>
          (let cs = (if cs_stale_message_seq cs \<noteq> Some message_seq
                     then cs\<lparr>cs_stale_message_seq := Some message_seq, cs_stale_frames := 0,
                             cs_stale_total := 0\<rparr>
                     else cs);
               cs = cs\<lparr>cs_stale_frames := cs_stale_frames cs + 1,
                       cs_stale_total := cs_stale_total cs + length packet,
                       cs_ignored_packets := cs_ignored_packets cs + 1\<rparr>
           in bindS (write_ack tr) (\<lambda>_.
              if ca_max_response_frames ca < cs_stale_frames cs
              then collect_fail tr ca cs DatastoreResponseLimit
              else if ca_max_bytes ca < cs_stale_total cs
              then collect_fail tr ca cs DatastoreResponseLimit
              else retS
                (if rf_final parsed_stale
                 then cs\<lparr>cs_stale_message_seq := None, cs_stale_frames := 0, cs_stale_total := 0\<rparr>
                 else cs, False))))"

definition collect_current ::
    "'w transport \<Rightarrow> 'w collect_args \<Rightarrow> collect_state \<Rightarrow> bytes \<Rightarrow> int option
     \<Rightarrow> ('w, collect_state \<times> bool) sess" where
  "collect_current tr ca cs packet message_seq =
     (case parse_response_frame packet (ca_expected_message_seq ca) of
        Inl (ResponseFrameError fault) \<Rightarrow>
          if message_seq = Some (ca_expected_message_seq ca)
          then collect_fail tr ca cs (ResponseFrameError fault)
          else ignore_packet tr ca (cs\<lparr>cs_ignored_packets := cs_ignored_packets cs + 1\<rparr>)
      | Inl e \<Rightarrow> raiseS e
      | Inr parsed \<Rightarrow>
          let cs = cs\<lparr>cs_frames := cs_frames cs @ [parsed], cs_total := cs_total cs + length packet\<rparr>
          in if ca_max_response_frames ca < length (cs_frames cs)
             then collect_fail tr ca cs DatastoreResponseLimit
             else bindS (write_ack tr) (\<lambda>_.
               if ca_max_bytes ca < cs_total cs then collect_fail tr ca cs DatastoreResponseLimit
               else retS (cs, rf_final parsed)))"

definition collect_packet ::
    "'w transport \<Rightarrow> 'w collect_args \<Rightarrow> collect_state \<Rightarrow> bytes \<Rightarrow> ('w, collect_state \<times> bool) sess" where
  "collect_packet tr ca cs packet =
     (if is_device_ack packet then retS (cs\<lparr>cs_ack_packets := cs_ack_packets cs + 1\<rparr>, False)
      else
        let body = (if 4 \<le> length packet then drop 4 packet else packet)
        in if take 4 body = NREK \<or> take 4 body = PTTH
           then bindS (liftR (response_message_seq packet)) (\<lambda>message_seq.
             case message_seq of
               Some seq \<Rightarrow>
                 if seq \<noteq> ca_expected_message_seq ca then collect_stale tr ca cs packet seq
                 else collect_current tr ca cs packet message_seq
             | None \<Rightarrow> collect_current tr ca cs packet message_seq)
           else ignore_packet tr ca (cs\<lparr>cs_ignored_packets := cs_ignored_packets cs + 1\<rparr>))"

definition collect_read ::
    "'w transport \<Rightarrow> 'w collect_args \<Rightarrow> collect_state \<Rightarrow> int \<Rightarrow> ('w, bytes) sess" where
  "collect_read tr ca cs read_timeout_ms =
     onErrorS (onWorld (read_logical_frame tr (ca_read_mode ca) (Some read_timeout_ms)))
       (\<lambda>e. if e = DatastoreCancelled then collect_fail tr ca cs e else raiseS e)"

text \<open>The rest of an iteration, once a read returned \<open>packet\<close>.\<close>

definition collect_received ::
    "'w transport \<Rightarrow> 'w collect_args \<Rightarrow> collect_state \<Rightarrow> bytes \<Rightarrow> ('w, collect_state \<times> bool) sess" where
  "collect_received tr ca cs packet =
     (let cs = cs\<lparr>cs_reads := cs_reads cs + 1\<rparr>
      in if packet = [] then
           (if ca_read_timeout_slice_ms ca \<noteq> None
            then bindS (monotonic tr) (\<lambda>now.
              if now < ca_deadline ca then retS (cs, False)
              else retS (cs\<lparr>cs_quiet_reads := cs_quiet_reads cs + 1\<rparr>, False))
            else retS (cs\<lparr>cs_quiet_reads := cs_quiet_reads cs + 1\<rparr>, False))
         else collect_packet tr ca (cs\<lparr>cs_quiet_reads := 0\<rparr>) packet)"

text \<open>One iteration of \<open>while quiet_reads < 2\<close>.\<close>

definition collect_iteration ::
    "'w transport \<Rightarrow> 'w collect_args \<Rightarrow> collect_state \<Rightarrow> ('w, collect_state \<times> bool) sess" where
  "collect_iteration tr ca cs =
     bindS (collect_guard tr ca cs) (\<lambda>read_timeout_ms.
     bindS (collect_read tr ca cs read_timeout_ms) (collect_received tr ca cs))"

lemmas sess_defs = collect_fail_def record_response_stats_def monotonic_def onWorld_def
  write_ack_def write_frame_def sess_next_host_seq_def asks_cancel_def

lemma collect_fail_raises [simp]: "fst (collect_fail tr ca cs e s) = Inl e"
  by (cases s) (simp add: collect_fail_def record_response_stats_def monotonic_def bindS_def modS_def
    split: prod.splits)

lemma collect_fail_not_Inr [simp]: "collect_fail tr ca cs e s \<noteq> (Inr x, t)"
  using collect_fail_raises by (metis Inl_Inr_False fst_conv)

lemma collect_packet_reads:
  "collect_packet tr ca cs packet s = (Inr (cs', stop), t) \<Longrightarrow> cs_reads cs' = cs_reads cs"
  by (auto simp: collect_packet_def collect_stale_def collect_current_def ignore_packet_def Let_def
      result_simps split: if_splits option.splits sum.splits exc.splits)

lemma collect_iteration_reads:
  assumes "collect_iteration tr ca cs s = (Inr (cs', stop), t)"
  shows "cs_reads cs' = Suc (cs_reads cs)" "cs_reads cs < ca_max_reads ca"
  using assms
  by (auto simp: collect_iteration_def collect_received_def collect_guard_def Let_def result_simps split: if_splits
      dest!: collect_packet_reads)

function collect_loop ::
    "'w transport \<Rightarrow> 'w collect_args \<Rightarrow> collect_state \<Rightarrow> ('w, collect_state) sess" where
  "collect_loop tr ca cs s =
     (if cs_quiet_reads cs < 2 then
        (case collect_iteration tr ca cs s of
           (Inl e, t) \<Rightarrow> (Inl e, t)
         | (Inr (cs', stop), t) \<Rightarrow> if stop then (Inr cs', t) else collect_loop tr ca cs' t)
      else (Inr cs, s))"
  by pat_completeness auto
termination
  by (relation "measure (\<lambda>(tr, ca, cs, s). ca_max_reads ca - cs_reads cs)")
    (auto simp: collect_iteration_reads(1)[OF sym] intro!: diff_less_mono2
      dest: collect_iteration_reads(2)[OF sym])

declare collect_loop.simps [simp del]

definition collect_finish ::
    "'w transport \<Rightarrow> 'w collect_args \<Rightarrow> collect_state \<Rightarrow> ('w, bytes) sess" where
  "collect_finish tr ca cs =
     (if cs_frames cs = [] then collect_fail tr ca cs DatastoreNoResponse
      else
        case join_parsed_response_frames (cs_frames cs) of
          Inl (ResponseFrameError fault) \<Rightarrow> collect_fail tr ca cs (ResponseFrameError fault)
        | Inl e \<Rightarrow> raiseS e
        | Inr response \<Rightarrow>
            bindS (liftR (parse_datastore_response response False)) (\<lambda>payload.
            bindS (modS (\<lambda>(d, w). (d\<lparr>ms_last_response_payload := Some payload,
                                      ms_last_response_etag := dp_etag payload\<rparr>, w))) (\<lambda>_.
            bindS (record_response_stats tr ca cs) (\<lambda>_. retS response))))"

text \<open>
  \<open>_collect_response\<close>; \<open>ca\<close> carries its arguments, \<open>ca_started\<close> and \<open>ca_deadline\<close> are set here.
\<close>

definition collect_response :: "'w transport \<Rightarrow> 'w collect_args \<Rightarrow> ('w, bytes) sess" where
  "collect_response tr ca =
     bindS (modS (\<lambda>(d, w). (d\<lparr>ms_last_response_stats := None, ms_last_response_etag := None,
                               ms_last_response_payload := None\<rparr>, w))) (\<lambda>_.
     bindS (monotonic tr) (\<lambda>started.
     bindS (monotonic tr) (\<lambda>now.
     let ca = ca\<lparr>ca_started := started, ca_deadline := now + of_int (ca_timeout_ms ca) / 1000\<rparr>
     in bindS (collect_loop tr ca collect_start) (\<lambda>cs. collect_finish tr ca cs))))"

definition default_collect_args :: "int \<Rightarrow> int \<Rightarrow> 'w collect_args" where
  "default_collect_args expected_message_seq timeout_ms =
     \<lparr>ca_expected_message_seq = expected_message_seq, ca_max_bytes = DEFAULT_MAX_RESPONSE_BYTES,
      ca_timeout_ms = timeout_ms, ca_max_reads = DEFAULT_MAX_RESPONSE_READS,
      ca_max_ignored_packets = DEFAULT_MAX_IGNORED_PACKETS,
      ca_max_response_frames = DEFAULT_MAX_RESPONSE_FRAMES, ca_should_cancel = None,
      ca_read_timeout_slice_ms = None, ca_read_mode = plain_read, ca_started = 0, ca_deadline = 0\<rparr>"

section \<open>Requests\<close>

function drain_loop ::
    "'w transport \<Rightarrow> nat \<Rightarrow> int \<Rightarrow> nat \<Rightarrow> nat \<Rightarrow> nat \<Rightarrow> bytes list \<Rightarrow> ('w, bytes list) sop" where
  "drain_loop tr quiet_reads timeout_ms max_reads quiet reads packets w =
     (if quiet < quiet_reads then
        (if max_reads \<le> reads then (Inl DatastoreTimeout, w)
         else case read_logical_frame tr plain_read (Some timeout_ms) w of
           (Inl e, w') \<Rightarrow> (Inl e, w')
         | (Inr packet, w') \<Rightarrow>
             if packet \<noteq> []
             then drain_loop tr quiet_reads timeout_ms max_reads 0 (reads + 1) (packets @ [packet]) w'
             else drain_loop tr quiet_reads timeout_ms max_reads (quiet + 1) (reads + 1) packets w')
      else (Inr packets, w))"
  by pat_completeness auto
termination
  by (relation "measure (\<lambda>(tr, q, t, max_reads, quiet, reads, ps, w). max_reads - reads)") auto

declare drain_loop.simps [simp del]

definition drain_quiet :: "'w transport \<Rightarrow> nat \<Rightarrow> int \<Rightarrow> nat \<Rightarrow> ('w, bytes list) sop" where
  "drain_quiet tr quiet_reads timeout_ms max_reads =
     drain_loop tr quiet_reads timeout_ms max_reads 0 0 []"

definition sess_init :: "'w transport \<Rightarrow> ('w, unit) sess" where
  "sess_init tr =
     bindS sess_next_host_seq (\<lambda>q.
     bindS (write_frame tr (build_init q)) (\<lambda>_.
     bindS (onWorld (drain_quiet tr 1 200 16)) (\<lambda>_. retS ())))"

text \<open>The keyword arguments of \<open>get\<close>.\<close>

record 'w get_args =
  ga_etag :: pystr
  ga_client :: "query_field_value option"
  ga_timeout_ms :: int
  ga_should_cancel :: "('w, bool) sop option"
  ga_read_timeout_slice_ms :: "int option"
  ga_read_mode :: "'w read_mode"
  ga_query_fields :: query_fields_arg

definition default_get_args :: "'w get_args" where
  "default_get_args =
     \<lparr>ga_etag = lit ''0'', ga_client = None, ga_timeout_ms = DEFAULT_RESPONSE_TIMEOUT_MS,
      ga_should_cancel = None, ga_read_timeout_slice_ms = None, ga_read_mode = plain_read,
      ga_query_fields = NoFields\<rparr>"

definition sess_get :: "'w transport \<Rightarrow> pystr \<Rightarrow> 'w get_args \<Rightarrow> ('w, bytes) sess" where
  "sess_get tr path ga = (\<lambda>(d, w).
     let message_seq = current_message_seq d in
     bindS sess_next_host_seq (\<lambda>q.
     bindS (liftR (build_get_frame q message_seq path (ga_etag ga) (lit ''NREK'') (ga_client ga)
                     (ga_query_fields ga))) (\<lambda>frame.
     bindS (write_frame tr frame) (\<lambda>_.
     bindS (modS (\<lambda>(d, w). (advance_message_seq d, w))) (\<lambda>_.
     collect_response tr
       ((default_collect_args message_seq (ga_timeout_ms ga))
          \<lparr>ca_should_cancel := ga_should_cancel ga,
           ca_read_timeout_slice_ms := ga_read_timeout_slice_ms ga,
           ca_read_mode := ga_read_mode ga\<rparr>))))) (d, w))"

definition sess_post ::
    "'w transport \<Rightarrow> pystr \<Rightarrow> bytes \<Rightarrow> query_field_value option \<Rightarrow> int \<Rightarrow> ('w, bytes) sess" where
  "sess_post tr path json_body client timeout_ms = (\<lambda>(d, w).
     let message_seq = current_message_seq d in
     bindS sess_next_host_seq (\<lambda>q.
     bindS (liftR (build_post_frame q message_seq path json_body (lit ''NREK'') client)) (\<lambda>frame.
     bindS (write_frame tr frame) (\<lambda>_.
     bindS (modS (\<lambda>(d, w). (advance_message_seq d, w))) (\<lambda>_.
     collect_response tr (default_collect_args message_seq timeout_ms))))) (d, w))"

section \<open>What one packet does to the collection\<close>

text \<open>
  Either the packet is a valid frame of this message and is appended, within the limits, or the
  accepted frames stay as they are.
\<close>

definition accepts :: "'w collect_args \<Rightarrow> collect_state \<Rightarrow> bytes \<Rightarrow> collect_state \<Rightarrow> bool \<Rightarrow> bool" where
  "accepts ca cs packet cs' stop \<longleftrightarrow>
     (\<exists>f. parse_response_frame packet (ca_expected_message_seq ca) = Inr f \<and>
          cs_frames cs' = cs_frames cs @ [f] \<and> cs_total cs' = cs_total cs + length packet \<and>
          stop = rf_final f \<and> length (cs_frames cs') \<le> ca_max_response_frames ca \<and>
          cs_total cs' \<le> ca_max_bytes ca)"

definition skips :: "collect_state \<Rightarrow> collect_state \<Rightarrow> bool \<Rightarrow> bool" where
  "skips cs cs' stop \<longleftrightarrow> cs_frames cs' = cs_frames cs \<and> cs_total cs' = cs_total cs \<and> \<not> stop"

lemma collect_packet_cases:
  assumes "collect_packet tr ca cs packet s = (Inr (cs', stop), t)"
  shows "accepts ca cs packet cs' stop \<or> skips cs cs' stop"
  using assms
  by (auto simp: accepts_def skips_def collect_packet_def collect_stale_def collect_current_def
      ignore_packet_def Let_def result_simps split: if_splits option.splits sum.splits exc.splits)

lemma collect_received_cases:
  assumes "collect_received tr ca cs packet s = (Inr (cs', stop), t)"
  shows "accepts ca cs packet cs' stop \<or> skips cs cs' stop"
  using assms
  by (auto simp: collect_received_def Let_def result_simps skips_def accepts_def
      split: if_splits dest!: collect_packet_cases)

lemma collect_read_Inr:
  "collect_read tr ca cs rt s = (Inr packet, t) \<Longrightarrow>
   onWorld (read_logical_frame tr (ca_read_mode ca) (Some rt)) s = (Inr packet, t)"
  by (auto simp: collect_read_def onErrorS_def split: prod.splits sum.splits if_splits)

section \<open>Transports with a log\<close>

text \<open>
  What a client may assume of a transport when it reasons about the traffic: \<open>sent\<close> lists the frames
  written in full and \<open>chunks\<close> the results of the bulk reads, in order.
\<close>

locale logged_transport =
  fixes tr :: "'w transport"
    and sent :: "'w \<Rightarrow> bytes list"
    and chunks :: "'w \<Rightarrow> bytes list"
  assumes write_log: "tr_bulk_write tr frame w = (r, w') \<Longrightarrow>
      sent w' = sent w @ (if r = Inr (int (length frame)) then [frame] else []) \<and> chunks w' = chunks w"
    and read_log: "tr_bulk_read tr n t w = (q, w') \<Longrightarrow>
      sent w' = sent w \<and> chunks w' = chunks w @ (case q of Inl _ \<Rightarrow> [] | Inr c \<Rightarrow> [c])"
    and begin_log: "tr_begin_read tr = Some f \<Longrightarrow> f n t w = (h, w') \<Longrightarrow>
      sent w' = sent w \<and> chunks w' = chunks w"
    and pending_log: "tr_pending_read tr k w = (q, w') \<Longrightarrow>
      sent w' = sent w \<and> chunks w' = chunks w @ (case q of Inl _ \<Rightarrow> [] | Inr c \<Rightarrow> [c])"
    and clock_log: "tr_monotonic tr w = (now, w') \<Longrightarrow> sent w' = sent w \<and> chunks w' = chunks w"
begin

text \<open>Callbacks that leave the traffic alone.\<close>

definition silent :: "('w, 'a) sop \<Rightarrow> bool" where
  "silent op \<longleftrightarrow> keepsS (\<lambda>w w'. sent w' = sent w \<and> chunks w' = chunks w) op"

definition silent_mode :: "'w read_mode \<Rightarrow> bool" where
  "silent_mode rm \<longleftrightarrow> (\<forall>f h. rm_read_started rm = Some f \<longrightarrow> silent (f h))"

definition silent_cancel :: "'w collect_args \<Rightarrow> bool" where
  "silent_cancel ca \<longleftrightarrow>
     (\<forall>f. ca_should_cancel ca = Some f \<longrightarrow> silent f) \<and> silent_mode (ca_read_mode ca)"

lemma silentD: "silent op \<Longrightarrow> op w = (r, w') \<Longrightarrow> sent w' = sent w \<and> chunks w' = chunks w"
  unfolding silent_def keepsS_def by (metis snd_conv)

lemma note_read_log:
  "silent_mode rm \<Longrightarrow> note_read rm h w = (r, w') \<Longrightarrow> sent w' = sent w \<and> chunks w' = chunks w"
  by (auto simp: note_read_def silent_mode_def split: option.splits dest: silentD)

lemma bulk_read_log:
  assumes "silent_mode rm" "bulk_read tr rm n t w = (r, w')"
  shows "sent w' = sent w \<and> (\<exists>cs. chunks w' = chunks w @ cs \<and> (\<forall>c. r = Inr c \<longrightarrow> cs = [c]))"
proof (cases "rm_cancellable rm")
  case False
  with assms(2) read_log show ?thesis by (fastforce simp: bulk_read_def split: sum.splits)
next
  case True
  show ?thesis
  proof (cases "tr_begin_read tr")
    case None
    with True assms(2) show ?thesis by (auto simp: bulk_read_def)
  next
    case (Some f)
    obtain h w1 where 1: "f n t w = (h, w1)" by fastforce
    note l1 = begin_log[OF Some 1]
    show ?thesis
    proof (cases h)
      case (Inl e)
      with True Some 1 assms(2) l1 show ?thesis by (auto simp: bulk_read_def bindS_apply)
    next
      case (Inr k)
      obtain u w2 where 2: "note_read rm (Some k) w1 = (u, w2)" by fastforce
      note l2 = note_read_log[OF assms(1) 2]
      obtain q w3 where 3: "tr_pending_read tr k w2 = (q, w3)" by fastforce
      note l3 = pending_log[OF 3]
      obtain v w4 where 4: "note_read rm None w3 = (v, w4)" by fastforce
      note l4 = note_read_log[OF assms(1) 4]
      show ?thesis
        using True Some Inr 1 2 3 4 assms(2) l1 l2 l3 l4
        by (cases u; cases q; cases v)
           (auto simp: bulk_read_def bindS_apply bindS_def finallyS_def onErrorS_def)
    qed
  qed
qed

lemma read_more_log:
  assumes "silent_mode rm" "read_more tr rm t expected acc w = (r, w')"
  shows "sent w' = sent w \<and> (\<exists>cs. chunks w' = chunks w @ cs \<and> (\<forall>p. r = Inr p \<longrightarrow> p = acc @ concat cs))"
  using assms(2)
proof (induction "expected - length acc" arbitrary: acc w rule: less_induct)
  case less
  show ?case
  proof (cases "length acc < expected")
    case False
    with less(2) show ?thesis by (auto simp: read_more.simps)
  next
    case True
    obtain q w1 where b: "bulk_read tr rm (max_chunk tr) t w = (q, w1)" by fastforce
    note l = bulk_read_log[OF assms(1) b]
    show ?thesis
    proof (cases "\<exists>c. q = Inr c \<and> c \<noteq> []")
      case False
      with b l less(2) True show ?thesis by (cases q) (auto simp: read_more.simps)
    next
      case c: True
      then obtain c where c: "q = Inr c" "c \<noteq> []" by blast
      with b less(2) True have "read_more tr rm t expected (acc @ c) w1 = (r, w')"
        by (simp add: read_more.simps[of tr rm t expected acc w])
      moreover have "expected - length (acc @ c) < expected - length acc"
        using True c(2) by (simp add: diff_less_mono2)
      ultimately show ?thesis using less(1)[of "acc @ c" w1] l c(1) by fastforce
    qed
  qed
qed

lemma read_logical_frame_log:
  assumes "silent_mode rm" "read_logical_frame tr rm t w = (r, w')"
  shows "sent w' = sent w \<and> (\<exists>cs. chunks w' = chunks w @ cs \<and> (\<forall>p. r = Inr p \<longrightarrow> p = concat cs))"
proof -
  obtain q w1 where b: "bulk_read tr rm (max_chunk tr) t w = (q, w1)" by fastforce
  note l = bulk_read_log[OF assms(1) b]
  show ?thesis
  proof (cases "\<exists>first e. q = Inr first \<and> first \<noteq> [] \<and> 4 \<le> length first \<and> read_u16 first 2 = Inr e \<and> 4 \<le> e")
    case False
    then show ?thesis using b l assms(2)
      by (cases q; cases "read_u16 (projr q) 2")
         (auto simp: read_logical_frame_def bindS_apply bindS_def split: if_splits)
  next
    case True
    then obtain first e where q: "q = Inr first" "first \<noteq> []" "4 \<le> length first"
      "read_u16 first 2 = Inr e" "4 \<le> e" by blast
    obtain q2 w2 where m: "read_more tr rm t (nat e) first w1 = (q2, w2)" by fastforce
    have "w' = w2 \<and> (\<forall>p. r = Inr p \<longrightarrow> q2 = Inr p)"
      using b q m assms(2)
      by (cases q2) (auto simp: read_logical_frame_def bindS_apply bindS_def split: if_splits)
    then show ?thesis using l q(1) read_more_log[OF assms(1) m] by fastforce
  qed
qed

end

section \<open>What a session sends\<close>

definition host_ok :: "motu_session \<Rightarrow> bool" where
  "host_ok d \<longleftrightarrow> HOST_SEQ_MIN \<le> hs_next (ms_host_seq d) \<and> hs_next (ms_host_seq d) < HOST_SEQ_MAX_EXCLUSIVE"

definition host_ack :: "bytes \<Rightarrow> bool" where
  "host_ack frame \<longleftrightarrow> (\<exists>q. HOST_SEQ_MIN \<le> q \<and> q < HOST_SEQ_MAX_EXCLUSIVE \<and> frame = build_ack q)"

lemma host_ok_next [simp]:
  "host_ok (d\<lparr>ms_host_seq := hs\<lparr>hs_next := next_host_seq x\<rparr>\<rparr>)"
  by (simp add: host_ok_def next_host_seq_def protocol_consts)

text \<open>
  A relation between session states that the primitive effects keep: the clock, an acknowledgement,
  and a change of the session's result fields. The code of a response collection then keeps it.
\<close>

locale session_relation =
  fixes tr :: "'w transport"
    and R :: "motu_session \<times> 'w \<Rightarrow> motu_session \<times> 'w \<Rightarrow> bool"
  assumes R_refl: "reflp R"
    and R_trans: "transp R"
    and R_clock: "keepsS R (monotonic tr)"
    and R_ack: "keepsS R (write_ack tr)"
    and R_fields: "ms_host_seq d' = ms_host_seq d \<Longrightarrow> ms_message_seq d' = ms_message_seq d \<Longrightarrow> R (d, w) (d', w)"
begin

lemma stats_keeps: "keepsS R (record_response_stats tr ca cs)"
  unfolding record_response_stats_def
  by (intro keeps_intros R_trans R_clock) (auto intro: R_fields)

lemma fail_keeps: "keepsS R (collect_fail tr ca cs e)"
  unfolding collect_fail_def by (intro keeps_intros R_trans R_refl stats_keeps)

lemmas prim_keeps = R_refl R_trans R_clock R_ack stats_keeps fail_keeps

lemma guard_keeps: "keepsS R (asks_cancel ca) \<Longrightarrow> keepsS R (collect_guard tr ca cs)"
  unfolding collect_guard_def Let_def by (intro keeps_intros prim_keeps)

lemma packet_keeps: "keepsS R (collect_packet tr ca cs packet)"
proof -
  have 1: "keepsS R (ignore_packet tr ca c)" for c
    unfolding ignore_packet_def by (intro keeps_intros prim_keeps)
  have 2: "keepsS R (collect_stale tr ca c packet q)" for c q
    unfolding collect_stale_def Let_def
    by (auto split: sum.splits exc.splits intro!: keeps_intros prim_keeps 1)
  have 3: "keepsS R (collect_current tr ca c packet q)" for c q
    unfolding collect_current_def Let_def
    by (auto split: sum.splits exc.splits intro!: keeps_intros prim_keeps 1)
  show ?thesis unfolding collect_packet_def Let_def
    by (auto split: option.splits intro!: keeps_intros prim_keeps 1 2 3)
qed

lemma received_keeps: "keepsS R (collect_received tr ca cs packet)"
  unfolding collect_received_def Let_def by (intro keeps_intros prim_keeps packet_keeps)

lemma finish_keeps: "keepsS R (collect_finish tr ca cs)"
  unfolding collect_finish_def
  by (auto split: sum.splits exc.splits intro!: keeps_intros prim_keeps R_fields)

text \<open>With reads and a cancellation test that keep the relation, the whole collection keeps it.\<close>

definition reads_keep :: "'w collect_args \<Rightarrow> bool" where
  "reads_keep ca \<longleftrightarrow> keepsS R (asks_cancel ca) \<and>
     (\<forall>rt. keepsS R (onWorld (read_logical_frame tr (ca_read_mode ca) (Some rt))))"

lemma iteration_keeps: "reads_keep ca \<Longrightarrow> keepsS R (collect_iteration tr ca cs)"
  unfolding collect_iteration_def collect_read_def
  by (intro keeps_intros prim_keeps guard_keeps received_keeps) (auto simp: reads_keep_def)

lemma loop_keeps:
  assumes "reads_keep ca"
  shows "keepsS R (collect_loop tr ca cs)"
  unfolding keepsS_def
proof
  fix s show "R s (snd (collect_loop tr ca cs s))"
  proof (induction "ca_max_reads ca - cs_reads cs" arbitrary: cs s rule: less_induct)
    case less
    obtain r t where it: "collect_iteration tr ca cs s = (r, t)"
      by (cases "collect_iteration tr ca cs s")
    have 1: "R s t"
      using iteration_keeps[OF assms, of cs] it by (metis keepsS_def snd_conv)
    show ?case
    proof (cases "cs_quiet_reads cs < 2 \<and> (\<exists>cs'. r = Inr (cs', False))")
      case False
      then show ?thesis using it 1 reflpD[OF R_refl, of s]
        by (cases r) (auto simp: collect_loop.simps[of tr ca cs s])
    next
      case True
      then obtain cs' where r: "cs_quiet_reads cs < 2" "r = Inr (cs', False)" by blast
      note d = collect_iteration_reads[OF it[unfolded r(2)]]
      have "R t (snd (collect_loop tr ca cs' t))" using d by (intro less) simp
      then show ?thesis using it r 1 R_trans
        by (auto simp: collect_loop.simps[of tr ca cs s] dest: transpD)
    qed
  qed
qed

lemma response_keeps: "reads_keep ca \<Longrightarrow> keepsS R (collect_response tr ca)"
  unfolding collect_response_def Let_def
  by (intro keeps_intros prim_keeps loop_keeps finish_keeps)
     (auto simp: reads_keep_def asks_cancel_def intro: R_fields)

end

context logged_transport
begin

text \<open>
  Between two states of a session only acknowledgements are written, the sequencer keeps its
  window and the message sequence stays.
\<close>

definition acks_only :: "motu_session \<times> 'w \<Rightarrow> motu_session \<times> 'w \<Rightarrow> bool" where
  "acks_only s s' \<longleftrightarrow>
     ms_message_seq (fst s') = ms_message_seq (fst s) \<and> (host_ok (fst s) \<longrightarrow> host_ok (fst s')) \<and>
     (\<exists>acks. sent (snd s') = sent (snd s) @ acks \<and> (host_ok (fst s) \<longrightarrow> list_all host_ack acks))"

definition no_reads :: "motu_session \<times> 'w \<Rightarrow> motu_session \<times> 'w \<Rightarrow> bool" where
  "no_reads s s' \<longleftrightarrow> chunks (snd s') = chunks (snd s)"

lemma quiet_acks_only: "sent w' = sent w \<Longrightarrow> ms_message_seq d' = ms_message_seq d \<Longrightarrow>
   ms_host_seq d' = ms_host_seq d \<Longrightarrow> acks_only (d, w) (d', w')"
  by (simp add: acks_only_def host_ok_def)

lemma write_ack_log: "acks_only s (snd (write_ack tr s)) \<and> no_reads s (snd (write_ack tr s))"
proof -
  obtain d w where s: "s = (d, w)" by fastforce
  define q where "q = hs_next (ms_host_seq d)"
  define d' where "d' = d\<lparr>ms_host_seq := (ms_host_seq d)\<lparr>hs_next := next_host_seq q\<rparr>\<rparr>"
  obtain r w' where wr: "tr_bulk_write tr (build_ack q) w = (r, w')" by fastforce
  have "snd (write_ack tr s) = (d', w')"
    using wr by (cases r) (auto simp: s q_def d'_def sess_defs bindS_def take_host_seq_def Let_def)
  moreover have "host_ok d \<Longrightarrow> host_ack (build_ack q)"
    by (auto simp: host_ok_def host_ack_def q_def)
  ultimately show ?thesis
    using write_log[OF wr] by (auto simp: acks_only_def no_reads_def s d'_def)
qed

end

sublocale logged_transport < acks: session_relation tr acks_only
proof unfold_locales
  show "reflp acks_only" by (auto simp: reflp_def acks_only_def)
  show "transp acks_only" unfolding transp_def acks_only_def by fastforce
  show "keepsS acks_only (monotonic tr)"
    unfolding keepsS_def monotonic_def
    by (auto intro!: quiet_acks_only split: prod.splits dest: clock_log)
  show "keepsS acks_only (write_ack tr)" using write_ack_log by (simp add: keepsS_def)
qed (simp add: quiet_acks_only)

sublocale logged_transport < noreads: session_relation tr no_reads
proof unfold_locales
  show "reflp no_reads" by (auto simp: reflp_def no_reads_def)
  show "transp no_reads" unfolding transp_def no_reads_def by fastforce
  show "keepsS no_reads (monotonic tr)"
    unfolding keepsS_def monotonic_def no_reads_def by (auto split: prod.splits dest: clock_log)
  show "keepsS no_reads (write_ack tr)" using write_ack_log by (simp add: keepsS_def)
qed (simp add: no_reads_def)

context logged_transport
begin

lemma silent_reads_keep: "silent_cancel ca \<Longrightarrow> acks.reads_keep ca"
  unfolding acks.reads_keep_def asks_cancel_def keepsS_def onWorld_def silent_cancel_def
  by (auto split: option.splits prod.splits intro!: quiet_acks_only dest: silentD read_logical_frame_log)

lemma silent_asks_cancel: "silent_cancel ca \<Longrightarrow> keepsS no_reads (asks_cancel ca)"
  unfolding asks_cancel_def keepsS_def onWorld_def silent_cancel_def no_reads_def
  by (auto split: option.splits prod.splits dest: silentD)

text \<open>
  The packets behind the accepted frames: every iteration reads one group of chunks, and the
  accepted packets are some of the groups, in order.
\<close>

definition reads_from :: "'w \<Rightarrow> 'w \<Rightarrow> bytes list list \<Rightarrow> bytes list \<Rightarrow> bool" where
  "reads_from w w' groups packets \<longleftrightarrow>
     chunks w' = chunks w @ concat groups \<and> subseq packets (map concat groups)"

definition parsed_as :: "int \<Rightarrow> bytes list \<Rightarrow> response_frame list \<Rightarrow> bool" where
  "parsed_as seq packets frames \<longleftrightarrow> list_all2 (\<lambda>p f. parse_response_frame p seq = Inr f) packets frames"

lemma iteration_reads:
  assumes "silent_cancel ca" "collect_iteration tr ca cs s = (Inr (cs', stop), t)"
  shows "\<exists>group. chunks (snd t) = chunks (snd s) @ group \<and>
           (accepts ca cs (concat group) cs' stop \<or> skips cs cs' stop)"
proof -
  from assms(2) obtain rt u packet v where
    g: "collect_guard tr ca cs s = (Inr rt, u)" and r: "collect_read tr ca cs rt u = (Inr packet, v)"
    and k: "collect_received tr ca cs packet v = (Inr (cs', stop), t)"
    by (auto simp: collect_iteration_def result_simps)
  have "no_reads s u" using noreads.guard_keeps[OF silent_asks_cancel[OF assms(1)]] g
    by (metis keepsS_def snd_conv)
  moreover have "no_reads v t" using noreads.received_keeps k by (metis keepsS_def snd_conv)
  moreover obtain group where "chunks (snd v) = chunks (snd u) @ group" "packet = concat group"
    using collect_read_Inr[OF r] assms(1) unfolding onWorld_def silent_cancel_def
    by (auto split: prod.splits dest!: read_logical_frame_log)
  ultimately show ?thesis using collect_received_cases[OF k] by (auto simp: no_reads_def)
qed

definition collected :: "'w collect_args \<Rightarrow> collect_state \<Rightarrow> 'w \<Rightarrow> collect_state \<Rightarrow> 'w \<Rightarrow> bool" where
  "collected ca cs w cs' w' \<longleftrightarrow>
     (\<exists>groups packets frames. reads_from w w' groups packets \<and>
        parsed_as (ca_expected_message_seq ca) packets frames \<and>
        cs_frames cs' = cs_frames cs @ frames \<and>
        cs_total cs' = cs_total cs + sum_list (map length packets) \<and>
        cs_reads cs' = cs_reads cs + length groups \<and>
        (frames \<noteq> [] \<longrightarrow> length (cs_frames cs') \<le> ca_max_response_frames ca \<and>
                         cs_total cs' \<le> ca_max_bytes ca))"

lemma collected_refl: "collected ca cs w cs w"
  unfolding collected_def reads_from_def parsed_as_def
  by (rule exI[of _ "[]"], rule exI[of _ "[]"], rule exI[of _ "[]"]) simp

lemma collected_Cons:
  assumes "silent_cancel ca" and it: "collect_iteration tr ca cs s = (Inr (cs1, stop), t)"
    and rest: "collected ca cs1 (snd t) cs' w'"
  shows "collected ca cs (snd s) cs' w'"
proof -
  obtain group where g: "chunks (snd t) = chunks (snd s) @ group"
    "accepts ca cs (concat group) cs1 stop \<or> skips cs cs1 stop"
    using iteration_reads[OF assms(1,2)] by blast
  note n = collect_iteration_reads(1)[OF it]
  obtain groups packets frames where c: "reads_from (snd t) w' groups packets"
      "parsed_as (ca_expected_message_seq ca) packets frames" "cs_frames cs' = cs_frames cs1 @ frames"
      "cs_total cs' = cs_total cs1 + sum_list (map length packets)"
      "cs_reads cs' = cs_reads cs1 + length groups"
      "frames \<noteq> [] \<longrightarrow> length (cs_frames cs') \<le> ca_max_response_frames ca \<and> cs_total cs' \<le> ca_max_bytes ca"
    using rest unfolding collected_def by blast
  from g(2) show ?thesis
  proof
    assume "accepts ca cs (concat group) cs1 stop"
    then obtain f where f: "parse_response_frame (concat group) (ca_expected_message_seq ca) = Inr f"
       "cs_frames cs1 = cs_frames cs @ [f]" "cs_total cs1 = cs_total cs + length (concat group)"
       "length (cs_frames cs1) \<le> ca_max_response_frames ca" "cs_total cs1 \<le> ca_max_bytes ca"
      by (auto simp: accepts_def)
    have b: "length (cs_frames cs') \<le> ca_max_response_frames ca \<and> cs_total cs' \<le> ca_max_bytes ca"
      using c f by (cases "frames = []") (auto simp: parsed_as_def)
    show ?thesis unfolding collected_def
      by (rule exI[of _ "group # groups"], rule exI[of _ "concat group # packets"], rule exI[of _ "f # frames"])
         (use b c f g(1) n in \<open>auto simp: reads_from_def parsed_as_def\<close>)
  next
    assume "skips cs cs1 stop"
    then show ?thesis unfolding collected_def
      by (intro exI[of _ "group # groups"] exI[of _ packets] exI[of _ frames])
         (use c g(1) n in \<open>auto simp: reads_from_def skips_def\<close>)
  qed
qed

lemma loop_collected:
  assumes "silent_cancel ca" "collect_loop tr ca cs s = (Inr cs', t)"
  shows "collected ca cs (snd s) cs' (snd t)"
  using assms(2)
proof (induction "ca_max_reads ca - cs_reads cs" arbitrary: cs s rule: less_induct)
  case less
  show ?case
  proof (cases "cs_quiet_reads cs < 2")
    case False
    with less(2) show ?thesis using collected_refl by (auto simp: collect_loop.simps[of tr ca cs s])
  next
    case True
    with less(2) obtain cs1 stop u where it: "collect_iteration tr ca cs s = (Inr (cs1, stop), u)"
      and nx: "(if stop then (Inr cs1, u) else collect_loop tr ca cs1 u) = (Inr cs', t)"
      by (auto simp: collect_loop.simps[of tr ca cs s] split: prod.splits sum.splits)
    have "collected ca cs1 (snd u) cs' (snd t)"
      using nx collected_refl less(1)[of cs1 u] collect_iteration_reads[OF it] by (cases stop) auto
    then show ?thesis by (rule collected_Cons[OF assms(1) it])
  qed
qed

end
section \<open>What a returned response is made of\<close>

lemma join_parsed_Inr:
  "join_parsed_response_frames frames = Inr r \<Longrightarrow>
   segments_in_order frames \<and> r = concat (map rf_payload frames)"
  using join_loop_Inr_iff [of 0 frames "length frames" r]
  by (auto simp: join_parsed_response_frames_def segments_in_order_def split: if_splits)

text \<open>
  \<open>response\<close> is made of what the device sent: of the chunks \<open>received\<close>, grouped into at most 546
  logical packets, some packets, in order, are valid frames of message \<open>seq\<close>; they are a complete
  ordered set of segments within the limits, and \<open>response\<close> joins their payloads.
\<close>

definition authentic_response :: "int \<Rightarrow> bytes list \<Rightarrow> bytes \<Rightarrow> bool" where
  "authentic_response seq received response \<longleftrightarrow>
     (\<exists>groups packets frames.
        received = concat groups \<and> length groups \<le> DEFAULT_MAX_RESPONSE_READS \<and>
        subseq packets (map concat groups) \<and>
        list_all2 (\<lambda>p f. parse_response_frame p seq = Inr f) packets frames \<and>
        frames \<noteq> [] \<and> length frames \<le> DEFAULT_MAX_RESPONSE_FRAMES \<and>
        sum_list (map length packets) \<le> DEFAULT_MAX_RESPONSE_BYTES \<and>
        segments_in_order frames \<and> response = concat (map rf_payload frames))"

definition default_limits :: "'w collect_args \<Rightarrow> bool" where
  "default_limits ca \<longleftrightarrow> ca_max_bytes ca = DEFAULT_MAX_RESPONSE_BYTES \<and>
     ca_max_reads ca = DEFAULT_MAX_RESPONSE_READS \<and>
     ca_max_response_frames ca = DEFAULT_MAX_RESPONSE_FRAMES"

lemma collect_loop_reads_le:
  assumes "collect_loop tr ca cs s = (Inr cs', t)" "cs_reads cs \<le> ca_max_reads ca"
  shows "cs_reads cs' \<le> ca_max_reads ca"
  using assms
proof (induction "ca_max_reads ca - cs_reads cs" arbitrary: cs s rule: less_induct)
  case less
  show ?case
  proof (cases "cs_quiet_reads cs < 2")
    case False
    with less(2,3) show ?thesis by (auto simp: collect_loop.simps[of tr ca cs s])
  next
    case True
    with less(2) obtain cs1 stop u where it: "collect_iteration tr ca cs s = (Inr (cs1, stop), u)"
      and nx: "(if stop then (Inr cs1, u) else collect_loop tr ca cs1 u) = (Inr cs', t)"
      by (auto simp: collect_loop.simps[of tr ca cs s] split: prod.splits sum.splits)
    show ?thesis using nx less(1)[of cs1 u] collect_iteration_reads[OF it] by (cases stop) auto
  qed
qed

context logged_transport
begin

lemma response_authentic:
  assumes sc: "silent_cancel ca" and lim: "default_limits ca"
    and ok: "collect_response tr ca s = (Inr response, t)"
  shows "\<exists>received. chunks (snd t) = chunks (snd s) @ received \<and>
    authentic_response (ca_expected_message_seq ca) received response"
proof -
  obtain d w where s: "s = (d, w)" by fastforce
  obtain st n1 n2 d1 d2 w1 w2 cs u where
    c1: "tr_monotonic tr w = (st, w1)" and c2: "tr_monotonic tr w1 = (n2, w2)" and
    lp: "collect_loop tr (ca\<lparr>ca_started := st, ca_deadline := n2 + of_int (ca_timeout_ms ca) / 1000\<rparr>)
           collect_start (d1, w2) = (Inr cs, u)" and
    fin: "collect_finish tr (ca\<lparr>ca_started := st, ca_deadline := n2 + of_int (ca_timeout_ms ca) / 1000\<rparr>) cs u
           = (Inr response, t)"
    using ok unfolding collect_response_def s Let_def
    by (auto simp: result_simps monotonic_def split: prod.splits)
  let ?ca = "ca\<lparr>ca_started := st, ca_deadline := n2 + of_int (ca_timeout_ms ca) / 1000\<rparr>"
  have sc': "silent_cancel ?ca" using sc by (simp add: silent_cancel_def)
  have w2: "chunks w2 = chunks w" using clock_log[OF c1] clock_log[OF c2] by simp
  have ut: "chunks (snd t) = chunks (snd u)"
    using noreads.finish_keeps fin by (metis keepsS_def no_reads_def snd_conv)
  have nonempty: "cs_frames cs \<noteq> []" "join_parsed_response_frames (cs_frames cs) = Inr response"
    using fin by (auto simp: collect_finish_def result_simps split: if_splits sum.splits exc.splits)
  have le: "cs_reads cs \<le> ca_max_reads ca"
    using collect_loop_reads_le[OF lp] by (simp add: collect_start_def)
  obtain groups packets frames where c: "reads_from w2 (snd u) groups packets"
      "parsed_as (ca_expected_message_seq ca) packets frames" "cs_frames cs = frames"
      "cs_total cs = sum_list (map length packets)" "cs_reads cs = length groups"
      "frames \<noteq> [] \<longrightarrow> length frames \<le> ca_max_response_frames ca \<and> cs_total cs \<le> ca_max_bytes ca"
    using loop_collected[OF sc' lp] by (auto simp: collected_def collect_start_def)
  have "authentic_response (ca_expected_message_seq ca) (concat groups) response"
    unfolding authentic_response_def
    using c nonempty le lim join_parsed_Inr[OF nonempty(2)]
    by (intro exI[of _ groups] exI[of _ packets] exI[of _ frames])
       (simp add: reads_from_def parsed_as_def default_limits_def)
  then show ?thesis using c(1) w2 ut by (auto simp: reads_from_def s)
qed

text \<open>A request: one frame is written, then the response is collected.\<close>

lemma request_then_collect:
  assumes d: "host_ok d" and sc: "silent_cancel ca"
    and run: "bindS sess_next_host_seq (\<lambda>q. bindS (liftR (build q)) (\<lambda>frame.
      bindS (write_frame tr frame) (\<lambda>_. bindS (modS (\<lambda>(d, w). (advance_message_seq d, w))) (\<lambda>_.
      collect_response tr ca)))) (d, w) = (r, (d', w'))"
  shows "host_ok d' \<and>
    (case build (hs_next (ms_host_seq d)) of
       Inl e \<Rightarrow> r = Inl e \<and> ms_message_seq d' = ms_message_seq d \<and> w' = w
     | Inr frame \<Rightarrow>
         (if fst (tr_bulk_write tr frame w) = Inr (int (length frame)) then
            ms_message_seq d' = ms_message_seq (advance_message_seq d) \<and>
            (\<exists>acks. sent w' = sent w @ frame # acks \<and> list_all host_ack acks) \<and>
            (default_limits ca \<longrightarrow> (\<forall>response. r = Inr response \<longrightarrow>
               (\<exists>received. chunks w' = chunks w @ received \<and>
                  authentic_response (ca_expected_message_seq ca) received response)))
          else (\<exists>e. r = Inl e) \<and> ms_message_seq d' = ms_message_seq d \<and> sent w' = sent w \<and>
            chunks w' = chunks w))"
proof -
  let ?q = "hs_next (ms_host_seq d)"
  define d1 where "d1 = d\<lparr>ms_host_seq := (ms_host_seq d)\<lparr>hs_next := next_host_seq ?q\<rparr>\<rparr>"
  have d1: "host_ok d1" "ms_message_seq d1 = ms_message_seq d" by (simp_all add: d1_def)
  have hs: "sess_next_host_seq (d, w) = (Inr ?q, (d1, w))"
    by (simp add: sess_next_host_seq_def take_host_seq_def Let_def d1_def)
  note hs' = bindS_apply(2)[where m = sess_next_host_seq, OF hs]
  show ?thesis
  proof (cases "build ?q")
    case (Inl e)
    with run have "r = Inl e \<and> d' = d1 \<and> w' = w" by (auto simp: hs')
    with Inl d1 show ?thesis by simp
  next
    case (Inr frame)
    obtain wr w1 where wr: "tr_bulk_write tr frame w = (wr, w1)" by fastforce
    note lw = write_log[OF wr]
    show ?thesis
    proof (cases "wr = Inr (int (length frame))")
      case False
      have "\<exists>e. write_frame tr frame (d1, w) = (Inl e, (d1, w1))"
        using wr False by (cases wr) (auto simp: write_frame_def onWorld_def bindS_def)
      then obtain e where "write_frame tr frame (d1, w) = (Inl e, (d1, w1))" by blast
      with run Inr False wr lw d1 show ?thesis
        by (auto simp: hs' bindS_def[of "write_frame tr frame"])
    next
      case True
      have "write_frame tr frame (d1, w) = (Inr (), (d1, w1))"
        using wr True by (auto simp: write_frame_def onWorld_def bindS_def)
      then have c: "collect_response tr ca (advance_message_seq d1, w1) = (r, (d', w'))"
        using run Inr by (simp add: hs' bindS_def[of "write_frame tr frame"])
      have "acks_only (advance_message_seq d1, w1) (d', w')"
        using acks.response_keeps[OF silent_reads_keep[OF sc]] c by (metis keepsS_def snd_conv)
      moreover have "host_ok (advance_message_seq d1)" using d1 by (simp add: host_ok_def advance_message_seq_def)
      moreover have "ms_message_seq (advance_message_seq d1) = ms_message_seq (advance_message_seq d)"
        using d1 by (simp add: advance_message_seq_def current_message_seq_def)
      moreover have "default_limits ca \<Longrightarrow> r = Inr response \<Longrightarrow>
          \<exists>received. chunks w' = chunks w @ received \<and>
                  authentic_response (ca_expected_message_seq ca) received response" for response
        using response_authentic[OF sc] c lw by fastforce
      ultimately show ?thesis using Inr True wr lw by (auto simp: acks_only_def)
    qed
  qed
qed

end

section \<open>Any transport, with its traffic recorded\<close>

text \<open>
  \<open>logging tr\<close> behaves as \<open>tr\<close> and records, beside the world of \<open>tr\<close>, the frames written in full
  and the chunks read.
\<close>

definition logging :: "'w transport \<Rightarrow> ('w \<times> bytes list \<times> bytes list) transport" where
  "logging tr =
     \<lparr>tr_max_packet_size = tr_max_packet_size tr,
      tr_bulk_write = (\<lambda>frame (w, out, inp). case tr_bulk_write tr frame w of
        (r, w') \<Rightarrow> (r, (w', if r = Inr (int (length frame)) then out @ [frame] else out, inp))),
      tr_bulk_read = (\<lambda>n t (w, out, inp). case tr_bulk_read tr n t w of
        (Inl e, w') \<Rightarrow> (Inl e, (w', out, inp)) | (Inr c, w') \<Rightarrow> (Inr c, (w', out, inp @ [c]))),
      tr_begin_read = map_option (\<lambda>f n t (w, out, inp). case f n t w of (r, w') \<Rightarrow> (r, (w', out, inp)))
        (tr_begin_read tr),
      tr_pending_read = (\<lambda>h (w, out, inp). case tr_pending_read tr h w of
        (Inl e, w') \<Rightarrow> (Inl e, (w', out, inp)) | (Inr c, w') \<Rightarrow> (Inr c, (w', out, inp @ [c]))),
      tr_monotonic = (\<lambda>(w, out, inp). case tr_monotonic tr w of (now, w') \<Rightarrow> (now, (w', out, inp)))\<rparr>"

interpretation lt: logged_transport "logging tr" "\<lambda>w. fst (snd w)" "\<lambda>w. snd (snd w)"
  for tr :: "'w transport"
  by unfold_locales (auto simp: logging_def split: prod.splits sum.splits)

text \<open>A callback that leaves the record alone.\<close>

definition leaves_log :: "('w \<times> bytes list \<times> bytes list, 'a) sop \<Rightarrow> bool" where
  "leaves_log op \<longleftrightarrow> (\<forall>w. snd (snd (op w)) = snd w)"

definition leaves_log_args :: "('w \<times> bytes list \<times> bytes list) get_args \<Rightarrow> bool" where
  "leaves_log_args ga \<longleftrightarrow>
     (\<forall>f. ga_should_cancel ga = Some f \<longrightarrow> leaves_log f) \<and>
     (\<forall>f h. rm_read_started (ga_read_mode ga) = Some f \<longrightarrow> leaves_log (f h))"

lemma leaves_log_silent: "leaves_log op \<Longrightarrow> lt.silent op"
  by (simp add: lt.silent_def keepsS_def leaves_log_def)

lemma and_MAX_MESSAGE_SEQ: "x AND MAX_MESSAGE_SEQ = x mod 2 ^ 32"
proof -
  have "MAX_MESSAGE_SEQ = mask 32" by (simp add: MAX_MESSAGE_SEQ_def mask_eq_exp_minus_1)
  then have "x AND MAX_MESSAGE_SEQ = take_bit 32 x" by (simp only: take_bit_eq_mask)
  then show ?thesis by (simp add: take_bit_eq_mod)
qed

lemma advance_message_seq_eq:
  "ms_message_seq (advance_message_seq d) = (current_message_seq d + 1) mod 2 ^ 32"
  by (simp add: advance_message_seq_def and_MAX_MESSAGE_SEQ)

lemma current_message_seq_bounds: "0 \<le> current_message_seq d \<and> current_message_seq d < 2 ^ 32"
  by (simp add: current_message_seq_def and_MAX_MESSAGE_SEQ)

interpretation mseq: cyclic_counter "\<lambda>x. ((x AND MAX_MESSAGE_SEQ) + 1) AND MAX_MESSAGE_SEQ" 0 "2 ^ 32"
proof unfold_locales
  fix x :: int assume "0 \<le> x" "x < 0 + 2 ^ 32"
  then show "((x AND MAX_MESSAGE_SEQ) + 1) AND MAX_MESSAGE_SEQ = (if x + 1 = 0 + 2 ^ 32 then 0 else x + 1)"
    by (simp add: and_MAX_MESSAGE_SEQ)
qed simp

text \<open>C1: A read returns only what the device answered to this request, whatever the device and the
  transport do: if \<open>get\<close> returns, then exactly one request frame was written, followed by nothing but
  acknowledgements with host sequence numbers of the window, and the response joins the payloads of a
  complete ordered set of valid frames carrying this request's message sequence, taken in order from
  the packets received during the call (at most 546 packets, 256 frames, one MiB). A frame left over
  from an earlier request never becomes part of it.\<close>

theorem get_response_authentic:
  assumes "host_ok d" and "leaves_log_args ga"
    and "sess_get (logging tr) path ga (d, (w, [], [])) = (Inr response, (d', (w', sent, received)))"
  shows "host_ok d' \<and> ms_message_seq d' = (current_message_seq d + 1) mod 2 ^ 32 \<and>
    authentic_response (current_message_seq d) received response \<and>
    (\<exists>request acks. build_get_frame (hs_next (ms_host_seq d)) (current_message_seq d) path (ga_etag ga)
         (lit ''NREK'') (ga_client ga) (ga_query_fields ga) = Inr request \<and>
       sent = request # acks \<and> list_all host_ack acks)"
proof -
  let ?ca = "(default_collect_args (current_message_seq d) (ga_timeout_ms ga))
          \<lparr>ca_should_cancel := ga_should_cancel ga,
           ca_read_timeout_slice_ms := ga_read_timeout_slice_ms ga,
           ca_read_mode := ga_read_mode ga\<rparr>"
  have sc: "lt.silent_cancel ?ca"
    using assms(2) by (auto simp: lt.silent_cancel_def lt.silent_mode_def leaves_log_args_def
        intro: leaves_log_silent)
  have lim: "default_limits ?ca" "ca_expected_message_seq ?ca = current_message_seq d"
    by (simp_all add: default_limits_def default_collect_args_def)
  show ?thesis
    using lt.request_then_collect[OF assms(1) sc assms(3)[unfolded sess_get_def prod.case Let_def]] lim
    by (auto simp: advance_message_seq_eq split: sum.splits if_splits)
qed

text \<open>C12: A write is sent at most once: whatever the outcome of \<open>post\<close>, the frames written in full are
  none (the frame could not be built, or the transport refused it; the message sequence stays), or the
  one request followed only by acknowledgements (the message sequence advances modulo \<open>2 ^ 32\<close>). The
  session never repeats a write by itself.\<close>

theorem post_sent_once:
  assumes "host_ok d"
    and "sess_post (logging tr) path body client timeout_ms (d, (w, [], [])) = (r, (d', (w', sent, received)))"
  shows "host_ok d' \<and>
    (case build_post_frame (hs_next (ms_host_seq d)) (current_message_seq d) path body (lit ''NREK'') client of
       Inl e \<Rightarrow> r = Inl e \<and> sent = [] \<and> ms_message_seq d' = ms_message_seq d
     | Inr request \<Rightarrow>
         if fst (tr_bulk_write tr request w) = Inr (int (length request))
         then (\<exists>acks. sent = request # acks \<and> list_all host_ack acks) \<and>
              ms_message_seq d' = (current_message_seq d + 1) mod 2 ^ 32
         else (\<exists>e. r = Inl e) \<and> sent = [] \<and> ms_message_seq d' = ms_message_seq d)"
proof -
  let ?ca = "default_collect_args (current_message_seq d) timeout_ms ::
    ('a \<times> bytes list \<times> bytes list) collect_args"
  have sc: "lt.silent_cancel ?ca"
    by (simp add: lt.silent_cancel_def lt.silent_mode_def default_collect_args_def plain_read_def)
  have wr: "fst (tr_bulk_write (logging tr) f (w, [], [])) = fst (tr_bulk_write tr f w)" for f
    by (simp add: logging_def split: prod.splits)
  show ?thesis
    using lt.request_then_collect[OF assms(1) sc assms(2)[unfolded sess_post_def prod.case Let_def]]
    by (simp add: advance_message_seq_eq wr split: sum.splits if_splits)
qed

section \<open>A scripted device\<close>

text \<open>
  A concrete transport for end-to-end statements: bulk reads return the scripted chunks in order
  (nothing once they are used up), writes succeed, and the clock stands still.
\<close>

record script_device =
  sd_reads :: "bytes list"
  sd_sent :: "bytes list"
  sd_received :: "bytes list"
  sd_now :: rat

definition script_read :: "(script_device, bytes) sop" where
  "script_read w =
     (case sd_reads w of
        [] \<Rightarrow> (Inr [], w\<lparr>sd_received := sd_received w @ [[]]\<rparr>)
      | c # cs \<Rightarrow> (Inr c, w\<lparr>sd_reads := cs, sd_received := sd_received w @ [c]\<rparr>))"

definition script_transport :: "script_device transport" where
  "script_transport =
     \<lparr>tr_max_packet_size = Some 512,
      tr_bulk_write = (\<lambda>frame w. (Inr (int (length frame)), w\<lparr>sd_sent := sd_sent w @ [frame]\<rparr>)),
      tr_bulk_read = (\<lambda>n t. script_read),
      tr_begin_read = None,
      tr_pending_read = (\<lambda>h. script_read),
      tr_monotonic = (\<lambda>w. (sd_now w, w))\<rparr>"

interpretation sd: logged_transport script_transport sd_sent sd_received
  by unfold_locales (auto simp: script_transport_def script_read_def split: list.splits)

lemma script_bulk_read:
  "bulk_read script_transport plain_read n t w = script_read w"
  by (simp add: bulk_read_def plain_read_def script_transport_def)

lemma read_more_script:
  assumes "\<forall>x\<in>set cs. x \<noteq> []" "sd_reads w = cs @ rest" "expected = length acc + length (concat cs)"
  shows "read_more script_transport plain_read t expected acc w =
    (Inr (acc @ concat cs), w\<lparr>sd_reads := rest, sd_received := sd_received w @ cs\<rparr>)"
  using assms
proof (induction cs arbitrary: acc w)
  case Nil
  then show ?case by (simp add: read_more.simps)
next
  case (Cons c cs)
  then show ?case
    by (subst read_more.simps) (simp add: script_bulk_read script_read_def)
qed

text \<open>How the bytes of a packet arrive: any cut into non-empty chunks whose first holds the header.\<close>

definition usb_cut :: "bytes \<Rightarrow> bytes list \<Rightarrow> bool" where
  "usb_cut p cs \<longleftrightarrow> concat cs = p \<and> [] \<notin> set cs \<and> cs \<noteq> [] \<and> 4 \<le> length (hd cs)"

lemma read_logical_frame_script:
  assumes cut: "usb_cut p cs" and len: "read_u16 p 2 = Inr (int (length p))"
    and w: "sd_reads w = cs @ rest"
  shows "read_logical_frame script_transport plain_read t w =
    (Inr p, w\<lparr>sd_reads := rest, sd_received := sd_received w @ cs\<rparr>)"
proof -
  obtain c cs' where cs: "cs = c # cs'" using cut by (cases cs) (auto simp: usb_cut_def)
  have c: "4 \<le> length c" "p = c @ concat cs'" using cut by (auto simp: usb_cut_def cs)
  have "read_u16 c 2 = Inr (int (length p))"
    using len c by (simp add: read_u16_def pyslice_def)
  moreover have "read_more script_transport plain_read t (length p) c
      (w\<lparr>sd_reads := cs' @ rest, sd_received := sd_received w @ [c]\<rparr>) =
      (Inr p, w\<lparr>sd_reads := rest, sd_received := sd_received w @ cs\<rparr>)"
    using cut c by (subst read_more_script[where cs = cs']) (auto simp: cs usb_cut_def)
  moreover have "c \<noteq> []" "4 \<le> length p" using c by auto
  ultimately show ?thesis using w cs c(1)
    by (simp add: read_logical_frame_def bindS_def script_bulk_read script_read_def)
qed

section \<open>Delivery through stale traffic\<close>

text \<open>What the device sends: frames (of this or another message) and acknowledgements.\<close>

datatype wire_item = Frame response_frame | DeviceAck byte

fun item_bytes :: "wire_item \<Rightarrow> bytes" where
  "item_bytes (Frame f) = response_frame_bytes f"
| "item_bytes (DeviceAck q) = [q, 0, 8, 0, q, 0, 8, 0]"

fun item_wf :: "wire_item \<Rightarrow> bool" where
  "item_wf (Frame f) = wf_response_frame f"
| "item_wf (DeviceAck q) = True"

fun frames_of :: "wire_item list \<Rightarrow> response_frame list" where
  "frames_of [] = []"
| "frames_of (Frame f # items) = f # frames_of items"
| "frames_of (DeviceAck q # items) = frames_of items"

definition current_frames :: "int \<Rightarrow> wire_item list \<Rightarrow> response_frame list" where
  "current_frames seq items = filter (\<lambda>f. rf_message_seq f = seq) (frames_of items)"

definition stale_frames_of :: "int \<Rightarrow> wire_item list \<Rightarrow> response_frame list" where
  "stale_frames_of seq items = filter (\<lambda>f. rf_message_seq f \<noteq> seq) (frames_of items)"

definition frames_size :: "response_frame list \<Rightarrow> nat" where
  "frames_size fs = sum_list (map (length \<circ> response_frame_bytes) fs)"

lemma response_frame_layout:
  assumes "wf_response_frame f"
  shows "read_u16 (response_frame_bytes f) 2 = Inr (int (length (response_frame_bytes f)))"
    and "response_message_seq (response_frame_bytes f) = Inr (Some (rf_message_seq f))"
    and "take 4 (drop 4 (response_frame_bytes f)) = rf_header f"
proof -
  let ?p = "response_frame_bytes f"
  have h: "length (rf_header f) = 4" "rf_header f = NREK \<or> rf_header f = PTTH"
    using assms by (auto simp: wf_response_frame_def)
  have len: "length ?p = 28 + length (rf_payload f)" by (rule length_response_frame_bytes[OF assms])
  have lt: "28 + int (length (rf_payload f)) < 65536" using assms by (simp add: wf_response_frame_def)
  have m: "0 \<le> rf_message_seq f \<and> rf_message_seq f < 4294967296" using assms by (simp add: wf_response_frame_def)
  show r: "read_u16 ?p 2 = Inr (int (length ?p))"
    using lt len by (simp add: read_u16_def response_frame_bytes_def raw_response_frame_def
        wrapper_bytes_def pyslice_def le16.dec_enc)
  show t: "take 4 (drop 4 ?p) = rf_header f"
    using h by (simp add: response_frame_bytes_def raw_response_frame_def)
  have "read_u32 (drop 4 ?p) 8 = Inr (rf_message_seq f)"
    using h m by (simp add: read_u32_def response_frame_bytes_def raw_response_frame_def pyslice_def le32.dec_enc)
  moreover have "pyslice ?p 4 (length ?p) = drop 4 ?p" by (simp add: pyslice_def)
  ultimately show "response_message_seq ?p = Inr (Some (rf_message_seq f))"
    using len r t h by (simp add: response_message_seq_def Let_def nat_add_distrib)
qed

lemma item_u16: "item_wf i \<Longrightarrow> read_u16 (item_bytes i) 2 = Inr (int (length (item_bytes i)))"
  by (cases i) (simp add: response_frame_layout, simp add: read_u16_def pyslice_def)

lemma script_write_ack:
  "write_ack script_transport (d, w) =
     (Inr (), (d\<lparr>ms_host_seq := (ms_host_seq d)\<lparr>hs_next := next_host_seq (hs_next (ms_host_seq d))\<rparr>\<rparr>,
               w\<lparr>sd_sent := sd_sent w @ [build_ack (hs_next (ms_host_seq d))]\<rparr>))"
  by (simp add: write_ack_def write_frame_def sess_next_host_seq_def take_host_seq_def Let_def onWorld_def
      bindS_def script_transport_def)

text \<open>What one well-formed item does to the loop variables.\<close>

definition stale_before :: "collect_state \<Rightarrow> int \<Rightarrow> collect_state" where
  "stale_before cs q = (if cs_stale_message_seq cs \<noteq> Some q
     then cs\<lparr>cs_stale_message_seq := Some q, cs_stale_frames := 0, cs_stale_total := 0\<rparr> else cs)"

lemma collect_packet_ack:
  "collect_packet tr ca cs (item_bytes (DeviceAck q)) s =
     (Inr (cs\<lparr>cs_ack_packets := cs_ack_packets cs + 1\<rparr>, False), s)"
  by (simp add: collect_packet_def is_device_ack_def pyslice_def)

lemma frame_not_ack: "wf_response_frame f \<Longrightarrow> \<not> is_device_ack (response_frame_bytes f)"
  by (simp add: is_device_ack_def length_response_frame_bytes)

lemma collect_packet_current:
  assumes "wf_response_frame f" "rf_message_seq f = ca_expected_message_seq ca"
    and "length (cs_frames cs) < ca_max_response_frames ca"
    and "cs_total cs + length (response_frame_bytes f) \<le> ca_max_bytes ca"
    and "write_ack tr s = (Inr (), t)"
  shows "collect_packet tr ca cs (response_frame_bytes f) s =
     (Inr (cs\<lparr>cs_frames := cs_frames cs @ [f],
              cs_total := cs_total cs + length (response_frame_bytes f)\<rparr>, rf_final f), t)"
proof -
  have "parse_response_frame (response_frame_bytes f) (rf_message_seq f) = Inr f"
    using parse_response_frame_complete[OF assms(1), of "[]"] by simp
  with assms show ?thesis
    by (auto simp: collect_packet_def collect_current_def Let_def frame_not_ack response_frame_layout
        length_response_frame_bytes wf_response_frame_def bindS_def)
qed

lemma collect_packet_stale:
  assumes "wf_response_frame f" "rf_message_seq f \<noteq> ca_expected_message_seq ca"
    and "cs_stale_frames cs < ca_max_response_frames ca"
    and "cs_stale_total cs + length (response_frame_bytes f) \<le> ca_max_bytes ca"
    and "write_ack tr s = (Inr (), t)"
  shows "\<exists>cs'. collect_packet tr ca cs (response_frame_bytes f) s = (Inr (cs', False), t) \<and>
     cs_frames cs' = cs_frames cs \<and> cs_total cs' = cs_total cs \<and> cs_reads cs' = cs_reads cs \<and>
     cs_quiet_reads cs' = cs_quiet_reads cs \<and> cs_stale_frames cs' \<le> cs_stale_frames cs + 1 \<and>
     cs_stale_total cs' \<le> cs_stale_total cs + length (response_frame_bytes f)"
proof -
  have "parse_response_frame (response_frame_bytes f) (rf_message_seq f) = Inr f"
    using parse_response_frame_complete[OF assms(1), of "[]"] by simp
  with assms show ?thesis
    by (auto simp: collect_packet_def collect_stale_def Let_def frame_not_ack response_frame_layout
        length_response_frame_bytes wf_response_frame_def bindS_def)
qed

text \<open>The standing assumptions on the arguments and the clock.\<close>

definition plain_args :: "script_device collect_args \<Rightarrow> rat \<Rightarrow> bool" where
  "plain_args ca now \<longleftrightarrow> ca_should_cancel ca = None \<and> ca_read_mode ca = plain_read \<and> now < ca_deadline ca"

lemma iteration_script:
  assumes ca: "plain_args ca (sd_now w)" and r: "cs_reads cs < ca_max_reads ca"
    and i: "item_wf i" "usb_cut (item_bytes i) c" "sd_reads w = c @ rest"
  shows "collect_iteration script_transport ca cs (d, w) =
    collect_packet script_transport ca (cs\<lparr>cs_reads := cs_reads cs + 1, cs_quiet_reads := 0\<rparr>)
      (item_bytes i) (d, w\<lparr>sd_reads := rest, sd_received := sd_received w @ c\<rparr>)"
proof -
  have mono: "monotonic script_transport (d, w) = (Inr (sd_now w), (d, w))"
    by (simp add: monotonic_def script_transport_def)
  have g: "\<exists>rt. collect_guard script_transport ca cs (d, w) = (Inr rt, (d, w))"
    using ca r mono by (simp add: collect_guard_def asks_cancel_def plain_args_def bindS_def Let_def)
  have ne: "item_bytes i \<noteq> []" using i by (cases i) (auto simp flip: length_greater_0_conv simp: length_response_frame_bytes)
  have "read_logical_frame script_transport plain_read t w =
      (Inr (item_bytes i), w\<lparr>sd_reads := rest, sd_received := sd_received w @ c\<rparr>)" for t
    by (rule read_logical_frame_script[OF i(2) item_u16[OF i(1)] i(3)])
  then have rd: "collect_read script_transport ca cs rt (d, w) =
      (Inr (item_bytes i), (d, w\<lparr>sd_reads := rest, sd_received := sd_received w @ c\<rparr>))" for rt
    using ca by (simp add: collect_read_def onErrorS_def onWorld_def plain_args_def)
  show ?thesis using g ne
    by (auto simp: collect_iteration_def bindS_def rd collect_received_def Let_def)
qed

text \<open>The limits that the rest of the traffic has to respect.\<close>

definition within_limits :: "'w collect_args \<Rightarrow> collect_state \<Rightarrow> wire_item list \<Rightarrow> bool" where
  "within_limits ca cs items \<longleftrightarrow>
     (let seq = ca_expected_message_seq ca in
      cs_reads cs + length items \<le> ca_max_reads ca \<and>
      length (cs_frames cs) + length (current_frames seq items) \<le> ca_max_response_frames ca \<and>
      cs_total cs + frames_size (current_frames seq items) \<le> ca_max_bytes ca \<and>
      cs_stale_frames cs + length (stale_frames_of seq items) \<le> ca_max_response_frames ca \<and>
      cs_stale_total cs + frames_size (stale_frames_of seq items) \<le> ca_max_bytes ca)"

lemmas items_simps = current_frames_def stale_frames_of_def frames_size_def within_limits_def Let_def

lemma iteration_item:
  assumes ca: "plain_args ca (sd_now w)" and lim: "within_limits ca cs (i # items)"
    and i: "item_wf i" "usb_cut (item_bytes i) c" "sd_reads w = c @ rest"
  shows "\<exists>cs' d' acks. collect_iteration script_transport ca cs (d, w) =
      (Inr (cs', \<exists>f \<in> set (current_frames (ca_expected_message_seq ca) [i]). rf_final f),
       (d', w\<lparr>sd_reads := rest, sd_received := sd_received w @ c, sd_sent := sd_sent w @ acks\<rparr>)) \<and>
    length acks = length (frames_of [i]) \<and>
    cs_frames cs' = cs_frames cs @ current_frames (ca_expected_message_seq ca) [i] \<and>
    cs_quiet_reads cs' = 0 \<and> within_limits ca cs' items"
proof -
  let ?cs = "cs\<lparr>cs_reads := cs_reads cs + 1, cs_quiet_reads := 0\<rparr>"
  let ?w = "w\<lparr>sd_reads := rest, sd_received := sd_received w @ c\<rparr>"
  have "cs_reads cs < ca_max_reads ca" using lim by (simp add: within_limits_def Let_def)
  note it = iteration_script[OF ca this i, of d]
  show ?thesis
  proof (cases i)
    case (DeviceAck q)
    show ?thesis unfolding it unfolding DeviceAck collect_packet_ack
      using lim by (auto simp: items_simps DeviceAck)
  next
    case (Frame f)
    obtain d1 a where ack: "write_ack script_transport (d, ?w) = (Inr (), (d1, ?w\<lparr>sd_sent := sd_sent ?w @ [a]\<rparr>))"
      using script_write_ack[of d ?w] by simp
    show ?thesis
    proof (cases "rf_message_seq f = ca_expected_message_seq ca")
      case True
      have cp: "collect_packet script_transport ca ?cs (response_frame_bytes f) (d, ?w) =
         (Inr (?cs\<lparr>cs_frames := cs_frames ?cs @ [f],
              cs_total := cs_total ?cs + length (response_frame_bytes f)\<rparr>, rf_final f), (d1, ?w\<lparr>sd_sent := sd_sent ?w @ [a]\<rparr>))"
        by (rule collect_packet_current[OF _ True _ _ ack])
           (use i(1) lim True in \<open>auto simp: items_simps Frame\<close>)
      show ?thesis unfolding it unfolding Frame item_bytes.simps cp
        using lim True by (auto simp: items_simps Frame)
    next
      case False
      have "\<exists>cs'. collect_packet script_transport ca ?cs (response_frame_bytes f) (d, ?w) = (Inr (cs', False), (d1, ?w\<lparr>sd_sent := sd_sent ?w @ [a]\<rparr>)) \<and>
         cs_frames cs' = cs_frames ?cs \<and> cs_total cs' = cs_total ?cs \<and> cs_reads cs' = cs_reads ?cs \<and>
         cs_quiet_reads cs' = cs_quiet_reads ?cs \<and> cs_stale_frames cs' \<le> cs_stale_frames ?cs + 1 \<and>
         cs_stale_total cs' \<le> cs_stale_total ?cs + length (response_frame_bytes f)"
        by (rule collect_packet_stale[OF _ False _ _ ack])
           (use i(1) lim False in \<open>auto simp: items_simps Frame\<close>)
      then show ?thesis unfolding it unfolding Frame item_bytes.simps
        using lim False by (fastforce simp: items_simps Frame)
    qed
  qed
qed

lemma loop_items:
  assumes ca: "plain_args ca (sd_now w)" and seq: "seq = ca_expected_message_seq ca"
    and "within_limits ca cs (pre @ [Frame f])" "cs_quiet_reads cs < 2"
    and wf: "list_all item_wf (pre @ [Frame f])"
    and "list_all2 (\<lambda>i c. usb_cut (item_bytes i) c) (pre @ [Frame f]) css" "sd_reads w = concat css @ rest"
    and f: "rf_message_seq f = seq" "rf_final f" and pre: "\<forall>g\<in>set (current_frames seq pre). \<not> rf_final g"
  shows "\<exists>cs' d' acks. collect_loop script_transport ca cs (d, w) =
      (Inr cs', (d', w\<lparr>sd_reads := rest, sd_received := sd_received w @ concat css, sd_sent := sd_sent w @ acks\<rparr>)) \<and>
    length acks = length (frames_of (pre @ [Frame f])) \<and>
    cs_frames cs' = cs_frames cs @ current_frames seq (pre @ [Frame f])"
  using assms
proof (induction pre arbitrary: cs d w css)
  case Nil
  then obtain c where c: "css = [c]" "usb_cut (item_bytes (Frame f)) c" "sd_reads w = c @ rest"
    by (auto simp: list_all2_Cons1)
  have "\<exists>cs' d' acks. collect_iteration script_transport ca cs (d, w) =
      (Inr (cs', \<exists>g \<in> set (current_frames (ca_expected_message_seq ca) [Frame f]). rf_final g),
       (d', w\<lparr>sd_reads := rest, sd_received := sd_received w @ c, sd_sent := sd_sent w @ acks\<rparr>)) \<and>
    length acks = length (frames_of [Frame f]) \<and>
    cs_frames cs' = cs_frames cs @ current_frames (ca_expected_message_seq ca) [Frame f] \<and>
    cs_quiet_reads cs' = 0 \<and> within_limits ca cs' []"
    by (rule iteration_item[OF Nil(1) _ _ c(2,3)]) (use Nil in simp_all)
  then show ?case using Nil c(1) by (auto simp: collect_loop.simps[of _ ca cs] current_frames_def)
next
  case (Cons i pre)
  from Cons.prems(6) obtain c css' where css: "css = c # css'" "usb_cut (item_bytes i) c"
    "list_all2 (\<lambda>i c. usb_cut (item_bytes i) c) (pre @ [Frame f]) css'" by (auto simp: list_all2_Cons1)
  have stop: "\<not> (\<exists>g \<in> set (current_frames seq [i]). rf_final g)" "\<forall>g\<in>set (current_frames seq pre). \<not> rf_final g"
    using Cons.prems(10) by (cases i; auto simp: current_frames_def)+
  obtain cs1 d1 acks1 where it: "collect_iteration script_transport ca cs (d, w) =
      (Inr (cs1, \<exists>g \<in> set (current_frames seq [i]). rf_final g),
       (d1, w\<lparr>sd_reads := concat css' @ rest, sd_received := sd_received w @ c, sd_sent := sd_sent w @ acks1\<rparr>))"
    and n: "length acks1 = length (frames_of [i])" "cs_frames cs1 = cs_frames cs @ current_frames seq [i]"
    "cs_quiet_reads cs1 = 0" "within_limits ca cs1 (pre @ [Frame f])"
    using iteration_item[OF Cons.prems(1) _ _ css(2), of cs "pre @ [Frame f]" "concat css' @ rest" d]
      Cons.prems css(1) by auto
  let ?w = "w\<lparr>sd_reads := concat css' @ rest, sd_received := sd_received w @ c, sd_sent := sd_sent w @ acks1\<rparr>"
  have "\<exists>cs' d' acks. collect_loop script_transport ca cs1 (d1, ?w) =
      (Inr cs', (d', ?w\<lparr>sd_reads := rest, sd_received := sd_received ?w @ concat css', sd_sent := sd_sent ?w @ acks\<rparr>)) \<and>
    length acks = length (frames_of (pre @ [Frame f])) \<and>
    cs_frames cs' = cs_frames cs1 @ current_frames seq (pre @ [Frame f])"
    by (rule Cons.IH) (use Cons.prems css n stop(2) in auto)
  then obtain cs' d' acks where l: "collect_loop script_transport ca cs1 (d1, ?w) =
      (Inr cs', (d', ?w\<lparr>sd_reads := rest, sd_received := sd_received ?w @ concat css', sd_sent := sd_sent ?w @ acks\<rparr>))"
    "length acks = length (frames_of (pre @ [Frame f]))"
    "cs_frames cs' = cs_frames cs1 @ current_frames seq (pre @ [Frame f])" by blast
  show ?case
    by (rule exI[of _ cs'], rule exI[of _ d'], rule exI[of _ "acks1 @ acks"])
       (use l n it stop(1) Cons.prems(4) css(1) in
         \<open>cases i; auto simp: collect_loop.simps[of _ ca cs] current_frames_def\<close>)
qed

lemma segment_frames_last:
  assumes "segment_frames seq chunks = xs @ [f]"
  shows "rf_final f \<and> (\<forall>g\<in>set xs. \<not> rf_final g)"
proof -
  have o: "\<forall>i < Suc (length xs). rf_final ((xs @ [f]) ! i) \<longleftrightarrow> i = length xs"
    using segment_frames_in_order[of seq chunks] unfolding assms segments_in_order_def by simp
  have "rf_final f" using o[rule_format, of "length xs"] by simp
  moreover have "\<not> rf_final (xs ! i)" if "i < length xs" for i
    using o[rule_format, of i] that by (simp add: nth_append)
  ultimately show ?thesis by (auto simp: in_set_conv_nth)
qed

text \<open>What the device may send for a response cut into \<open>chunks\<close>: its frames in order, the last one
  last, between any acknowledgements and well-formed frames of other messages, within the limits.\<close>

definition traffic_for :: "int \<Rightarrow> bytes list \<Rightarrow> wire_item list \<Rightarrow> bool" where
  "traffic_for seq chunks items \<longleftrightarrow>
     list_all item_wf items \<and> items \<noteq> [] \<and> current_frames seq [last items] \<noteq> [] \<and>
     current_frames seq items = segment_frames seq chunks \<and>
     length items \<le> DEFAULT_MAX_RESPONSE_READS \<and>
     length chunks \<le> DEFAULT_MAX_RESPONSE_FRAMES \<and>
     frames_size (segment_frames seq chunks) \<le> DEFAULT_MAX_RESPONSE_BYTES \<and>
     length (stale_frames_of seq items) \<le> DEFAULT_MAX_RESPONSE_FRAMES \<and>
     frames_size (stale_frames_of seq items) \<le> DEFAULT_MAX_RESPONSE_BYTES"

lemma collect_response_delivers:
  assumes tf: "traffic_for seq chunks items"
    and cut: "list_all2 usb_cut (map item_bytes items) css" and w: "sd_reads w = concat css @ rest"
    and t: "0 < timeout"
  shows "\<exists>d' acks. collect_response script_transport (default_collect_args seq timeout) (d, w) =
    (Inr (concat chunks), (d', w\<lparr>sd_reads := rest, sd_received := sd_received w @ concat css,
       sd_sent := sd_sent w @ acks\<rparr>)) \<and> length acks = length (frames_of items)"
proof -
  obtain pre x where items: "items = pre @ [x]" using tf by (metis append_butlast_last_id traffic_for_def)
  obtain f where x: "x = Frame f" "rf_message_seq f = seq"
    using tf by (cases x) (auto simp: traffic_for_def items current_frames_def split: if_splits)
  have "frames_of (pre @ [Frame f]) = frames_of pre @ [f]"
    by (induction pre rule: frames_of.induct) auto
  then have cur: "segment_frames seq chunks = current_frames seq pre @ [f]"
    using tf x by (auto simp: traffic_for_def items current_frames_def)
  note last = segment_frames_last[OF cur]
  define ca :: "script_device collect_args" where "ca = (default_collect_args seq timeout)\<lparr>ca_started := sd_now w,
     ca_deadline := sd_now w + of_int timeout / 1000\<rparr>"
  define d1 where "d1 = d\<lparr>ms_last_response_stats := None, ms_last_response_etag := None,
     ms_last_response_payload := None\<rparr>"
  have "0 < rat_of_int timeout / 1000" using t by simp
  then have pa: "plain_args ca (sd_now w)" by (simp add: plain_args_def ca_def default_collect_args_def)
  have cut': "list_all2 (\<lambda>i c. usb_cut (item_bytes i) c) (pre @ [Frame f]) css"
    using cut unfolding items x(1) list_all2_map1 .
  have wl: "within_limits ca collect_start (pre @ [Frame f])"
    using tf by (auto simp: within_limits_def Let_def ca_def default_collect_args_def collect_start_def
        traffic_for_def items x(1) segment_frames_def)
  have "\<exists>cs' d' acks. collect_loop script_transport ca collect_start (d1, w) =
      (Inr cs', (d', w\<lparr>sd_reads := rest, sd_received := sd_received w @ concat css, sd_sent := sd_sent w @ acks\<rparr>)) \<and>
    length acks = length (frames_of (pre @ [Frame f])) \<and>
    cs_frames cs' = cs_frames collect_start @ current_frames seq (pre @ [Frame f])"
    by (rule loop_items[OF pa _ wl _ _ cut' w x(2)])
       (use tf last in \<open>simp_all add: ca_def default_collect_args_def collect_start_def traffic_for_def items
          x(1) list_all2_map1\<close>)
  then obtain cs' d' acks where lp: "collect_loop script_transport ca collect_start (d1, w) =
      (Inr cs', (d', w\<lparr>sd_reads := rest, sd_received := sd_received w @ concat css, sd_sent := sd_sent w @ acks\<rparr>))"
    "length acks = length (frames_of items)" "cs_frames cs' = segment_frames seq chunks"
    using tf by (auto simp: items x(1) collect_start_def traffic_for_def)
  have join: "join_parsed_response_frames (cs_frames cs') = Inr (concat chunks)" "cs_frames cs' \<noteq> []"
    unfolding lp(3)
    using join_loop_Inr_iff [of 0 "segment_frames seq chunks" "length (segment_frames seq chunks)"]
      segment_frames_in_order [of seq chunks] payloads_segment_frames [of seq chunks] cur
    by (auto simp: join_parsed_response_frames_def segments_in_order_def)
  obtain p where p: "parse_datastore_response (concat chunks) False = Inr p"
    using parse_datastore_response_ok by blast
  have "\<exists>d2. collect_finish script_transport ca cs' (d', w') = (Inr (concat chunks), (d2, w'))" for w'
    using join by (simp add: collect_finish_def p record_response_stats_def monotonic_def script_transport_def bindS_def)
  moreover have "collect_response script_transport (default_collect_args seq timeout) (d, w) =
      bindS (collect_loop script_transport ca collect_start) (collect_finish script_transport ca) (d1, w)"
    by (simp add: collect_response_def monotonic_def script_transport_def bindS_def ca_def d1_def
        default_collect_args_def Let_def)
  ultimately show ?thesis using lp(1,2) by (simp add: bindS_def) metis
qed

text \<open>C2: Delivery: when the device answers a read with a response cut into up to 256 chunks, and sends its
  frames in order, each cut anyhow into USB reads, in the middle of acknowledgements and of any
  well-formed frames of other messages within the limits, then \<open>get\<close> returns exactly the response; it
  writes the request and one acknowledgement per frame received, and reads no further than the final
  frame.\<close>

theorem get_delivers:
  assumes "traffic_for (current_message_seq d) chunks items"
    and "list_all2 usb_cut (map item_bytes items) css"
    and "build_get_frame (hs_next (ms_host_seq d)) (current_message_seq d) path etag (lit ''NREK'') client flds
           = Inr request"
    and "0 < timeout"
    and "w = \<lparr>sd_reads = concat css @ rest, sd_sent = [], sd_received = [], sd_now = now\<rparr>"
  shows "\<exists>d' acks.
    sess_get script_transport path
      (default_get_args\<lparr>ga_etag := etag, ga_client := client, ga_query_fields := flds, ga_timeout_ms := timeout\<rparr>) (d, w) =
      (Inr (concat chunks),
       (d', \<lparr>sd_reads = rest, sd_sent = request # acks, sd_received = concat css, sd_now = now\<rparr>)) \<and>
    length acks = length (frames_of items) \<and>
    ms_message_seq d' = (current_message_seq d + 1) mod 2 ^ 32"
proof -
  let ?q = "hs_next (ms_host_seq d)" and ?ca = "default_collect_args (current_message_seq d) timeout"
  define d1 where "d1 = advance_message_seq (d\<lparr>ms_host_seq := (ms_host_seq d)\<lparr>hs_next := next_host_seq ?q\<rparr>\<rparr>)"
  define w1 where "w1 = \<lparr>sd_reads = concat css @ rest, sd_sent = [request], sd_received = [], sd_now = now\<rparr>"
  have eq: "sess_get script_transport path
      (default_get_args\<lparr>ga_etag := etag, ga_client := client, ga_query_fields := flds, ga_timeout_ms := timeout\<rparr>) (d, w) =
      collect_response script_transport ?ca (d1, w1)"
    using assms(3,5)
    by (simp add: sess_get_def Let_def sess_next_host_seq_def take_host_seq_def bindS_def write_frame_def onWorld_def
        script_transport_def d1_def w1_def default_get_args_def default_collect_args_def)
  have "sd_reads w1 = concat css @ rest" by (simp add: w1_def)
  from collect_response_delivers[OF assms(1,2) this assms(4), of d1]
  obtain d' acks where r: "collect_response script_transport ?ca (d1, w1) =
    (Inr (concat chunks), (d', w1\<lparr>sd_reads := rest, sd_received := sd_received w1 @ concat css,
       sd_sent := sd_sent w1 @ acks\<rparr>))" "length acks = length (frames_of items)" by blast
  have "sd.silent_cancel ?ca"
    by (simp add: sd.silent_cancel_def sd.silent_mode_def default_collect_args_def plain_read_def)
  then have "sd.acks_only (d1, w1) (snd (collect_response script_transport ?ca (d1, w1)))"
    using sd.acks.response_keeps[OF sd.silent_reads_keep] by (simp add: keepsS_def)
  then have "ms_message_seq d' = ms_message_seq d1" by (simp add: r sd.acks_only_def)
  moreover have "ms_message_seq d1 = (current_message_seq d + 1) mod 2 ^ 32"
    unfolding d1_def advance_message_seq_eq by (simp add: current_message_seq_def)
  ultimately show ?thesis unfolding eq using r by (simp add: w1_def)
qed

section \<open>A run on concrete data\<close>

text \<open>
  A session whose next request is the captured \<open>GET /datastore\<close>, and a device that answers it with
  the body \<open>{}\<close> in one frame, after an acknowledgement and a frame of an older message.
\<close>

definition demo_session :: motu_session where
  "demo_session = \<lparr>ms_host_seq = \<lparr>hs_next = 0x24\<rparr>, ms_message_seq = 2, ms_last_response_stats = None,
     ms_last_response_etag = None, ms_last_response_payload = None\<rparr>"

definition demo_frame :: response_frame where
  "demo_frame = segment_frame 2 [blit ''{}''] 0"

definition demo_items :: "wire_item list" where
  "demo_items = [DeviceAck 5, Frame (segment_frame 1 [blit ''old''] 0), Frame demo_frame]"

definition demo_device :: "bytes list \<Rightarrow> script_device" where
  "demo_device reads = \<lparr>sd_reads = reads, sd_sent = [], sd_received = [], sd_now = 7\<rparr>"

lemma demo_session_simps [simp]:
  "hs_next (ms_host_seq demo_session) = 0x24" "current_message_seq demo_session = 2" "host_ok demo_session"
  by (simp_all add: demo_session_def current_message_seq_def and_MAX_MESSAGE_SEQ host_ok_def protocol_consts)

lemma demo_frame_wf: "wf_response_frame demo_frame" "rf_message_seq demo_frame = 2" "rf_final demo_frame"
  "length (rf_payload demo_frame) = 2"
  by (simp_all add: demo_frame_def segment_frame_def wf_response_frame_def)

lemma demo_traffic: "traffic_for 2 [blit ''{}''] demo_items"
  by (simp add: traffic_for_def demo_items_def demo_frame_def segment_frame_def wf_response_frame_def current_frames_def
      stale_frames_of_def segment_frames_def frames_size_def session_consts length_response_frame_bytes del: blit_simps)

lemma usb_cut_whole: "item_wf i \<Longrightarrow> usb_cut (item_bytes i) [item_bytes i]"
  by (cases i) (auto simp: usb_cut_def length_response_frame_bytes dest!: arg_cong[where f = length])

lemma demo_cut: "list_all2 usb_cut (map item_bytes demo_items) (map (\<lambda>i. [item_bytes i]) demo_items)"
  using demo_traffic by (auto simp: traffic_for_def list.rel_map list_all_iff intro!: list.rel_refl_strong usb_cut_whole)

theorem get_delivers_witness:
  "\<exists>d' acks. sess_get script_transport (lit ''/datastore'') 
      (default_get_args\<lparr>ga_etag := lit ''0'', ga_client := None, ga_query_fields := NoFields, ga_timeout_ms := 1200\<rparr>)
      (demo_session, demo_device (map item_bytes demo_items)) =
      (Inr (blit ''{}''),
       (d', (demo_device [])\<lparr>sd_sent := EXPECTED_GET_DATASTORE # acks, sd_received := map item_bytes demo_items\<rparr>)) \<and>
    length acks = 2"
proof -
  have c: "concat (map (\<lambda>i. [item_bytes i]) demo_items) = map item_bytes demo_items"
    by (simp add: demo_items_def)
  have n: "length (frames_of demo_items) = 2" by (simp add: demo_items_def)
  have t: "traffic_for (current_message_seq demo_session) [blit ''{}''] demo_items"
    using demo_traffic by simp
  have b: "build_get_frame (hs_next (ms_host_seq demo_session)) (current_message_seq demo_session) (lit ''/datastore'')
      (lit ''0'') (lit ''NREK'') None NoFields = Inr EXPECTED_GET_DATASTORE"
    using get_capture by simp
  show ?thesis
    using get_delivers[OF t demo_cut b, of 1200 "demo_device (map item_bytes demo_items)" "[]" 7] c n
    by (auto simp: demo_device_def simp del: blit_simps lit_simps)
qed

text \<open>The same device behind \<open>logging\<close>, sending the answer only.\<close>

lemma collect_response_unfold:
  assumes "tr_monotonic tr w = (now, w)"
    and "ca' = ca\<lparr>ca_started := now, ca_deadline := now + of_int (ca_timeout_ms ca) / 1000\<rparr>"
    and "d' = d\<lparr>ms_last_response_stats := None, ms_last_response_etag := None, ms_last_response_payload := None\<rparr>"
  shows "collect_response tr ca (d, w) =
    bindS (collect_loop tr ca' collect_start) (collect_finish tr ca') (d', w)"
  unfolding collect_response_def assms(2,3) using assms(1) by (simp add: monotonic_def bindS_def Let_def)

lemma demo_collect:
  "\<exists>d' w' ack. collect_response (logging script_transport) (default_collect_args 2 1200)
      (d, demo_device [response_frame_bytes demo_frame]\<lparr>sd_sent := x\<rparr>, out, []) =
     (Inr (blit ''{}''), (d', (w', out @ [ack], [response_frame_bytes demo_frame])))"
proof -
  let ?p = "response_frame_bytes demo_frame" and ?tr = "logging script_transport"
  let ?w = "demo_device [?p]\<lparr>sd_sent := x\<rparr>"
  define d1 where "d1 = d\<lparr>ms_last_response_stats := None, ms_last_response_etag := None,
     ms_last_response_payload := None\<rparr>"
  define ca :: "(script_device \<times> bytes list \<times> bytes list) collect_args" where
    "ca = (default_collect_args 2 1200)\<lparr>ca_started := 7, ca_deadline := 7 + of_int 1200 / 1000\<rparr>"
  have to: "ca_timeout_ms (default_collect_args 2 1200 :: (script_device \<times> bytes list \<times> bytes list) collect_args) = 1200"
    by (simp add: default_collect_args_def)
  define w1 where "w1 = ?w\<lparr>sd_reads := [], sd_received := [?p]\<rparr>"
  have mono: "monotonic ?tr (e, (v, y)) = (Inr (sd_now v), (e, (v, y)))" for e v y
    by (cases y) (simp add: monotonic_def logging_def script_transport_def)
  have len: "length ?p = 30" using demo_frame_wf by (simp add: length_response_frame_bytes)
  have u16: "read_u16 ?p 2 = Inr 30" using response_frame_layout(1)[OF demo_frame_wf(1)] len by simp
  have ne: "?p \<noteq> []" using len by auto
  have rd: "read_logical_frame ?tr plain_read t (?w, out, []) = (Inr ?p, (w1, out, [?p]))" for t
    using u16 len ne by (simp add: read_logical_frame_def bindS_def bulk_read_def plain_read_def logging_def
        script_transport_def script_read_def demo_device_def w1_def read_more.simps)
  obtain d2 w2 ack where ack: "write_ack ?tr (d1, (w1, out, [?p])) = (Inr (), (d2, (w2, out @ [ack], [?p])))"
    by (simp add: write_ack_def write_frame_def sess_next_host_seq_def take_host_seq_def Let_def onWorld_def
      bindS_def logging_def script_transport_def)
  define cs where "cs = collect_start\<lparr>cs_reads := 1, cs_frames := [demo_frame], cs_total := 30\<rparr>"
  have cp: "collect_packet ?tr ca (collect_start\<lparr>cs_reads := 1, cs_quiet_reads := 0\<rparr>) ?p (d1, (w1, out, [?p])) =
      (Inr (cs, True), (d2, (w2, out @ [ack], [?p])))"
    by (subst collect_packet_current[OF demo_frame_wf(1) _ _ _ ack])
       (simp_all add: demo_frame_wf ca_def default_collect_args_def collect_start_def session_consts len cs_def)
  have "collect_iteration ?tr ca collect_start (d1, (?w, out, [])) = (Inr (cs, True), (d2, (w2, out @ [ack], [?p])))"
    using cp ne rd by (simp add: collect_iteration_def collect_guard_def asks_cancel_def bindS_def mono collect_read_def onErrorS_def
        onWorld_def collect_received_def Let_def ca_def default_collect_args_def collect_start_def session_consts
        demo_device_def)
  then have lp: "collect_loop ?tr ca collect_start (d1, (?w, out, [])) = (Inr cs, (d2, (w2, out @ [ack], [?p])))"
    by (subst collect_loop.simps) (simp add: collect_start_def)
  obtain q where q: "parse_datastore_response (blit ''{}'') False = Inr q" using parse_datastore_response_ok by blast
  have "join_parsed_response_frames (cs_frames cs) = Inr (blit ''{}'')"
    by (simp add: cs_def join_parsed_response_frames_def demo_frame_def segment_frame_def)
  then have "\<exists>d3. collect_finish ?tr ca cs (d2, (w2, out @ [ack], [?p])) = (Inr (blit ''{}''), (d3, (w2, out @ [ack], [?p])))"
    using q by (simp add: collect_finish_def cs_def record_response_stats_def bindS_def mono del: blit_simps)
  moreover have "collect_response ?tr (default_collect_args 2 1200) (d, (?w, out, [])) =
      bindS (collect_loop ?tr ca collect_start) (collect_finish ?tr ca) (d1, (?w, out, []))"
    by (rule collect_response_unfold[where now = 7])
       (simp_all add: logging_def script_transport_def demo_device_def ca_def d1_def to)
  ultimately show ?thesis by (simp add: bindS_def lp) (elim exE, intro exI, assumption)
qed

lemma demo_write:
  "write_frame (logging script_transport) frame (d, (w, out, inp)) =
     (Inr (), (d, (w\<lparr>sd_sent := sd_sent w @ [frame]\<rparr>, out @ [frame], inp)))"
  by (simp add: write_frame_def onWorld_def bindS_def logging_def script_transport_def)

theorem get_response_authentic_witness:
  "\<exists>response d' w' sent received.
     sess_get (logging script_transport) (lit ''/datastore'') default_get_args
       (demo_session, (demo_device [response_frame_bytes demo_frame], [], [])) =
       (Inr response, (d', (w', sent, received))) \<and>
     response = blit ''{}'' \<and> authentic_response 2 received response \<and> ms_message_seq d' = 3"
proof -
  have la: "leaves_log_args default_get_args"
    by (simp add: leaves_log_args_def default_get_args_def plain_read_def)
  have "default_collect_args 2 1200 = (default_collect_args 2 (ga_timeout_ms default_get_args))
      \<lparr>ca_should_cancel := ga_should_cancel default_get_args,
       ca_read_timeout_slice_ms := ga_read_timeout_slice_ms default_get_args,
       ca_read_mode := ga_read_mode (default_get_args :: (script_device \<times> bytes list \<times> bytes list) get_args)\<rparr>"
    by (simp add: default_collect_args_def default_get_args_def session_consts)
  then obtain d' w' sent received where
    r: "sess_get (logging script_transport) (lit ''/datastore'') default_get_args
       (demo_session, (demo_device [response_frame_bytes demo_frame], [], [])) =
       (Inr (blit ''{}''), (d', (w', sent, received)))"
    using demo_collect[of _ "[EXPECTED_GET_DATASTORE]" "[EXPECTED_GET_DATASTORE]"] get_capture
    by (auto simp: sess_get_def Let_def sess_next_host_seq_def take_host_seq_def bindS_def demo_write demo_device_def
        default_get_args_def simp del: blit_simps lit_simps) blast
  then show ?thesis using get_response_authentic[OF _ la r] by (auto simp del: blit_simps)
qed

definition linux_body :: bytes where
  "linux_body = blit (''{'' @ [CHR 0x22] @ ''value'' @ [CHR 0x22] @ '':'' @ [CHR 0x22] @ ''linux'' @ [CHR 0x22] @ ''}'')"

text \<open>The write of the repository's own test: the frame has the header \<open>NREK\<close>, not that of the self-test's capture.\<close>

lemma linux_frame:
  obtains frame where "build_post_frame 0x20 2 (lit ''/datastore/host/os'') linux_body (lit ''NREK'') None = Inr frame"
    "take 4 (drop 4 frame) = NREK"
proof -
  have "\<exists>frame. build_post_frame 0x20 2 (lit ''/datastore/host/os'') linux_body (lit ''NREK'') None = Inr frame \<and>
      take 4 (drop 4 frame) = NREK"
    by (simp add: frame_eval Let_def le_bytes_eval crc_eval linux_body_def NREK_def)
  then show ?thesis using that by blast
qed

theorem post_sent_once_witness:
  "\<exists>r d' w' frame acks received.
     sess_post (logging script_transport) (lit ''/datastore/host/os'') linux_body None 1200
       (demo_session\<lparr>ms_host_seq := \<lparr>hs_next = 0x20\<rparr>\<rparr>, (demo_device [response_frame_bytes demo_frame], [], [])) =
       (r, (d', (w', frame # acks, received))) \<and> take 4 (drop 4 frame) = NREK \<and> list_all host_ack acks \<and> ms_message_seq d' = 3"
proof -
  let ?d = "demo_session\<lparr>ms_host_seq := \<lparr>hs_next = 0x20\<rparr>\<rparr>"
  have d: "host_ok ?d" "current_message_seq ?d = 2" "hs_next (ms_host_seq ?d) = 0x20"
    by (simp_all add: host_ok_def protocol_consts demo_session_def current_message_seq_def and_MAX_MESSAGE_SEQ)
  obtain frame where f: "build_post_frame 0x20 2 (lit ''/datastore/host/os'') linux_body (lit ''NREK'') None = Inr frame"
    "take 4 (drop 4 frame) = NREK" by (rule linux_frame)
  obtain r d' w' sent received where
    r: "sess_post (logging script_transport) (lit ''/datastore/host/os'') linux_body None 1200
       (?d, (demo_device [response_frame_bytes demo_frame], [], [])) = (r, (d', (w', sent, received)))"
    by (metis surj_pair)
  show ?thesis
    using post_sent_once[OF d(1) r] r f(2)
    by (auto simp: d(2,3) f(1) script_transport_def[THEN arg_cong, of tr_bulk_write] simp del: blit_simps lit_simps append.simps)
qed

end
