(* ===== verification/Motu_Managed.thy ===== *)
theory Motu_Managed
  imports Motu_Session
begin

text \<open>
  The managed datastore (\<open>ManagedDatastore\<close> of \<^verbatim>\<open>motu_proxy/datastore.py\<close>): it opens a session on
  demand, drops it when the device is lost, waits longer and longer before it tries again, and turns
  device loss into one exception for its clients.

  \<open>_operation_lock\<close> is held for the whole of \<open>_call\<close> and \<open>close\<close>, so the two never overlap and the
  model runs them one after the other; \<open>_state_lock\<close> then only protects the read-only properties.
  The opener, the datastore object it yields, and the clock are arguments of the constructor in the
  source; here they are a record of operations on a world \<open>'w\<close>, with a number for each session object.
\<close>

section \<open>Which failures mean that the device is gone\<close>

text \<open>Linux numbers of \<open>ENODEV\<close>, \<open>ENOENT\<close>, \<open>ENXIO\<close>, \<open>ECONNRESET\<close>, \<open>ESHUTDOWN\<close>, \<open>EPIPE\<close>.\<close>

definition RECONNECTABLE_USB_ERRNOS :: "int list" where
  "RECONNECTABLE_USB_ERRNOS = [19, 2, 6, 104, 108, 32]"

text \<open>
  The argument of \<^const>\<open>DeviceDiscoveryError\<close> says that its cause is a \<open>PermissionError\<close> or its
  message has \<open>not readable\<close>. \<^const>\<open>InterruptedError\<close> is the \<open>OSError\<close> with \<open>EINTR\<close>, which is not
  in the list.
\<close>

fun is_reconnectable_device_loss :: "exc \<Rightarrow> bool \<Rightarrow> bool" where
  "is_reconnectable_device_loss NoDeviceFound during_open = True"
| "is_reconnectable_device_loss NoControlInterfaceFound during_open = True"
| "is_reconnectable_device_loss MultipleDevicesFound during_open = True"
| "is_reconnectable_device_loss (DeviceDiscoveryError unreadable) during_open = (\<not> unreadable)"
| "is_reconnectable_device_loss (OSError n) during_open = (n \<in> set RECONNECTABLE_USB_ERRNOS)"
| "is_reconnectable_device_loss InterruptedError during_open = False"
| "is_reconnectable_device_loss (ShortUsbWrite _ _) during_open = True"
| "is_reconnectable_device_loss DatastoreNoResponse during_open = during_open"
| "is_reconnectable_device_loss DatastoreTimeout during_open = during_open"
| "is_reconnectable_device_loss _ during_open = False"

section \<open>State\<close>

datatype reconnect_state =
  Unavailable | Available | Reconnecting | Backoff | ConfigurationError | ClosedState

definition DEFAULT_RECONNECT_INITIAL_DELAY_S :: rat where "DEFAULT_RECONNECT_INITIAL_DELAY_S = 1 / 4"
definition DEFAULT_RECONNECT_MAX_DELAY_S :: rat where "DEFAULT_RECONNECT_MAX_DELAY_S = 5"
definition DEFAULT_CONFIGURATION_ERROR_RETRY_DELAY_S :: rat where
  "DEFAULT_CONFIGURATION_ERROR_RETRY_DELAY_S = 30"

record managed =
  md_initial_delay_s :: rat
  md_max_delay_s :: rat
  md_configuration_error_retry_delay_s :: rat
  md_assume_cancellable_bulk_reads :: bool
  md_context :: "nat option"
  md_datastore :: "nat option"
  md_session_generation :: nat
  md_reconnect_state :: reconnect_state
  md_last_reconnect_error :: "exc option"
  md_retry_delay_s :: rat
  md_scheduled_retry_delay_s :: rat
  md_next_retry_at :: rat
  md_closed :: bool
  md_last_response_stats :: "response_stats option"
  md_last_response_etag :: "pystr option"
  md_last_response_payload :: "datastore_payload option"

text \<open>
  \<open>mo_open\<close> is \<open>opener(config).__enter__()\<close>, \<open>mo_exit\<close> the context's \<open>__exit__\<close>; the others read
  attributes of the session object.
\<close>

record 'w managed_ops =
  mo_open :: "('w, nat) sop"
  mo_exit :: "nat \<Rightarrow> ('w, unit) sop"
  mo_clock :: "'w \<Rightarrow> rat \<times> 'w"
  mo_stats :: "nat \<Rightarrow> 'w \<Rightarrow> response_stats option"
  mo_etag :: "nat \<Rightarrow> 'w \<Rightarrow> pystr option"
  mo_payload :: "nat \<Rightarrow> 'w \<Rightarrow> datastore_payload option"
  mo_supports_cancellable :: "nat \<Rightarrow> 'w \<Rightarrow> bool"

type_synonym ('w, 'a) mop = "(managed \<times> 'w, 'a) sop"

definition managed_init :: "rat \<Rightarrow> rat \<Rightarrow> rat \<Rightarrow> bool \<Rightarrow> managed" where
  "managed_init reconnect_initial_delay_s reconnect_max_delay_s configuration_error_retry_delay_s assume =
     (let initial = max 0 reconnect_initial_delay_s in
      \<lparr>md_initial_delay_s = initial,
       md_max_delay_s = max initial reconnect_max_delay_s,
       md_configuration_error_retry_delay_s = max 0 configuration_error_retry_delay_s,
       md_assume_cancellable_bulk_reads = assume,
       md_context = None, md_datastore = None, md_session_generation = 0,
       md_reconnect_state = Unavailable, md_last_reconnect_error = None,
       md_retry_delay_s = initial, md_scheduled_retry_delay_s = initial, md_next_retry_at = 0,
       md_closed = False, md_last_response_stats = None, md_last_response_etag = None,
       md_last_response_payload = None\<rparr>)"

section \<open>Properties\<close>

definition managed_supports_cancellable :: "'w managed_ops \<Rightarrow> managed \<times> 'w \<Rightarrow> bool" where
  "managed_supports_cancellable mo = (\<lambda>(m, w).
     case md_datastore m of None \<Rightarrow> md_assume_cancellable_bulk_reads m
     | Some h \<Rightarrow> mo_supports_cancellable mo h w)"

definition managed_last_response_stats :: "'w managed_ops \<Rightarrow> managed \<times> 'w \<Rightarrow> response_stats option" where
  "managed_last_response_stats mo = (\<lambda>(m, w).
     case md_datastore m of Some h \<Rightarrow> mo_stats mo h w | None \<Rightarrow> md_last_response_stats m)"

definition managed_last_response_etag :: "'w managed_ops \<Rightarrow> managed \<times> 'w \<Rightarrow> pystr option" where
  "managed_last_response_etag mo = (\<lambda>(m, w).
     case md_datastore m of Some h \<Rightarrow> mo_etag mo h w | None \<Rightarrow> md_last_response_etag m)"

definition managed_last_response_payload :: "'w managed_ops \<Rightarrow> managed \<times> 'w \<Rightarrow> datastore_payload option" where
  "managed_last_response_payload mo = (\<lambda>(m, w).
     case md_datastore m of Some h \<Rightarrow> mo_payload mo h w | None \<Rightarrow> md_last_response_payload m)"

text \<open>The dictionary of \<open>status\<close>, with the exception itself for its rendering.\<close>

record managed_status =
  mst_available :: bool
  mst_reconnect_state :: reconnect_state
  mst_session_generation :: nat
  mst_last_reconnect_error :: "exc option"
  mst_retry_delay_s :: rat
  mst_next_retry_in_s :: "rat option"

definition managed_status_of :: "managed \<Rightarrow> rat \<Rightarrow> managed_status" where
  "managed_status_of m now =
     (let available = md_datastore m \<noteq> None in
      \<lparr>mst_available = available, mst_reconnect_state = md_reconnect_state m,
       mst_session_generation = md_session_generation m,
       mst_last_reconnect_error = md_last_reconnect_error m,
       mst_retry_delay_s =
         (if md_reconnect_state m = ConfigurationError then md_configuration_error_retry_delay_s m
          else md_scheduled_retry_delay_s m),
       mst_next_retry_in_s = (if available then None else Some (max 0 (md_next_retry_at m - now)))\<rparr>)"

section \<open>Opening, discarding, calling\<close>

definition clockM :: "'w managed_ops \<Rightarrow> ('w, rat) mop" where
  "clockM mo = (\<lambda>(m, w). case mo_clock mo w of (now, w') \<Rightarrow> (Inr now, (m, w')))"

definition onDevice :: "('w, 'a) sop \<Rightarrow> ('w, 'a) mop" where
  "onDevice op = (\<lambda>(m, w). case op w of (r, w') \<Rightarrow> (r, (m, w')))"

definition schedule_retry_locked :: "rat \<Rightarrow> managed \<Rightarrow> managed" where
  "schedule_retry_locked now m =
     (let delay = md_retry_delay_s m in
      m\<lparr>md_next_retry_at := now + delay, md_scheduled_retry_delay_s := delay,
        md_retry_delay_s := min (md_max_delay_s m) (max (md_initial_delay_s m) (delay * 2)),
        md_reconnect_state := Backoff\<rparr>)"

definition schedule_configuration_error_retry_locked :: "rat \<Rightarrow> managed \<Rightarrow> managed" where
  "schedule_configuration_error_retry_locked now m =
     m\<lparr>md_next_retry_at := now + md_configuration_error_retry_delay_s m,
       md_scheduled_retry_delay_s := md_configuration_error_retry_delay_s m,
       md_reconnect_state := ConfigurationError\<rparr>"

definition backoff_unless :: "managed \<Rightarrow> managed" where
  "backoff_unless m =
     (if md_reconnect_state m \<noteq> ClosedState \<and> md_reconnect_state m \<noteq> Reconnecting
      then m\<lparr>md_reconnect_state := Backoff\<rparr> else m)"

definition discard_session_locked :: "'w managed_ops \<Rightarrow> ('w, unit) mop" where
  "discard_session_locked mo = (\<lambda>(m, w).
     let ctx = md_context m; m = m\<lparr>md_context := None, md_datastore := None\<rparr> in
     case ctx of
       None \<Rightarrow> (Inr (), (backoff_unless m, w))
     | Some h \<Rightarrow>
         (case mo_exit mo h w of
            (Inl e, w') \<Rightarrow>
              (Inr (), (backoff_unless
                 (if md_last_reconnect_error m = None then m\<lparr>md_last_reconnect_error := Some e\<rparr> else m), w'))
          | (Inr _, w') \<Rightarrow> (Inr (), (backoff_unless m, w'))))"

definition discard_after_loss :: "'w managed_ops \<Rightarrow> nat \<Rightarrow> exc \<Rightarrow> ('w, unit) mop" where
  "discard_after_loss mo datastore e = (\<lambda>(m, w).
     if md_datastore m \<noteq> Some datastore then (Inr (), (m, w))
     else
       bindS (modS (\<lambda>(m, w). (m\<lparr>md_last_reconnect_error := Some e\<rparr>, w))) (\<lambda>_.
       bindS (clockM mo) (\<lambda>now.
       bindS (modS (\<lambda>(m, w). (schedule_retry_locked now m, w))) (\<lambda>_.
       discard_session_locked mo))) (m, w))"

definition remember_response_state :: "'w managed_ops \<Rightarrow> nat \<Rightarrow> ('w, unit) mop" where
  "remember_response_state mo datastore = modS (\<lambda>(m, w).
     (if md_datastore m = Some datastore
      then m\<lparr>md_last_response_stats := mo_stats mo datastore w,
             md_last_response_etag := mo_etag mo datastore w,
             md_last_response_payload := mo_payload mo datastore w\<rparr>
      else m, w))"

text \<open>The part of \<open>_ensure_session\<close> before the opener is called: \<open>Some\<close> for a session that is there.\<close>

definition ensure_check :: "'w managed_ops \<Rightarrow> ('w, nat option) mop" where
  "ensure_check mo = (\<lambda>(m, w).
     if md_closed m then (Inl DatastoreDeviceUnavailable, (m, w))
     else case md_datastore m of
       Some h \<Rightarrow> (Inr (Some h), (m, w))
     | None \<Rightarrow>
         bindS (clockM mo) (\<lambda>now (m, w).
           if now < md_next_retry_at m
           then (Inl DatastoreDeviceUnavailable,
                 (if md_reconnect_state m \<noteq> ConfigurationError then m\<lparr>md_reconnect_state := Backoff\<rparr> else m, w))
           else (Inr None, (m\<lparr>md_reconnect_state := Reconnecting\<rparr>, w))) (m, w))"

definition open_failed :: "'w managed_ops \<Rightarrow> exc \<Rightarrow> ('w, 'a) mop" where
  "open_failed mo e =
     (let reconnectable = is_reconnectable_device_loss e True in
      bindS (modS (\<lambda>(m, w). (m\<lparr>md_last_reconnect_error := Some e\<rparr>, w))) (\<lambda>_.
      bindS (clockM mo) (\<lambda>now.
      bindS (modS (\<lambda>(m, w). (if reconnectable then schedule_retry_locked now m
                             else schedule_configuration_error_retry_locked now m, w))) (\<lambda>_.
      raiseS (if reconnectable then DatastoreDeviceUnavailable else e)))))"

text \<open>The part after a successful open; \<open>_close_context\<close> may raise.\<close>

definition session_opened :: "'w managed_ops \<Rightarrow> nat \<Rightarrow> ('w, nat) mop" where
  "session_opened mo h = (\<lambda>(m, w).
     if md_closed m
     then bindS (onDevice (mo_exit mo h)) (\<lambda>_. raiseS DatastoreDeviceUnavailable) (m, w)
     else case md_datastore m of
       Some h' \<Rightarrow> bindS (onDevice (mo_exit mo h)) (\<lambda>_. retS h') (m, w)
     | None \<Rightarrow>
         bindS (clockM mo) (\<lambda>now.
         bindS (modS (\<lambda>(m, w).
           (m\<lparr>md_context := Some h, md_datastore := Some h,
              md_session_generation := md_session_generation m + 1,
              md_reconnect_state := Available, md_last_reconnect_error := None,
              md_retry_delay_s := md_initial_delay_s m,
              md_scheduled_retry_delay_s := md_initial_delay_s m,
              md_next_retry_at := now\<rparr>, w))) (\<lambda>_. retS h)) (m, w))"

definition ensure_session :: "'w managed_ops \<Rightarrow> ('w, nat) mop" where
  "ensure_session mo =
     bindS (ensure_check mo) (\<lambda>present.
     case present of
       Some h \<Rightarrow> retS h
     | None \<Rightarrow> (\<lambda>s. case onDevice (mo_open mo) s of
         (Inl e, t) \<Rightarrow> open_failed mo e t
       | (Inr h, t) \<Rightarrow> session_opened mo h t))"

text \<open>\<open>_call\<close>: \<open>op\<close> is the bound method with its arguments, applied to the session.\<close>

definition managed_call :: "'w managed_ops \<Rightarrow> (nat \<Rightarrow> ('w, bytes) sop) \<Rightarrow> ('w, bytes) mop" where
  "managed_call mo op =
     bindS (ensure_session mo) (\<lambda>datastore s.
       case onDevice (op datastore) s of
         (Inl e, t) \<Rightarrow>
           bindS (remember_response_state mo datastore) (\<lambda>_.
             if is_reconnectable_device_loss e False
             then bindS (discard_after_loss mo datastore e) (\<lambda>_. raiseS DatastoreDeviceUnavailable)
             else raiseS e) t
       | (Inr response, t) \<Rightarrow>
           bindS (remember_response_state mo datastore) (\<lambda>_. retS response) t)"

definition managed_close :: "'w managed_ops \<Rightarrow> ('w, unit) mop" where
  "managed_close mo =
     bindS (modS (\<lambda>(m, w). (m\<lparr>md_closed := True\<rparr>, w))) (\<lambda>_.
     bindS (discard_session_locked mo) (\<lambda>_.
     modS (\<lambda>(m, w). (m\<lparr>md_reconnect_state := ClosedState\<rparr>, w))))"

section \<open>The invariant of the managed datastore\<close>

definition managed_wf :: "managed \<Rightarrow> bool" where
  "managed_wf m \<longleftrightarrow>
     0 \<le> md_initial_delay_s m \<and> md_initial_delay_s m \<le> md_retry_delay_s m \<and>
     md_retry_delay_s m \<le> md_max_delay_s m \<and> 0 \<le> md_configuration_error_retry_delay_s m \<and>
     md_context m = md_datastore m \<and>
     (md_reconnect_state m = Available \<longleftrightarrow> md_datastore m \<noteq> None) \<and>
     (md_reconnect_state m = ClosedState \<longleftrightarrow> md_closed m) \<and> md_reconnect_state m \<noteq> Reconnecting \<and>
     (md_datastore m \<noteq> None \<longrightarrow> 1 \<le> md_session_generation m)"

lemma managed_init_wf: "managed_wf (managed_init i mx c a)"
  by (simp add: managed_wf_def managed_init_def Let_def)

text \<open>The branches of a call, with the primitive steps evaluated.\<close>

lemma ensure_check_eq:
  "md_closed m \<Longrightarrow> ensure_check mo (m, w) = (Inl DatastoreDeviceUnavailable, (m, w))"
  "\<not> md_closed m \<Longrightarrow> md_datastore m = Some h \<Longrightarrow> ensure_check mo (m, w) = (Inr (Some h), (m, w))"
  "\<not> md_closed m \<Longrightarrow> md_datastore m = None \<Longrightarrow> mo_clock mo w = (now, w') \<Longrightarrow> now < md_next_retry_at m \<Longrightarrow>
   ensure_check mo (m, w) = (Inl DatastoreDeviceUnavailable,
     (if md_reconnect_state m \<noteq> ConfigurationError then m\<lparr>md_reconnect_state := Backoff\<rparr> else m, w'))"
  "\<not> md_closed m \<Longrightarrow> md_datastore m = None \<Longrightarrow> mo_clock mo w = (now, w') \<Longrightarrow> md_next_retry_at m \<le> now \<Longrightarrow>
   ensure_check mo (m, w) = (Inr None, (m\<lparr>md_reconnect_state := Reconnecting\<rparr>, w'))"
  by (simp_all add: ensure_check_def bindS_def clockM_def)

lemma ensure_session_eq:
  "ensure_check mo (m, w) = (Inl e, s) \<Longrightarrow> ensure_session mo (m, w) = (Inl e, s)"
  "ensure_check mo (m, w) = (Inr (Some h), s) \<Longrightarrow> ensure_session mo (m, w) = (Inr h, s)"
  "ensure_check mo (m, w) = (Inr None, (m1, w1)) \<Longrightarrow> mo_open mo w1 = (Inl e, w2) \<Longrightarrow>
   ensure_session mo (m, w) = open_failed mo e (m1, w2)"
  "ensure_check mo (m, w) = (Inr None, (m1, w1)) \<Longrightarrow> mo_open mo w1 = (Inr h, w2) \<Longrightarrow>
   ensure_session mo (m, w) = session_opened mo h (m1, w2)"
  by (simp_all add: ensure_session_def bindS_def onDevice_def)

lemma open_failed_eq:
  "mo_clock mo w = (now, w') \<Longrightarrow>
   open_failed mo e (m, w) =
     (Inl (if is_reconnectable_device_loss e True then DatastoreDeviceUnavailable else e),
      ((if is_reconnectable_device_loss e True then schedule_retry_locked now
        else schedule_configuration_error_retry_locked now) (m\<lparr>md_last_reconnect_error := Some e\<rparr>), w'))"
  by (simp add: open_failed_def bindS_def clockM_def Let_def)

lemma session_opened_eq:
  "mo_clock mo w = (now, w') \<Longrightarrow> \<not> md_closed m \<Longrightarrow> md_datastore m = None \<Longrightarrow>
   session_opened mo h (m, w) =
     (Inr h, (m\<lparr>md_context := Some h, md_datastore := Some h,
              md_session_generation := md_session_generation m + 1,
              md_reconnect_state := Available, md_last_reconnect_error := None,
              md_retry_delay_s := md_initial_delay_s m,
              md_scheduled_retry_delay_s := md_initial_delay_s m,
              md_next_retry_at := now\<rparr>, w'))"
  by (simp add: session_opened_def bindS_def clockM_def)

lemma ensure_session_cases:
  assumes "managed_wf m" "ensure_session mo (m, w) = (r, (m', w'))"
  obtains
    (closed) "md_closed m" "r = Inl DatastoreDeviceUnavailable" "m' = m" "w' = w"
  | (present) h where "\<not> md_closed m" "md_datastore m = Some h" "r = Inr h" "m' = m" "w' = w"
  | (waiting) now where "\<not> md_closed m" "md_datastore m = None" "mo_clock mo w = (now, w')"
      "now < md_next_retry_at m" "r = Inl DatastoreDeviceUnavailable"
      "m' = (if md_reconnect_state m \<noteq> ConfigurationError then m\<lparr>md_reconnect_state := Backoff\<rparr> else m)"
  | (failed) now w1 e w2 now2 where "\<not> md_closed m" "md_datastore m = None" "mo_clock mo w = (now, w1)"
      "md_next_retry_at m \<le> now" "mo_open mo w1 = (Inl e, w2)" "mo_clock mo w2 = (now2, w')"
      "r = Inl (if is_reconnectable_device_loss e True then DatastoreDeviceUnavailable else e)"
      "m' = (if is_reconnectable_device_loss e True then schedule_retry_locked now2
             else schedule_configuration_error_retry_locked now2)
              (m\<lparr>md_reconnect_state := Reconnecting, md_last_reconnect_error := Some e\<rparr>)"
  | (opened) now w1 h w2 now2 where "\<not> md_closed m" "md_datastore m = None" "mo_clock mo w = (now, w1)"
      "md_next_retry_at m \<le> now" "mo_open mo w1 = (Inr h, w2)" "mo_clock mo w2 = (now2, w')" "r = Inr h"
      "m' = m\<lparr>md_reconnect_state := Available, md_context := Some h, md_datastore := Some h,
              md_session_generation := md_session_generation m + 1, md_last_reconnect_error := None,
              md_retry_delay_s := md_initial_delay_s m, md_scheduled_retry_delay_s := md_initial_delay_s m,
              md_next_retry_at := now2\<rparr>"
proof (cases "md_closed m")
  case True
  then show ?thesis using assms(2) ensure_session_eq(1)[OF ensure_check_eq(1), of m mo w]
    by (intro closed) simp_all
next
  case nc: False
  show ?thesis
  proof (cases "md_datastore m")
    case (Some h)
    then show ?thesis using assms(2) nc ensure_session_eq(2)[OF ensure_check_eq(2), of m h mo w]
      by (intro present[of h]) simp_all
  next
    case None
    obtain now w1 where c: "mo_clock mo w = (now, w1)" by fastforce
    show ?thesis
    proof (cases "now < md_next_retry_at m")
      case True
      note ensure_session_eq(1)[OF ensure_check_eq(3)[OF nc None c True]]
      then show ?thesis using assms(2) nc None c True by (intro waiting[of now]) simp_all
    next
      case False
      then have due: "md_next_retry_at m \<le> now" by simp
      note ck = ensure_check_eq(4)[OF nc None c due]
      obtain q w2 where o: "mo_open mo w1 = (q, w2)" by fastforce
      obtain now2 w3 where c2: "mo_clock mo w2 = (now2, w3)" by fastforce
      show ?thesis
      proof (cases q)
        case (Inl e)
        note ensure_session_eq(3)[OF ck o[unfolded Inl], unfolded open_failed_eq[OF c2]]
        then show ?thesis using assms(2) nc None c due o c2 Inl
          by (intro failed[of now w1 e w2 now2]) simp_all
      next
        case (Inr h)
        note op = session_opened_eq[OF c2, of "m\<lparr>md_reconnect_state := Reconnecting\<rparr>" h]
        show ?thesis using op ensure_session_eq(4)[OF ck o[unfolded Inr]] assms(2) nc None c due o c2 Inr
          by (intro opened[of now w1 h w2 now2]) simp_all
      qed
    qed
  qed
qed

lemma discard_after_loss_eq:
  assumes "md_datastore m = Some h" "md_context m = Some h" "mo_clock mo w = (now, w1)" "mo_exit mo h w1 = (r, w2)"
  shows "discard_after_loss mo h e (m, w) =
    (Inr (), (schedule_retry_locked now (m\<lparr>md_context := None, md_datastore := None, md_last_reconnect_error := Some e\<rparr>), w2))"
  using assms by (cases r) (simp_all add: discard_after_loss_def discard_session_locked_def clockM_def bindS_def
      Let_def schedule_retry_locked_def backoff_unless_def)

definition remembered :: "'w managed_ops \<Rightarrow> nat \<Rightarrow> 'w \<Rightarrow> managed \<Rightarrow> managed" where
  "remembered mo h w m = m\<lparr>md_last_response_stats := mo_stats mo h w, md_last_response_etag := mo_etag mo h w,
      md_last_response_payload := mo_payload mo h w\<rparr>"

lemma managed_call_present:
  assumes wf: "managed_wf m" and h: "md_datastore m = Some h" "\<not> md_closed m"
    and op: "op h w = (r, w1)" and m1_def: "m1 = remembered mo h w1 m"
  shows "managed_call mo op (m, w) =
    (case r of Inr response \<Rightarrow> (Inr response, (m1, w1))
     | Inl e \<Rightarrow>
         if is_reconnectable_device_loss e False
         then (case mo_clock mo w1 of (now, w2) \<Rightarrow> (Inl DatastoreDeviceUnavailable,
           (schedule_retry_locked now
              (m1\<lparr>md_context := None, md_datastore := None, md_last_reconnect_error := Some e\<rparr>),
            snd (mo_exit mo h w2))))
         else (Inl e, (m1, w1)))"
proof -
  have es: "ensure_session mo (m, w) = (Inr h, (m, w))" by (rule ensure_session_eq(2)[OF ensure_check_eq(2)[OF h(2,1)]])
  have rem: "remember_response_state mo h (m, w1) = (Inr (), (m1, w1))"
    using h by (simp add: remember_response_state_def m1_def remembered_def)
  have c: "md_datastore m1 = Some h" "md_context m1 = Some h"
    using h wf by (simp_all add: m1_def managed_wf_def remembered_def)
  show ?thesis
  proof (cases r)
    case (Inr x)
    then show ?thesis using es op rem by (simp add: managed_call_def bindS_def onDevice_def)
  next
    case (Inl e)
    obtain now w2 where k: "mo_clock mo w1 = (now, w2)" by fastforce
    obtain q w3 where x: "mo_exit mo h w2 = (q, w3)" by fastforce
    show ?thesis using Inl es op rem k x discard_after_loss_eq[OF c k x, of e]
      by (simp add: managed_call_def bindS_def onDevice_def)
  qed
qed

text \<open>A call is: get a session, then use the one that is there.\<close>

lemma managed_call_split:
  "ensure_session mo (m, w) = (Inl e, s) \<Longrightarrow> managed_call mo op (m, w) = (Inl e, s)"
  "ensure_session mo (m, w) = (Inr h, (m1, w1)) \<Longrightarrow> md_datastore m1 = Some h \<Longrightarrow> \<not> md_closed m1 \<Longrightarrow>
   managed_call mo op (m, w) = managed_call mo op (m1, w1)"
  by (auto simp: managed_call_def bindS_def ensure_session_def ensure_check_def)

lemma ensure_session_wf:
  assumes "managed_wf m" "ensure_session mo (m, w) = (r, (m', w'))"
  shows "managed_wf m'" "r = Inr h \<Longrightarrow> md_datastore m' = Some h \<and> \<not> md_closed m'"
  using assms(1)
  by (cases rule: ensure_session_cases[OF assms];
      auto simp: managed_wf_def schedule_retry_locked_def schedule_configuration_error_retry_locked_def Let_def
        min_def max_def)+

lemma managed_call_wf:
  assumes "managed_wf m" "managed_call mo op (m, w) = (r, (m', w'))"
  shows "managed_wf m'"
proof -
  obtain q m1 w1 where es: "ensure_session mo (m, w) = (q, (m1, w1))" by (metis surj_pair)
  note wf1 = ensure_session_wf[OF assms(1) es]
  show ?thesis
  proof (cases q)
    case (Inl e)
    then show ?thesis using managed_call_split(1)[of mo m w e _ op] es assms(2) wf1(1) by simp
  next
    case (Inr h)
    note d = wf1(2)[OF Inr]
    have c: "managed_call mo op (m1, w1) = (r, (m', w'))"
      using managed_call_split(2)[of mo m w h m1 w1 op] es assms(2) Inr d by simp
    obtain x w2 where x: "op h w1 = (x, w2)" by fastforce
    show ?thesis
      using c d wf1(1) managed_call_present[OF wf1(1), of h op w1 x w2 _ mo] x
      by (auto simp: remembered_def managed_wf_def schedule_retry_locked_def Let_def min_def max_def
          split: sum.splits if_splits prod.splits)
  qed
qed

lemma managed_close_eq:
  "managed_close mo (m, w) = (Inr (), (m', w')) \<Longrightarrow> managed_wf m \<Longrightarrow>
   managed_wf m' \<and> md_closed m' \<and> md_datastore m' = None \<and> md_session_generation m' = md_session_generation m"
  by (auto simp: managed_close_def discard_session_locked_def bindS_def Let_def backoff_unless_def managed_wf_def
      split: option.splits prod.splits sum.splits if_splits)

section \<open>Runs of the managed datastore\<close>

text \<open>
  Calls with any operation and \<open>close\<close>, in any order; between them the world may change by itself
  (time passes, the device is plugged in or out).
\<close>

inductive managed_step :: "'w managed_ops \<Rightarrow> managed \<times> 'w \<Rightarrow> managed \<times> 'w \<Rightarrow> bool" for mo where
  call: "managed_call mo op s = (r, s') \<Longrightarrow> managed_step mo s s'"
| close: "managed_close mo s = (r, s') \<Longrightarrow> managed_step mo s s'"
| env: "managed_step mo (m, w) (m, w')"

inductive_cases managed_stepE: "managed_step mo s s'"

lemma managed_close_result: "fst (managed_close mo s) = Inr ()"
  by (cases s) (auto simp: managed_close_def discard_session_locked_def bindS_def Let_def
      split: option.splits prod.splits sum.splits)

lemma managed_close_wf:
  assumes "managed_wf (fst s)" "managed_close mo s = (r, s')"
  shows "managed_wf (fst s') \<and> md_closed (fst s') \<and> md_datastore (fst s') = None \<and>
    md_session_generation (fst s') = md_session_generation (fst s)"
proof -
  obtain m w where s: "s = (m, w)" by fastforce
  obtain m' w' where s': "s' = (m', w')" by fastforce
  have "r = Inr ()" using managed_close_result[of mo s] assms(2) by simp
  then show ?thesis using managed_close_eq[of mo m w m' w'] assms by (simp add: s s')
qed

lemma managed_step_wf: "managed_step mo s s' \<Longrightarrow> managed_wf (fst s) \<Longrightarrow> managed_wf (fst s')"
proof (induction rule: managed_step.induct)
  case (call op s r s')
  then show ?case using managed_call_wf by (metis prod.collapse)
next
  case (close s r s')
  then show ?case using managed_close_wf by blast
qed simp

lemma managed_steps_wf: "(managed_step mo)\<^sup>*\<^sup>* s s' \<Longrightarrow> managed_wf (fst s) \<Longrightarrow> managed_wf (fst s')"
  by (induction rule: rtranclp_induct) (auto intro: managed_step_wf)

text \<open>Once closed, a call does nothing.\<close>

lemma managed_call_closed:
  "md_closed m \<Longrightarrow> managed_call mo op (m, w) = (Inl DatastoreDeviceUnavailable, (m, w))"
  by (simp add: managed_call_def bindS_def ensure_session_eq(1)[OF ensure_check_eq(1)])

lemma managed_step_closed: "managed_step mo s s' \<Longrightarrow> md_closed (fst s) \<Longrightarrow> md_closed (fst s')"
proof (induction rule: managed_step.induct)
  case (call op s r s')
  then show ?case using managed_call_closed[of "fst s" mo op "snd s"] by simp
next
  case (close s r s')
  then show ?case
    by (cases s) (auto simp: managed_close_def discard_session_locked_def bindS_def Let_def backoff_unless_def
        split: option.splits prod.splits sum.splits)
qed simp

lemma managed_steps_closed: "(managed_step mo)\<^sup>*\<^sup>* s s' \<Longrightarrow> md_closed (fst s) \<Longrightarrow> md_closed (fst s')"
  by (induction rule: rtranclp_induct) (auto intro: managed_step_closed)

text \<open>How a step changes the session and its generation.\<close>

definition same_session :: "managed \<Rightarrow> managed \<Rightarrow> bool" where
  "same_session m m' \<longleftrightarrow>
     md_session_generation m \<le> md_session_generation m' \<and>
     (md_session_generation m' = md_session_generation m \<longrightarrow>
        md_datastore m' = None \<or> md_datastore m' = md_datastore m)"

lemma ensure_session_generation:
  assumes "managed_wf m" "ensure_session mo (m, w) = (r, (m', w'))"
  shows "same_session m m'"
  by (cases rule: ensure_session_cases[OF assms])
     (auto simp: same_session_def schedule_retry_locked_def schedule_configuration_error_retry_locked_def Let_def)

lemma same_session_trans: "same_session a b \<Longrightarrow> same_session b c \<Longrightarrow> same_session a c"
  by (auto simp: same_session_def)

lemma managed_call_generation:
  assumes wf: "managed_wf m" and c: "managed_call mo op (m, w) = (r, (m', w'))"
  shows "same_session m m'"
proof -
  obtain q m1 w1 where es: "ensure_session mo (m, w) = (q, (m1, w1))" by (metis surj_pair)
  note wf1 = ensure_session_wf[OF wf es]
  have 1: "same_session m m1" by (rule ensure_session_generation[OF wf es])
  show ?thesis
  proof (cases q)
    case (Inl e)
    then show ?thesis using managed_call_split(1)[of mo m w e _ op] es c 1 by simp
  next
    case (Inr h)
    note d = wf1(2)[OF Inr]
    have c1: "managed_call mo op (m1, w1) = (r, (m', w'))"
      using managed_call_split(2)[of mo m w h m1 w1 op] es c Inr d by simp
    obtain x w2 where x: "op h w1 = (x, w2)" by fastforce
    have "same_session m1 m'"
      using c1 d managed_call_present[OF wf1(1), of h op w1 x w2 _ mo] x
      by (auto simp: remembered_def same_session_def schedule_retry_locked_def Let_def split: sum.splits if_splits prod.splits)
    then show ?thesis using 1 same_session_trans by blast
  qed
qed

lemma managed_steps_generation:
  "(managed_step mo)\<^sup>*\<^sup>* s s' \<Longrightarrow> managed_wf (fst s) \<Longrightarrow> same_session (fst s) (fst s')"
proof (induction rule: rtranclp_induct)
  case (step t u)
  have wf: "managed_wf (fst t)" using managed_steps_wf[OF step(1)] step(4) .
  from step(2) have "same_session (fst t) (fst u)"
  proof cases
    case (call op r)
    then show ?thesis using managed_call_generation[OF wf, of mo op "snd t" r "fst u" "snd u"] by simp
  next
    case (close r)
    then show ?thesis using managed_close_wf[OF wf close] by (simp add: same_session_def)
  qed (simp add: same_session_def)
  then show ?case using step same_session_trans by blast
qed (simp add: same_session_def)

text \<open>C16: The managed datastore keeps its state consistent in every run: the reconnect state is
  \<open>available\<close> exactly when a session is held and \<open>closed\<close> exactly after \<open>close\<close>, context and datastore
  belong together, the retry delay stays between the initial and the maximal delay, and the session
  generation never decreases: as long as it stays, a session that is held is the same session.\<close>

theorem managed_runs_consistent:
  assumes "s = (managed_init initial max_delay conf assume, w)" and "(managed_step mo)\<^sup>*\<^sup>* s t"
    and "(managed_step mo)\<^sup>*\<^sup>* t u"
  shows "managed_wf (fst t) \<and> same_session (fst t) (fst u)"
proof -
  have "managed_wf (fst t)" using managed_steps_wf[OF assms(2)] assms(1) managed_init_wf by simp
  then show ?thesis using managed_steps_generation[OF assms(3)] by simp
qed

text \<open>C20: After \<open>close\<close> the datastore stays closed: however it is called afterwards, a call raises
  \<open>DatastoreDeviceUnavailable\<close> at once, without opening the device and without touching the world.\<close>

theorem managed_closed_forever:
  assumes "managed_close mo s = (r, t)" and "(managed_step mo)\<^sup>*\<^sup>* t (m, w)"
  shows "managed_call mo op (m, w) = (Inl DatastoreDeviceUnavailable, (m, w))"
proof -
  have "md_closed (fst t)"
    using assms(1) by (cases s) (auto simp: managed_close_def discard_session_locked_def bindS_def Let_def
        backoff_unless_def split: option.splits prod.splits sum.splits)
  then have "md_closed m" using managed_steps_closed[OF assms(2)] by simp
  then show ?thesis by (rule managed_call_closed)
qed

section \<open>Calls are not repeated\<close>

text \<open>
  The operations with counters: how often the opener was called and how often the operation itself.
\<close>

definition counting :: "'w managed_ops \<Rightarrow> ('w \<times> nat \<times> nat) managed_ops" where
  "counting mo =
     \<lparr>mo_open = (\<lambda>(w, opens, ops). case mo_open mo w of (r, w') \<Rightarrow> (r, (w', opens + 1, ops))),
      mo_exit = (\<lambda>h (w, n). case mo_exit mo h w of (r, w') \<Rightarrow> (r, (w', n))),
      mo_clock = (\<lambda>(w, n). case mo_clock mo w of (r, w') \<Rightarrow> (r, (w', n))),
      mo_stats = (\<lambda>h (w, n). mo_stats mo h w), mo_etag = (\<lambda>h (w, n). mo_etag mo h w),
      mo_payload = (\<lambda>h (w, n). mo_payload mo h w),
      mo_supports_cancellable = (\<lambda>h (w, n). mo_supports_cancellable mo h w)\<rparr>"

definition counted :: "(nat \<Rightarrow> ('w, bytes) sop) \<Rightarrow> nat \<Rightarrow> ('w \<times> nat \<times> nat, bytes) sop" where
  "counted op h = (\<lambda>(w, opens, ops). case op h w of (r, w') \<Rightarrow> (r, (w', opens, ops + 1)))"

lemma counting_simps:
  "mo_open (counting mo) (w, a, b) = (q, (w', a', b')) \<Longrightarrow> a' = a + 1 \<and> b' = b"
  "mo_clock (counting mo) (w, n) = (now, (w', n')) \<Longrightarrow> n' = n"
  "snd (snd (mo_exit (counting mo) h (w, n))) = n"
  by (auto simp: counting_def split: prod.splits)

text \<open>C13: No request is repeated behind the caller's back: a call runs the operation at most once and
  opens the device at most once, the latter only when no session is held; it returns a response only
  from a run of the operation, and the generation grows by one exactly when a new session was opened
  and used.\<close>

theorem managed_call_no_replay:
  assumes wf: "managed_wf m"
    and c: "managed_call (counting mo) (counted op) (m, (w, 0, 0)) = (r, (m', (w', opens, ops)))"
  shows "opens \<le> 1 \<and> ops \<le> 1 \<and> (md_datastore m \<noteq> None \<or> md_closed m \<longrightarrow> opens = 0) \<and>
    (\<forall>response. r = Inr response \<longrightarrow> ops = 1) \<and>
    md_session_generation m' = md_session_generation m + (if opens = 1 \<and> ops = 1 then 1 else 0)"
proof -
  obtain q m1 w1 a b where es: "ensure_session (counting mo) (m, (w, 0, 0)) = (q, (m1, (w1, a, b)))"
    by (metis surj_pair)
  have ens: "a \<le> 1 \<and> b = 0 \<and> (md_datastore m \<noteq> None \<or> md_closed m \<longrightarrow> a = 0) \<and>
      md_session_generation m1 = md_session_generation m + (if \<exists>h. q = Inr h \<and> a = 1 then 1 else 0)"
    by (cases rule: ensure_session_cases[OF wf es])
       (auto simp: schedule_retry_locked_def schedule_configuration_error_retry_locked_def Let_def
         dest!: counting_simps(1,2))
  note wf1 = ensure_session_wf[OF wf es]
  show ?thesis
  proof (cases q)
    case (Inl e)
    then show ?thesis using managed_call_split(1)[of "counting mo" m "(w, 0, 0)" e _ "counted op"] es c ens by auto
  next
    case (Inr h)
    note d = wf1(2)[OF Inr]
    have c1: "managed_call (counting mo) (counted op) (m1, (w1, a, b)) = (r, (m', (w', opens, ops)))"
      using managed_call_split(2)[of "counting mo" m "(w, 0, 0)" h m1 "(w1, a, b)" "counted op"] es c Inr d by simp
    obtain x w2 where x: "counted op h (w1, a, b) = (x, (w2, a, b + 1))"
      by (cases "op h w1") (simp add: counted_def)
    show ?thesis
      using c1 d ens Inr managed_call_present[OF wf1(1), of h "counted op" "(w1, a, b)" x "(w2, a, b + 1)" _ "counting mo"] x
        counting_simps(3)[of mo h]
      by (auto simp: remembered_def schedule_retry_locked_def Let_def counting_def split: sum.splits if_splits prod.splits)
  qed
qed

section \<open>Device loss and back-off\<close>

text \<open>C33: Using a session that is held: a success is returned; an error that does not mean device loss is
  passed on and the session is kept; device loss drops the session, records the error, schedules the
  next attempt after the current retry delay, doubles the delay up to the maximum, and is reported as
  \<open>DatastoreDeviceUnavailable\<close>.\<close>

theorem managed_call_with_session:
  assumes "managed_wf m" "md_datastore m = Some h" "\<not> md_closed m" "op h w = (x, w1)"
    and "managed_call mo op (m, w) = (r, (m', w'))"
  shows "case x of
      Inr response \<Rightarrow> r = Inr response \<and> md_datastore m' = Some h
    | Inl e \<Rightarrow>
        if is_reconnectable_device_loss e False
        then r = Inl DatastoreDeviceUnavailable \<and> md_datastore m' = None \<and> md_context m' = None \<and>
          md_reconnect_state m' = Backoff \<and> md_last_reconnect_error m' = Some e \<and>
          md_next_retry_at m' = fst (mo_clock mo w1) + md_retry_delay_s m \<and>
          md_retry_delay_s m' = min (md_max_delay_s m) (2 * md_retry_delay_s m)
        else r = Inl e \<and> md_datastore m' = Some h"
proof -
  have "max (md_initial_delay_s m) (md_retry_delay_s m * 2) = 2 * md_retry_delay_s m"
    using assms(1) by (simp add: managed_wf_def max_def)
  then show ?thesis
    using managed_call_present[OF assms(1,2,3), of op w x w1 _ mo, OF assms(4) refl] assms(2,5)
    by (auto simp: remembered_def schedule_retry_locked_def Let_def split: sum.splits if_splits prod.splits)
qed

lemma schedule_retry_fields:
  "md_initial_delay_s (schedule_retry_locked now m) = md_initial_delay_s m"
  "md_max_delay_s (schedule_retry_locked now m) = md_max_delay_s m"
  "md_retry_delay_s (schedule_retry_locked now m) =
     min (md_max_delay_s m) (max (md_initial_delay_s m) (md_retry_delay_s m * 2))"
  "md_scheduled_retry_delay_s (schedule_retry_locked now m) = md_retry_delay_s m"
  "md_next_retry_at (schedule_retry_locked now m) = now + md_retry_delay_s m"
  "md_reconnect_state (schedule_retry_locked now m) = Backoff"
  by (simp_all add: schedule_retry_locked_def Let_def)

lemma min_max_double: "0 \<le> i \<Longrightarrow> i \<le> d \<Longrightarrow> i \<le> f \<Longrightarrow> min d (max i (min d f * 2)) = min d (2 * f)"
  for i d f :: rat
  by (cases "f \<le> d") (simp_all add: min_def max_def)

text \<open>The device is gone: opening it fails, and so does every operation on a session that is held.\<close>

definition device_gone :: "'w managed_ops \<Rightarrow> (nat \<Rightarrow> ('w, bytes) sop) set \<Rightarrow> bool" where
  "device_gone mo ops \<longleftrightarrow>
     (\<forall>w. \<exists>e w'. mo_open mo w = (Inl e, w') \<and> is_reconnectable_device_loss e True) \<and>
     (\<forall>op\<in>ops. \<forall>h w. \<exists>e w'. op h w = (Inl e, w') \<and> is_reconnectable_device_loss e False)"

text \<open>The time at which a call notices that; \<open>None\<close> for a call that does not go to the device.\<close>

definition loss_noticed :: "'w managed_ops \<Rightarrow> (nat \<Rightarrow> ('w, bytes) sop) \<Rightarrow> managed \<times> 'w \<Rightarrow> rat option" where
  "loss_noticed mo op s =
     (case ensure_check mo s of
        (Inr None, (m, w)) \<Rightarrow> Some (fst (mo_clock mo (snd (mo_open mo w))))
      | (Inr (Some h), (m, w)) \<Rightarrow> Some (fst (mo_clock mo (snd (op h w))))
      | (Inl e, _) \<Rightarrow> None)"

text \<open>Calls one after the other, with any change of the world before each: their results and the times of the losses.\<close>

fun calls_run :: "'w managed_ops \<Rightarrow> (('w \<Rightarrow> 'w) \<times> (nat \<Rightarrow> ('w, bytes) sop)) list \<Rightarrow> managed \<times> 'w \<Rightarrow>
    bytes result list \<times> rat list \<times> managed \<times> 'w" where
  "calls_run mo [] s = ([], [], s)"
| "calls_run mo ((env, op) # calls) (m, w) =
     (case managed_call mo op (m, env w) of (r, s) \<Rightarrow>
      (case calls_run mo calls s of (rs, ts, t) \<Rightarrow>
         (r # rs, (case loss_noticed mo op (m, env w) of None \<Rightarrow> ts | Some x \<Rightarrow> x # ts), t)))"

definition clock_forward :: "'w managed_ops \<Rightarrow> ('w \<Rightarrow> rat) \<Rightarrow> bool" where
  "clock_forward mo time \<longleftrightarrow>
     (\<forall>w. fst (mo_clock mo w) = time w \<and> time w \<le> time (snd (mo_clock mo w)) \<and> time w \<le> time (snd (mo_open mo w)))"

definition backoff_delay :: "managed \<Rightarrow> nat \<Rightarrow> rat" where
  "backoff_delay m k = min (md_max_delay_s m) (md_initial_delay_s m * 2 ^ k)"

lemma backoff_delay_Suc:
  assumes "managed_wf m"
  shows "min (md_max_delay_s m) (max (md_initial_delay_s m) (backoff_delay m k * 2)) = backoff_delay m (Suc k)"
proof -
  have b: "0 \<le> md_initial_delay_s m" "md_initial_delay_s m \<le> md_max_delay_s m" using assms by (auto simp: managed_wf_def)
  then have "md_initial_delay_s m \<le> md_initial_delay_s m * 2 ^ k" by (simp add: mult_le_cancel_left1)
  then show ?thesis using min_max_double[OF b] by (simp add: backoff_delay_def algebra_simps)
qed

text \<open>One call while the device is gone.\<close>

lemma gone_call:
  assumes wf: "managed_wf m" "\<not> md_closed m" and gone: "device_gone mo {op}" and fwd: "clock_forward mo time"
    and c: "managed_call mo op (m, w) = (r, (m', w'))"
  shows "r = Inl DatastoreDeviceUnavailable \<and> managed_wf m' \<and> \<not> md_closed m' \<and> backoff_delay m' = backoff_delay m \<and>
    md_datastore m' = None \<and>
    (case loss_noticed mo op (m, w) of
       None \<Rightarrow> md_datastore m = None \<and> md_next_retry_at m' = md_next_retry_at m \<and> md_retry_delay_s m' = md_retry_delay_s m
     | Some t \<Rightarrow> (md_datastore m = None \<longrightarrow> md_next_retry_at m \<le> t) \<and> md_next_retry_at m' = t + md_retry_delay_s m \<and>
         md_retry_delay_s m' = min (md_max_delay_s m) (max (md_initial_delay_s m) (md_retry_delay_s m * 2)))"
proof -
  note bd = backoff_delay_def fun_eq_iff
  have wf': "managed_wf m'" using managed_call_wf[OF wf(1) c] .
  show ?thesis
  proof (cases "md_datastore m")
    case (Some h)
    obtain e w1 where op: "op h w = (Inl e, w1)" "is_reconnectable_device_loss e False" using gone unfolding device_gone_def by blast
    obtain now w2 where k: "mo_clock mo w1 = (now, w2)" by fastforce
    have "loss_noticed mo op (m, w) = Some now"
      using op k by (simp add: loss_noticed_def ensure_check_eq(2)[OF wf(2) Some])
    then show ?thesis
      using managed_call_present[OF wf(1) Some wf(2), of op w "Inl e" w1 _ mo, OF op(1) refl] op(2) k c Some wf' wf(2)
      by (auto simp: remembered_def schedule_retry_fields schedule_retry_locked_def Let_def bd)
  next
    case None
    obtain now w1 where k: "mo_clock mo w = (now, w1)" by fastforce
    show ?thesis
    proof (cases "now < md_next_retry_at m")
      case True
      note ck = ensure_check_eq(3)[OF wf(2) None k True]
      have "loss_noticed mo op (m, w) = None" by (simp add: loss_noticed_def ck)
      moreover have "r = Inl DatastoreDeviceUnavailable" "m' = (if md_reconnect_state m \<noteq> ConfigurationError then m\<lparr>md_reconnect_state := Backoff\<rparr> else m)"
        using ensure_session_eq(1)[OF ck] c by (auto simp: managed_call_def bindS_def)
      ultimately show ?thesis using wf' None wf(2) by (auto simp: bd)
    next
      case False
      then have due: "md_next_retry_at m \<le> now" by simp
      note ck = ensure_check_eq(4)[OF wf(2) None k due]
      obtain e w2 where op: "mo_open mo w1 = (Inl e, w2)" "is_reconnectable_device_loss e True" using gone unfolding device_gone_def by blast
      obtain now2 w3 where k2: "mo_clock mo w2 = (now2, w3)" by fastforce
      have "now \<le> now2" using fwd k k2 op(1) unfolding clock_forward_def by (metis fst_conv snd_conv order_trans)
      moreover have "loss_noticed mo op (m, w) = Some now2" by (simp add: loss_noticed_def ck op k2)
      moreover have "r = Inl DatastoreDeviceUnavailable"
        "m' = schedule_retry_locked now2 (m\<lparr>md_reconnect_state := Reconnecting, md_last_reconnect_error := Some e\<rparr>)"
        using managed_call_split(1)[OF ensure_session_eq(3)[OF ck op(1), unfolded open_failed_eq[OF k2]], of op] op(2) c by simp_all
      ultimately show ?thesis using wf' None wf(2) due by (auto simp: schedule_retry_locked_def Let_def bd)
    qed
  qed
qed

lemma calls_run_backoff:
  assumes "managed_wf m" "\<not> md_closed m" "device_gone mo (snd ` set calls)" "clock_forward mo time"
    and "md_retry_delay_s m = backoff_delay m j" "calls_run mo calls (m, w) = (rs, ts, (m', w'))"
  shows "(\<forall>r\<in>set rs. r = Inl DatastoreDeviceUnavailable) \<and> \<not> md_closed m' \<and> managed_wf m' \<and>
    (md_datastore m = None \<and> ts \<noteq> [] \<longrightarrow> md_next_retry_at m \<le> hd ts) \<and>
    (\<forall>k. Suc k < length ts \<longrightarrow> ts ! k + backoff_delay m (j + k) \<le> ts ! Suc k) \<and>
    (ts = [] \<and> md_datastore m = None \<longrightarrow> md_datastore m' = None \<and> md_next_retry_at m' = md_next_retry_at m) \<and>
    (ts \<noteq> [] \<longrightarrow> md_datastore m' = None \<and> md_next_retry_at m' = last ts + backoff_delay m (j + length ts - 1))"
  using assms
proof (induction calls arbitrary: m w rs ts j)
  case Nil
  then show ?case by auto
next
  case (Cons call calls)
  obtain env op where eo: "call = (env, op)" by fastforce
  obtain r m1 w1 where c: "managed_call mo op (m, env w) = (r, (m1, w1))" by (metis surj_pair)
  obtain rs1 ts1 t1 where run: "calls_run mo calls (m1, w1) = (rs1, ts1, t1)" by (metis surj_pair)
  have t1: "t1 = (m', w')" "rs = r # rs1" "ts = (case loss_noticed mo op (m, env w) of None \<Rightarrow> ts1 | Some x \<Rightarrow> x # ts1)"
    using Cons.prems(6) c run by (auto simp: eo)
  have gone: "device_gone mo {op}" "device_gone mo (snd ` set calls)" using Cons.prems(3) by (auto simp: eo device_gone_def)
  note one = gone_call[OF Cons.prems(1,2) gone(1) Cons.prems(4) c]
  show ?case
  proof (cases "loss_noticed mo op (m, env w)")
    case None
    have "md_retry_delay_s m1 = backoff_delay m1 j" using one None Cons.prems(5) by auto
    from Cons.IH[OF _ _ gone(2) Cons.prems(4) this run[unfolded t1(1)]] show ?thesis using one None t1 by auto
  next
    case (Some x)
    have "md_retry_delay_s m1 = backoff_delay m1 (Suc j)"
      using one Some Cons.prems(5) backoff_delay_Suc[OF Cons.prems(1)] by auto
    note ih = Cons.IH[OF _ _ gone(2) Cons.prems(4) this run[unfolded t1(1)]]
    have next1: "md_next_retry_at m1 = x + backoff_delay m j" "md_datastore m1 = None" "backoff_delay m1 = backoff_delay m"
      using one Some Cons.prems(5) by auto
    have ts: "ts = x # ts1" using t1(3) Some by simp
    have gaps: "ts ! k + backoff_delay m (j + k) \<le> ts ! Suc k" if "Suc k < length ts" for k
    proof (cases k)
      case 0
      then show ?thesis using ih one that next1 by (auto simp: ts hd_conv_nth)
    next
      case (Suc k')
      then show ?thesis using ih one that next1 by (auto simp: ts)
    qed
    have "md_next_retry_at m' = last ts + backoff_delay m (j + length ts - 1)" "md_datastore m' = None"
      using ih one next1 by (cases "ts1 = []"; auto simp: ts)+
    then show ?thesis using ih one gaps Some t1(2) by (auto simp: ts)
  qed
qed

text \<open>The delay is the initial one in a new datastore and whenever a session is held.\<close>

definition fresh_delay :: "managed \<Rightarrow> bool" where
  "fresh_delay m \<longleftrightarrow> (md_datastore m \<noteq> None \<longrightarrow> md_retry_delay_s m = md_initial_delay_s m)"

lemma call_fresh_delay:
  assumes "managed_wf m" "fresh_delay m" "managed_call mo op (m, w) = (r, (m', w'))"
  shows "fresh_delay m'"
proof -
  obtain q m1 w1 where es: "ensure_session mo (m, w) = (q, (m1, w1))" by (metis surj_pair)
  note wf1 = ensure_session_wf[OF assms(1) es]
  have f1: "fresh_delay m1" using assms(1) es
    by (cases rule: ensure_session_cases) (use assms(2) in \<open>auto simp: fresh_delay_def schedule_retry_locked_def
        schedule_configuration_error_retry_locked_def Let_def split: if_splits\<close>)
  show ?thesis
  proof (cases q)
    case (Inl e)
    then show ?thesis using managed_call_split(1)[of mo m w e _ op] es assms(3) f1 by simp
  next
    case (Inr h)
    note d = wf1(2)[OF Inr]
    have c: "managed_call mo op (m1, w1) = (r, (m', w'))"
      using managed_call_split(2)[of mo m w h m1 w1 op] es assms(3) Inr d by simp
    obtain x w2 where x: "op h w1 = (x, w2)" by fastforce
    show ?thesis
      using c d f1 managed_call_present[OF wf1(1), of h op w1 x w2 _ mo] x
      by (auto simp: remembered_def fresh_delay_def schedule_retry_locked_def Let_def split: sum.splits if_splits prod.splits)
  qed
qed

lemma close_fresh_delay: "managed_close mo (m, w) = (r, (m', w')) \<Longrightarrow> fresh_delay m'"
  by (auto simp: managed_close_def discard_session_locked_def bindS_def fresh_delay_def backoff_unless_def Let_def
      split: option.splits prod.splits sum.splits if_splits)

lemma runs_fresh_delay:
  "(managed_step mo)\<^sup>*\<^sup>* s s' \<Longrightarrow> managed_wf (fst s) \<Longrightarrow> fresh_delay (fst s) \<Longrightarrow> fresh_delay (fst s') \<and> managed_wf (fst s')"
proof (induction rule: rtranclp_induct)
  case (step t u)
  then have t: "fresh_delay (fst t)" "managed_wf (fst t)" by auto
  have "managed_wf (fst u)" using managed_step_wf[OF step(2) t(2)] .
  moreover have "fresh_delay (fst u)" using step(2)
  proof cases
    case (call op r)
    then show ?thesis using call_fresh_delay t by (metis prod.collapse)
  next
    case (close r)
    then show ?thesis using close_fresh_delay by (metis prod.collapse)
  qed (use t in auto)
  ultimately show ?case by blast
qed auto

text \<open>C19: Exponential back-off while the device is gone. A datastore that was just created, or held a session in any run
  before, is called any number of times while opening and every operation fail as a loss of the device. Every call reports
  \<open>DatastoreDeviceUnavailable\<close>; between the \<open>k\<close>-th and the next time that a call goes to the device and fails
  there pass at least \<open>min max_delay (initial * 2 ^ k)\<close> seconds, counted from zero; and after the last failure calls are
  refused without going to the device just until that delay has passed.\<close>

theorem backoff_delays:
  assumes "(managed_step before)\<^sup>*\<^sup>* (managed_init initial max_delay conf assume, w0) (m, w)" "\<not> md_closed m"
    and "md_datastore m \<noteq> None \<or> m = managed_init initial max_delay conf assume"
    and "device_gone mo (snd ` set calls)" "clock_forward mo time"
    and "calls_run mo calls (m, w) = (rs, ts, (m', w'))"
  shows "(\<forall>r\<in>set rs. r = Inl DatastoreDeviceUnavailable) \<and>
    (\<forall>k. Suc k < length ts \<longrightarrow> ts ! k + min (md_max_delay_s m) (md_initial_delay_s m * 2 ^ k) \<le> ts ! Suc k) \<and>
    (ts \<noteq> [] \<longrightarrow>
       (\<forall>op v. loss_noticed mo op (m', v) = None \<longleftrightarrow>
          time v < last ts + min (md_max_delay_s m) (md_initial_delay_s m * 2 ^ (length ts - 1))))"
proof -
  have m: "managed_wf m" "fresh_delay m"
    using runs_fresh_delay[OF assms(1)] managed_init_wf by (auto simp: fresh_delay_def managed_init_def Let_def)
  have "md_retry_delay_s m = md_initial_delay_s m" "md_initial_delay_s m \<le> md_max_delay_s m"
    using assms(3) m by (auto simp: fresh_delay_def managed_init_def Let_def managed_wf_def)
  then have "md_retry_delay_s m = backoff_delay m 0" by (simp add: backoff_delay_def)
  note run = calls_run_backoff[OF m(1) assms(2,4,5) this assms(6)]
  have "loss_noticed mo op (m', v) = None \<longleftrightarrow> time v < md_next_retry_at m'" if "md_datastore m' = None" for op v
  proof -
    obtain now v' where k: "mo_clock mo v = (now, v')" by fastforce
    have now: "now = time v" using assms(5) k unfolding clock_forward_def by (metis fst_conv)
    show ?thesis using ensure_check_eq(3)[OF _ that k] ensure_check_eq(4)[OF _ that k] run now
      by (cases "now < md_next_retry_at m'") (auto simp: loss_noticed_def)
  qed
  then show ?thesis using run by (auto simp: backoff_delay_def)
qed

section \<open>Runs on concrete data\<close>

text \<open>A device that opens, with a clock that shows the world.\<close>

definition demo_managed_ops :: "rat managed_ops" where
  "demo_managed_ops = \<lparr>mo_open = (\<lambda>w. (Inr 7, w)), mo_exit = (\<lambda>h w. (Inr (), w)), mo_clock = (\<lambda>w. (w, w)),
     mo_stats = (\<lambda>_ _. None), mo_etag = (\<lambda>_ _. None), mo_payload = (\<lambda>_ _. None),
     mo_supports_cancellable = (\<lambda>_ _. True)\<rparr>"

definition demo_managed :: managed where
  "demo_managed = managed_init DEFAULT_RECONNECT_INITIAL_DELAY_S DEFAULT_RECONNECT_MAX_DELAY_S
     DEFAULT_CONFIGURATION_ERROR_RETRY_DELAY_S True"

lemmas demo_managed_eval = demo_managed_def managed_init_def demo_managed_ops_def managed_call_def
  ensure_session_def ensure_check_def session_opened_def remember_response_state_def clockM_def onDevice_def
  bindS_def Let_def DEFAULT_RECONNECT_INITIAL_DELAY_S_def DEFAULT_RECONNECT_MAX_DELAY_S_def
  DEFAULT_CONFIGURATION_ERROR_RETRY_DELAY_S_def

definition demo_open :: managed where
  "demo_open = fst (snd (managed_call demo_managed_ops (\<lambda>h w. (Inr [1], w)) (demo_managed, 3)))"

lemma demo_open_call:
  "managed_call demo_managed_ops (\<lambda>h w. (Inr [1], w)) (demo_managed, 3) = (Inr [1], (demo_open, 3))"
  by (simp add: demo_open_def demo_managed_eval)

lemma demo_open_simps:
  "md_datastore demo_open = Some 7" "\<not> md_closed demo_open" "md_retry_delay_s demo_open = 1 / 4"
  "md_max_delay_s demo_open = 5" "managed_wf demo_open" "md_session_generation demo_open = 1"
  by (simp_all add: demo_open_def demo_managed_eval managed_wf_def)

theorem managed_runs_consistent_witness:
  "(managed_step demo_managed_ops)\<^sup>*\<^sup>* (demo_managed, 3) (demo_open, 3) \<and> managed_wf demo_open \<and>
   same_session demo_open demo_open"
proof -
  have st: "(managed_step demo_managed_ops)\<^sup>*\<^sup>* (demo_managed, 3) (demo_open, 3)"
    using managed_step.call[OF demo_open_call] by blast
  show ?thesis
    using managed_runs_consistent[OF _ st rtranclp.rtrancl_refl] st unfolding demo_managed_def by simp
qed

theorem managed_closed_forever_witness:
  "\<exists>m w. managed_close demo_managed_ops (demo_open, 3) = (Inr (), (m, w)) \<and>
     managed_call demo_managed_ops (\<lambda>h w. (Inr [1], w)) (m, w + 9) = (Inl DatastoreDeviceUnavailable, (m, w + 9))"
proof -
  obtain m w where c: "managed_close demo_managed_ops (demo_open, 3) = (Inr (), (m, w))"
    using managed_close_result[of demo_managed_ops "(demo_open, 3)"] by (metis prod.collapse fst_conv)
  have "(managed_step demo_managed_ops)\<^sup>*\<^sup>* (m, w) (m, w + 9)" by (intro r_into_rtranclp managed_step.env)
  from managed_closed_forever[OF c this] c show ?thesis by blast
qed

theorem managed_call_no_replay_witness:
  "\<exists>r m' w' opens ops.
     managed_call (counting demo_managed_ops) (counted (\<lambda>h w. (Inr [1], w))) (demo_managed, (3, 0, 0)) =
       (r, (m', (w', opens, ops))) \<and> opens \<le> 1 \<and> ops \<le> 1 \<and> (\<forall>response. r = Inr response \<longrightarrow> ops = 1)"
proof -
  have wf: "managed_wf demo_managed" unfolding demo_managed_def by (rule managed_init_wf)
  obtain r m' w' opens ops where c:
    "managed_call (counting demo_managed_ops) (counted (\<lambda>h w. (Inr [1], w))) (demo_managed, (3, 0, 0)) =
       (r, (m', (w', opens, ops)))" by (metis surj_pair)
  show ?thesis using managed_call_no_replay[OF wf c] c by blast
qed

theorem managed_call_with_session_witness:
  "\<exists>r m' w'. managed_call demo_managed_ops (\<lambda>h w. (Inl (OSError 19), w)) (demo_open, 10) = (r, (m', w')) \<and>
     r = Inl DatastoreDeviceUnavailable \<and> md_datastore m' = None \<and> md_next_retry_at m' = 10 + 1 / 4 \<and>
     md_retry_delay_s m' = 1 / 2"
proof -
  obtain r m' w' where c: "managed_call demo_managed_ops (\<lambda>h w. (Inl (OSError 19), w)) (demo_open, 10) = (r, (m', w'))"
    by (metis surj_pair)
  show ?thesis
    using managed_call_with_session[OF demo_open_simps(5,1,2), of "\<lambda>h w. (Inl (OSError 19), w)" 10, OF refl c]
      c demo_open_simps
    by (simp add: RECONNECTABLE_USB_ERRNOS_def demo_managed_ops_def)
qed

definition gone_ops :: "rat managed_ops" where
  "gone_ops = demo_managed_ops\<lparr>mo_open := (\<lambda>w. (Inl NoDeviceFound, w))\<rparr>"

definition later_call :: "rat \<Rightarrow> (rat \<Rightarrow> rat) \<times> (nat \<Rightarrow> (rat, bytes) sop)" where
  "later_call t = (\<lambda>w. w + t, \<lambda>h w. (Inl (OSError 19), w))"

text \<open>A session is lost at 3; a call at 3.1 is refused, one at 3.25 tries in vain, one at 3.6 is refused, one at 4 tries.\<close>

theorem backoff_delays_witness:
  "\<exists>m' w'. calls_run gone_ops (map later_call [0, 1 / 10, 3 / 20, 7 / 20, 2 / 5]) (demo_open, 3) =
     (replicate 5 (Inl DatastoreDeviceUnavailable), [3, 13 / 4, 4], (m', w')) \<and>
     (\<forall>op v. loss_noticed gone_ops op (m', v) = None \<longleftrightarrow> v < 5)"
proof -
  let ?calls = "map later_call [0, 1 / 10, 3 / 20, 7 / 20, 2 / 5]"
  have st: "(managed_step demo_managed_ops)\<^sup>*\<^sup>* (demo_managed, 3) (demo_open, 3)"
    using managed_step.call[OF demo_open_call] by blast
  have gone: "device_gone gone_ops (snd ` set ?calls)"
    by (auto simp: device_gone_def gone_ops_def later_call_def RECONNECTABLE_USB_ERRNOS_def)
  have fwd: "clock_forward gone_ops (\<lambda>w. w)" by (simp add: clock_forward_def gone_ops_def demo_managed_ops_def)
  obtain rs ts m' w' where run: "calls_run gone_ops ?calls (demo_open, 3) = (rs, ts, (m', w'))" by (metis surj_pair)
  have r: "rs = replicate 5 (Inl DatastoreDeviceUnavailable)" "ts = [3, 13 / 4, 4]" "md_initial_delay_s demo_open = 1 / 4"
    using run by (auto simp: later_call_def gone_ops_def demo_open_def demo_managed_eval loss_noticed_def discard_after_loss_def
        discard_session_locked_def schedule_retry_locked_def backoff_unless_def open_failed_def RECONNECTABLE_USB_ERRNOS_def eval_nat_numeral)
  show ?thesis
    using backoff_delays[OF st[unfolded demo_managed_def] demo_open_simps(2) _ gone fwd run] run r demo_open_simps
    by (auto simp: min_def)
qed

end
