(* ===== verification/Motu_Coordinator.thy ===== *)
theory Motu_Coordinator
  imports Motu_Managed
begin

text \<open>
  The coordinator (\<open>DatastoreCoordinator\<close> of \<^verbatim>\<open>motu_proxy/datastore.py\<close>): one thread at a time talks
  to the device, foreground requests preempt the background long poll, and changes seen by any of them
  are kept in a bounded history from which waiting clients are answered.

  Every \<open>with self._condition\<close> block is one function on the record \<open>coordinator\<close>: the lock makes it
  atomic. The code between the blocks (device I/O) runs in the exception monad on the coordinator and
  the world of the datastore, whose operations are a parameter.
\<close>

section \<open>State\<close>

datatype io_owner = OwnerForeground | OwnerPoller

record datastore_transition =
  dt_from_etag :: pystr
  dt_to_etag :: pystr
  dt_body :: bytes
  dt_origin_client :: "pystr option"
  dt_content_type :: "pystr option"

record coordinator =
  co_poll_path :: pystr
  co_long_poll_timeout_ms :: int
  co_http_wait_timeout_ms :: int
  co_history_size :: nat
  co_poll_interval_s :: rat
  co_poll_read_timeout_slice_ms :: int
  co_foreground_preemption_budget_ms :: int
  co_degraded_refresh_interval_s :: rat
  co_poll_error_log_interval_s :: rat
  co_native_long_poll_available :: bool
  co_io_busy :: bool
  co_io_owner :: "io_owner option"
  co_foreground_waiters :: int
  co_active_poll_read :: "nat option"
  co_active_poll_cancel_requested :: bool
  co_degraded_refresh_in_progress :: bool
  co_next_degraded_refresh :: rat
  co_history :: "datastore_transition list"
  co_latest_etag :: "pystr option"
  co_datastore_session_generation :: nat
  co_closed :: bool
  co_last_poller_error :: "exc option"
  co_last_poller_error_log_at :: rat
  co_last_poller_error_log_key :: "(pystr \<times> pystr) option"

definition METERS_PATH :: pystr where "METERS_PATH = lit ''/meters''"
definition DEFAULT_POLL_PATH :: pystr where "DEFAULT_POLL_PATH = lit ''/datastore''"
definition DEFAULT_LONG_POLL_TIMEOUT_MS :: int where "DEFAULT_LONG_POLL_TIMEOUT_MS = 16000"
definition DEFAULT_HTTP_LONG_POLL_WAIT_MS :: int where "DEFAULT_HTTP_LONG_POLL_WAIT_MS = 15500"
definition DEFAULT_ETAG_HISTORY_SIZE :: nat where "DEFAULT_ETAG_HISTORY_SIZE = 64"
definition DEFAULT_POLL_READ_TIMEOUT_SLICE_MS :: int where "DEFAULT_POLL_READ_TIMEOUT_SLICE_MS = 250"
definition DEFAULT_FOREGROUND_PREEMPTION_BUDGET_MS :: int where
  "DEFAULT_FOREGROUND_PREEMPTION_BUDGET_MS = 500"
definition DEFAULT_DEGRADED_REFRESH_INTERVAL_S :: rat where "DEFAULT_DEGRADED_REFRESH_INTERVAL_S = 1 / 2"
definition DEFAULT_POLL_ERROR_LOG_INTERVAL_S :: rat where "DEFAULT_POLL_ERROR_LOG_INTERVAL_S = 30"

text \<open>The constructor with its default arguments, given what it reads of the datastore.\<close>

definition coordinator_init :: "bool \<Rightarrow> nat \<Rightarrow> coordinator" where
  "coordinator_init supports_cancellable generation =
     \<lparr>co_poll_path = DEFAULT_POLL_PATH, co_long_poll_timeout_ms = DEFAULT_LONG_POLL_TIMEOUT_MS,
      co_http_wait_timeout_ms = DEFAULT_HTTP_LONG_POLL_WAIT_MS,
      co_history_size = DEFAULT_ETAG_HISTORY_SIZE, co_poll_interval_s = 1 / 20,
      co_poll_read_timeout_slice_ms = DEFAULT_POLL_READ_TIMEOUT_SLICE_MS,
      co_foreground_preemption_budget_ms = DEFAULT_FOREGROUND_PREEMPTION_BUDGET_MS,
      co_degraded_refresh_interval_s = DEFAULT_DEGRADED_REFRESH_INTERVAL_S,
      co_poll_error_log_interval_s = DEFAULT_POLL_ERROR_LOG_INTERVAL_S,
      co_native_long_poll_available = supports_cancellable, co_io_busy = False, co_io_owner = None,
      co_foreground_waiters = 0, co_active_poll_read = None, co_active_poll_cancel_requested = False,
      co_degraded_refresh_in_progress = False, co_next_degraded_refresh = 0, co_history = [],
      co_latest_etag = None, co_datastore_session_generation = generation, co_closed = False,
      co_last_poller_error = None, co_last_poller_error_log_at = 0,
      co_last_poller_error_log_key = None\<rparr>"

definition long_poll_mode :: "coordinator \<Rightarrow> pystr" where
  "long_poll_mode c =
     (if co_native_long_poll_available c then lit ''native-preemptive'' else lit ''degraded-refresh'')"

section \<open>Small helpers\<close>

definition nonempty :: "'a list \<Rightarrow> 'a list option" where
  "nonempty s = (if s = [] then None else Some s)"

definition clean_etag :: "pystr option \<Rightarrow> pystr option" where
  "clean_etag value = (case value of None \<Rightarrow> None | Some v \<Rightarrow> nonempty (py_strip v))"

definition client_string :: "query_field_value option \<Rightarrow> pystr option" where
  "client_string value = map_option query_value_str value"

definition device_query_fields ::
    "query_field list option \<Rightarrow> query_field_value option \<Rightarrow> query_field list option" where
  "device_query_fields flds client =
     (case flds of
        None \<Rightarrow> None
      | Some fs \<Rightarrow>
          (case client of
             Some c \<Rightarrow>
               if \<not> list_ex (\<lambda>(name, _). name = lit ''client'') fs
               then Some (fs @ [(lit ''client'', c)]) else Some fs
           | None \<Rightarrow> Some fs))"

definition long_poll_query_fields_cacheable :: "query_field list option \<Rightarrow> bool" where
  "long_poll_query_fields_cacheable flds =
     (case flds of
        None \<Rightarrow> True
      | Some fs \<Rightarrow> fs = [] \<or> (length fs = 1 \<and> fst (fs ! 0) = lit ''client''))"

section \<open>Arbitration of the device\<close>

definition request_active_poll_cancel_locked :: "coordinator \<Rightarrow> nat option \<times> coordinator" where
  "request_active_poll_cancel_locked c =
     (if co_active_poll_read c = None \<or> co_active_poll_cancel_requested c then (None, c)
      else (co_active_poll_read c, c\<lparr>co_active_poll_cancel_requested := True\<rparr>))"

text \<open>
  \<open>_acquire_foreground_io\<close> holds the lock except while it waits. \<open>foreground_enter\<close> is the code before
  its loop, \<open>foreground_check\<close> one test of the loop with the two readings of the clock; the results
  say what the thread does next.
\<close>

datatype foreground_outcome =
    Acquired coordinator
  | MustWait coordinator "nat option" "rat option" "rat option"
  | BudgetExceeded coordinator "nat option"

definition foreground_enter :: "coordinator \<Rightarrow> coordinator" where
  "foreground_enter c = c\<lparr>co_foreground_waiters := co_foreground_waiters c + 1\<rparr>"

definition foreground_leave :: "coordinator \<Rightarrow> coordinator" where
  "foreground_leave c = c\<lparr>co_foreground_waiters := co_foreground_waiters c - 1\<rparr>"

definition foreground_check :: "rat \<Rightarrow> rat \<Rightarrow> coordinator \<Rightarrow> rat option \<Rightarrow> foreground_outcome" where
  "foreground_check now1 now2 c preemption_deadline =
     (if \<not> co_io_busy c
      then Acquired (foreground_leave (c\<lparr>co_io_busy := True, co_io_owner := Some OwnerForeground\<rparr>))
      else if co_io_owner c = Some OwnerPoller then
        (case request_active_poll_cancel_locked c of
           (active_poll_read, c) \<Rightarrow>
             let preemption_deadline =
               (if active_poll_read \<noteq> None \<and> preemption_deadline = None
                then Some (now1 + of_int (co_foreground_preemption_budget_ms c) / 1000)
                else preemption_deadline)
             in case preemption_deadline of
                  None \<Rightarrow> MustWait c active_poll_read None None
                | Some d \<Rightarrow>
                    if d - now2 \<le> 0 then BudgetExceeded (foreground_leave c) active_poll_read
                    else MustWait c active_poll_read (Some d) (Some (d - now2)))
      else MustWait c None preemption_deadline None)"

text \<open>\<open>_acquire_poller_io\<close>, one test of its loop: \<open>None\<close> is a wait.\<close>

definition poller_check :: "coordinator \<Rightarrow> (bool \<times> coordinator) option" where
  "poller_check c =
     (if co_io_busy c \<or> co_foreground_waiters c > 0
      then (if co_closed c then Some (False, c) else None)
      else if co_closed c then Some (False, c)
      else Some (True, c\<lparr>co_io_busy := True, co_io_owner := Some OwnerPoller\<rparr>))"

definition release_io :: "coordinator \<Rightarrow> coordinator" where
  "release_io c = c\<lparr>co_io_busy := False, co_io_owner := None, co_active_poll_read := None,
                    co_active_poll_cancel_requested := False\<rparr>"

text \<open>\<open>_set_active_poll_read\<close>: the result is the read to cancel once the lock is released.\<close>

definition set_active_poll_read :: "nat option \<Rightarrow> coordinator \<Rightarrow> nat option \<times> coordinator" where
  "set_active_poll_read r c =
     (let c = c\<lparr>co_active_poll_read := r, co_active_poll_cancel_requested := False\<rparr>
      in if r \<noteq> None \<and> co_foreground_waiters c > 0 then request_active_poll_cancel_locked c
         else (None, c))"

definition close_locked :: "coordinator \<Rightarrow> nat option \<times> coordinator" where
  "close_locked c = request_active_poll_cancel_locked (c\<lparr>co_closed := True\<rparr>)"

section \<open>The change history\<close>

text \<open>\<open>deque(maxlen = n).append\<close>\<close>

definition deque_append :: "nat \<Rightarrow> 'a list \<Rightarrow> 'a \<Rightarrow> 'a list" where
  "deque_append n xs x = (let ys = xs @ [x] in drop (length ys - n) ys)"

definition reset_if_session_generation_changed :: "nat \<Rightarrow> coordinator \<Rightarrow> coordinator" where
  "reset_if_session_generation_changed generation c =
     (if generation = co_datastore_session_generation c then c
      else c\<lparr>co_datastore_session_generation := generation, co_latest_etag := None, co_history := []\<rparr>)"

definition publish_payload ::
    "datastore_payload \<Rightarrow> pystr option \<Rightarrow> pystr option \<Rightarrow> bool \<Rightarrow> coordinator \<Rightarrow> coordinator" where
  "publish_payload payload origin_client from_etag record_transition c =
     (case dp_etag payload of
        None \<Rightarrow> c
      | Some etag \<Rightarrow>
          if \<not> record_transition then c
          else if not_modified payload then c\<lparr>co_latest_etag := Some etag\<rparr>
          else
            let previous = (if from_etag \<noteq> None then from_etag else co_latest_etag c);
                c = (case previous of
                       None \<Rightarrow> c
                     | Some p \<Rightarrow>
                         if p \<noteq> etag
                         then c\<lparr>co_history := deque_append (co_history_size c) (co_history c)
                           \<lparr>dt_from_etag = p, dt_to_etag = etag, dt_body = dp_body payload,
                            dt_origin_client = origin_client,
                            dt_content_type = Some (case Option.bind (dp_content_type payload) nonempty of
                              Some t \<Rightarrow> t | None \<Rightarrow> datastore_body_content_type (dp_body payload))\<rparr>\<rparr>
                         else c)
            in c\<lparr>co_latest_etag := Some etag\<rparr>)"

text \<open>The loop over the reversed history: an answer, or the transition remembered as suppressed.\<close>

fun find_transition ::
    "pystr \<Rightarrow> pystr option \<Rightarrow> datastore_transition list \<Rightarrow> datastore_transition option
     \<Rightarrow> datastore_transition option + datastore_transition" where
  "find_transition etag client [] suppressed = Inl suppressed"
| "find_transition etag client (t # ts) suppressed =
     (if dt_from_etag t \<noteq> etag then find_transition etag client ts suppressed
      else if client \<noteq> None \<and> dt_origin_client t = client then find_transition etag client ts (Some t)
      else Inr t)"

definition find_wait_outcome_locked ::
    "pystr \<Rightarrow> pystr option \<Rightarrow> coordinator \<Rightarrow> datastore_transition option \<times> bool" where
  "find_wait_outcome_locked etag client c =
     (case find_transition etag client (rev (co_history c)) None of
        Inr t \<Rightarrow> (Some t, False)
      | Inl (Some s) \<Rightarrow> (None, co_latest_etag c \<noteq> Some (dt_to_etag s))
      | Inl None \<Rightarrow>
          if co_latest_etag c \<noteq> None \<and> co_latest_etag c \<noteq> Some etag then (None, True)
          else (None, False))"

section \<open>Poller errors\<close>

definition clear_poller_error :: "coordinator \<Rightarrow> coordinator" where
  "clear_poller_error c = c\<lparr>co_last_poller_error := None\<rparr>"

text \<open>\<open>key\<close> is the class name and message of \<open>e\<close>; the result says whether a line is logged.\<close>

definition record_poller_error ::
    "exc \<Rightarrow> pystr \<times> pystr \<Rightarrow> rat \<Rightarrow> coordinator \<Rightarrow> bool \<times> coordinator" where
  "record_poller_error e key now c =
     (let c = c\<lparr>co_last_poller_error := Some e\<rparr>;
          should_log = (co_poll_error_log_interval_s c \<le> 0 \<or> Some key \<noteq> co_last_poller_error_log_key c \<or>
                        co_poll_error_log_interval_s c \<le> now - co_last_poller_error_log_at c)
      in if \<not> should_log then (False, c)
         else (True, c\<lparr>co_last_poller_error_log_at := now, co_last_poller_error_log_key := Some key\<rparr>))"

section \<open>Requests while the device is owned\<close>

text \<open>
  The datastore as the coordinator uses it. Its operations run on the coordinator too, because the
  poller passes callbacks to \<open>get\<close>. \<open>do_exc_key\<close> renders an exception, \<open>do_log\<close> is the line on
  standard error, \<open>do_monotonic\<close> the clock.
\<close>

record 'w datastore_ops =
  do_get :: "pystr \<Rightarrow> (coordinator \<times> 'w) get_args \<Rightarrow> (coordinator \<times> 'w, bytes) sop"
  do_post :: "pystr \<Rightarrow> bytes \<Rightarrow> query_field_value option \<Rightarrow> (coordinator \<times> 'w, bytes) sop"
  do_session_generation :: "'w \<Rightarrow> nat"
  do_last_response_payload :: "'w \<Rightarrow> datastore_payload option"
  do_last_response_etag :: "'w \<Rightarrow> pystr option"
  do_cancel :: "nat \<Rightarrow> (coordinator \<times> 'w, unit) sop"
  do_monotonic :: "'w \<Rightarrow> rat \<times> 'w"
  do_exc_key :: "exc \<Rightarrow> pystr \<times> pystr"
  do_log :: "pystr \<times> pystr \<Rightarrow> 'w \<Rightarrow> 'w"

type_synonym ('w, 'a) cop = "(coordinator \<times> 'w, 'a) sop"

definition modC :: "(coordinator \<Rightarrow> coordinator) \<Rightarrow> ('w, unit) cop" where
  "modC f = modS (\<lambda>(c, w). (f c, w))"

definition reset_generation :: "'w datastore_ops \<Rightarrow> ('w, unit) cop" where
  "reset_generation dso =
     modS (\<lambda>(c, w). (reset_if_session_generation_changed (do_session_generation dso w) c, w))"

definition payload_from_response :: "'w datastore_ops \<Rightarrow> bytes \<Rightarrow> ('w, datastore_payload) cop" where
  "payload_from_response dso response =
     bindS (reset_generation dso) (\<lambda>_ (c, w).
       case (case do_last_response_payload dso w of
               Some p \<Rightarrow> Inr p | None \<Rightarrow> parse_datastore_response response False) of
         Inl e \<Rightarrow> (Inl e, (c, w))
       | Inr payload \<Rightarrow>
           (Inr \<lparr>dp_body = dp_body payload,
                 dp_etag = (case Option.bind (dp_etag payload) nonempty of
                              Some t \<Rightarrow> Some t | None \<Rightarrow> do_last_response_etag dso w),
                 dp_status = dp_status payload,
                 dp_content_type = Some (case Option.bind (dp_content_type payload) nonempty of
                   Some t \<Rightarrow> t | None \<Rightarrow> datastore_body_content_type (dp_body payload))\<rparr>, (c, w)))"

definition record_error :: "'w datastore_ops \<Rightarrow> exc \<Rightarrow> ('w, unit) cop" where
  "record_error dso e = (\<lambda>(c, w).
     case do_monotonic dso w of (now, w) \<Rightarrow>
       (case record_poller_error e (do_exc_key dso e) now c of
          (True, c) \<Rightarrow> (Inr (), (c, do_log dso (do_exc_key dso e) w))
        | (False, c) \<Rightarrow> (Inr (), (c, w))))"

definition foreground_get_args ::
    "pystr \<Rightarrow> query_field_value option \<Rightarrow> int \<Rightarrow> query_field list option \<Rightarrow> 'v get_args" where
  "foreground_get_args etag client timeout_ms flds =
     (case device_query_fields flds client of
        None \<Rightarrow> default_get_args\<lparr>ga_etag := etag, ga_client := client, ga_timeout_ms := timeout_ms\<rparr>
      | Some fs \<Rightarrow> default_get_args\<lparr>ga_etag := etag, ga_timeout_ms := timeout_ms, ga_query_fields := FieldPairs fs\<rparr>)"

text \<open>The body of \<open>read\<close> between \<open>_acquire_foreground_io\<close> and its \<open>finally\<close>, which releases.\<close>

definition coordinator_read_owned ::
    "'w datastore_ops \<Rightarrow> pystr \<Rightarrow> pystr \<Rightarrow> query_field_value option \<Rightarrow> int \<Rightarrow> query_field list option
     \<Rightarrow> ('w, datastore_payload) cop" where
  "coordinator_read_owned dso path etag client timeout_ms flds =
     finallyS
       (bindS (do_get dso path (foreground_get_args etag client timeout_ms flds)) (\<lambda>response.
        bindS (payload_from_response dso response) (\<lambda>payload (c, w).
        bindS (modC (publish_payload payload None None (path = co_poll_path c))) (\<lambda>_.
        retS payload) (c, w))))
       (modC release_io)"

definition read_locked ::
    "'w datastore_ops \<Rightarrow> pystr \<Rightarrow> pystr \<Rightarrow> query_field_value option \<Rightarrow> int \<Rightarrow> query_field list option
     \<Rightarrow> ('w, datastore_payload) cop" where
  "read_locked dso path etag client timeout_ms flds =
     bindS (do_get dso path (foreground_get_args etag client timeout_ms flds)) (\<lambda>response.
     bindS (reset_generation dso) (\<lambda>_. payload_from_response dso response))"

text \<open>The body of \<open>post\<close>: the write, then a refresh whose failure is only recorded.\<close>

definition coordinator_post_owned ::
    "'w datastore_ops \<Rightarrow> pystr \<Rightarrow> bytes \<Rightarrow> query_field_value option \<Rightarrow> ('w, datastore_payload) cop" where
  "coordinator_post_owned dso path json_body client =
     finallyS
       (bindS (do_post dso path json_body client) (\<lambda>response.
        bindS (payload_from_response dso response) (\<lambda>payload.
        bindS (\<lambda>(c, w).
          case bindS (read_locked dso (co_poll_path c) (lit ''0'') None DEFAULT_RESPONSE_TIMEOUT_MS None)
                 (\<lambda>refresh. bindS (modC clear_poller_error) (\<lambda>_. retS refresh)) (c, w) of
            (Inl e, s) \<Rightarrow> record_error dso e s
          | (Inr refresh, s) \<Rightarrow> modC (publish_payload refresh (client_string client) None True) s) (\<lambda>_.
        retS payload))))
       (modC release_io)"

text \<open>Callbacks of the poller: \<open>_is_closed\<close> and \<open>_set_active_poll_read\<close>.\<close>

definition is_closed :: "('w, bool) cop" where
  "is_closed = (\<lambda>(c, w). (Inr (co_closed c), (c, w)))"

definition note_poll_read :: "'w datastore_ops \<Rightarrow> nat option \<Rightarrow> ('w, unit) cop" where
  "note_poll_read dso r = (\<lambda>(c, w).
     case set_active_poll_read r c of
       (None, c) \<Rightarrow> (Inr (), (c, w))
     | (Some h, c) \<Rightarrow> do_cancel dso h (c, w))"

text \<open>The owned part of one round of \<open>_poll_loop\<close>; \<open>latest\<close> is the ETag read before it.\<close>

definition poll_owned :: "'w datastore_ops \<Rightarrow> pystr option \<Rightarrow> ('w, unit) cop" where
  "poll_owned dso latest = (\<lambda>(c, w).
     let initial_refresh = (latest = None);
         etag = (case Option.bind latest nonempty of Some t \<Rightarrow> t | None \<Rightarrow> lit ''0'')
     in finallyS
       (bindS (do_get dso (co_poll_path c)
          (default_get_args\<lparr>ga_etag := etag,
             ga_timeout_ms := (if initial_refresh then DEFAULT_RESPONSE_TIMEOUT_MS else co_long_poll_timeout_ms c),
             ga_should_cancel := Some is_closed,
             ga_read_mode := \<lparr>rm_cancellable = (\<not> initial_refresh),
                rm_read_started = (if initial_refresh then None else Some (note_poll_read dso))\<rparr>\<rparr>)) (\<lambda>response.
        bindS (payload_from_response dso response) (\<lambda>payload.
        bindS (modC clear_poller_error) (\<lambda>_.
        modC (publish_payload payload None (Some etag) True)))))
       (modC release_io) (c, w))"

text \<open>The handlers of \<open>_poll_loop\<close> around it: the result says whether the loop goes on.\<close>

definition poll_round :: "'w datastore_ops \<Rightarrow> pystr option \<Rightarrow> ('w, bool) cop" where
  "poll_round dso latest = (\<lambda>s.
     case poll_owned dso latest s of
       (Inl DatastoreCancelled, (c, w)) \<Rightarrow>
         if co_closed c then (Inr False, (c, w)) else (Inr True, (clear_poller_error c, w))
     | (Inl e, s') \<Rightarrow> bindS (record_error dso e) (\<lambda>_. bindS is_closed (\<lambda>b. retS (\<not> b))) s'
     | (Inr _, (c, w)) \<Rightarrow> (Inr (\<not> co_closed c), (c, w)))"

section \<open>Waiting for a change\<close>

text \<open>\<open>get\<close>: which kind of read a request is.\<close>

datatype get_plan =
    PlanRead pystr
  | PlanWait pystr

definition coordinator_get_plan :: "pystr \<Rightarrow> pystr option \<Rightarrow> get_plan" where
  "coordinator_get_plan path if_none_match =
     (case clean_etag if_none_match of
        Some etag \<Rightarrow> if path = METERS_PATH then PlanRead etag else PlanWait etag
      | None \<Rightarrow> PlanRead (lit ''0''))"

text \<open>
  One round of the loop of \<open>wait_for_change\<close>, under the lock: answer from the history, leave the loop
  for a read of the device, answer 304, wait, or refresh the poll path first (degraded mode). \<open>now1\<close> and
  \<open>now\<close> are its two readings of the clock.
\<close>

datatype wait_outcome =
    WaitCached datastore_payload
  | WaitReadDevice
  | WaitNotModified datastore_payload
  | WaitFor rat
  | WaitRefresh int coordinator

definition wait_check ::
    "pystr \<Rightarrow> pystr \<Rightarrow> pystr option \<Rightarrow> bool \<Rightarrow> rat \<Rightarrow> rat \<Rightarrow> rat \<Rightarrow> coordinator \<Rightarrow> wait_outcome" where
  "wait_check path etag client_id cacheable deadline now1 now c =
     (case find_wait_outcome_locked etag client_id c of
        (Some t, _) \<Rightarrow>
          if path = co_poll_path c \<and> cacheable
          then WaitCached \<lparr>dp_body = dt_body t, dp_etag = Some (dt_to_etag t), dp_status = None,
                           dp_content_type = dt_content_type t\<rparr>
          else WaitReadDevice
      | (None, should_refresh) \<Rightarrow>
          if should_refresh then WaitReadDevice
          else let remaining = deadline - now1 in
            if remaining \<le> 0 \<or> co_closed c
            then WaitNotModified \<lparr>dp_body = [], dp_etag = Some etag, dp_status = Some 304, dp_content_type = None\<rparr>
            else if \<not> co_native_long_poll_available c then
              (if co_degraded_refresh_in_progress c then WaitFor remaining
               else if co_next_degraded_refresh c \<le> now
               then WaitRefresh (max 1 \<lfloor>remaining * 1000\<rfloor>)
                      (c\<lparr>co_degraded_refresh_in_progress := True,
                         co_next_degraded_refresh := now + co_degraded_refresh_interval_s c\<rparr>)
               else WaitFor (min remaining (max (1 / 1000) (co_next_degraded_refresh c - now))))
            else WaitFor remaining)"

definition refresh_done :: "coordinator \<Rightarrow> coordinator" where
  "refresh_done c = c\<lparr>co_degraded_refresh_in_progress := False\<rparr>"

section \<open>Threads\<close>

text \<open>
  The threads of the server as a step relation. A step is one critical section of the code, so every
  interleaving of foreground requests (numbered by \<^typ>\<open>nat\<close>), the poller and \<open>close\<close> is a sequence
  of steps. A waiting thread may look again at any time: \<open>Condition.wait\<close> returns on a notification,
  on its time-out, or spuriously.
\<close>

datatype fg_state = FgIdle | FgWaiting "rat option" | FgOwning

datatype poller_state = PollerOutside | PollerOwning | PollerReading nat | PollerStopped

record csys =
  sy_co :: coordinator
  sy_fg :: "nat \<Rightarrow> fg_state"
  sy_poller :: poller_state

definition after_check :: "nat \<Rightarrow> foreground_outcome \<Rightarrow> csys \<Rightarrow> csys" where
  "after_check i out s =
     (case out of
        Acquired c \<Rightarrow> s\<lparr>sy_co := c, sy_fg := (sy_fg s)(i := FgOwning)\<rparr>
      | MustWait c _ deadline _ \<Rightarrow> s\<lparr>sy_co := c, sy_fg := (sy_fg s)(i := FgWaiting deadline)\<rparr>
      | BudgetExceeded c _ \<Rightarrow> s\<lparr>sy_co := c, sy_fg := (sy_fg s)(i := FgIdle)\<rparr>)"

text \<open>What the owner of the device may do to the cache and the error fields.\<close>

inductive owner_update :: "coordinator \<Rightarrow> coordinator \<Rightarrow> bool" where
  publish: "owner_update c (publish_payload p origin from_etag rec c)"
| reset: "owner_update c (reset_if_session_generation_changed g c)"
| clear: "owner_update c (clear_poller_error c)"
| error: "owner_update c (snd (record_poller_error e key now c))"

inductive coord_step :: "csys \<Rightarrow> csys \<Rightarrow> bool" where
  fg_start: "sy_fg s i = FgIdle \<Longrightarrow>
    coord_step s (after_check i (foreground_check now1 now2 (foreground_enter (sy_co s)) None) s)"
| fg_wake: "sy_fg s i = FgWaiting d \<Longrightarrow>
    coord_step s (after_check i (foreground_check now1 now2 (sy_co s) d) s)"
| fg_update: "sy_fg s i = FgOwning \<Longrightarrow> owner_update (sy_co s) c \<Longrightarrow> coord_step s (s\<lparr>sy_co := c\<rparr>)"
| fg_release: "sy_fg s i = FgOwning \<Longrightarrow>
    coord_step s (s\<lparr>sy_co := release_io (sy_co s), sy_fg := (sy_fg s)(i := FgIdle)\<rparr>)"
| poll_acquire: "sy_poller s = PollerOutside \<Longrightarrow> poller_check (sy_co s) = Some (True, c) \<Longrightarrow>
    coord_step s (s\<lparr>sy_co := c, sy_poller := PollerOwning\<rparr>)"
| poll_stop: "sy_poller s = PollerOutside \<Longrightarrow> poller_check (sy_co s) = Some (False, c) \<Longrightarrow>
    coord_step s (s\<lparr>sy_co := c, sy_poller := PollerStopped\<rparr>)"
| poll_quit: "sy_poller s = PollerOutside \<Longrightarrow> co_closed (sy_co s) \<Longrightarrow>
    coord_step s (s\<lparr>sy_poller := PollerStopped\<rparr>)"
| poll_read: "sy_poller s = PollerOwning \<Longrightarrow>
    coord_step s (s\<lparr>sy_co := snd (set_active_poll_read (Some h) (sy_co s)), sy_poller := PollerReading h\<rparr>)"
| poll_read_done: "sy_poller s = PollerReading h \<Longrightarrow>
    coord_step s (s\<lparr>sy_co := snd (set_active_poll_read None (sy_co s)), sy_poller := PollerOwning\<rparr>)"
| poll_update: "sy_poller s = PollerOwning \<Longrightarrow> owner_update (sy_co s) c \<Longrightarrow> coord_step s (s\<lparr>sy_co := c\<rparr>)"
| poll_release: "sy_poller s = PollerOwning \<Longrightarrow>
    coord_step s (s\<lparr>sy_co := release_io (sy_co s), sy_poller := PollerOutside\<rparr>)"
| close: "coord_step s (s\<lparr>sy_co := snd (close_locked (sy_co s))\<rparr>)"
| wait_refresh: "wait_check path etag client_id cacheable deadline now1 now (sy_co s) = WaitRefresh t c \<Longrightarrow>
    coord_step s (s\<lparr>sy_co := c\<rparr>)"
| wait_refresh_done: "coord_step s (s\<lparr>sy_co := refresh_done (sy_co s)\<rparr>)"

definition csys_init :: "bool \<Rightarrow> nat \<Rightarrow> csys" where
  "csys_init native generation =
     \<lparr>sy_co = coordinator_init native generation, sy_fg = (\<lambda>_. FgIdle), sy_poller = PollerOutside\<rparr>"

section \<open>The invariant of the arbitration\<close>

definition waiting_set :: "csys \<Rightarrow> nat set" where
  "waiting_set s = {i. \<exists>d. sy_fg s i = FgWaiting d}"

definition owning_set :: "csys \<Rightarrow> nat set" where
  "owning_set s = {i. sy_fg s i = FgOwning}"

definition poll_handle :: "poller_state \<Rightarrow> nat option" where
  "poll_handle p = (case p of PollerReading h \<Rightarrow> Some h | _ \<Rightarrow> None)"

definition poll_owns :: "poller_state \<Rightarrow> bool" where
  "poll_owns p \<longleftrightarrow> p = PollerOwning \<or> (\<exists>h. p = PollerReading h)"

definition ownership_ok :: "csys \<Rightarrow> bool" where
  "ownership_ok s \<longleftrightarrow>
     (let c = sy_co s in
      finite (waiting_set s) \<and> co_foreground_waiters c = int (card (waiting_set s)) \<and>
      co_io_busy c = (co_io_owner c \<noteq> None) \<and>
      (if co_io_owner c = Some OwnerForeground then \<exists>i. owning_set s = {i} else owning_set s = {}) \<and>
      (co_io_owner c = Some OwnerPoller \<longleftrightarrow> poll_owns (sy_poller s)) \<and>
      co_active_poll_read c = poll_handle (sy_poller s))"

definition preemption_ok :: "coordinator \<Rightarrow> bool" where
  "preemption_ok c \<longleftrightarrow>
     (0 < co_foreground_waiters c \<and> co_active_poll_read c \<noteq> None \<longrightarrow> co_active_poll_cancel_requested c)"

definition arbitration_ok :: "csys \<Rightarrow> bool" where
  "arbitration_ok s \<longleftrightarrow> ownership_ok s \<and> preemption_ok (sy_co s)"

text \<open>The fields the invariant is about; updates of the cache and of \<open>closed\<close> leave them alone.\<close>

definition io_part :: "coordinator \<Rightarrow> bool \<times> io_owner option \<times> int \<times> nat option" where
  "io_part c = (co_io_busy c, co_io_owner c, co_foreground_waiters c, co_active_poll_read c)"

lemma arbitration_cong:
  assumes "arbitration_ok s" "io_part c = io_part (sy_co s)"
    and "co_active_poll_cancel_requested (sy_co s) \<longrightarrow> co_active_poll_cancel_requested c"
  shows "arbitration_ok (s\<lparr>sy_co := c\<rparr>)"
  using assms by (auto simp: arbitration_ok_def ownership_ok_def preemption_ok_def io_part_def Let_def waiting_set_def owning_set_def)

lemma owner_update_io:
  "owner_update c c' \<Longrightarrow> io_part c' = io_part c \<and>
     co_active_poll_cancel_requested c' = co_active_poll_cancel_requested c"
  by (induction rule: owner_update.induct)
     (auto simp: io_part_def publish_payload_def reset_if_session_generation_changed_def clear_poller_error_def
        record_poller_error_def Let_def split: option.splits)

lemma arbitration_update:
  "arbitration_ok s \<Longrightarrow> owner_update (sy_co s) c \<Longrightarrow> arbitration_ok (s\<lparr>sy_co := c\<rparr>)"
  using owner_update_io[of "sy_co s" c] by (auto intro: arbitration_cong)

lemma fg_sets_upd:
  "waiting_set (s\<lparr>sy_co := c, sy_fg := (sy_fg s)(i := st)\<rparr>) =
     (case st of FgWaiting d \<Rightarrow> insert i (waiting_set s) | _ \<Rightarrow> waiting_set s - {i})"
  "owning_set (s\<lparr>sy_co := c, sy_fg := (sy_fg s)(i := st)\<rparr>) =
     (case st of FgOwning \<Rightarrow> insert i (owning_set s) | _ \<Rightarrow> owning_set s - {i})"
  by (auto simp: waiting_set_def owning_set_def split: fg_state.splits)

lemma fg_sets_co [simp]:
  "waiting_set (s\<lparr>sy_co := c\<rparr>) = waiting_set s" "owning_set (s\<lparr>sy_co := c\<rparr>) = owning_set s"
  "waiting_set (s\<lparr>sy_co := c, sy_poller := p\<rparr>) = waiting_set s"
  "owning_set (s\<lparr>sy_co := c, sy_poller := p\<rparr>) = owning_set s"
  "waiting_set (s\<lparr>sy_poller := p\<rparr>) = waiting_set s" "owning_set (s\<lparr>sy_poller := p\<rparr>) = owning_set s"
  by (simp_all add: waiting_set_def owning_set_def)

lemma request_cancel_io:
  "request_active_poll_cancel_locked c = (h, c') \<Longrightarrow>
   io_part c' = io_part c \<and> (co_active_poll_read c \<noteq> None \<longrightarrow> co_active_poll_cancel_requested c') \<and>
   (co_active_poll_cancel_requested c \<longrightarrow> co_active_poll_cancel_requested c')"
  by (auto simp: request_active_poll_cancel_locked_def io_part_def split: if_splits)

lemma foreground_check_cases:
  obtains
    (acquired) "\<not> co_io_busy c" "foreground_check now1 now2 c d =
      Acquired (foreground_leave (c\<lparr>co_io_busy := True, co_io_owner := Some OwnerForeground\<rparr>))"
  | (stays) c' h d' t where "co_io_busy c" "foreground_check now1 now2 c d = MustWait c' h d' t" "io_part c' = io_part c"
      "co_io_owner c = Some OwnerPoller \<Longrightarrow> co_active_poll_read c \<noteq> None \<Longrightarrow> co_active_poll_cancel_requested c'"
  | (gives_up) c' h where "co_io_busy c" "foreground_check now1 now2 c d = BudgetExceeded (foreground_leave c') h"
      "io_part c' = io_part c"
      "co_io_owner c = Some OwnerPoller \<Longrightarrow> co_active_poll_read c \<noteq> None \<Longrightarrow> co_active_poll_cancel_requested c'"
proof (cases "co_io_busy c")
  case False
  then show ?thesis using acquired by (simp add: foreground_check_def)
next
  case busy: True
  show ?thesis
  proof (cases "co_io_owner c = Some OwnerPoller")
    case False
    then show ?thesis using busy by (intro stays[of c]) (auto simp: foreground_check_def)
  next
    case True
    obtain h c' where r: "request_active_poll_cancel_locked c = (h, c')" by fastforce
    note io = request_cancel_io[OF r]
    let ?d = "if h \<noteq> None \<and> d = None then Some (now1 + of_int (co_foreground_preemption_budget_ms c') / 1000) else d"
    show ?thesis
    proof (cases "\<exists>x. ?d = Some x \<and> x - now2 \<le> 0")
      case True
      then have "foreground_check now1 now2 c d = BudgetExceeded (foreground_leave c') h"
        using busy \<open>co_io_owner c = Some OwnerPoller\<close> r
        by (cases h; cases d) (auto simp: foreground_check_def Let_def)
      then show ?thesis using gives_up busy io by blast
    next
      case no: False
      then have "\<exists>d' t. foreground_check now1 now2 c d = MustWait c' h d' t"
        using busy True r by (cases h; cases d) (auto simp: foreground_check_def Let_def)
      then show ?thesis using stays busy io by blast
    qed
  qed
qed

lemma check_ok:
  assumes ok: "ownership_ok s" and i: "sy_fg s i = FgWaiting d"
  shows "arbitration_ok (after_check i (foreground_check now1 now2 (sy_co s) d) s)"
proof -
  let ?c = "sy_co s"
  have wi: "i \<in> waiting_set s" "i \<notin> owning_set s" using i by (auto simp: waiting_set_def owning_set_def)
  have fin: "finite (waiting_set s)" and cnt: "co_foreground_waiters ?c = int (card (waiting_set s))"
    using ok by (simp_all add: ownership_ok_def Let_def)
  have del: "co_foreground_waiters ?c - 1 = int (card (waiting_set s - {i}))" "finite (waiting_set s - {i})"
    "owning_set s - {i} = owning_set s" "insert i (waiting_set s) = waiting_set s"
    using wi fin cnt card_gt_0_iff[of "waiting_set s"] by auto
  have act: "co_active_poll_read ?c \<noteq> None \<Longrightarrow> co_io_owner ?c = Some OwnerPoller"
    using ok by (auto simp: ownership_ok_def Let_def poll_handle_def poll_owns_def split: poller_state.splits)
  note defs = after_check_def arbitration_ok_def ownership_ok_def preemption_ok_def Let_def fg_sets_upd
    foreground_leave_def io_part_def
  show ?thesis
  proof (cases rule: foreground_check_cases[of ?c now1 now2 d])
    case acquired
    then show ?thesis using ok act del by (auto simp: defs)
  next
    case (stays c' h d' t)
    then show ?thesis using ok act del(3,4) by (simp add: defs)
  next
    case (gives_up c' h)
    then show ?thesis using ok act del by (simp add: defs)
  qed
qed

lemma start_ok:
  assumes ok: "arbitration_ok s" and i: "sy_fg s i = FgIdle"
  shows "arbitration_ok (after_check i (foreground_check now1 now2 (foreground_enter (sy_co s)) None) s)"
proof -
  define s1 where "s1 = s\<lparr>sy_co := foreground_enter (sy_co s), sy_fg := (sy_fg s)(i := FgWaiting None)\<rparr>"
  have ni: "i \<notin> waiting_set s" "owning_set s - {i} = owning_set s" using i by (auto simp: waiting_set_def owning_set_def)
  then have "ownership_ok s1"
    using ok by (simp add: s1_def arbitration_ok_def ownership_ok_def Let_def fg_sets_upd foreground_enter_def)
  then have "arbitration_ok (after_check i (foreground_check now1 now2 (sy_co s1) None) s1)"
    by (rule check_ok) (simp add: s1_def)
  moreover have "after_check i out s1 = after_check i out s" for out
    by (cases out) (simp_all add: after_check_def s1_def)
  ultimately show ?thesis by (simp add: s1_def)
qed

lemma coord_step_ok: "coord_step s t \<Longrightarrow> arbitration_ok s \<Longrightarrow> arbitration_ok t"
proof (induction rule: coord_step.induct)
  case (fg_release s i)
  have io: "i \<in> owning_set s" "waiting_set s - {i} = waiting_set s"
    using fg_release by (auto simp: owning_set_def waiting_set_def)
  then have "owning_set s = {i}" "co_io_owner (sy_co s) = Some OwnerForeground"
    using fg_release by (auto simp: arbitration_ok_def ownership_ok_def Let_def split: if_splits)
  moreover have "\<not> poll_owns (sy_poller s)" "poll_handle (sy_poller s) = None"
    using fg_release calculation
    by (auto simp: arbitration_ok_def ownership_ok_def Let_def poll_owns_def poll_handle_def split: poller_state.splits)
  ultimately show ?case using fg_release io
    by (simp add: arbitration_ok_def ownership_ok_def preemption_ok_def Let_def fg_sets_upd release_io_def)
next
  case (poll_acquire s c)
  then have "co_io_owner (sy_co s) = None" "c = (sy_co s)\<lparr>co_io_busy := True, co_io_owner := Some OwnerPoller\<rparr>"
    by (auto simp: poller_check_def arbitration_ok_def ownership_ok_def Let_def split: if_splits)
  with poll_acquire show ?case
    by (simp add: arbitration_ok_def ownership_ok_def preemption_ok_def Let_def poll_owns_def poll_handle_def)
next
  case (poll_stop s c)
  then show ?case
    by (auto simp: poller_check_def arbitration_ok_def ownership_ok_def Let_def poll_owns_def poll_handle_def split: if_splits)
next
  case (poll_quit s)
  then show ?case by (simp add: arbitration_ok_def ownership_ok_def Let_def poll_owns_def poll_handle_def)
next
  case (poll_read s h)
  then show ?case
    by (auto simp: set_active_poll_read_def request_active_poll_cancel_locked_def arbitration_ok_def ownership_ok_def
        preemption_ok_def Let_def poll_owns_def poll_handle_def)
next
  case (poll_read_done s h)
  then show ?case
    by (auto simp: set_active_poll_read_def arbitration_ok_def ownership_ok_def preemption_ok_def Let_def
        poll_owns_def poll_handle_def)
next
  case (poll_release s)
  then show ?case
    by (auto simp: release_io_def arbitration_ok_def ownership_ok_def preemption_ok_def Let_def poll_owns_def poll_handle_def)
next
  case (close s)
  show ?case
    by (rule arbitration_cong[OF close])
       (auto simp: close_locked_def request_active_poll_cancel_locked_def io_part_def)
next
  case (wait_refresh path etag client_id cacheable deadline now1 now s t c)
  then show ?case
    by (intro arbitration_cong)
       (auto simp: wait_check_def io_part_def Let_def split: option.splits prod.splits if_splits)
next
  case (wait_refresh_done s)
  then show ?case by (intro arbitration_cong) (simp_all add: refresh_done_def io_part_def)
qed (simp_all add: start_ok check_ok arbitration_update arbitration_ok_def[THEN iffD1])

lemma csys_init_ok: "arbitration_ok (csys_init native generation)"
  by (simp add: csys_init_def coordinator_init_def arbitration_ok_def ownership_ok_def preemption_ok_def Let_def
      waiting_set_def owning_set_def poll_owns_def poll_handle_def)

lemma reachable_ok: "coord_step\<^sup>*\<^sup>* (csys_init native generation) s \<Longrightarrow> arbitration_ok s"
  by (induction rule: rtranclp_induct) (auto intro: coord_step_ok csys_init_ok)

text \<open>C26: The device has one owner at a time, in every interleaving of foreground requests, the poller and
  \<open>close\<close>: two foreground requests never own it together, none owns it while the poller does, it is
  marked busy exactly when somebody owns it, and the waiters counted are exactly the requests that
  wait.\<close>

theorem device_mutual_exclusion:
  assumes "coord_step\<^sup>*\<^sup>* (csys_init native generation) s"
  shows "(sy_fg s i = FgOwning \<longrightarrow> sy_fg s j = FgOwning \<longrightarrow> i = j) \<and>
    (poll_owns (sy_poller s) \<longrightarrow> sy_fg s i \<noteq> FgOwning) \<and>
    (co_io_busy (sy_co s) \<longleftrightarrow> poll_owns (sy_poller s) \<or> (\<exists>k. sy_fg s k = FgOwning)) \<and>
    co_foreground_waiters (sy_co s) = int (card (waiting_set s))"
proof -
  have ok: "ownership_ok s" using reachable_ok[OF assms] by (simp add: arbitration_ok_def)
  have own: "sy_fg s k = FgOwning \<longleftrightarrow> k \<in> owning_set s" for k by (simp add: owning_set_def)
  show ?thesis
  proof (cases "co_io_owner (sy_co s) = Some OwnerForeground")
    case True
    with ok obtain k where "owning_set s = {k}" "co_io_busy (sy_co s)" "\<not> poll_owns (sy_poller s)"
      by (auto simp: ownership_ok_def Let_def)
    with ok own show ?thesis by (auto simp: ownership_ok_def Let_def)
  next
    case False
    with ok have "owning_set s = {}" by (auto simp: ownership_ok_def Let_def split: if_splits)
    with ok own False show ?thesis
      by (cases "co_io_owner (sy_co s)") (auto simp: ownership_ok_def Let_def intro: io_owner.exhaust)
  qed
qed

text \<open>C27: Foreground requests preempt the long poll: in every reachable state in which a request waits while
  the poller has a cancellable read in flight, the cancellation of that very read has been requested;
  and as long as a request waits, the poller cannot take the device.\<close>

theorem foreground_preempts_poller:
  assumes "coord_step\<^sup>*\<^sup>* (csys_init native generation) s" and "sy_fg s i = FgWaiting d"
  shows "(\<forall>h. sy_poller s = PollerReading h \<longrightarrow>
      co_active_poll_read (sy_co s) = Some h \<and> co_active_poll_cancel_requested (sy_co s)) \<and>
    \<not> (\<exists>c. poller_check (sy_co s) = Some (True, c))"
proof -
  have ok: "arbitration_ok s" by (rule reachable_ok[OF assms(1)])
  have "i \<in> waiting_set s" using assms(2) by (auto simp: waiting_set_def)
  then have "0 < co_foreground_waiters (sy_co s)"
    using ok card_gt_0_iff[of "waiting_set s"] by (auto simp: arbitration_ok_def ownership_ok_def Let_def)
  then show ?thesis
    using ok by (auto simp: arbitration_ok_def ownership_ok_def preemption_ok_def Let_def poll_handle_def poller_check_def)
qed

text \<open>
  The preemption budget binds only the request that asked for the cancellation itself: another request
  that finds the cancellation already requested waits without a deadline and without a time-out.
\<close>

lemma later_waiter_has_no_deadline:
  assumes "co_io_busy c" "co_io_owner c = Some OwnerPoller" "co_active_poll_cancel_requested c"
  shows "foreground_check now1 now2 c None = MustWait c None None None"
  using assms by (simp add: foreground_check_def request_active_poll_cancel_locked_def)

text \<open>A run: the poller reads, then two requests arrive.\<close>

definition demo_reading :: csys where
  "demo_reading = (csys_init True 1)\<lparr>
     sy_co := (coordinator_init True 1)\<lparr>co_io_busy := True, co_io_owner := Some OwnerPoller,
       co_active_poll_read := Some 9\<rparr>, sy_poller := PollerReading 9\<rparr>"

definition demo_waiting :: csys where
  "demo_waiting = after_check 0 (foreground_check 3 3 (foreground_enter (sy_co demo_reading)) None) demo_reading"

lemma demo_waiting_reachable: "coord_step\<^sup>*\<^sup>* (csys_init True 1) demo_waiting"
proof -
  let ?s1 = "(csys_init True 1)\<lparr>sy_co := (coordinator_init True 1)\<lparr>co_io_busy := True, co_io_owner := Some OwnerPoller\<rparr>,
     sy_poller := PollerOwning\<rparr>"
  have 1: "coord_step (csys_init True 1) ?s1"
    by (rule poll_acquire) (simp_all add: csys_init_def poller_check_def coordinator_init_def)
  have 2: "coord_step ?s1 demo_reading"
    using poll_read[of ?s1 9]
    by (simp add: demo_reading_def set_active_poll_read_def Let_def coordinator_init_def csys_init_def)
  have 3: "coord_step demo_reading demo_waiting"
    unfolding demo_waiting_def by (rule fg_start) (simp add: demo_reading_def csys_init_def)
  show ?thesis
    by (rule converse_rtranclp_into_rtranclp[OF 1 converse_rtranclp_into_rtranclp[OF 2 r_into_rtranclp[of coord_step, OF 3]]])
qed

lemma demo_waiting_simps:
  "sy_fg demo_waiting 0 = FgWaiting (Some (7 / 2))" "sy_poller demo_waiting = PollerReading 9"
  by (simp_all add: demo_waiting_def demo_reading_def foreground_check_def after_check_def Let_def foreground_enter_def
      request_active_poll_cancel_locked_def coordinator_init_def csys_init_def
      DEFAULT_FOREGROUND_PREEMPTION_BUDGET_MS_def)

theorem device_mutual_exclusion_witness:
  "coord_step\<^sup>*\<^sup>* (csys_init True 1) demo_waiting \<and> sy_fg demo_waiting 0 \<noteq> FgOwning \<and> co_io_busy (sy_co demo_waiting)"
  using demo_waiting_reachable device_mutual_exclusion[OF demo_waiting_reachable, of 0 0]
  by (simp add: demo_waiting_simps poll_owns_def)

theorem foreground_preempts_poller_witness:
  "coord_step\<^sup>*\<^sup>* (csys_init True 1) demo_waiting \<and> co_active_poll_cancel_requested (sy_co demo_waiting) \<and>
   \<not> (\<exists>c. poller_check (sy_co demo_waiting) = Some (True, c))"
  using demo_waiting_reachable foreground_preempts_poller[OF demo_waiting_reachable demo_waiting_simps(1)]
  by (simp add: demo_waiting_simps)

section \<open>The history\<close>

text \<open>Whether a transition answers a client waiting with \<open>etag\<close>, and whether it is the client's own.\<close>

definition answers :: "pystr \<Rightarrow> pystr option \<Rightarrow> datastore_transition \<Rightarrow> bool" where
  "answers etag client t \<longleftrightarrow> dt_from_etag t = etag \<and> \<not> (client \<noteq> None \<and> dt_origin_client t = client)"

definition own_transition :: "pystr \<Rightarrow> pystr option \<Rightarrow> datastore_transition \<Rightarrow> bool" where
  "own_transition etag client t \<longleftrightarrow> dt_from_etag t = etag \<and> client \<noteq> None \<and> dt_origin_client t = client"

lemma find_transition_Inr:
  "find_transition etag client ts sp = Inr t \<longleftrightarrow> find (answers etag client) ts = Some t"
  by (induction ts arbitrary: sp) (auto simp: answers_def)

lemma find_transition_Inl:
  "find_transition etag client ts sp = Inl r \<Longrightarrow>
   list_all (\<lambda>u. \<not> answers etag client u) ts \<and>
   (case r of None \<Rightarrow> sp = None \<and> list_all (\<lambda>u. \<not> own_transition etag client u) ts
    | Some s \<Rightarrow> sp = Some s \<or> (s \<in> set ts \<and> own_transition etag client s))"
proof (induction ts arbitrary: sp)
  case (Cons x xs)
  show ?case
    using Cons.prems Cons.IH[of sp] Cons.IH[of "Some x"]
    by (auto simp: answers_def own_transition_def split: if_splits option.splits)
qed (auto split: option.splits)

text \<open>What a waiting client is told, from the history and the latest ETag alone. It is answered with the
  newest transition that starts at its ETag and was not caused by itself; it is left waiting only when
  nothing is known to have changed for it: the latest ETag is unknown, is its own, or was reached by a
  transition of its own from that ETag. So no change known to the proxy is missed.\<close>

theorem find_wait_outcome_complete:
  "fst (find_wait_outcome_locked etag client c) = find (answers etag client) (rev (co_history c)) \<and>
   (find_wait_outcome_locked etag client c = (None, False) \<longrightarrow>
      co_latest_etag c = None \<or> co_latest_etag c = Some etag \<or>
      (\<exists>s\<in>set (co_history c). own_transition etag client s \<and> co_latest_etag c = Some (dt_to_etag s)))"
proof
  show "fst (find_wait_outcome_locked etag client c) = find (answers etag client) (rev (co_history c))"
  proof (cases "find_transition etag client (rev (co_history c)) None")
    case (Inr t)
    then show ?thesis
      using find_transition_Inr[of etag client "rev (co_history c)" None t] by (simp add: find_wait_outcome_locked_def)
  next
    case (Inl r)
    then have "find (answers etag client) (rev (co_history c)) = None"
      using find_transition_Inl[OF Inl] by (auto simp: find_None_iff list_all_iff)
    with Inl show ?thesis by (simp add: find_wait_outcome_locked_def split: option.splits)
  qed
  show "find_wait_outcome_locked etag client c = (None, False) \<longrightarrow>
      co_latest_etag c = None \<or> co_latest_etag c = Some etag \<or>
      (\<exists>s\<in>set (co_history c). own_transition etag client s \<and> co_latest_etag c = Some (dt_to_etag s))"
    using find_transition_Inl[of etag client "rev (co_history c)" None]
    by (auto simp: find_wait_outcome_locked_def split: sum.splits option.splits if_splits)
qed

text \<open>The history stays within its size, and a transition changes the ETag.\<close>

definition history_ok :: "coordinator \<Rightarrow> bool" where
  "history_ok c \<longleftrightarrow> length (co_history c) \<le> co_history_size c \<and>
     list_all (\<lambda>t. dt_from_etag t \<noteq> dt_to_etag t) (co_history c)"

lemma deque_append_length: "length (deque_append n xs x) \<le> n"
  by (simp add: deque_append_def Let_def)

lemma deque_append_set: "set (deque_append n xs x) \<subseteq> insert x (set xs)"
  using set_drop_subset[of "length (xs @ [x]) - n" "xs @ [x]"] by (auto simp: deque_append_def Let_def)

lemma deque_append_last: "0 < n \<Longrightarrow> \<exists>ys. deque_append n xs x = ys @ [x]"
  by (auto simp: deque_append_def Let_def)

lemma owner_update_history:
  "owner_update c c' \<Longrightarrow> history_ok c \<Longrightarrow> history_ok c' \<and> co_history_size c' = co_history_size c"
proof (induction rule: owner_update.induct)
  case (publish c p origin from_etag rec)
  then show ?case
    using deque_append_length deque_append_set[of "co_history_size c" "co_history c"]
    by (fastforce simp: history_ok_def publish_payload_def Let_def list_all_iff split: option.splits)
next
  case (error c e key now)
  then show ?case by (auto simp: history_ok_def record_poller_error_def Let_def)
qed (auto simp: history_ok_def reset_if_session_generation_changed_def clear_poller_error_def)

lemma foreground_check_history:
  "foreground_check now1 now2 c d = Acquired c' \<or> (\<exists>h d' t. foreground_check now1 now2 c d = MustWait c' h d' t) \<or>
   (\<exists>h. foreground_check now1 now2 c d = BudgetExceeded c' h) \<Longrightarrow>
   co_history c' = co_history c \<and> co_history_size c' = co_history_size c"
  by (auto simp: foreground_check_def request_active_poll_cancel_locked_def foreground_leave_def Let_def
      split: if_splits option.splits)

lemma after_check_history:
  "co_history (sy_co (after_check i (foreground_check now1 now2 c d) s)) = co_history c \<and>
   co_history_size (sy_co (after_check i (foreground_check now1 now2 c d) s)) = co_history_size c"
  using foreground_check_history[of now1 now2 c d]
  by (auto simp: after_check_def split: foreground_outcome.splits)

lemma coord_step_history:
  "coord_step s t \<Longrightarrow> history_ok (sy_co s) \<Longrightarrow>
   history_ok (sy_co t) \<and> co_history_size (sy_co t) = co_history_size (sy_co s)"
proof (induction rule: coord_step.induct)
  case (wait_refresh path etag client_id cacheable deadline now1 now s t c)
  then show ?case
    by (auto simp: history_ok_def wait_check_def Let_def split: option.splits prod.splits if_splits)
qed (auto simp: history_ok_def after_check_history foreground_enter_def release_io_def set_active_poll_read_def
      request_active_poll_cancel_locked_def close_locked_def refresh_done_def poller_check_def Let_def
      split: if_splits dest: owner_update_history[unfolded history_ok_def])

text \<open>The history never holds more than 64 transitions, and each of them changes the ETag, in every
  interleaving.\<close>

theorem history_bounded:
  assumes "coord_step\<^sup>*\<^sup>* (csys_init native generation) s"
  shows "length (co_history (sy_co s)) \<le> 64 \<and>
    list_all (\<lambda>t. dt_from_etag t \<noteq> dt_to_etag t) (co_history (sy_co s))"
proof -
  have "history_ok (sy_co s) \<and> co_history_size (sy_co s) = 64"
    using assms
  proof (induction rule: rtranclp_induct)
    case base
    then show ?case by (simp add: csys_init_def coordinator_init_def history_ok_def DEFAULT_ETAG_HISTORY_SIZE_def)
  next
    case (step y z)
    then show ?case using coord_step_history by simp
  qed
  then show ?thesis by (simp add: history_ok_def)
qed

text \<open>A published change reaches the clients that wait for it: after a change from the latest ETag
  \<open>e\<close> to \<open>e'\<close> is published, a client waiting with \<open>e\<close> that did not cause it is answered with the new
  body and ETag.\<close>

theorem published_change_is_found:
  assumes "co_latest_etag c = Some e" "dp_etag p = Some e'" "e \<noteq> e'" "\<not> not_modified p"
    and "0 < co_history_size c" "client = None \<or> origin \<noteq> client"
  shows "\<exists>t. find_wait_outcome_locked e client (publish_payload p origin None True c) = (Some t, False) \<and>
      dt_body t = dp_body p \<and> dt_to_etag t = e' \<and> dt_origin_client t = origin \<and>
      co_latest_etag (publish_payload p origin None True c) = Some e'"
proof -
  let ?c = "publish_payload p origin None True c"
  define t where "t = \<lparr>dt_from_etag = e, dt_to_etag = e', dt_body = dp_body p, dt_origin_client = origin,
     dt_content_type = Some (case Option.bind (dp_content_type p) nonempty of
        Some t \<Rightarrow> t | None \<Rightarrow> datastore_body_content_type (dp_body p))\<rparr>"
  obtain ys where h: "co_history ?c = ys @ [t]" "co_latest_etag ?c = Some e'"
    using deque_append_last[OF assms(5), of "co_history c" t] assms(1-4)
    by (auto simp: publish_payload_def t_def)
  have "find_transition e client (rev (co_history ?c)) None = Inr t"
    using assms(6) by (auto simp: h t_def)
  then show ?thesis using h(2) by (simp add: find_wait_outcome_locked_def t_def)
qed

text \<open>A client is told "not modified" only at the end of its waiting time or when the proxy closes, and
  then nothing had changed for it as far as the proxy knows; a wait never lasts longer than the time
  that remains.\<close>

theorem wait_check_sound:
  "(wait_check path etag client cacheable deadline now1 now c = WaitNotModified p \<longrightarrow>
      (deadline \<le> now1 \<or> co_closed c) \<and> not_modified p \<and> dp_etag p = Some etag \<and>
      (co_latest_etag c = None \<or> co_latest_etag c = Some etag \<or>
       (\<exists>s\<in>set (co_history c). own_transition etag client s \<and> co_latest_etag c = Some (dt_to_etag s)))) \<and>
   (wait_check path etag client cacheable deadline now1 now c = WaitFor r \<longrightarrow> r \<le> deadline - now1 \<and> \<not> co_closed c) \<and>
   (wait_check path etag client cacheable deadline now1 now c = WaitCached q \<longrightarrow>
      path = co_poll_path c \<and> (\<exists>t\<in>set (co_history c). answers etag client t \<and> dp_body q = dt_body t \<and>
        dp_etag q = Some (dt_to_etag t)))"
proof -
  obtain found b where f: "find_wait_outcome_locked etag client c = (found, b)" by fastforce
  have 1: "b = False \<Longrightarrow> found = None \<Longrightarrow> co_latest_etag c = None \<or> co_latest_etag c = Some etag \<or>
      (\<exists>s\<in>set (co_history c). own_transition etag client s \<and> co_latest_etag c = Some (dt_to_etag s))"
    using find_transition_Inl[of etag client "rev (co_history c)" None] f
    by (auto simp: find_wait_outcome_locked_def split: sum.splits option.splits if_splits)
  have 2: "found = Some t \<Longrightarrow> t \<in> set (co_history c) \<and> answers etag client t" for t
    using find_transition_Inr[of etag client "rev (co_history c)" None t] f
    by (auto simp: find_wait_outcome_locked_def find_Some_iff split: sum.splits option.splits if_splits)
       (metis nth_mem set_rev length_rev)
  show ?thesis
    using 1 2 f by (cases found; cases b) (auto simp: wait_check_def Let_def not_modified_def)
qed

section \<open>Requests\<close>

lemma bindS_then_ignore:
  assumes "\<And>s. \<exists>t. k s = (Inr (), t)"
  shows "fst (bindS m (\<lambda>r. bindS (p r) (\<lambda>x. bindS k (\<lambda>_. retS x))) s) = fst (bindS m p s)"
proof -
  have "fst (bindS k (\<lambda>_. retS x) s) = Inr x" for x s
    using assms[of s] by (auto simp: bindS_def)
  then have "fst (bindS (p r) (\<lambda>x. bindS k (\<lambda>_. retS x)) s) = fst (p r s)" for r s
    by (cases "p r s"; cases "fst (p r s)") (simp_all add: bindS_def)
  then show ?thesis by (cases "m s"; cases "fst (m s)") (simp_all add: bindS_def)
qed

text \<open>C36: A write is reported by its own outcome: once the device answered the write and the answer was
  read, \<open>post\<close> returns that answer whether or not the refresh after it succeeds; an error of the write
  itself is passed on; and the device is released on every path of every request, errors included.\<close>

theorem post_reports_write:
  "(case bindS (do_post dso path body client) (payload_from_response dso) s of
      (Inr payload, t) \<Rightarrow> fst (coordinator_post_owned dso path body client s) = Inr payload
    | (Inl e, t) \<Rightarrow> fst (coordinator_post_owned dso path body client s) = Inl e) \<and>
   \<not> co_io_busy (fst (snd (coordinator_post_owned dso path body client s))) \<and>
   \<not> co_io_busy (fst (snd (coordinator_read_owned dso path etag client timeout flds s))) \<and>
   \<not> co_io_busy (fst (snd (poll_owned dso latest s)))"
proof -
  have rel: "\<not> co_io_busy (fst (snd (finallyS m (modC release_io) s)))" for m :: "('a, 'b) cop" and s
    by (auto simp: finallyS_def modC_def release_io_def split: prod.splits)
  have fin: "fst (finallyS m (modC release_io) s) = fst (m s)" for m :: "('a, 'b) cop" and s
    by (auto simp: finallyS_def modC_def split: prod.splits)
  have rec: "\<exists>t. record_error dso e s = (Inr (), t)" for e s
    by (cases s) (auto simp: record_error_def split: prod.splits bool.splits)
  have ref: "\<exists>t. (\<lambda>(c, w). case m c (c, w) of (Inl e, s) \<Rightarrow> record_error dso e s
          | (Inr refresh, s) \<Rightarrow> modC (f refresh) s) s = (Inr (), t)" for m :: "coordinator \<Rightarrow> ('a, 'c) cop" and f s
    using rec by (cases s; cases "m (fst s) s"; cases "fst (m (fst s) s)") (auto simp: modC_def)
  have "fst (coordinator_post_owned dso path body client s) =
      fst (bindS (do_post dso path body client) (payload_from_response dso) s)"
    unfolding coordinator_post_owned_def fin by (rule bindS_then_ignore) (rule ref)
  moreover have "\<not> co_io_busy (fst (snd (poll_owned dso latest s)))"
    by (cases s) (simp add: poll_owned_def Let_def rel)
  ultimately show ?thesis
    by (auto simp: coordinator_post_owned_def coordinator_read_owned_def rel split: prod.splits sum.splits)
qed

section \<open>A cache on concrete data\<close>

definition demo_cache :: coordinator where
  "demo_cache = (coordinator_init True 1)\<lparr>co_latest_etag := Some (lit ''1'')\<rparr>"

definition demo_payload :: datastore_payload where
  "demo_payload = \<lparr>dp_body = blit ''{}'', dp_etag = Some (lit ''2''), dp_status = Some 200, dp_content_type = None\<rparr>"

theorem find_wait_outcome_complete_witness:
  "find_wait_outcome_locked (lit ''1'') None demo_cache = (None, False) \<and>
   (co_latest_etag demo_cache = None \<or> co_latest_etag demo_cache = Some (lit ''1'') \<or>
      (\<exists>s\<in>set (co_history demo_cache). own_transition (lit ''1'') None s \<and> co_latest_etag demo_cache = Some (dt_to_etag s)))"
proof -
  have h: "find_wait_outcome_locked (lit ''1'') None demo_cache = (None, False)"
    by (simp add: demo_cache_def coordinator_init_def find_wait_outcome_locked_def)
  show ?thesis using h find_wait_outcome_complete[of "lit ''1''" None demo_cache] by blast
qed

theorem published_change_is_found_witness:
  "\<exists>t. find_wait_outcome_locked (lit ''1'') None (publish_payload demo_payload (Some (lit ''7'')) None True demo_cache) =
     (Some t, False) \<and> dt_body t = blit ''{}''"
proof -
  have "co_latest_etag demo_cache = Some (lit ''1'')" "dp_etag demo_payload = Some (lit ''2'')" "lit ''1'' \<noteq> lit ''2''"
    "\<not> not_modified demo_payload" "0 < co_history_size demo_cache"
    by (simp_all add: demo_cache_def demo_payload_def not_modified_def coordinator_init_def DEFAULT_ETAG_HISTORY_SIZE_def)
  from published_change_is_found[OF this, of None "Some (lit ''7'')"] show ?thesis
    by (auto simp: demo_payload_def simp del: lit_simps blit_simps)
qed

theorem wait_check_sound_witness:
  "\<exists>p. wait_check (lit ''/datastore'') (lit ''1'') None True 5 6 6 demo_cache = WaitNotModified p \<and> not_modified p"
proof -
  have "\<exists>p. wait_check (lit ''/datastore'') (lit ''1'') None True 5 6 6 demo_cache = WaitNotModified p"
    by (simp add: wait_check_def demo_cache_def coordinator_init_def find_wait_outcome_locked_def)
  then obtain p where h: "wait_check (lit ''/datastore'') (lit ''1'') None True 5 6 6 demo_cache = WaitNotModified p" by blast
  show ?thesis using h wait_check_sound[of "lit ''/datastore''" "lit ''1''" None True 5 6 6 demo_cache p] by blast
qed

theorem history_bounded_witness:
  "coord_step\<^sup>*\<^sup>* (csys_init True 1) demo_waiting \<and> length (co_history (sy_co demo_waiting)) \<le> 64"
  using demo_waiting_reachable history_bounded[OF demo_waiting_reachable] by simp

end
