(* ===== verification/Motu_Paths.thy ===== *)
theory Motu_Paths
  imports Motu_Text
begin

text \<open>
  Request paths (\<^verbatim>\<open>motu_proxy/paths.py\<close>) and what it uses of \<open>urllib.parse\<close>: percent decoding and
  the splitting of a URL. \<open>urlsplit\<close> raises \<open>ValueError\<close> for an authority it does not accept; which
  ones depends on the Python version, so the test is an argument \<open>netloc_ok\<close> of the definitions, and
  every theorem holds for each such test.
\<close>

section \<open>Percent decoding\<close>

definition hex_digit :: "nat \<Rightarrow> nat option" where
  "hex_digit c =
     (if 48 \<le> c \<and> c \<le> 57 then Some (c - 48)
      else if 65 \<le> c \<and> c \<le> 70 then Some (c - 55)
      else if 97 \<le> c \<and> c \<le> 102 then Some (c - 87)
      else None)"

text \<open>\<open>unquote_to_bytes\<close> of an ASCII string.\<close>

fun unquote_to_bytes :: "pystr \<Rightarrow> bytes" where
  "unquote_to_bytes (c # a # b # cs) =
     (if c = 37 then
        (case (hex_digit a, hex_digit b) of
           (Some x, Some y) \<Rightarrow> of_nat (16 * x + y) # unquote_to_bytes cs
         | _ \<Rightarrow> of_nat c # unquote_to_bytes (a # b # cs))
      else of_nat c # unquote_to_bytes (a # b # cs))"
| "unquote_to_bytes (c # cs) = of_nat c # unquote_to_bytes cs"
| "unquote_to_bytes [] = []"

text \<open>
  \<open>decode('utf-8', errors='replace')\<close>: where no character can be decoded, the longest prefix that
  starts one is replaced by one \<open>U+FFFD\<close>.
\<close>

definition utf8_second_ok :: "nat \<Rightarrow> byte \<Rightarrow> bool" where
  "utf8_second_ok lead b \<longleftrightarrow> utf8_cont b \<and>
     (lead = 0xE0 \<longrightarrow> 0xA0 \<le> unat b) \<and> (lead = 0xED \<longrightarrow> unat b < 0xA0) \<and>
     (lead = 0xF0 \<longrightarrow> 0x90 \<le> unat b) \<and> (lead = 0xF4 \<longrightarrow> unat b < 0x90)"

definition utf8_bad_len :: "bytes \<Rightarrow> nat" where
  "utf8_bad_len bs =
     (case bs of
        [] \<Rightarrow> 1
      | b # r \<Rightarrow>
          (let lead = unat b in
           case r of
             [] \<Rightarrow> 1
           | b1 # r1 \<Rightarrow>
               if 0xE0 \<le> lead \<and> lead < 0xF0 \<and> utf8_second_ok lead b1 then 2
               else if 0xF0 \<le> lead \<and> lead < 0xF5 \<and> utf8_second_ok lead b1
               then (case r1 of b2 # _ \<Rightarrow> if utf8_cont b2 then 3 else 2 | [] \<Rightarrow> 2)
               else 1))"

lemma utf8_bad_len_pos: "0 < utf8_bad_len bs"
  by (auto simp: utf8_bad_len_def Let_def split: list.splits)

function utf8_decode_replace :: "bytes \<Rightarrow> pystr" where
  "utf8_decode_replace bs =
     (if bs = [] then []
      else case utf8_take bs of
             Some (c, r) \<Rightarrow> c # utf8_decode_replace r
           | None \<Rightarrow> 0xFFFD # utf8_decode_replace (drop (utf8_bad_len bs) bs))"
  by pat_completeness auto
termination
  by (relation "measure length") (auto dest: utf8_take_shorter simp: utf8_bad_len_pos)

declare utf8_decode_replace.simps [simp del]

text \<open>\<open>unquote\<close>: runs of ASCII characters are decoded, the others are kept.\<close>

function unquote_runs :: "pystr \<Rightarrow> pystr" where
  "unquote_runs s =
     (case s of
        [] \<Rightarrow> []
      | c # cs \<Rightarrow>
          if c < 128
          then utf8_decode_replace (unquote_to_bytes (takeWhile (\<lambda>x. x < 128) s)) @
               unquote_runs (dropWhile (\<lambda>x. x < 128) s)
          else c # unquote_runs cs)"
  by pat_completeness auto
termination
  by (relation "measure length") (auto simp: le_imp_less_Suc length_dropWhile_le)

declare unquote_runs.simps [simp del]

definition unquote :: "pystr \<Rightarrow> pystr" where
  "unquote s = (if 37 \<in> set s then unquote_runs s else s)"

section \<open>Splitting a URL\<close>

record url_parts =
  url_scheme :: pystr
  url_netloc :: pystr
  url_path :: pystr
  url_params :: pystr
  url_query :: pystr
  url_fragment :: pystr

definition ascii_alpha :: "nat \<Rightarrow> bool" where
  "ascii_alpha c \<longleftrightarrow> 65 \<le> c \<and> c \<le> 90 \<or> 97 \<le> c \<and> c \<le> 122"

definition scheme_char :: "nat \<Rightarrow> bool" where
  "scheme_char c \<longleftrightarrow> ascii_alpha c \<or> 48 \<le> c \<and> c \<le> 57 \<or> c = 43 \<or> c = 45 \<or> c = 46"

text \<open>Leading C0 controls and spaces are dropped, tabs and line ends removed.\<close>

definition url_clean :: "pystr \<Rightarrow> pystr" where
  "url_clean s = filter (\<lambda>c. c \<noteq> 9 \<and> c \<noteq> 10 \<and> c \<noteq> 13) (dropWhile (\<lambda>c. c \<le> 32) s)"

definition split_scheme :: "pystr \<Rightarrow> pystr \<times> pystr" where
  "split_scheme url =
     (case partition_at 58 url of
        (a, True, rest) \<Rightarrow>
          if a \<noteq> [] \<and> ascii_alpha (hd a) \<and> list_all scheme_char a then (py_lower a, rest) else ([], url)
      | _ \<Rightarrow> ([], url))"

definition url_delim :: "nat \<Rightarrow> bool" where
  "url_delim c \<longleftrightarrow> c = 47 \<or> c = 63 \<or> c = 35"

definition split_netloc :: "pystr \<Rightarrow> pystr \<times> pystr" where
  "split_netloc url =
     (if take 2 url = [47, 47]
      then (takeWhile (\<lambda>c. \<not> url_delim c) (drop 2 url), dropWhile (\<lambda>c. \<not> url_delim c) (drop 2 url))
      else ([], url))"

definition urlsplit :: "(pystr \<Rightarrow> bool) \<Rightarrow> bool \<Rightarrow> pystr \<Rightarrow> url_parts result" where
  "urlsplit netloc_ok allow_fragments s =
     (case split_scheme (url_clean s) of
        (scheme, url) \<Rightarrow>
          (case split_netloc url of
             (netloc, url) \<Rightarrow>
               if \<not> netloc_ok netloc then Inl ValueError
               else
                 let (url, fragment) =
                       (if allow_fragments then (case partition_at 35 url of (a, _, b) \<Rightarrow> (a, b)) else (url, []));
                     (url, query) = (case partition_at 63 url of (a, _, b) \<Rightarrow> (a, b))
                 in Inr \<lparr>url_scheme = scheme, url_netloc = netloc, url_path = url, url_params = [],
                         url_query = query, url_fragment = fragment\<rparr>))"

definition uses_params :: "pystr list" where
  "uses_params = [[], lit ''ftp'', lit ''hdl'', lit ''prospero'', lit ''http'', lit ''https'', lit ''shttp'',
     lit ''rtsp'', lit ''rtsps'', lit ''rtspu'', lit ''sip'', lit ''sips'', lit ''mms'', lit ''sftp'', lit ''tel'']"

text \<open>\<open>_splitparams\<close>: the first semicolon after the last slash.\<close>

definition split_params :: "pystr \<Rightarrow> pystr \<times> pystr" where
  "split_params url =
     (let last = rev (takeWhile (\<lambda>c. c \<noteq> 47) (rev url)); before = take (length url - length last) url
      in case partition_at 59 last of (a, _, b) \<Rightarrow> (before @ a, b))"

definition urlparse :: "(pystr \<Rightarrow> bool) \<Rightarrow> bool \<Rightarrow> pystr \<Rightarrow> url_parts result" where
  "urlparse netloc_ok allow_fragments s =
     bindR (urlsplit netloc_ok allow_fragments s) (\<lambda>u.
       if url_scheme u \<in> set uses_params \<and> 59 \<in> set (url_path u)
       then (case split_params (url_path u) of (p, q) \<Rightarrow> Inr (u\<lparr>url_path := p, url_params := q\<rparr>))
       else Inr u)"

section \<open>Normalised datastore paths\<close>

text \<open>
  \<open>UID_PREFIX_RE.sub\<close>: a leading \<open>/\<close> and sixteen hexadecimal digits before another \<open>/\<close> are dropped. The dot
  of the pattern does not match a line feed, and its end matches before a final one.
\<close>

definition uid_prefix :: "pystr \<Rightarrow> bool" where
  "uid_prefix path \<longleftrightarrow>
     17 < length path \<and> path ! 0 = 47 \<and> list_all (\<lambda>c. hex_digit c \<noteq> None) (take 16 (drop 1 path)) \<and>
     path ! 17 = 47 \<and> 10 \<notin> set (butlast (drop 17 path))"

definition strip_uid_prefix :: "pystr \<Rightarrow> pystr" where
  "strip_uid_prefix path = (if uid_prefix path then drop 17 path else path)"

definition DATASTORE :: pystr where "DATASTORE = lit ''/datastore''"
definition DATASTORE_PREFIX :: pystr where "DATASTORE_PREFIX = lit ''/datastore/''"

text \<open>The part of \<open>normalize_path\<close> after a URL was reduced to its path.\<close>

definition place_path :: "pystr \<Rightarrow> pystr" where
  "place_path path =
     (let path = strip_uid_prefix path;
          path = (if prefix (lit ''/'') path then path else lit ''/'' @ path)
      in if path = lit ''/'' then DATASTORE
         else if path = DATASTORE \<or> prefix DATASTORE_PREFIX path \<or>
                 path = lit ''/apiversion'' \<or> path = lit ''/meters''
         then path
         else DATASTORE @ path)"

definition normalize_path :: "(pystr \<Rightarrow> bool) \<Rightarrow> pystr \<Rightarrow> pystr result" where
  "normalize_path netloc_ok path =
     (let path = unquote (py_strip path) in
      if path = [] then Inr DATASTORE
      else if prefix (lit ''http://'') path \<or> prefix (lit ''https://'') path
      then bindR (urlparse netloc_ok True path) (\<lambda>u. Inr (place_path (url_path u)))
      else Inr (place_path path))"

lemma urlsplit_error: "urlsplit netloc_ok frag s = Inl e \<Longrightarrow> e = ValueError"
  by (auto simp: urlsplit_def Let_def split: prod.split_asm if_splits)

lemma urlparse_error: "urlparse netloc_ok frag s = Inl e \<Longrightarrow> e = ValueError"
  by (cases "urlsplit netloc_ok frag s")
     (auto simp: urlparse_def dest: urlsplit_error split: if_splits prod.split_asm)

text \<open>The paths the proxy may ask the device for.\<close>

definition device_path :: "pystr \<Rightarrow> bool" where
  "device_path p \<longleftrightarrow> p = DATASTORE \<or> prefix DATASTORE_PREFIX p \<or> p = lit ''/apiversion'' \<or> p = lit ''/meters''"

lemma place_path_device: "device_path (place_path p)"
proof -
  have "prefix DATASTORE_PREFIX (DATASTORE @ x)" if "prefix (lit ''/'') x" for x
    using that by (auto simp: DATASTORE_def DATASTORE_PREFIX_def prefix_def)
  then show ?thesis
    by (simp add: place_path_def Let_def device_path_def del: lit_simps)
qed

lemma normalize_path_device: "normalize_path netloc_ok path = Inr p \<Longrightarrow> device_path p"
proof -
  have "device_path DATASTORE" by (simp add: device_path_def)
  then show "normalize_path netloc_ok path = Inr p \<Longrightarrow> device_path p"
    unfolding normalize_path_def Let_def
    by (auto simp: result_simps place_path_device simp del: lit_simps split: if_splits)
qed

text \<open>Every path is confined to the device's name spaces: whatever a client sends (percent-encoded, with
  the device's UID, or as a whole URL), the normalised path is \<open>/datastore\<close>, below it, \<open>/apiversion\<close> or
  \<open>/meters\<close>; the only error is the \<open>ValueError\<close> of the URL parser, and a path that is not a URL never
  fails.\<close>

theorem normalize_path_confined:
  "(case normalize_path netloc_ok path of Inr p \<Rightarrow> device_path p | Inl e \<Rightarrow>
      e = ValueError \<and> (prefix (lit ''http://'') (unquote (py_strip path)) \<or>
                        prefix (lit ''https://'') (unquote (py_strip path))))"
proof (cases "normalize_path netloc_ok path")
  case (Inl e)
  then show ?thesis
    unfolding normalize_path_def Let_def
    by (cases "urlparse netloc_ok True (unquote (py_strip path))")
       (auto dest: urlparse_error simp del: lit_simps split: if_splits)
qed (simp add: normalize_path_device)

end
