(* ===== verification/Motu_Schema.thy ===== *)
theory Motu_Schema
  imports Motu_Paths Complex_Main "HOL-Library.Product_Lexorder"
begin

text \<open>
  The documented datastore schema and the validation of writes (\<^verbatim>\<open>motu_proxy/schema.py\<close>): the table, the
  matching of a requested path against its patterns, and the checks of a JSON value. Numbers of a JSON
  text are Python's: an integer of any size, or a double, which is a rational or one of the special
  values.
\<close>

section \<open>JSON values\<close>

datatype pyfloat = FFin rat | FPosInf | FNegInf | FNaN

datatype json =
    JNull
  | JBool bool
  | JInt int
  | JFloat pyfloat
  | JStr pystr
  | JList "json list"
  | JObj "(pystr \<times> json) list"

section \<open>The table\<close>

text \<open>
  A row: path pattern, value type, permission, minimum, maximum, enumeration. The decimal fraction
  0.01 of the table is the double nearest to it.
\<close>

type_synonym raw_entry =
  "pystr \<times> pystr \<times> pystr \<times> rat option \<times> rat option \<times> pystr option"

definition RAW_SCHEMA_avb :: "raw_entry list" where
  "RAW_SCHEMA_avb =
     [(lit ''uid'', lit ''string'', lit ''r'', None, None, None),
      (lit ''host/os'', lit ''string'', lit ''rw'', None, None, None),
      (lit ''ext/caps/avb'', lit ''semver_opt'', lit ''r'', None, None, None),
      (lit ''ext/caps/router'', lit ''semver_opt'', lit ''r'', None, None, None),
      (lit ''ext/caps/mixer'', lit ''semver_opt'', lit ''r'', None, None, None),
      (lit ''avb/devs'', lit ''string_list'', lit ''r'', None, None, None),
      (lit ''avb/<uid>/entity_model_id_h32'', lit ''int'', lit ''r'', None, None, None),
      (lit ''avb/<uid>/entity_model_id_l32'', lit ''int'', lit ''r'', None, None, None),
      (lit ''avb/<uid>/entity_name'', lit ''string'', lit ''rw'', None, None, None),
      (lit ''avb/<uid>/model_name'', lit ''string'', lit ''r'', None, None, None),
      (lit ''avb/<uid>/hostname'', lit ''string_opt'', lit ''r'', None, None, None),
      (lit ''avb/<uid>/master_clock/capable'', lit ''int_bool'', lit ''r'', None, None, None),
      (lit ''avb/<uid>/master_clock/uid'', lit ''string_opt'', lit ''rw'', None, None, None),
      (lit ''avb/<uid>/vendor_name'', lit ''string'', lit ''r'', None, None, None),
      (lit ''avb/<uid>/firmware_version'', lit ''string'', lit ''r'', None, None, None),
      (lit ''avb/<uid>/serial_number'', lit ''string'', lit ''r'', None, None, None),
      (lit ''avb/<uid>/controller_ignore'', lit ''int_bool'', lit ''r'', None, None, None),
      (lit ''avb/<uid>/acquired_id'', lit ''string'', lit ''r'', None, None, None),
      (lit ''avb/<uid>/motu.mdns.type'', lit ''string_opt'', lit ''r'', None, None, None),
      (lit ''avb/<uid>/apiversion'', lit ''semver_opt'', lit ''r'', None, None, None),
      (lit ''avb/<uid>/url'', lit ''string_opt'', lit ''r'', None, None, None),
      (lit ''avb/<uid>/current_configuration'', lit ''int'', lit ''rw'', None, None, None),
      (lit ''avb/<uid>/cfg/<index>/object_name'', lit ''string'', lit ''r'', None, None, None),
      (lit ''avb/<uid>/cfg/<index>/identify'', lit ''int_bool'', lit ''rw'', None, None, None),
      (lit ''avb/<uid>/cfg/<index>/current_sampling_rate'', lit ''int'', lit ''rw'', None, None, None),
      (lit ''avb/<uid>/cfg/<index>/sample_rates'', lit ''int_list'', lit ''r'', None, None, None),
      (lit ''avb/<uid>/cfg/<index>/clock_source_index'', lit ''int'', lit ''rw'', None, None, None),
      (lit ''avb/<uid>/cfg/<index>/clock_sources/num'', lit ''int'', lit ''r'', None, None, None),
      (lit ''avb/<uid>/cfg/<index>/clock_sources/<index>/object_name'', lit ''string'', lit ''r'', None, None, None),
      (lit ''avb/<uid>/cfg/<index>/clock_sources/<index>/type'', lit ''string'', lit ''r'', None, None, None),
      (lit ''avb/<uid>/cfg/<index>/clock_sources/<index>/stream_id'', lit ''int_opt'', lit ''r'', None, None, None),
      (lit ''avb/<uid>/cfg/<index>/<input_or_output>_streams/num'', lit ''int'', lit ''r'', None, None, None),
      (lit ''avb/<uid>/cfg/<index>/<input_or_output>_streams/<index>/object_name'', lit ''string'', lit ''r'', None, None, None),
      (lit ''avb/<uid>/cfg/<index>/<input_or_output>_streams/<index>/num_ch'', lit ''int'', lit ''r'', None, None, None),
      (lit ''avb/<uid>/cfg/<index>/input_streams/<index>/talker'', lit ''string_pair'', lit ''rw'', None, None, None)]"

definition RAW_SCHEMA_ext :: "raw_entry list" where
  "RAW_SCHEMA_ext =
     [(lit ''ext/clockLocked'', lit ''int_bool'', lit ''r'', None, None, None),
      (lit ''ext/wordClockMode'', lit ''string'', lit ''rw'', None, None, None),
      (lit ''ext/wordClockThru'', lit ''string'', lit ''rw'', None, None, None),
      (lit ''ext/smuxPerBank'', lit ''int_bool'', lit ''r'', None, None, None),
      (lit ''ext/vlimit/lookahead'', lit ''int_bool_opt'', lit ''rw'', None, None, None),
      (lit ''ext/enableHostVolControls'', lit ''int_bool'', lit ''rw'', None, None, None),
      (lit ''ext/maxUSBToHost'', lit ''int'', lit ''rw'', None, None, None),
      (lit ''ext/<ibank_or_obank>/<index>/name'', lit ''string'', lit ''r'', None, None, None),
      (lit ''ext/<ibank_or_obank>/<index>/maxCh'', lit ''int'', lit ''r'', None, None, None),
      (lit ''ext/<ibank_or_obank>/<index>/numCh'', lit ''int'', lit ''r'', None, None, None),
      (lit ''ext/<ibank_or_obank>/<index>/userCh'', lit ''int'', lit ''rw'', None, None, None),
      (lit ''ext/<ibank_or_obank>/<index>/calcCh'', lit ''int'', lit ''r'', None, None, None),
      (lit ''ext/<ibank_or_obank>/<index>/smux'', lit ''string'', lit ''rw'', None, None, None),
      (lit ''ext/ibank/<index>/madiClock'', lit ''string'', lit ''r'', None, None, None),
      (lit ''ext/obank/<index>/madiClock'', lit ''string'', lit ''rw'', None, None, None),
      (lit ''ext/ibank/<index>/madiFormat'', lit ''int'', lit ''r'', None, None, None),
      (lit ''ext/obank/<index>/madiFormat'', lit ''int'', lit ''rw'', None, None, None),
      (lit ''ext/<ibank_or_obank>/<index>/ch/<index>/name'', lit ''string'', lit ''rw'', None, None, None),
      (lit ''ext/obank/<index>/ch/<index>/src'', lit ''int_pair_opt'', lit ''rw'', None, None, None),
      (lit ''ext/<ibank_or_obank>/<index>/ch/<index>/phase'', lit ''int_bool_opt'', lit ''rw'', None, None, None),
      (lit ''ext/<ibank_or_obank>/<index>/ch/<index>/pad'', lit ''int_bool_opt'', lit ''rw'', None, None, None),
      (lit ''ext/ibank/<index>/ch/<index>/48V'', lit ''int_bool_opt'', lit ''rw'', None, None, None),
      (lit ''ext/ibank/<index>/ch/<index>/vlLimit'', lit ''int_bool_opt'', lit ''rw'', None, None, None),
      (lit ''ext/ibank/<index>/ch/<index>/vlClip'', lit ''int_bool_opt'', lit ''rw'', None, None, None),
      (lit ''ext/<ibank_or_obank>/<index>/ch/<index>/trim'', lit ''int_opt'', lit ''rw'', None, None, None),
      (lit ''ext/<ibank_or_obank>/<index>/ch/<index>/trimRange'', lit ''int_pair_opt'', lit ''rw'', None, None, None),
      (lit ''ext/<ibank_or_obank>/<index>/ch/<index>/stereoTrim'', lit ''int_opt'', lit ''rw'', None, None, None),
      (lit ''ext/<ibank_or_obank>/<index>/ch/<index>/stereoTrimRange'', lit ''int_pair_opt'', lit ''rw'', None, None, None),
      (lit ''ext/<ibank_or_obank>/<index>/ch/<index>/connection'', lit ''int_bool_opt'', lit ''r'', None, None, None)]"

definition RAW_SCHEMA_mix_chan :: "raw_entry list" where
  "RAW_SCHEMA_mix_chan =
     [(lit ''mix/ctrls/dsp/usage'', lit ''int'', lit ''r'', None, None, None),
      (lit ''mix/ctrls/<effect_resource>/avail'', lit ''int_bool_opt'', lit ''r'', None, None, None),
      (lit ''mix/chan/<index>/matrix/aux/<index>/send'', lit ''real'', lit ''rw'', Some 0, Some 4, None),
      (lit ''mix/chan/<index>/matrix/group/<index>/send'', lit ''real'', lit ''rw'', Some 0, Some 4, None),
      (lit ''mix/chan/<index>/matrix/reverb/<index>/send'', lit ''real'', lit ''rw'', Some 0, Some 4, None),
      (lit ''mix/chan/<index>/matrix/aux/<index>/pan'', lit ''real'', lit ''rw'', Some (- 1), Some 1, None),
      (lit ''mix/chan/<index>/matrix/group/<index>/pan'', lit ''real'', lit ''rw'', Some (- 1), Some 1, None),
      (lit ''mix/chan/<index>/matrix/reverb/<index>/pan'', lit ''real'', lit ''rw'', Some (- 1), Some 1, None),
      (lit ''mix/chan/<index>/hpf/enable'', lit ''real_bool'', lit ''rw'', None, None, None),
      (lit ''mix/chan/<index>/hpf/freq'', lit ''int'', lit ''rw'', Some 20, Some 20000, None),
      (lit ''mix/chan/<index>/eq/highshelf/enable'', lit ''real_bool'', lit ''rw'', None, None, None),
      (lit ''mix/chan/<index>/eq/highshelf/freq'', lit ''int'', lit ''rw'', Some 20, Some 20000, None),
      (lit ''mix/chan/<index>/eq/highshelf/gain'', lit ''real'', lit ''rw'', Some (- 20), Some 20, None),
      (lit ''mix/chan/<index>/eq/highshelf/bw'', lit ''real'', lit ''rw'', Some (5764607523034235 / 576460752303423488), Some 3, None),
      (lit ''mix/chan/<index>/eq/highshelf/mode'', lit ''real_enum'', lit ''rw'', None, None, Some (lit ''Shelf=0,Para=1'')),
      (lit ''mix/chan/<index>/eq/mid1/enable'', lit ''real_bool'', lit ''rw'', None, None, None),
      (lit ''mix/chan/<index>/eq/mid1/freq'', lit ''int'', lit ''rw'', Some 20, Some 20000, None),
      (lit ''mix/chan/<index>/eq/mid1/gain'', lit ''real'', lit ''rw'', Some (- 20), Some 20, None),
      (lit ''mix/chan/<index>/eq/mid1/bw'', lit ''real'', lit ''rw'', Some (5764607523034235 / 576460752303423488), Some 3, None),
      (lit ''mix/chan/<index>/eq/mid2/enable'', lit ''real_bool'', lit ''rw'', None, None, None),
      (lit ''mix/chan/<index>/eq/mid2/freq'', lit ''int'', lit ''rw'', Some 20, Some 20000, None),
      (lit ''mix/chan/<index>/eq/mid2/gain'', lit ''real'', lit ''rw'', Some (- 20), Some 20, None),
      (lit ''mix/chan/<index>/eq/mid2/bw'', lit ''real'', lit ''rw'', Some (5764607523034235 / 576460752303423488), Some 3, None),
      (lit ''mix/chan/<index>/eq/lowshelf/enable'', lit ''real_bool'', lit ''rw'', None, None, None),
      (lit ''mix/chan/<index>/eq/lowshelf/freq'', lit ''int'', lit ''rw'', Some 20, Some 20000, None),
      (lit ''mix/chan/<index>/eq/lowshelf/gain'', lit ''real'', lit ''rw'', Some (- 20), Some 20, None),
      (lit ''mix/chan/<index>/eq/lowshelf/bw'', lit ''real'', lit ''rw'', Some (5764607523034235 / 576460752303423488), Some 3, None),
      (lit ''mix/chan/<index>/eq/lowshelf/mode'', lit ''real_enum'', lit ''rw'', None, None, Some (lit ''Shelf=0,Para=1'')),
      (lit ''mix/chan/<index>/gate/enable'', lit ''real_bool'', lit ''rw'', None, None, None),
      (lit ''mix/chan/<index>/gate/release'', lit ''real'', lit ''rw'', Some 50, Some 2000, None),
      (lit ''mix/chan/<index>/gate/threshold'', lit ''real'', lit ''rw'', Some 0, Some 1, None),
      (lit ''mix/chan/<index>/gate/attack'', lit ''real'', lit ''rw'', Some 10, Some 500, None),
      (lit ''mix/chan/<index>/comp/enable'', lit ''real_bool'', lit ''rw'', None, None, None),
      (lit ''mix/chan/<index>/comp/release'', lit ''real'', lit ''rw'', Some 10, Some 2000, None),
      (lit ''mix/chan/<index>/comp/threshold'', lit ''real'', lit ''rw'', Some (- 40), Some 0, None),
      (lit ''mix/chan/<index>/comp/ratio'', lit ''real'', lit ''rw'', Some 1, Some 10, None),
      (lit ''mix/chan/<index>/comp/attack'', lit ''real'', lit ''rw'', Some 10, Some 100, None),
      (lit ''mix/chan/<index>/comp/trim'', lit ''real'', lit ''rw'', Some (- 20), Some 20, None),
      (lit ''mix/chan/<index>/comp/peak'', lit ''real_enum'', lit ''rw'', None, None, Some (lit ''RMS=0,Peak=1'')),
      (lit ''mix/chan/<index>/matrix/enable'', lit ''real_bool'', lit ''rw'', None, None, None),
      (lit ''mix/chan/<index>/matrix/solo'', lit ''real_bool'', lit ''rw'', None, None, None),
      (lit ''mix/chan/<index>/matrix/mute'', lit ''real_bool'', lit ''rw'', None, None, None),
      (lit ''mix/chan/<index>/matrix/pan'', lit ''real'', lit ''rw'', Some (- 1), Some 1, None),
      (lit ''mix/chan/<index>/matrix/fader'', lit ''real'', lit ''rw'', Some 0, Some 4, None)]"

definition RAW_SCHEMA_mix_main :: "raw_entry list" where
  "RAW_SCHEMA_mix_main =
     [(lit ''mix/main/<index>/eq/highshelf/enable'', lit ''real_bool'', lit ''rw'', None, None, None),
      (lit ''mix/main/<index>/eq/highshelf/freq'', lit ''int'', lit ''rw'', Some 20, Some 20000, None),
      (lit ''mix/main/<index>/eq/highshelf/gain'', lit ''real'', lit ''rw'', Some (- 20), Some 20, None),
      (lit ''mix/main/<index>/eq/highshelf/bw'', lit ''real'', lit ''rw'', Some (5764607523034235 / 576460752303423488), Some 3, None),
      (lit ''mix/main/<index>/eq/highshelf/mode'', lit ''real_enum'', lit ''rw'', None, None, Some (lit ''Shelf=0,Para=1'')),
      (lit ''mix/main/<index>/eq/mid1/enable'', lit ''real_bool'', lit ''rw'', None, None, None),
      (lit ''mix/main/<index>/eq/mid1/freq'', lit ''int'', lit ''rw'', Some 20, Some 20000, None),
      (lit ''mix/main/<index>/eq/mid1/gain'', lit ''real'', lit ''rw'', Some (- 20), Some 20, None),
      (lit ''mix/main/<index>/eq/mid1/bw'', lit ''real'', lit ''rw'', Some (5764607523034235 / 576460752303423488), Some 3, None),
      (lit ''mix/main/<index>/eq/mid2/enable'', lit ''real_bool'', lit ''rw'', None, None, None),
      (lit ''mix/main/<index>/eq/mid2/freq'', lit ''int'', lit ''rw'', Some 20, Some 20000, None),
      (lit ''mix/main/<index>/eq/mid2/gain'', lit ''real'', lit ''rw'', Some (- 20), Some 20, None),
      (lit ''mix/main/<index>/eq/mid2/bw'', lit ''real'', lit ''rw'', Some (5764607523034235 / 576460752303423488), Some 3, None),
      (lit ''mix/main/<index>/eq/lowshelf/enable'', lit ''real_bool'', lit ''rw'', None, None, None),
      (lit ''mix/main/<index>/eq/lowshelf/freq'', lit ''int'', lit ''rw'', Some 20, Some 20000, None),
      (lit ''mix/main/<index>/eq/lowshelf/gain'', lit ''real'', lit ''rw'', Some (- 20), Some 20, None),
      (lit ''mix/main/<index>/eq/lowshelf/bw'', lit ''real'', lit ''rw'', Some (5764607523034235 / 576460752303423488), Some 3, None),
      (lit ''mix/main/<index>/eq/lowshelf/mode'', lit ''real_enum'', lit ''rw'', None, None, Some (lit ''Shelf=0,Para=1'')),
      (lit ''mix/main/<index>/leveler/enable'', lit ''real_bool'', lit ''rw'', None, None, None),
      (lit ''mix/main/<index>/leveler/makeup'', lit ''real'', lit ''rw'', Some 0, Some 100, None),
      (lit ''mix/main/<index>/leveler/reduction'', lit ''real'', lit ''rw'', Some 0, Some 100, None),
      (lit ''mix/main/<index>/leveler/limit'', lit ''real_bool'', lit ''rw'', None, None, None),
      (lit ''mix/main/<index>/matrix/enable'', lit ''real_bool'', lit ''rw'', None, None, None),
      (lit ''mix/main/<index>/matrix/mute'', lit ''real_bool'', lit ''rw'', None, None, None),
      (lit ''mix/main/<index>/matrix/fader'', lit ''real'', lit ''rw'', Some 0, Some 4, None)]"

definition RAW_SCHEMA_mix_aux :: "raw_entry list" where
  "RAW_SCHEMA_mix_aux =
     [(lit ''mix/aux/<index>/eq/highshelf/enable'', lit ''real_bool'', lit ''rw'', None, None, None),
      (lit ''mix/aux/<index>/eq/highshelf/freq'', lit ''int'', lit ''rw'', Some 20, Some 20000, None),
      (lit ''mix/aux/<index>/eq/highshelf/gain'', lit ''real'', lit ''rw'', Some (- 20), Some 20, None),
      (lit ''mix/aux/<index>/eq/highshelf/bw'', lit ''real'', lit ''rw'', Some (5764607523034235 / 576460752303423488), Some 3, None),
      (lit ''mix/aux/<index>/eq/highshelf/mode'', lit ''real_enum'', lit ''rw'', None, None, Some (lit ''Shelf=0,Para=1'')),
      (lit ''mix/aux/<index>/eq/mid1/enable'', lit ''real_bool'', lit ''rw'', None, None, None),
      (lit ''mix/aux/<index>/eq/mid1/freq'', lit ''int'', lit ''rw'', Some 20, Some 20000, None),
      (lit ''mix/aux/<index>/eq/mid1/gain'', lit ''real'', lit ''rw'', Some (- 20), Some 20, None),
      (lit ''mix/aux/<index>/eq/mid1/bw'', lit ''real'', lit ''rw'', Some (5764607523034235 / 576460752303423488), Some 3, None),
      (lit ''mix/aux/<index>/eq/mid2/enable'', lit ''real_bool'', lit ''rw'', None, None, None),
      (lit ''mix/aux/<index>/eq/mid2/freq'', lit ''int'', lit ''rw'', Some 20, Some 20000, None),
      (lit ''mix/aux/<index>/eq/mid2/gain'', lit ''real'', lit ''rw'', Some (- 20), Some 20, None),
      (lit ''mix/aux/<index>/eq/mid2/bw'', lit ''real'', lit ''rw'', Some (5764607523034235 / 576460752303423488), Some 3, None),
      (lit ''mix/aux/<index>/eq/lowshelf/enable'', lit ''real_bool'', lit ''rw'', None, None, None),
      (lit ''mix/aux/<index>/eq/lowshelf/freq'', lit ''int'', lit ''rw'', Some 20, Some 20000, None),
      (lit ''mix/aux/<index>/eq/lowshelf/gain'', lit ''real'', lit ''rw'', Some (- 20), Some 20, None),
      (lit ''mix/aux/<index>/eq/lowshelf/bw'', lit ''real'', lit ''rw'', Some (5764607523034235 / 576460752303423488), Some 3, None),
      (lit ''mix/aux/<index>/eq/lowshelf/mode'', lit ''real_enum'', lit ''rw'', None, None, Some (lit ''Shelf=0,Para=1'')),
      (lit ''mix/aux/<index>/matrix/enable'', lit ''real_bool'', lit ''rw'', None, None, None),
      (lit ''mix/aux/<index>/matrix/prefader'', lit ''real_bool'', lit ''rw'', None, None, None),
      (lit ''mix/aux/<index>/matrix/panner'', lit ''real_bool'', lit ''rw'', None, None, None),
      (lit ''mix/aux/<index>/matrix/mute'', lit ''real_bool'', lit ''rw'', None, None, None),
      (lit ''mix/aux/<index>/matrix/fader'', lit ''real'', lit ''rw'', Some 0, Some 4, None)]"

definition RAW_SCHEMA_mix_group :: "raw_entry list" where
  "RAW_SCHEMA_mix_group =
     [(lit ''mix/group/<index>/matrix/aux/<index>/send'', lit ''real'', lit ''rw'', Some 0, Some 4, None),
      (lit ''mix/group/<index>/matrix/reverb/<index>/send'', lit ''real'', lit ''rw'', Some 0, Some 4, None),
      (lit ''mix/group/<index>/eq/highshelf/enable'', lit ''real_bool'', lit ''rw'', None, None, None),
      (lit ''mix/group/<index>/eq/highshelf/freq'', lit ''int'', lit ''rw'', Some 20, Some 20000, None),
      (lit ''mix/group/<index>/eq/highshelf/gain'', lit ''real'', lit ''rw'', Some (- 20), Some 20, None),
      (lit ''mix/group/<index>/eq/highshelf/bw'', lit ''real'', lit ''rw'', Some (5764607523034235 / 576460752303423488), Some 3, None),
      (lit ''mix/group/<index>/eq/highshelf/mode'', lit ''real_enum'', lit ''rw'', None, None, Some (lit ''Shelf=0,Para=1'')),
      (lit ''mix/group/<index>/eq/mid1/enable'', lit ''real_bool'', lit ''rw'', None, None, None),
      (lit ''mix/group/<index>/eq/mid1/freq'', lit ''int'', lit ''rw'', Some 20, Some 20000, None),
      (lit ''mix/group/<index>/eq/mid1/gain'', lit ''real'', lit ''rw'', Some (- 20), Some 20, None),
      (lit ''mix/group/<index>/eq/mid1/bw'', lit ''real'', lit ''rw'', Some (5764607523034235 / 576460752303423488), Some 3, None),
      (lit ''mix/group/<index>/eq/mid2/enable'', lit ''real_bool'', lit ''rw'', None, None, None),
      (lit ''mix/group/<index>/eq/mid2/freq'', lit ''int'', lit ''rw'', Some 20, Some 20000, None),
      (lit ''mix/group/<index>/eq/mid2/gain'', lit ''real'', lit ''rw'', Some (- 20), Some 20, None),
      (lit ''mix/group/<index>/eq/mid2/bw'', lit ''real'', lit ''rw'', Some (5764607523034235 / 576460752303423488), Some 3, None),
      (lit ''mix/group/<index>/eq/lowshelf/enable'', lit ''real_bool'', lit ''rw'', None, None, None),
      (lit ''mix/group/<index>/eq/lowshelf/freq'', lit ''int'', lit ''rw'', Some 20, Some 20000, None),
      (lit ''mix/group/<index>/eq/lowshelf/gain'', lit ''real'', lit ''rw'', Some (- 20), Some 20, None),
      (lit ''mix/group/<index>/eq/lowshelf/bw'', lit ''real'', lit ''rw'', Some (5764607523034235 / 576460752303423488), Some 3, None),
      (lit ''mix/group/<index>/eq/lowshelf/mode'', lit ''real_enum'', lit ''rw'', None, None, Some (lit ''Shelf=0,Para=1'')),
      (lit ''mix/group/<index>/leveler/enable'', lit ''real_bool'', lit ''rw'', None, None, None),
      (lit ''mix/group/<index>/leveler/makeup'', lit ''real'', lit ''rw'', Some 0, Some 100, None),
      (lit ''mix/group/<index>/leveler/reduction'', lit ''real'', lit ''rw'', Some 0, Some 100, None),
      (lit ''mix/group/<index>/leveler/limit'', lit ''real_bool'', lit ''rw'', None, None, None),
      (lit ''mix/group/<index>/matrix/enable'', lit ''real_bool'', lit ''rw'', None, None, None),
      (lit ''mix/group/<index>/matrix/solo'', lit ''real_bool'', lit ''rw'', None, None, None),
      (lit ''mix/group/<index>/matrix/prefader'', lit ''real_bool'', lit ''rw'', None, None, None),
      (lit ''mix/group/<index>/matrix/panner'', lit ''real_bool'', lit ''rw'', None, None, None),
      (lit ''mix/group/<index>/matrix/mute'', lit ''real_bool'', lit ''rw'', None, None, None),
      (lit ''mix/group/<index>/matrix/fader'', lit ''real'', lit ''rw'', Some 0, Some 4, None)]"

definition RAW_SCHEMA_mix_reverb :: "raw_entry list" where
  "RAW_SCHEMA_mix_reverb =
     [(lit ''mix/reverb/<index>/matrix/aux/<index>/send'', lit ''real'', lit ''rw'', Some 0, Some 4, None),
      (lit ''mix/reverb/<index>/matrix/reverb/<index>/send'', lit ''real'', lit ''rw'', Some 0, Some 4, None),
      (lit ''mix/reverb/<index>/eq/highshelf/enable'', lit ''real_bool'', lit ''rw'', None, None, None),
      (lit ''mix/reverb/<index>/eq/highshelf/freq'', lit ''int'', lit ''rw'', Some 20, Some 20000, None),
      (lit ''mix/reverb/<index>/eq/highshelf/gain'', lit ''real'', lit ''rw'', Some (- 20), Some 20, None),
      (lit ''mix/reverb/<index>/eq/highshelf/bw'', lit ''real'', lit ''rw'', Some (5764607523034235 / 576460752303423488), Some 3, None),
      (lit ''mix/reverb/<index>/eq/highshelf/mode'', lit ''real_enum'', lit ''rw'', None, None, Some (lit ''Shelf=0,Para=1'')),
      (lit ''mix/reverb/<index>/eq/mid1/enable'', lit ''real_bool'', lit ''rw'', None, None, None),
      (lit ''mix/reverb/<index>/eq/mid1/freq'', lit ''int'', lit ''rw'', Some 20, Some 20000, None),
      (lit ''mix/reverb/<index>/eq/mid1/gain'', lit ''real'', lit ''rw'', Some (- 20), Some 20, None),
      (lit ''mix/reverb/<index>/eq/mid1/bw'', lit ''real'', lit ''rw'', Some (5764607523034235 / 576460752303423488), Some 3, None),
      (lit ''mix/reverb/<index>/eq/mid2/enable'', lit ''real_bool'', lit ''rw'', None, None, None),
      (lit ''mix/reverb/<index>/eq/mid2/freq'', lit ''int'', lit ''rw'', Some 20, Some 20000, None),
      (lit ''mix/reverb/<index>/eq/mid2/gain'', lit ''real'', lit ''rw'', Some (- 20), Some 20, None),
      (lit ''mix/reverb/<index>/eq/mid2/bw'', lit ''real'', lit ''rw'', Some (5764607523034235 / 576460752303423488), Some 3, None),
      (lit ''mix/reverb/<index>/eq/lowshelf/enable'', lit ''real_bool'', lit ''rw'', None, None, None),
      (lit ''mix/reverb/<index>/eq/lowshelf/freq'', lit ''int'', lit ''rw'', Some 20, Some 20000, None),
      (lit ''mix/reverb/<index>/eq/lowshelf/gain'', lit ''real'', lit ''rw'', Some (- 20), Some 20, None),
      (lit ''mix/reverb/<index>/eq/lowshelf/bw'', lit ''real'', lit ''rw'', Some (5764607523034235 / 576460752303423488), Some 3, None),
      (lit ''mix/reverb/<index>/eq/lowshelf/mode'', lit ''real_enum'', lit ''rw'', None, None, Some (lit ''Shelf=0,Para=1'')),
      (lit ''mix/reverb/<index>/leveler/enable'', lit ''real_bool'', lit ''rw'', None, None, None),
      (lit ''mix/reverb/<index>/leveler/makeup'', lit ''real'', lit ''rw'', Some 0, Some 100, None),
      (lit ''mix/reverb/<index>/leveler/reduction'', lit ''real'', lit ''rw'', Some 0, Some 100, None),
      (lit ''mix/reverb/<index>/leveler/limit'', lit ''real_bool'', lit ''rw'', None, None, None),
      (lit ''mix/reverb/<index>/matrix/enable'', lit ''real_bool'', lit ''rw'', None, None, None),
      (lit ''mix/reverb/<index>/matrix/solo'', lit ''real_bool'', lit ''rw'', None, None, None),
      (lit ''mix/reverb/<index>/matrix/prefader'', lit ''real_bool'', lit ''rw'', None, None, None),
      (lit ''mix/reverb/<index>/matrix/panner'', lit ''real_bool'', lit ''rw'', None, None, None),
      (lit ''mix/reverb/<index>/matrix/mute'', lit ''real_bool'', lit ''rw'', None, None, None),
      (lit ''mix/reverb/<index>/matrix/fader'', lit ''real'', lit ''rw'', Some 0, Some 4, None),
      (lit ''mix/reverb/<index>/reverb/enable'', lit ''real_bool'', lit ''rw'', None, None, None),
      (lit ''mix/reverb/<index>/reverb/reverbtime'', lit ''int'', lit ''rw'', Some 100, Some 60000, None),
      (lit ''mix/reverb/<index>/reverb/hf'', lit ''int'', lit ''rw'', Some 500, Some 15000, None),
      (lit ''mix/reverb/<index>/reverb/mf'', lit ''int'', lit ''rw'', Some 500, Some 15000, None),
      (lit ''mix/reverb/<index>/reverb/predelay'', lit ''int'', lit ''rw'', Some 0, Some 500, None),
      (lit ''mix/reverb/<index>/reverb/mfratio'', lit ''int'', lit ''rw'', Some 1, Some 100, None),
      (lit ''mix/reverb/<index>/reverb/hfratio'', lit ''int'', lit ''rw'', Some 1, Some 100, None),
      (lit ''mix/reverb/<index>/reverb/tailspread'', lit ''int'', lit ''rw'', Some (- 100), Some 100, None),
      (lit ''mix/reverb/<index>/reverb/mod'', lit ''int'', lit ''rw'', Some 0, Some 100, None)]"

definition RAW_SCHEMA_mix_monitor :: "raw_entry list" where
  "RAW_SCHEMA_mix_monitor =
     [(lit ''mix/monitor/<index>/matrix/enable'', lit ''real_bool'', lit ''rw'', None, None, None),
      (lit ''mix/monitor/<index>/matrix/mute'', lit ''real_bool'', lit ''rw'', None, None, None),
      (lit ''mix/monitor/<index>/matrix/fader'', lit ''real'', lit ''rw'', Some 0, Some 4, None),
      (lit ''mix/monitor/<index>/assign'', lit ''int'', lit ''rw'', Some (- 2), Some 4096, None),
      (lit ''mix/monitor/<index>/override'', lit ''int'', lit ''rw'', Some (- 1), Some 4096, None),
      (lit ''mix/monitor/<index>/auto'', lit ''real_bool'', lit ''rw'', None, None, None)]"

definition RAW_SCHEMA :: "raw_entry list" where
  "RAW_SCHEMA =
     RAW_SCHEMA_avb @
     RAW_SCHEMA_ext @
     RAW_SCHEMA_mix_chan @
     RAW_SCHEMA_mix_main @
     RAW_SCHEMA_mix_aux @
     RAW_SCHEMA_mix_group @
     RAW_SCHEMA_mix_reverb @
     RAW_SCHEMA_mix_monitor"

text \<open>\<open>_parse_enum\<close>; \<open>py_float\<close> is \<open>float\<close> of a string, \<open>None\<close> for \<open>ValueError\<close>.\<close>

datatype enum_value = EInt int | EFloat pyfloat | EStr pystr

definition parse_enum_item :: "(pystr \<Rightarrow> pyfloat option) \<Rightarrow> pystr \<Rightarrow> enum_value" where
  "parse_enum_item py_float item =
     (case partition_at 61 item of
        (_, _, raw_value) \<Rightarrow>
          let value = py_strip raw_value in
          case py_int value of
            Some i \<Rightarrow> EInt i
          | None \<Rightarrow> (case py_float value of Some f \<Rightarrow> EFloat f | None \<Rightarrow> EStr value))"

definition parse_enum :: "(pystr \<Rightarrow> pyfloat option) \<Rightarrow> pystr option \<Rightarrow> enum_value list option" where
  "parse_enum py_float enum_values = map_option (\<lambda>s. map (parse_enum_item py_float) (split_on 44 s)) enum_values"

record path_schema =
  ps_path :: pystr
  ps_value_type :: pystr
  ps_permission :: pystr
  ps_minimum :: "rat option"
  ps_maximum :: "rat option"
  ps_enum_values :: "enum_value list option"

definition ps_segments :: "path_schema \<Rightarrow> pystr list" where
  "ps_segments e = split_on 47 (ps_path e)"

text \<open>No enumeration of the table has a value that is not an integer, so \<open>float\<close> is never reached.\<close>

definition make_entry :: "raw_entry \<Rightarrow> path_schema" where
  "make_entry = (\<lambda>(path, value_type, permission, minimum, maximum, enum_values).
     \<lparr>ps_path = path, ps_value_type = value_type, ps_permission = permission, ps_minimum = minimum,
      ps_maximum = maximum, ps_enum_values = parse_enum (\<lambda>_. None) enum_values\<rparr>)"

definition SCHEMA :: "path_schema list" where
  "SCHEMA = map make_entry RAW_SCHEMA"

definition schema_by_segment_count :: "nat \<Rightarrow> path_schema list" where
  "schema_by_segment_count n = filter (\<lambda>e. length (ps_segments e) = n) SCHEMA"

section \<open>Matching\<close>

definition word_char :: "nat \<Rightarrow> bool" where
  "word_char c \<longleftrightarrow> ascii_alpha c \<or> 48 \<le> c \<and> c \<le> 57 \<or> c = 95"

text \<open>The first match of \<open><([A-Za-z0-9_]+)>\<close>: the text before it, the group, the text after it.\<close>

fun placeholder_search :: "pystr \<Rightarrow> (pystr \<times> pystr \<times> pystr) option" where
  "placeholder_search [] = None"
| "placeholder_search (c # cs) =
     (let name = takeWhile word_char cs; rest = dropWhile word_char cs
      in if c = 60 \<and> name \<noteq> [] \<and> rest \<noteq> [] \<and> hd rest = 62 then Some ([], name, tl rest)
         else map_option (\<lambda>(p, n, r). (c # p, n, r)) (placeholder_search cs))"

definition placeholder_fullmatch :: "pystr \<Rightarrow> pystr option" where
  "placeholder_fullmatch s =
     (case placeholder_search s of Some (p, n, r) \<Rightarrow> if p = [] \<and> r = [] then Some n else None | None \<Rightarrow> None)"

definition uid_fullmatch :: "pystr \<Rightarrow> bool" where
  "uid_fullmatch s \<longleftrightarrow> length s = 16 \<and> list_all (\<lambda>c. hex_digit c \<noteq> None) s"

definition placeholder_value_matches :: "pystr \<Rightarrow> pystr \<Rightarrow> bool" where
  "placeholder_value_matches name requested =
     (if name = lit ''index'' then py_isdecimal requested
      else if name = lit ''uid'' then uid_fullmatch requested
      else if name = lit ''ibank_or_obank'' then requested = lit ''ibank'' \<or> requested = lit ''obank''
      else if name = lit ''input_or_output'' then requested = lit ''input'' \<or> requested = lit ''output''
      else requested \<noteq> [])"

definition placeholder_matches :: "pystr \<Rightarrow> pystr \<Rightarrow> bool" where
  "placeholder_matches pattern requested =
     (case placeholder_fullmatch pattern of
        Some name \<Rightarrow> placeholder_value_matches name requested
      | None \<Rightarrow>
          (case placeholder_search pattern of
             None \<Rightarrow> False
           | Some (pre, name, suf) \<Rightarrow>
               if \<not> prefix pre requested \<or> \<not> suffix suf requested then False
               else
                 let value_end = (if suf \<noteq> [] then length requested - length suf else length requested)
                 in placeholder_value_matches name (pyslice requested (length pre) value_end)))"

fun match_loop :: "pystr list \<Rightarrow> pystr list \<Rightarrow> int \<Rightarrow> int \<Rightarrow> (int \<times> int) option" where
  "match_loop (p # ps) (r # rs) exact placeholders =
     (if p = r then match_loop ps rs (exact + 1) placeholders
      else if placeholder_matches p r then match_loop ps rs exact (placeholders + 1)
      else None)"
| "match_loop _ _ exact placeholders = Some (exact, - placeholders)"

definition match_score :: "pystr list \<Rightarrow> pystr list \<Rightarrow> (int \<times> int) option" where
  "match_score pattern requested =
     (if length pattern \<noteq> length requested then None else match_loop pattern requested 0 0)"

definition relative_datastore_path :: "(pystr \<Rightarrow> bool) \<Rightarrow> pystr \<Rightarrow> pystr option result" where
  "relative_datastore_path netloc_ok path =
     bindR (normalize_path netloc_ok path) (\<lambda>normalized.
       if normalized = DATASTORE then Inr (Some [])
       else if \<not> prefix DATASTORE_PREFIX normalized then Inr None
       else Inr (Some (drop (length DATASTORE_PREFIX) normalized)))"

text \<open>The loop of \<open>find_path_schema\<close>: the first entry with the highest score.\<close>

fun best_entry ::
    "pystr list \<Rightarrow> path_schema list \<Rightarrow> ((int \<times> int) \<times> path_schema) option
     \<Rightarrow> ((int \<times> int) \<times> path_schema) option" where
  "best_entry requested [] best = best"
| "best_entry requested (e # es) best =
     (case match_score (ps_segments e) requested of
        None \<Rightarrow> best_entry requested es best
      | Some score \<Rightarrow>
          (case best of
             None \<Rightarrow> best_entry requested es (Some (score, e))
           | Some (s, _) \<Rightarrow>
               if score > s then best_entry requested es (Some (score, e)) else best_entry requested es best))"

definition find_path_schema :: "(pystr \<Rightarrow> bool) \<Rightarrow> pystr \<Rightarrow> path_schema option result" where
  "find_path_schema netloc_ok path =
     bindR (relative_datastore_path netloc_ok path) (\<lambda>relative.
       case relative of
         None \<Rightarrow> Inr None
       | Some rel \<Rightarrow>
           let requested = filter (\<lambda>seg. seg \<noteq> []) (split_on 47 rel)
           in Inr (map_option snd (best_entry requested (schema_by_segment_count (length requested)) None)))"

section \<open>Values\<close>

definition split_type :: "pystr \<Rightarrow> pystr \<times> pystr list" where
  "split_type value_type = (let parts = split_on 95 value_type in (hd parts, tl parts))"

text \<open>\<open>SEMVER_RE.fullmatch\<close>: three runs of decimal digits, then nothing or \<open>[-+]\<close> and at least one of \<open>[0-9A-Za-z.-]\<close>.\<close>

definition is_digit :: "nat \<Rightarrow> bool" where
  "is_digit c \<longleftrightarrow> decimal_digit c \<noteq> None"

definition semver_tail :: "pystr \<Rightarrow> bool" where
  "semver_tail s =
     (case s of
        [] \<Rightarrow> True
      | c # cs \<Rightarrow> (c = 45 \<or> c = 43) \<and> cs \<noteq> [] \<and>
          list_all (\<lambda>x. ascii_alpha x \<or> 48 \<le> x \<and> x \<le> 57 \<or> x = 46 \<or> x = 45) cs)"

fun semver_rest :: "nat \<Rightarrow> pystr \<Rightarrow> bool" where
  "semver_rest 0 s = (takeWhile is_digit s \<noteq> [] \<and> semver_tail (dropWhile is_digit s))"
| "semver_rest (Suc n) s =
     (takeWhile is_digit s \<noteq> [] \<and>
      (case dropWhile is_digit s of [] \<Rightarrow> False | c # cs \<Rightarrow> c = 46 \<and> semver_rest n cs))"

definition semver_fullmatch :: "pystr \<Rightarrow> bool" where
  "semver_fullmatch s = semver_rest 2 s"

text \<open>
  \<open>math.isfinite\<close>: an integer is first converted to a double, which raises \<open>OverflowError\<close> when it
  rounds beyond the largest one.
\<close>

definition isfinite :: "json \<Rightarrow> bool result" where
  "isfinite v =
     (case v of
        JInt i \<Rightarrow> if \<bar>i\<bar> \<ge> 2 ^ 1024 - 2 ^ 970 then Inl OtherException else Inr True
      | JFloat (FFin _) \<Rightarrow> Inr True
      | _ \<Rightarrow> Inr False)"

definition validate_scalar :: "pystr \<Rightarrow> json \<Rightarrow> pystr \<Rightarrow> unit result" where
  "validate_scalar path value base_type =
     (if base_type = lit ''string'' then
        (case value of JStr _ \<Rightarrow> Inr () | _ \<Rightarrow> Inl (DatastoreValidationError path))
      else if base_type = lit ''semver'' then
        (case value of
           JStr s \<Rightarrow> if semver_fullmatch s then Inr () else Inl (DatastoreValidationError path)
         | _ \<Rightarrow> Inl (DatastoreValidationError path))
      else if base_type = lit ''int'' then
        (case value of JInt _ \<Rightarrow> Inr () | _ \<Rightarrow> Inl (DatastoreValidationError path))
      else if base_type = lit ''real'' then
        (if (case value of JInt _ \<Rightarrow> True | JFloat _ \<Rightarrow> True | _ \<Rightarrow> False)
         then bindR (isfinite value) (\<lambda>ok. if \<not> ok then Inl (DatastoreValidationError path) else Inr ())
         else Inl (DatastoreValidationError path))
      else Inl (DatastoreValidationError path))"

fun validate_parts :: "pystr \<Rightarrow> pystr \<Rightarrow> pystr list \<Rightarrow> unit result" where
  "validate_parts path base_type [] = Inr ()"
| "validate_parts path base_type (part # parts) =
     bindR (if base_type = lit ''int''
            then (case py_int part of None \<Rightarrow> Inl (DatastoreValidationError path) | Some i \<Rightarrow> Inr (JInt i))
            else Inr (JStr part)) (\<lambda>parsed.
     bindR (validate_scalar path parsed base_type) (\<lambda>_. validate_parts path base_type parts))"

definition validate_string_parts ::
    "pystr \<Rightarrow> json \<Rightarrow> pystr \<Rightarrow> nat \<Rightarrow> nat option \<Rightarrow> unit result" where
  "validate_string_parts path value base_type min_parts max_parts =
     (case value of
        JStr s \<Rightarrow>
          (let parts = (if s = [] then [] else split_on 58 s) in
           if length parts < min_parts \<or> (\<exists>m \<in> set_option max_parts. m < length parts)
           then Inl (DatastoreValidationError path)
           else validate_parts path base_type parts)
      | _ \<Rightarrow> Inl (DatastoreValidationError path))"

text \<open>
  Python's comparison of a value with a number: \<open>json_num\<close> is the number a value compares as, where it
  compares as a finite one (a \<open>bool\<close> is 0 or 1).
\<close>

definition json_num :: "json \<Rightarrow> rat option" where
  "json_num v = (case v of JInt i \<Rightarrow> Some (of_int i) | JFloat (FFin r) \<Rightarrow> Some r | JBool b \<Rightarrow> Some (of_bool b) | _ \<Rightarrow> None)"

definition json_less :: "json \<Rightarrow> rat \<Rightarrow> bool" where
  "json_less v b = (case json_num v of Some r \<Rightarrow> r < b | None \<Rightarrow> v = JFloat FNegInf)"

definition json_greater :: "json \<Rightarrow> rat \<Rightarrow> bool" where
  "json_greater v b = (case json_num v of Some r \<Rightarrow> b < r | None \<Rightarrow> v = JFloat FPosInf)"

fun equals_enum :: "json \<Rightarrow> enum_value \<Rightarrow> bool" where
  "equals_enum v (EInt i) = (json_num v = Some (of_int i))"
| "equals_enum v (EFloat (FFin r)) = (json_num v = Some r)"
| "equals_enum v (EFloat FPosInf) = (v = JFloat FPosInf)"
| "equals_enum v (EFloat FNegInf) = (v = JFloat FNegInf)"
| "equals_enum v (EFloat FNaN) = False"
| "equals_enum v (EStr s) = (v = JStr s)"

text \<open>\<open>isinstance(value, Real)\<close>\<close>

definition is_real :: "json \<Rightarrow> bool" where
  "is_real v = (case v of JInt _ \<Rightarrow> True | JFloat _ \<Rightarrow> True | JBool _ \<Rightarrow> True | _ \<Rightarrow> False)"

definition validate_range :: "pystr \<Rightarrow> path_schema \<Rightarrow> json \<Rightarrow> unit result" where
  "validate_range path e value =
     (if ps_minimum e = None \<and> ps_maximum e = None then Inr ()
      else if \<not> is_real value then Inl AssertionError
      else if (\<exists>m \<in> set_option (ps_minimum e). json_less value m) then Inl (DatastoreValidationError path)
      else if (\<exists>m \<in> set_option (ps_maximum e). json_greater value m) then Inl (DatastoreValidationError path)
      else Inr ())"

definition validate_value :: "pystr \<Rightarrow> path_schema \<Rightarrow> json \<Rightarrow> unit result" where
  "validate_value path e value =
     (case split_type (ps_value_type e) of
        (base_type, modifiers) \<Rightarrow>
          if lit ''opt'' \<in> set modifiers \<and> value = JNull then Inr ()
          else if lit ''list'' \<in> set modifiers then validate_string_parts path value base_type 0 None
          else if lit ''pair'' \<in> set modifiers then validate_string_parts path value base_type 2 (Some 2)
          else
            bindR (validate_scalar path value base_type) (\<lambda>_.
            if lit ''enum'' \<in> set modifiers \<and>
               (\<exists>vs \<in> set_option (ps_enum_values e). \<not> list_ex (equals_enum value) vs)
            then Inl (DatastoreValidationError path)
            else if lit ''bool'' \<in> set modifiers \<and> json_num value \<noteq> Some 0 \<and> json_num value \<noteq> Some 1
            then Inl (DatastoreValidationError path)
            else validate_range path e value))"

section \<open>Writes\<close>

text \<open>\<open>_iter_write_values\<close>; the body is the dictionary in order.\<close>

definition write_target :: "(pystr \<Rightarrow> bool) \<Rightarrow> pystr \<Rightarrow> pystr \<Rightarrow> pystr result" where
  "write_target netloc_ok base key =
     (if key = lit ''value'' then Inr base
      else if prefix (lit ''/'') key then normalize_path netloc_ok key
      else if base = DATASTORE then normalize_path netloc_ok key
      else normalize_path netloc_ok (base @ lit ''/'' @ key))"

text \<open>
  The loop of \<open>validate_datastore_write_object\<close> over the values, which are produced one by one, so an
  error of a target is raised only when the loop reaches it. The result lists the paths passed to
  \<open>warn_unknown\<close>.
\<close>

fun validate_items ::
    "(pystr \<Rightarrow> bool) \<Rightarrow> bool \<Rightarrow> pystr \<Rightarrow> (pystr \<times> json) list \<Rightarrow> pystr list result" where
  "validate_items netloc_ok allow_unknown base [] = Inr []"
| "validate_items netloc_ok allow_unknown base ((key, value) # items) =
     bindR (write_target netloc_ok base key) (\<lambda>target.
     bindR (find_path_schema netloc_ok target) (\<lambda>entry.
     case entry of
       None \<Rightarrow>
         if allow_unknown
         then bindR (relative_datastore_path netloc_ok target) (\<lambda>rel.
           if rel \<noteq> None
           then bindR (validate_items netloc_ok allow_unknown base items) (\<lambda>ws. Inr (target # ws))
           else Inl (DatastoreValidationError target))
         else Inl (DatastoreValidationError target)
     | Some e \<Rightarrow>
         if ps_permission e \<noteq> lit ''rw'' then Inl (DatastorePermissionError target)
         else bindR (validate_value target e value) (\<lambda>_.
           validate_items netloc_ok allow_unknown base items)))"

definition validate_datastore_write_object ::
    "(pystr \<Rightarrow> bool) \<Rightarrow> bool \<Rightarrow> pystr \<Rightarrow> (pystr \<times> json) list \<Rightarrow> pystr list result" where
  "validate_datastore_write_object netloc_ok allow_unknown path body =
     bindR (relative_datastore_path netloc_ok path) (\<lambda>rel.
     if rel = None
     then bindR (normalize_path netloc_ok path) (\<lambda>p. Inl (DatastoreValidationError p))
     else bindR (normalize_path netloc_ok path) (\<lambda>p.
       validate_items netloc_ok allow_unknown (py_rstrip_char 47 p) body))"

section \<open>Matching finds the best entry\<close>

definition segment_matches :: "pystr \<Rightarrow> pystr \<Rightarrow> bool" where
  "segment_matches p r \<longleftrightarrow> p = r \<or> placeholder_matches p r"

lemma match_loop_iff:
  "length ps = length rs \<Longrightarrow> (\<exists>s. match_loop ps rs a b = Some s) \<longleftrightarrow> list_all2 segment_matches ps rs"
  by (induction ps rs arbitrary: a b rule: list_induct2) (auto simp: segment_matches_def)

lemma match_score_iff: "(\<exists>s. match_score ps rs = Some s) \<longleftrightarrow> list_all2 segment_matches ps rs"
proof (cases "length ps = length rs")
  case True
  then show ?thesis using match_loop_iff[of ps rs 0 0] by (simp add: match_score_def)
next
  case False
  then show ?thesis by (auto simp: match_score_def dest: list_all2_lengthD)
qed

definition best_of :: "pystr list \<Rightarrow> path_schema list \<Rightarrow> (int \<times> int) \<times> path_schema \<Rightarrow> bool" where
  "best_of req es r \<longleftrightarrow> snd r \<in> set es \<and> match_score (ps_segments (snd r)) req = Some (fst r) \<and>
     (\<forall>e\<in>set es. \<forall>s. match_score (ps_segments e) req = Some s \<longrightarrow> s \<le> fst r)"

lemma best_entry_Some:
  "best_entry req es best = Some r \<Longrightarrow> (\<And>b. best = Some b \<Longrightarrow> best_of req done b) \<Longrightarrow>
   (best = None \<Longrightarrow> (\<forall>e\<in>set done. match_score (ps_segments e) req = None)) \<Longrightarrow> best_of req (done @ es) r"
proof (induction es arbitrary: best "done")
  case Nil
  then show ?case by simp
next
  case (Cons e es)
  have step: "best_of req ((done @ [e]) @ es) r"
    if "best_entry req es best' = Some r" "\<And>b. best' = Some b \<Longrightarrow> best_of req (done @ [e]) b"
      "best' = None \<Longrightarrow> (\<forall>e\<in>set (done @ [e]). match_score (ps_segments e) req = None)" for best'
    using Cons.IH[OF that] .
  show ?case
  proof (cases "match_score (ps_segments e) req")
    case None
    then show ?thesis using Cons.prems step[of best] by (auto simp: best_of_def)
  next
    case (Some score)
    show ?thesis
    proof (cases "best = None \<or> (\<exists>s b. best = Some (s, b) \<and> score > s)")
      case True
      then have "best_entry req es (Some (score, e)) = Some r"
        using Cons.prems(1) Some by (auto split: option.splits)
      moreover have "best_of req (done @ [e]) (score, e)"
        unfolding best_of_def
      proof (intro conjI ballI allI impI)
        fix x s' assume x: "x \<in> set (done @ [e])" "match_score (ps_segments x) req = Some s'"
        show "s' \<le> fst (score, e)"
        proof (cases best)
          case None
          then show ?thesis using x Some Cons.prems(3) by auto
        next
          case (Some a)
          then have "x \<in> set done \<Longrightarrow> s' \<le> fst a"
            using x Cons.prems(2)[OF Some] unfolding best_of_def by blast
          moreover have "score > fst a" using True Some by auto
          ultimately show ?thesis using x \<open>match_score (ps_segments e) req = Some score\<close> by auto
        qed
      qed (use Some in auto)
      ultimately show ?thesis using step[of "Some (score, e)"] by simp
    next
      case False
      then obtain s b where b: "best = Some (s, b)" "score \<le> s" by (cases best) auto
      then have "best_entry req es best = Some r" using Cons.prems(1) Some by (auto dest: leD)
      moreover have "best_of req (done @ [e]) (s, b)"
        using b Some Cons.prems(2)[of "(s, b)"] by (auto simp: best_of_def)
      ultimately show ?thesis using step[of best] b by simp
    qed
  qed
qed

lemma best_entry_None:
  "best_entry req es best = None \<longleftrightarrow> best = None \<and> (\<forall>e\<in>set es. match_score (ps_segments e) req = None)"
proof (induction es arbitrary: best)
  case (Cons e es)
  show ?case
  proof (cases "match_score (ps_segments e) req")
    case None
    then show ?thesis using Cons.IH[of best] by simp
  next
    case (Some score)
    then have "best_entry req (e # es) best = best_entry req es (Some (score, e)) \<or>
        (\<exists>b. best = Some b \<and> best_entry req (e # es) best = best_entry req es best)"
      by (cases best) (auto simp del: split_paired_Ex)
    then show ?thesis using Some Cons.IH by fastforce
  qed
qed simp

definition requested_segments :: "pystr \<Rightarrow> pystr list" where
  "requested_segments rel = filter (\<lambda>seg. seg \<noteq> []) (split_on 47 rel)"

text \<open>C29: The schema lookup is exact: for a path below \<open>/datastore\<close> it returns an entry exactly when some entry
  of the table matches segment by segment, and then one whose score (exact segments first, then fewer
  placeholders) is the highest in the whole table.\<close>

theorem find_path_schema_best:
  assumes "relative_datastore_path netloc_ok path = Inr (Some rel)"
  shows "\<exists>r. find_path_schema netloc_ok path = Inr r \<and>
    (r = None \<longleftrightarrow> \<not> (\<exists>e\<in>set SCHEMA. list_all2 segment_matches (ps_segments e) (requested_segments rel))) \<and>
    (\<forall>e. r = Some e \<longrightarrow> e \<in> set SCHEMA \<and>
      (\<exists>s. match_score (ps_segments e) (requested_segments rel) = Some s \<and>
        (\<forall>e'\<in>set SCHEMA. \<forall>s'. match_score (ps_segments e') (requested_segments rel) = Some s' \<longrightarrow> s' \<le> s)))"
proof -
  let ?req = "requested_segments rel" and ?es = "schema_by_segment_count (length (requested_segments rel))"
  let ?b = "best_entry ?req ?es None"
  have f: "find_path_schema netloc_ok path = Inr (map_option snd ?b)"
    using assms by (simp add: find_path_schema_def requested_segments_def result_simps Let_def)
  have sub: "e \<in> set ?es \<longleftrightarrow> e \<in> set SCHEMA \<and> length (ps_segments e) = length ?req" for e
    by (auto simp: schema_by_segment_count_def)
  have len: "match_score (ps_segments e) ?req = Some s \<Longrightarrow> length (ps_segments e) = length ?req" for e s
    by (auto simp: match_score_def split: if_splits)
  have none: "?b = None \<longleftrightarrow> \<not> (\<exists>e\<in>set SCHEMA. list_all2 segment_matches (ps_segments e) ?req)"
  proof -
    have "(\<forall>e\<in>set ?es. match_score (ps_segments e) ?req = None) \<longleftrightarrow>
        (\<forall>e\<in>set SCHEMA. match_score (ps_segments e) ?req = None)"
      using sub len by (metis not_None_eq)
    then show ?thesis 
      unfolding best_entry_None match_score_iff[symmetric] by (metis not_None_eq)
  qed
  have some: "?b = Some r \<Longrightarrow> best_of ?req ?es r" for r
    using best_entry_Some[of ?req ?es None r "[]"] by simp
  show ?thesis
  proof (rule exI, intro conjI, rule f)
    show "(map_option snd ?b = None) = (\<not> (\<exists>e\<in>set SCHEMA. list_all2 segment_matches (ps_segments e) ?req))"
      using none by simp
    show "\<forall>e. map_option snd ?b = Some e \<longrightarrow> e \<in> set SCHEMA \<and>
      (\<exists>s. match_score (ps_segments e) ?req = Some s \<and>
        (\<forall>e'\<in>set SCHEMA. \<forall>s'. match_score (ps_segments e') ?req = Some s' \<longrightarrow> s' \<le> s))"
    proof (intro allI impI)
      fix e assume "map_option snd ?b = Some e"
      then obtain s where "?b = Some (s, e)" by auto
      then have b: "e \<in> set ?es" "match_score (ps_segments e) ?req = Some s"
        "\<And>e' s'. e' \<in> set ?es \<Longrightarrow> match_score (ps_segments e') ?req = Some s' \<Longrightarrow> s' \<le> s"
        using some[of "(s, e)"] unfolding best_of_def fst_conv snd_conv by blast+
      then show "e \<in> set SCHEMA \<and> (\<exists>s. match_score (ps_segments e) ?req = Some s \<and>
        (\<forall>e'\<in>set SCHEMA. \<forall>s'. match_score (ps_segments e') ?req = Some s' \<longrightarrow> s' \<le> s))"
        using sub len by metis
    qed
  qed
qed

section \<open>What an accepted value is\<close>

definition part_conforms :: "pystr \<Rightarrow> pystr \<Rightarrow> bool" where
  "part_conforms base_type part \<longleftrightarrow>
     base_type = lit ''string'' \<or> base_type = lit ''int'' \<and> py_int part \<noteq> None \<or>
     base_type = lit ''semver'' \<and> semver_fullmatch part"

definition scalar_conforms :: "pystr \<Rightarrow> json \<Rightarrow> bool" where
  "scalar_conforms base_type v \<longleftrightarrow>
     base_type = lit ''string'' \<and> (\<exists>s. v = JStr s) \<or>
     base_type = lit ''semver'' \<and> (\<exists>s. v = JStr s \<and> semver_fullmatch s) \<or>
     base_type = lit ''int'' \<and> (\<exists>i. v = JInt i) \<or>
     base_type = lit ''real'' \<and> ((\<exists>i. v = JInt i \<and> \<bar>i\<bar> < 2 ^ 1024 - 2 ^ 970) \<or> (\<exists>r. v = JFloat (FFin r)))"

definition parts_of :: "pystr \<Rightarrow> pystr list" where
  "parts_of s = (if s = [] then [] else split_on 58 s)"

definition value_conforms :: "path_schema \<Rightarrow> json \<Rightarrow> bool" where
  "value_conforms e v \<longleftrightarrow>
     (case split_type (ps_value_type e) of (base_type, modifiers) \<Rightarrow>
        (lit ''opt'' \<in> set modifiers \<and> v = JNull) \<or>
        (if lit ''list'' \<in> set modifiers then \<exists>s. v = JStr s \<and> list_all (part_conforms base_type) (parts_of s)
         else if lit ''pair'' \<in> set modifiers
         then \<exists>s. v = JStr s \<and> length (parts_of s) = 2 \<and> list_all (part_conforms base_type) (parts_of s)
         else
           scalar_conforms base_type v \<and>
           (lit ''enum'' \<in> set modifiers \<longrightarrow> (\<forall>vs. ps_enum_values e = Some vs \<longrightarrow> list_ex (equals_enum v) vs)) \<and>
           (lit ''bool'' \<in> set modifiers \<longrightarrow> json_num v = Some 0 \<or> json_num v = Some 1) \<and>
           (\<forall>lo. ps_minimum e = Some lo \<longrightarrow> (\<exists>x. json_num v = Some x \<and> lo \<le> x)) \<and>
           (\<forall>hi. ps_maximum e = Some hi \<longrightarrow> (\<exists>x. json_num v = Some x \<and> x \<le> hi))))"

lemma base_types_distinct:
  "lit ''string'' \<noteq> lit ''int''" "lit ''string'' \<noteq> lit ''semver''" "lit ''string'' \<noteq> lit ''real''"
  "lit ''int'' \<noteq> lit ''semver''" "lit ''int'' \<noteq> lit ''real''" "lit ''semver'' \<noteq> lit ''real''"
  by simp_all

lemma validate_scalar_iff: "validate_scalar t v b = Inr () \<longleftrightarrow> scalar_conforms b v"
  unfolding validate_scalar_def scalar_conforms_def isfinite_def
  using base_types_distinct by (auto split: json.splits pyfloat.splits simp del: lit_simps)

lemma validate_parts_iff: "validate_parts t b ps = Inr () \<longleftrightarrow> list_all (part_conforms b) ps"
proof (induction ps)
  case (Cons p ps)
  have "bindR (if b = lit ''int''
            then (case py_int p of None \<Rightarrow> Inl (DatastoreValidationError t) | Some i \<Rightarrow> Inr (JInt i))
            else Inr (JStr p)) (\<lambda>parsed. validate_scalar t parsed b) = Inr () \<longleftrightarrow> part_conforms b p"
    using base_types_distinct
    by (auto simp: result_simps validate_scalar_iff part_conforms_def scalar_conforms_def
        split: option.splits simp del: lit_simps)
  with Cons show ?case by (auto simp: result_simps simp del: lit_simps)
qed simp

lemma validate_string_parts_iff:
  "validate_string_parts t v b n m = Inr () \<longleftrightarrow>
     (\<exists>s. v = JStr s \<and> n \<le> length (parts_of s) \<and> (\<forall>k. m = Some k \<longrightarrow> length (parts_of s) \<le> k) \<and>
          list_all (part_conforms b) (parts_of s))"
  by (cases v; cases m) (auto simp: validate_string_parts_def parts_of_def Let_def validate_parts_iff)

lemma validate_range_iff:
  assumes "scalar_conforms b v"
  shows "validate_range t e v = Inr () \<longleftrightarrow>
     (\<forall>lo. ps_minimum e = Some lo \<longrightarrow> (\<exists>x. json_num v = Some x \<and> lo \<le> x)) \<and>
     (\<forall>hi. ps_maximum e = Some hi \<longrightarrow> (\<exists>x. json_num v = Some x \<and> x \<le> hi))"
  using assms
  by (cases "ps_minimum e"; cases "ps_maximum e")
     (auto simp: validate_range_def scalar_conforms_def json_num_def is_real_def json_less_def json_greater_def
       not_less simp del: lit_simps)

lemma validate_value_iff: "validate_value t e v = Inr () \<longleftrightarrow> value_conforms e v"
proof -
  obtain b m where s: "split_type (ps_value_type e) = (b, m)" by fastforce
  have e: "(\<exists>vs \<in> set_option (ps_enum_values e). \<not> list_ex (equals_enum v) vs) \<longleftrightarrow>
      \<not> (\<forall>vs. ps_enum_values e = Some vs \<longrightarrow> list_ex (equals_enum v) vs)"
    by (cases "ps_enum_values e") auto
  show ?thesis
    unfolding validate_value_def value_conforms_def s prod.case e
    by (auto simp: validate_string_parts_iff result_simps validate_scalar_iff validate_range_iff
        simp del: lit_simps)
qed

section \<open>What an accepted write is\<close>

definition item_accepted :: "(pystr \<Rightarrow> bool) \<Rightarrow> bool \<Rightarrow> pystr \<Rightarrow> pystr \<times> json \<Rightarrow> bool" where
  "item_accepted netloc_ok allow_unknown base item \<longleftrightarrow>
     (\<exists>target. write_target netloc_ok base (fst item) = Inr target \<and>
        ((\<exists>e. find_path_schema netloc_ok target = Inr (Some e) \<and> ps_permission e = lit ''rw'' \<and>
              value_conforms e (snd item)) \<or>
         (allow_unknown \<and> find_path_schema netloc_ok target = Inr None \<and>
          (\<exists>rel. relative_datastore_path netloc_ok target = Inr (Some rel)))))"

lemma validate_items_iff:
  "(\<exists>ws. validate_items netloc_ok allow_unknown base items = Inr ws) \<longleftrightarrow>
     list_all (item_accepted netloc_ok allow_unknown base) items"
proof (induction items)
  case (Cons item items)
  obtain k v where kv: "item = (k, v)" by fastforce
  show ?case
  proof (cases "write_target netloc_ok base k")
    case (Inl x)
    then show ?thesis by (simp add: kv item_accepted_def result_simps)
  next
    case (Inr target)
    show ?thesis
    proof (cases "find_path_schema netloc_ok target")
      case (Inl x)
      then show ?thesis using Inr by (simp add: kv item_accepted_def result_simps)
    next
      case found: (Inr entry)
      have vv: "validate_value target e v = Inr () \<longleftrightarrow> value_conforms e v" for e by (rule validate_value_iff)
      show ?thesis
      proof (cases entry)
        case None
        then show ?thesis using Inr found Cons.IH
          by (cases "relative_datastore_path netloc_ok target")
             (auto simp: kv item_accepted_def result_simps split: sum.splits)
      next
        case (Some e)
        then show ?thesis using Inr found Cons.IH vv[of e]
          by (cases "validate_value target e v") (auto simp: kv item_accepted_def result_simps simp del: lit_simps)
      qed
    qed
  qed
qed simp

text \<open>C28: Write validation accepts exactly the conforming writes: the path lies in the datastore, and every
  key of the body names a path whose best schema entry is writable and whose type, enumeration and range the
  value satisfies (or, when unknown paths are allowed, a datastore path without an entry).\<close>

theorem write_accepted_iff:
  "(\<exists>ws. validate_datastore_write_object netloc_ok allow_unknown path body = Inr ws) \<longleftrightarrow>
     (\<exists>p rel. normalize_path netloc_ok path = Inr p \<and> relative_datastore_path netloc_ok path = Inr (Some rel) \<and>
        list_all (item_accepted netloc_ok allow_unknown (py_rstrip_char 47 p)) body)"
  unfolding validate_datastore_write_object_def validate_items_iff[symmetric]
  by (cases "relative_datastore_path netloc_ok path"; cases "normalize_path netloc_ok path")
     (auto simp: result_simps)

section \<open>The table is well formed\<close>

definition supported_type :: "pystr \<Rightarrow> bool" where
  "supported_type t \<longleftrightarrow> fst (split_type t) \<in> {lit ''string'', lit ''semver'', lit ''int'', lit ''real''}"

definition numeric_type :: "pystr \<Rightarrow> bool" where
  "numeric_type t \<longleftrightarrow> fst (split_type t) \<in> {lit ''int'', lit ''real''}"

definition enum_type :: "pystr \<Rightarrow> bool" where
  "enum_type t \<longleftrightarrow> lit ''enum'' \<in> set (snd (split_type t))"

definition entry_wf :: "path_schema \<Rightarrow> bool" where
  "entry_wf e \<longleftrightarrow>
     supported_type (ps_value_type e) \<and>
     ((ps_minimum e \<noteq> None \<or> ps_maximum e \<noteq> None) \<longrightarrow> numeric_type (ps_value_type e)) \<and>
     (enum_type (ps_value_type e) \<longleftrightarrow> ps_enum_values e \<noteq> None) \<and>
     (\<forall>a b. ps_minimum e = Some a \<longrightarrow> ps_maximum e = Some b \<longrightarrow> a \<le> b) \<and>
     (ps_permission e = lit ''rw'' \<or> ps_permission e = lit ''r'')"

lemma supported_types:
  "supported_type (lit ''int'')"
  "supported_type (lit ''int_bool'')"
  "supported_type (lit ''int_bool_opt'')"
  "supported_type (lit ''int_list'')"
  "supported_type (lit ''int_opt'')"
  "supported_type (lit ''int_pair_opt'')"
  "supported_type (lit ''real'')"
  "supported_type (lit ''real_bool'')"
  "supported_type (lit ''real_enum'')"
  "supported_type (lit ''semver_opt'')"
  "supported_type (lit ''string'')"
  "supported_type (lit ''string_list'')"
  "supported_type (lit ''string_opt'')"
  "supported_type (lit ''string_pair'')"
  by (simp_all add: supported_type_def split_type_def Let_def)

lemma numeric_types:
  "numeric_type (lit ''int'')"
  "numeric_type (lit ''int_bool'')"
  "numeric_type (lit ''int_bool_opt'')"
  "numeric_type (lit ''int_list'')"
  "numeric_type (lit ''int_opt'')"
  "numeric_type (lit ''int_pair_opt'')"
  "numeric_type (lit ''real'')"
  "numeric_type (lit ''real_bool'')"
  "numeric_type (lit ''real_enum'')"
  by (simp_all add: numeric_type_def split_type_def Let_def)

lemma enum_types:
  "\<not> enum_type (lit ''int'')"
  "\<not> enum_type (lit ''int_bool'')"
  "\<not> enum_type (lit ''int_bool_opt'')"
  "\<not> enum_type (lit ''int_list'')"
  "\<not> enum_type (lit ''int_opt'')"
  "\<not> enum_type (lit ''int_pair_opt'')"
  "\<not> enum_type (lit ''real'')"
  "\<not> enum_type (lit ''real_bool'')"
  "enum_type (lit ''real_enum'')"
  "\<not> enum_type (lit ''semver_opt'')"
  "\<not> enum_type (lit ''string'')"
  "\<not> enum_type (lit ''string_list'')"
  "\<not> enum_type (lit ''string_opt'')"
  "\<not> enum_type (lit ''string_pair'')"
  by (simp_all add: enum_type_def split_type_def Let_def)

lemmas entry_eval = entry_wf_def make_entry_def parse_enum_def supported_types numeric_types enum_types

lemma raw_avb_wf: "list_all (\<lambda>r. entry_wf (make_entry r)) RAW_SCHEMA_avb"
  unfolding RAW_SCHEMA_avb_def by (simp add: entry_eval del: lit_simps)

lemma raw_ext_wf: "list_all (\<lambda>r. entry_wf (make_entry r)) RAW_SCHEMA_ext"
  unfolding RAW_SCHEMA_ext_def by (simp add: entry_eval del: lit_simps)

lemma raw_mix_chan_wf: "list_all (\<lambda>r. entry_wf (make_entry r)) RAW_SCHEMA_mix_chan"
  unfolding RAW_SCHEMA_mix_chan_def by (simp add: entry_eval del: lit_simps)

lemma raw_mix_main_wf: "list_all (\<lambda>r. entry_wf (make_entry r)) RAW_SCHEMA_mix_main"
  unfolding RAW_SCHEMA_mix_main_def by (simp add: entry_eval del: lit_simps)

lemma raw_mix_aux_wf: "list_all (\<lambda>r. entry_wf (make_entry r)) RAW_SCHEMA_mix_aux"
  unfolding RAW_SCHEMA_mix_aux_def by (simp add: entry_eval del: lit_simps)

lemma raw_mix_group_wf: "list_all (\<lambda>r. entry_wf (make_entry r)) RAW_SCHEMA_mix_group"
  unfolding RAW_SCHEMA_mix_group_def by (simp add: entry_eval del: lit_simps)

lemma raw_mix_reverb_wf: "list_all (\<lambda>r. entry_wf (make_entry r)) RAW_SCHEMA_mix_reverb"
  unfolding RAW_SCHEMA_mix_reverb_def by (simp add: entry_eval del: lit_simps)

lemma raw_mix_monitor_wf: "list_all (\<lambda>r. entry_wf (make_entry r)) RAW_SCHEMA_mix_monitor"
  unfolding RAW_SCHEMA_mix_monitor_def by (simp add: entry_eval del: lit_simps)

lemmas raw_tables_wf = raw_avb_wf raw_ext_wf raw_mix_chan_wf raw_mix_main_wf raw_mix_aux_wf raw_mix_group_wf raw_mix_reverb_wf raw_mix_monitor_wf

lemma schema_wf: "e \<in> set SCHEMA \<Longrightarrow> entry_wf e"
  using raw_tables_wf by (auto simp: SCHEMA_def RAW_SCHEMA_def list_all_iff)

lemma validate_scalar_raises:
  "validate_scalar t v b = Inl x \<Longrightarrow> x = DatastoreValidationError t \<or>
     x = OtherException \<and> b = lit ''real'' \<and> (\<exists>i. v = JInt i \<and> \<bar>i\<bar> \<ge> 2 ^ 1024 - 2 ^ 970)"
  by (auto simp: validate_scalar_def isfinite_def result_simps simp del: lit_simps
      split: if_splits json.splits pyfloat.splits)

lemma validate_parts_raises: "validate_parts t b ps = Inl x \<Longrightarrow> x = DatastoreValidationError t"
proof (induction ps)
  case (Cons p ps)
  then show ?case using base_types_distinct
    by (auto simp: result_simps validate_scalar_def simp del: lit_simps split: if_splits option.splits sum.splits)
qed simp

lemma validate_string_parts_raises: "validate_string_parts t v b n m = Inl x \<Longrightarrow> x = DatastoreValidationError t"
  by (auto simp: validate_string_parts_def Let_def split: json.splits if_splits dest: validate_parts_raises)

lemma validate_range_raises:
  assumes "scalar_conforms b v" "ps_minimum e \<noteq> None \<or> ps_maximum e \<noteq> None \<Longrightarrow> b \<in> {lit ''int'', lit ''real''}"
    "validate_range t e v = Inl x"
  shows "x = DatastoreValidationError t"
proof -
  have "is_real v" if "b \<in> {lit ''int'', lit ''real''}"
    using that assms(1) base_types_distinct by (auto simp: scalar_conforms_def is_real_def simp del: lit_simps)
  then show ?thesis using assms(2,3) by (auto simp: validate_range_def simp del: lit_simps split: if_splits)
qed

lemma validate_value_raises:
  assumes "entry_wf e" "validate_value path e v = Inl x"
  shows "x = DatastoreValidationError path \<or>
    x = OtherException \<and> fst (split_type (ps_value_type e)) = lit ''real'' \<and>
      (\<exists>i. v = JInt i \<and> \<bar>i\<bar> \<ge> 2 ^ 1024 - 2 ^ 970)"
proof -
  obtain b m where s: "split_type (ps_value_type e) = (b, m)" by fastforce
  have num: "ps_minimum e \<noteq> None \<or> ps_maximum e \<noteq> None \<Longrightarrow> b \<in> {lit ''int'', lit ''real''}"
    using assms(1) s by (simp add: entry_wf_def numeric_type_def del: lit_simps)
  show ?thesis
  proof (cases "validate_scalar path v b")
    case (Inl y)
    then show ?thesis using assms(2) validate_scalar_raises[OF Inl] s validate_string_parts_raises
      unfolding validate_value_def s prod.case by (auto simp: result_simps simp del: lit_simps split: if_splits)
  next
    case (Inr u)
    then have "scalar_conforms b v" using validate_scalar_iff by simp
    then show ?thesis using assms(2) Inr s validate_string_parts_raises validate_range_raises[OF _ num]
      unfolding validate_value_def s prod.case
      by (auto simp: result_simps simp del: lit_simps split: if_splits)
  qed
qed

text \<open>For every entry of the table and every value, validation either accepts or raises
  \<open>DatastoreValidationError\<close> for that path, with one exception: an integer too large for a double, given
  where a real is expected, raises \<open>OverflowError\<close>. In particular the assertion of the range check and the
  unsupported-type error are unreachable.\<close>

theorem validate_value_errors:
  assumes "e \<in> set SCHEMA" "validate_value path e v = Inl x"
  shows "x = DatastoreValidationError path \<or>
    x = OtherException \<and> fst (split_type (ps_value_type e)) = lit ''real'' \<and>
      (\<exists>i. v = JInt i \<and> \<bar>i\<bar> \<ge> 2 ^ 1024 - 2 ^ 970)"
  using validate_value_raises[OF schema_wf[OF assms(1)] assms(2)] .

lemma huge_int_overflows:
  assumes "split_type (ps_value_type e) = (lit ''real'', [])"
  shows "validate_value path e (JInt (2 ^ 1024)) = Inl OtherException"
proof -
  have "validate_scalar path (JInt (2 ^ 1024)) (lit ''real'') = Inl OtherException"
    using base_types_distinct by (simp add: validate_scalar_def isfinite_def result_simps del: lit_simps)
  then show ?thesis unfolding validate_value_def assms prod.case by (simp add: result_simps del: lit_simps)
qed

text \<open>
  The validation normalises, and so percent-decodes, a path that the caller has already normalised: the
  entry it checks can be the entry of another path than the one sent to the device.
\<close>

lemma validation_decodes_twice:
  "normalize_path (\<lambda>_. True) (lit ''/datastore/host/%256fs'') = Inr (lit ''/datastore/host/%6fs'')"
  "relative_datastore_path (\<lambda>_. True) (lit ''/datastore/host/%6fs'') = Inr (Some (lit ''host/os''))"
  by code_simp+

lemma reverb_fader_entry:
  "make_entry (lit ''mix/reverb/<index>/matrix/fader'', lit ''real'', lit ''rw'', Some 0, Some 4, None) \<in> set SCHEMA"
  by (simp add: SCHEMA_def RAW_SCHEMA_def RAW_SCHEMA_mix_reverb_def image_Un del: lit_simps)

theorem find_path_schema_best_witness:
  "\<exists>r. find_path_schema (\<lambda>_. True) (lit ''/datastore/host/os'') = Inr r \<and>
    (r = None \<longleftrightarrow> \<not> (\<exists>e\<in>set SCHEMA. list_all2 segment_matches (ps_segments e) (requested_segments (lit ''host/os'')))) \<and>
    (\<forall>e. r = Some e \<longrightarrow> e \<in> set SCHEMA \<and>
      (\<exists>s. match_score (ps_segments e) (requested_segments (lit ''host/os'')) = Some s \<and>
        (\<forall>e'\<in>set SCHEMA. \<forall>s'. match_score (ps_segments e') (requested_segments (lit ''host/os'')) = Some s' \<longrightarrow> s' \<le> s)))"
proof (rule find_path_schema_best)
  show "relative_datastore_path (\<lambda>_. True) (lit ''/datastore/host/os'') = Inr (Some (lit ''host/os''))"
    by code_simp
qed

theorem validate_value_errors_witness:
  "\<exists>e x. e \<in> set SCHEMA \<and> validate_value (lit ''/datastore/mix/reverb/0/matrix/fader'') e (JInt 5) = Inl x \<and>
    x = DatastoreValidationError (lit ''/datastore/mix/reverb/0/matrix/fader'')"
proof -
  let ?p = "lit ''/datastore/mix/reverb/0/matrix/fader''"
  let ?e = "make_entry (lit ''mix/reverb/<index>/matrix/fader'', lit ''real'', lit ''rw'', Some 0, Some 4, None)"
  have "\<not> value_conforms ?e (JInt 5)"
    by (simp add: value_conforms_def make_entry_def split_type_def scalar_conforms_def json_num_def)
  then have "validate_value ?p ?e (JInt 5) \<noteq> Inr ()" by (simp only: validate_value_iff simp_thms)
  then obtain x where x: "validate_value ?p ?e (JInt 5) = Inl x" by (cases "validate_value ?p ?e (JInt 5)") auto
  then have "x = DatastoreValidationError ?p"
    using validate_value_errors[OF reverb_fader_entry x] by (simp del: lit_simps)
  with x reverb_fader_entry show ?thesis by blast
qed

end
