(* ===== verification/Motu_Json.thy ===== *)
theory Motu_Json
  imports Motu_Schema "HOL-Library.Log_Nat" "HOL-Library.List_Lexorder"
begin

text \<open>
  JSON texts (\<^verbatim>\<open>motu_proxy/json_body.py\<close> and what it uses of the standard library's \<open>json\<close>): \<open>json.loads\<close>
  of a string with \<open>parse_constant\<close> rejecting every constant, \<open>json.dumps\<close> with its default separators, and
  \<open>load_json_object\<close>. Every syntax error is a \<open>ValueError\<close> (\<open>JSONDecodeError\<close> is one). The decoder
  recurses once per nested array or object; \<open>limit\<close> is the depth the interpreter allows, beyond which it
  raises \<open>RecursionError\<close>, which is not a \<open>ValueError\<close> and is one of the exceptions collected in
  \<open>OtherException\<close>.
\<close>

section \<open>Doubles\<close>

text \<open>\<open>float\<close> of a decimal text: the nearest double, ties to even, infinite beyond the largest one.\<close>

definition round_half_even :: "rat \<Rightarrow> int" where
  "round_half_even r =
     (let f = \<lfloor>r\<rfloor>; d = r - of_int f
      in if d < 1 / 2 then f else if 1 / 2 < d then f + 1 else if even f then f else f + 1)"

definition pow2 :: "int \<Rightarrow> rat" where
  "pow2 k = (if 0 \<le> k then 2 ^ nat k else 1 / 2 ^ nat (- k))"

text \<open>The \<open>k\<close> with \<open>2 ^ k \<le> r < 2 ^ (k + 1)\<close>, for a positive \<open>r\<close>.\<close>

definition binade :: "rat \<Rightarrow> int" where
  "binade r =
     (case quotient_of r of (n, d) \<Rightarrow> let k = bitlen n - bitlen d in if pow2 k \<le> r then k else k - 1)"

definition round_double :: "rat \<Rightarrow> pyfloat" where
  "round_double r =
     (if r = 0 then FFin 0
      else
        let q = max (binade \<bar>r\<bar> - 52) (- 1074); m = of_int (round_half_even (\<bar>r\<bar> / pow2 q)) * pow2 q
        in if 2 ^ 1024 \<le> m then (if 0 < r then FPosInf else FNegInf)
           else FFin (if 0 < r then m else - m))"

section \<open>The decoder\<close>

definition json_ws :: "nat \<Rightarrow> bool" where
  "json_ws c \<longleftrightarrow> c = 32 \<or> c = 9 \<or> c = 10 \<or> c = 13"

abbreviation skip_ws :: "pystr \<Rightarrow> pystr" where
  "skip_ws \<equiv> dropWhile json_ws"

definition hex4 :: "pystr \<Rightarrow> nat option" where
  "hex4 s =
     (case s of
        a # b # c # d # _ \<Rightarrow>
          (case (hex_digit a, hex_digit b, hex_digit c, hex_digit d) of
             (Some w, Some x, Some y, Some z) \<Rightarrow> Some (4096 * w + 256 * x + 16 * y + z)
           | _ \<Rightarrow> None)
      | _ \<Rightarrow> None)"

definition simple_escape :: "nat \<Rightarrow> nat option" where
  "simple_escape c =
     (if c = 34 \<or> c = 92 \<or> c = 47 then Some c
      else if c = 98 then Some 8 else if c = 102 then Some 12 else if c = 110 then Some 10
      else if c = 114 then Some 13 else if c = 116 then Some 9 else None)"

definition high_surrogate :: "nat \<Rightarrow> bool" where
  "high_surrogate c \<longleftrightarrow> 0xD800 \<le> c \<and> c < 0xDC00"

definition low_surrogate :: "nat \<Rightarrow> bool" where
  "low_surrogate c \<longleftrightarrow> 0xDC00 \<le> c \<and> c < 0xE000"

definition cons_fst :: "'a \<Rightarrow> ('a list \<times> 'b) result \<Rightarrow> ('a list \<times> 'b) result" where
  "cons_fst x m = bindR m (\<lambda>(xs, r). Inr (x # xs, r))"

text \<open>The text after the opening quote; the result is the string and the text after the closing quote.\<close>

function scan_string :: "pystr \<Rightarrow> (pystr \<times> pystr) result" where
  "scan_string s =
     (case s of
        [] \<Rightarrow> Inl ValueError
      | c # cs \<Rightarrow>
          if c = 34 then Inr ([], cs)
          else if c \<noteq> 92 then (if c < 32 then Inl ValueError else cons_fst c (scan_string cs))
          else
            (case cs of
               [] \<Rightarrow> Inl ValueError
             | e # r \<Rightarrow>
                 if e \<noteq> 117
                 then (case simple_escape e of None \<Rightarrow> Inl ValueError | Some x \<Rightarrow> cons_fst x (scan_string r))
                 else
                   (case hex4 r of
                      None \<Rightarrow> Inl ValueError
                    | Some u \<Rightarrow>
                        if high_surrogate u \<and> take 2 (drop 4 r) = [92, 117]
                        then (case hex4 (drop 6 r) of
                                None \<Rightarrow> Inl ValueError
                              | Some l \<Rightarrow>
                                  if low_surrogate l
                                  then cons_fst (0x10000 + (u - 0xD800) * 1024 + (l - 0xDC00)) (scan_string (drop 10 r))
                                  else cons_fst u (scan_string (drop 4 r)))
                        else cons_fst u (scan_string (drop 4 r)))))"
  by pat_completeness auto
termination
  by (relation "measure length") auto

declare scan_string.simps [simp del]

definition ascii_digit :: "nat \<Rightarrow> bool" where
  "ascii_digit c \<longleftrightarrow> 48 \<le> c \<and> c \<le> 57"

definition number_frac :: "pystr \<Rightarrow> pystr \<times> pystr" where
  "number_frac s =
     (case s of
        c # cs \<Rightarrow>
          if c = 46 \<and> takeWhile ascii_digit cs \<noteq> [] then (takeWhile ascii_digit cs, dropWhile ascii_digit cs)
          else ([], s)
      | [] \<Rightarrow> ([], s))"

definition number_exp :: "pystr \<Rightarrow> int option \<times> pystr" where
  "number_exp s =
     (case s of
        c # cs \<Rightarrow>
          if c = 101 \<or> c = 69 then
            (let neg = (cs \<noteq> [] \<and> hd cs = 45); r = (if cs \<noteq> [] \<and> (hd cs = 45 \<or> hd cs = 43) then tl cs else cs);
                 ds = takeWhile ascii_digit r; n = int (digits_val 0 ds)
             in if ds = [] then (None, s) else (Some (if neg then - n else n), dropWhile ascii_digit r))
          else (None, s)
      | [] \<Rightarrow> (None, s))"

definition pow10 :: "int \<Rightarrow> rat" where
  "pow10 k = (if 0 \<le> k then 10 ^ nat k else 1 / 10 ^ nat (- k))"

definition number_value :: "bool \<Rightarrow> pystr \<Rightarrow> pystr \<Rightarrow> int option \<Rightarrow> json result" where
  "number_value neg ip fdigits expo =
     (if fdigits = [] \<and> expo = None
      then if MAX_STR_DIGITS < length ip then Inl ValueError
           else Inr (JInt (if neg then - int (digits_val 0 ip) else int (digits_val 0 ip)))
      else
        let r = of_nat (digits_val 0 (ip @ fdigits)) * pow10 ((case expo of None \<Rightarrow> 0 | Some e \<Rightarrow> e) - int (length fdigits))
        in Inr (JFloat (round_double (if neg then - r else r))))"

definition number_tail :: "bool \<Rightarrow> pystr \<Rightarrow> pystr \<Rightarrow> (json \<times> pystr) result" where
  "number_tail neg ip s =
     (case number_frac s of (fdigits, r) \<Rightarrow>
        (case number_exp r of (expo, r') \<Rightarrow> bindR (number_value neg ip fdigits expo) (\<lambda>v. Inr (v, r'))))"

definition scan_unsigned :: "bool \<Rightarrow> pystr \<Rightarrow> (json \<times> pystr) result" where
  "scan_unsigned neg s =
     (if s = [] \<or> \<not> ascii_digit (hd s) then Inl ValueError
      else if hd s = 48 then number_tail neg [48] (tl s)
      else number_tail neg (takeWhile ascii_digit s) (dropWhile ascii_digit s))"

definition scan_number :: "pystr \<Rightarrow> (json \<times> pystr) result" where
  "scan_number s = (if s \<noteq> [] \<and> hd s = 45 then scan_unsigned True (tl s) else scan_unsigned False s)"

text \<open>A dictionary display: a repeated key keeps its place and takes the new value.\<close>

fun dict_set :: "pystr \<Rightarrow> json \<Rightarrow> (pystr \<times> json) list \<Rightarrow> (pystr \<times> json) list" where
  "dict_set k v [] = [(k, v)]"
| "dict_set k v ((k', v') # kvs) = (if k = k' then (k, v) # kvs else (k', v') # dict_set k v kvs)"

text \<open>
  The loop over the elements of an array or the members of an object, from the start of an element up to
  the closing bracket. \<open>p\<close> scans an element; the comparison of the lengths only bounds the recursion, a
  scanned element is never empty (\<open>scan_once_consumes\<close>, \<open>scan_member_consumes\<close>).
\<close>

function items_loop :: "(pystr \<Rightarrow> ('a \<times> pystr) result) \<Rightarrow> nat \<Rightarrow> pystr \<Rightarrow> ('a list \<times> pystr) result" where
  "items_loop p close s =
     bindR (p s) (\<lambda>(v, r).
       case skip_ws r of
         [] \<Rightarrow> Inl ValueError
       | c # cs \<Rightarrow>
           if c = close then Inr ([v], cs)
           else if c \<noteq> 44 then Inl ValueError
           else if length (skip_ws cs) < length s then cons_fst v (items_loop p close (skip_ws cs))
           else Inl ValueError)"
  by pat_completeness auto
termination
  by (relation "measure (\<lambda>(_, _, s). length s)") auto

declare items_loop.simps [simp del]

definition scan_member :: "(pystr \<Rightarrow> (json \<times> pystr) result) \<Rightarrow> pystr \<Rightarrow> ((pystr \<times> json) \<times> pystr) result" where
  "scan_member p s =
     (if s = [] \<or> hd s \<noteq> 34 then Inl ValueError
      else bindR (scan_string (tl s)) (\<lambda>(k, r).
        if skip_ws r = [] \<or> hd (skip_ws r) \<noteq> 58 then Inl ValueError
        else bindR (p (skip_ws (tl (skip_ws r)))) (\<lambda>(v, r). Inr ((k, v), r))))"

definition dict_of :: "(pystr \<times> json) list \<Rightarrow> (pystr \<times> json) list" where
  "dict_of kvs = fold (\<lambda>(k, v). dict_set k v) kvs []"

definition scan_items ::
    "(pystr \<Rightarrow> ('a \<times> pystr) result) \<Rightarrow> nat \<Rightarrow> ('a list \<Rightarrow> json) \<Rightarrow> pystr \<Rightarrow> (json \<times> pystr) result" where
  "scan_items p close mk s =
     (let r = skip_ws s
      in if r \<noteq> [] \<and> hd r = close then Inr (mk [], tl r)
         else bindR (items_loop p close r) (\<lambda>(xs, r). Inr (mk xs, r)))"

text \<open>\<open>scan_once\<close> with \<open>limit\<close> levels of nesting left.\<close>

definition scan_leaf :: "pystr \<Rightarrow> (json \<times> pystr) result" where
  "scan_leaf s =
     (if s \<noteq> [] \<and> hd s = 34 then bindR (scan_string (tl s)) (\<lambda>(t, r). Inr (JStr t, r))
      else if prefix (lit ''null'') s then Inr (JNull, drop 4 s)
      else if prefix (lit ''true'') s then Inr (JBool True, drop 4 s)
      else if prefix (lit ''false'') s then Inr (JBool False, drop 5 s)
      else scan_number s)"

fun scan_once :: "nat \<Rightarrow> pystr \<Rightarrow> (json \<times> pystr) result" where
  "scan_once 0 s = (if s \<noteq> [] \<and> (hd s = 123 \<or> hd s = 91) then Inl OtherException else scan_leaf s)"
| "scan_once (Suc n) s =
     (if s \<noteq> [] \<and> hd s = 123 then scan_items (scan_member (scan_once n)) 125 (\<lambda>kvs. JObj (dict_of kvs)) (tl s)
      else if s \<noteq> [] \<and> hd s = 91 then scan_items (scan_once n) 93 JList (tl s)
      else scan_leaf s)"

definition json_loads :: "nat \<Rightarrow> pystr \<Rightarrow> json result" where
  "json_loads limit s =
     (if s \<noteq> [] \<and> hd s = 0xFEFF then Inl ValueError
      else bindR (scan_once limit (skip_ws s)) (\<lambda>(v, r). if skip_ws r = [] then Inr v else Inl ValueError))"

definition load_json_object :: "nat \<Rightarrow> pystr \<Rightarrow> (pystr \<times> json) list result" where
  "load_json_object limit body =
     (case json_loads limit body of
        Inl e \<Rightarrow> if e = ValueError then Inl InvalidJsonBody else Inl e
      | Inr v \<Rightarrow> (case v of JObj kvs \<Rightarrow> Inr kvs | _ \<Rightarrow> Inl InvalidJsonBody))"

text \<open>\<open>validate_datastore_write\<close>: the message of the error for an invalid text names no path.\<close>

definition validate_datastore_write ::
    "(pystr \<Rightarrow> bool) \<Rightarrow> nat \<Rightarrow> bool \<Rightarrow> pystr \<Rightarrow> pystr \<Rightarrow> pystr list result" where
  "validate_datastore_write netloc_ok limit allow_unknown path json_body =
     (case load_json_object limit json_body of
        Inl e \<Rightarrow> if e = InvalidJsonBody then Inl (DatastoreValidationError []) else Inl e
      | Inr body \<Rightarrow> validate_datastore_write_object netloc_ok allow_unknown path body)"

section \<open>The encoder\<close>

definition u_escape :: "nat \<Rightarrow> pystr" where
  "u_escape c = [92, 117, hex_lower (c div 4096 mod 16), hex_lower (c div 256 mod 16), hex_lower (c div 16 mod 16), hex_lower (c mod 16)]"

definition escape_char :: "nat \<Rightarrow> pystr" where
  "escape_char c =
     (if c = 34 \<or> c = 92 then [92, c]
      else if c = 10 then [92, 110] else if c = 13 then [92, 114] else if c = 9 then [92, 116]
      else if c = 12 then [92, 102] else if c = 8 then [92, 98]
      else if 32 \<le> c \<and> c \<le> 126 then [c]
      else if c < 0x10000 then u_escape c
      else u_escape (0xD800 + (c - 0x10000) div 1024 mod 1024) @ u_escape (0xDC00 + (c - 0x10000) mod 1024))"

definition dump_string :: "pystr \<Rightarrow> pystr" where
  "dump_string s = [34] @ concat (map escape_char s) @ [34]"

fun join_with :: "'a list \<Rightarrow> 'a list list \<Rightarrow> 'a list" where
  "join_with sep [] = []"
| "join_with sep [x] = x"
| "join_with sep (x # y # ys) = x @ sep @ join_with sep (y # ys)"

text \<open>\<open>float_repr\<close> is \<open>float.__repr__\<close>.\<close>

primrec json_dumps :: "(pyfloat \<Rightarrow> pystr) \<Rightarrow> bool \<Rightarrow> json \<Rightarrow> pystr" where
  "json_dumps float_repr sort_keys JNull = lit ''null''"
| "json_dumps float_repr sort_keys (JBool b) = (if b then lit ''true'' else lit ''false'')"
| "json_dumps float_repr sort_keys (JInt i) = str_int i"
| "json_dumps float_repr sort_keys (JFloat f) = float_repr f"
| "json_dumps float_repr sort_keys (JStr s) = dump_string s"
| "json_dumps float_repr sort_keys (JList xs) =
     [91] @ join_with (lit '', '') (map (json_dumps float_repr sort_keys) xs) @ [93]"
| "json_dumps float_repr sort_keys (JObj kvs) =
     (let items = map (map_prod id (json_dumps float_repr sort_keys)) kvs;
          items = (if sort_keys then sort_key fst items else items)
      in [123] @ join_with (lit '', '') (map (\<lambda>(k, t). dump_string k @ lit '': '' @ t) items) @ [125])"

section \<open>What the decoder consumes and raises\<close>

definition strict_suffix_of :: "pystr \<Rightarrow> pystr \<Rightarrow> bool" where
  "strict_suffix_of r s \<longleftrightarrow> suffix r s \<and> length r < length s"

text \<open>A scanner that succeeds leaves a proper suffix of its input.\<close>

definition consumes :: "(pystr \<Rightarrow> ('a \<times> pystr) result) \<Rightarrow> bool" where
  "consumes p \<longleftrightarrow> (\<forall>s v r. p s = Inr (v, r) \<longrightarrow> strict_suffix_of r s)"

lemma consumesD: "consumes p \<Longrightarrow> p s = Inr (v, r) \<Longrightarrow> strict_suffix_of r s"
  by (simp add: consumes_def)

lemma strict_suffix_of_tl: "strict_suffix_of r (tl s) \<Longrightarrow> strict_suffix_of r s"
  by (cases s) (auto simp: strict_suffix_of_def suffix_Cons)

lemma strict_suffix_of_trans: "strict_suffix_of r s \<Longrightarrow> suffix s t \<Longrightarrow> strict_suffix_of r t"
  by (auto simp: strict_suffix_of_def dest: suffix_length_le suffix_order.trans)

lemma suffix_trans2: "suffix r s \<Longrightarrow> strict_suffix_of s t \<Longrightarrow> strict_suffix_of r t"
  by (auto simp: strict_suffix_of_def dest: suffix_length_le suffix_order.trans)

lemma suffix_skip_ws: "suffix (skip_ws s) s"
  by (rule suffix_dropWhile)

lemma skip_ws_Cons: "skip_ws r = c # cs \<Longrightarrow> strict_suffix_of cs r"
  using suffix_skip_ws[of r] by (metis length_Cons lessI strict_suffix_of_def strict_suffix_of_trans suffix_order.order_refl suffix_ConsI)

lemma cons_fst_Inr: "cons_fst x m = Inr (t, r) \<longleftrightarrow> (\<exists>t'. m = Inr (t', r) \<and> t = x # t')"
  by (auto simp: cons_fst_def result_simps)

lemma cons_fst_Inl [simp]: "cons_fst x m = Inl e \<longleftrightarrow> m = Inl e"
  by (auto simp: cons_fst_def result_simps)

lemma scan_string_consumes: "scan_string s = Inr (t, r) \<Longrightarrow> strict_suffix_of r s"
proof (induction "length s" arbitrary: s t rule: less_induct)
  case less
  have step: "strict_suffix_of r s" if "scan_string s' = Inr (t', r)" "suffix s' s" "length s' < length s" for s' t'
    using less.hyps[OF that(3,1)] that(2) by (rule strict_suffix_of_trans)
  have dr: "suffix (drop n r') (c # e # r')" for n c e and r' :: pystr
    by (meson suffix_ConsI suffix_drop)
  obtain c cs where s: "s = c # cs" using less.prems by (cases s) (auto simp: scan_string.simps)
  show ?case
  proof (cases "c = 92")
    case False
    then show ?thesis using less.prems step[of cs]
      by (auto simp: s scan_string.simps[of "c # cs"] cons_fst_Inr strict_suffix_of_def suffix_ConsI split: if_splits)
  next
    case True
    then obtain e q where q: "cs = e # q" using less.prems by (cases cs) (auto simp: s scan_string.simps)
    show ?thesis using less.prems step[of q] step[of "drop 4 q"] step[of "drop 10 q"] dr[of _ q]
      by (auto simp: s q True scan_string.simps[of "92 # e # q"] cons_fst_Inr suffix_ConsI suffix_drop
          split: if_splits option.splits)
  qed
qed

lemma scan_string_error: "scan_string s = Inl e \<Longrightarrow> e = ValueError"
proof (induction "length s" arbitrary: s rule: less_induct)
  case less
  let ?q = "tl (tl s)"
  show ?case
    using less.prems less.hyps[of "tl s"] less.hyps[of ?q] less.hyps[of "drop 4 ?q"] less.hyps[of "drop 10 ?q"]
    by (subst (asm) scan_string.simps) (auto split: if_splits list.splits option.splits)
qed

lemma suffix_number_frac: "suffix (snd (number_frac s)) s"
  by (auto simp: number_frac_def suffix_ConsI suffix_dropWhile split: list.splits)

lemma suffix_number_exp: "suffix (snd (number_exp s)) s"
proof (cases s)
  case (Cons c cs)
  have "suffix (dropWhile ascii_digit cs) cs" "suffix (dropWhile ascii_digit (tl cs)) cs"
    by (meson suffix_dropWhile suffix_tl suffix_order.trans)+
  then show ?thesis by (auto simp: Cons number_exp_def Let_def suffix_ConsI)
qed (simp add: number_exp_def)

lemma number_tail_consumes: "number_tail neg ip s = Inr (v, r) \<Longrightarrow> suffix r s"
  using suffix_number_frac[of s] suffix_number_exp[of "snd (number_frac s)"]
  by (auto simp: number_tail_def result_simps intro: suffix_order.trans split: prod.split_asm)

lemma number_tail_error: "number_tail neg ip s = Inl e \<Longrightarrow> e = ValueError"
  by (auto simp: number_tail_def number_value_def Let_def result_simps split: prod.split_asm if_splits)

lemma scan_unsigned_consumes: "scan_unsigned neg s = Inr (v, r) \<Longrightarrow> strict_suffix_of r s"
proof -
  assume a: "scan_unsigned neg s = Inr (v, r)"
  then obtain c cs where c: "s = c # cs" "ascii_digit c" by (cases s) (auto simp: scan_unsigned_def split: if_splits)
  have "suffix r cs \<or> suffix r (dropWhile ascii_digit cs)" using a c
    by (auto simp: scan_unsigned_def split: if_splits dest: number_tail_consumes)
  then have "suffix r cs" using suffix_dropWhile suffix_order.trans by blast
  then show ?thesis using c by (auto simp: strict_suffix_of_def suffix_ConsI dest: suffix_length_le)
qed

lemma scan_number_consumes: "scan_number s = Inr (v, r) \<Longrightarrow> strict_suffix_of r s"
  by (auto simp: scan_number_def split: if_splits dest: scan_unsigned_consumes intro: strict_suffix_of_tl)

lemma scan_number_error: "scan_number s = Inl e \<Longrightarrow> e = ValueError"
  by (auto simp: scan_number_def scan_unsigned_def split: if_splits dest: number_tail_error)

lemma scan_leaf_consumes: "scan_leaf s = Inr (v, r) \<Longrightarrow> strict_suffix_of r s"
proof -
  assume a: "scan_leaf s = Inr (v, r)"
  have dr: "strict_suffix_of (drop n s) s" if "prefix p s" "length p = n" "0 < n" for n and p :: pystr
    using that by (auto simp: prefix_def strict_suffix_of_def suffix_def)
  have "prefix (lit ''null'') s \<Longrightarrow> strict_suffix_of (drop 4 s) s" "prefix (lit ''true'') s \<Longrightarrow> strict_suffix_of (drop 4 s) s"
    "prefix (lit ''false'') s \<Longrightarrow> strict_suffix_of (drop 5 s) s" by (erule dr; simp)+
  then show ?thesis
    using a strict_suffix_of_tl[OF scan_string_consumes] scan_number_consumes
    by (auto simp: scan_leaf_def result_simps simp del: lit_simps split: if_splits)
qed

lemma scan_leaf_error: "scan_leaf s = Inl e \<Longrightarrow> e = ValueError"
  by (auto simp: scan_leaf_def result_simps simp del: lit_simps split: if_splits dest: scan_string_error scan_number_error)

text \<open>One round of a loop: where the element ended, and how the loop went on from there.\<close>

lemmas keep_skip_ws = dropWhile_eq_Cons_conv dropWhile_eq_Nil_conv

lemma items_loop_InrD:
  "items_loop p close s = Inr (vs, r) \<Longrightarrow>
   \<exists>x q c cs. p s = Inr (x, q) \<and> skip_ws q = c # cs \<and>
     (r = cs \<or> length (skip_ws cs) < length s \<and> (\<exists>ws. items_loop p close (skip_ws cs) = Inr (ws, r)))"
  by (subst (asm) items_loop.simps, cases "p s")
     (auto simp: cons_fst_Inr simp del: keep_skip_ws split: list.split_asm if_splits)

lemma items_loop_InlD:
  "items_loop p close s = Inl e \<Longrightarrow> e = ValueError \<or> p s = Inl e \<or>
   (\<exists>x q c cs. p s = Inr (x, q) \<and> skip_ws q = c # cs \<and>
     length (skip_ws cs) < length s \<and> items_loop p close (skip_ws cs) = Inl e)"
  by (subst (asm) items_loop.simps, cases "p s")
     (auto simp del: keep_skip_ws split: list.split_asm if_splits)

lemma after_item:
  assumes "strict_suffix_of q s" "skip_ws q = c # cs"
  shows "strict_suffix_of cs s" "suffix (skip_ws cs) s"
proof -
  show "strict_suffix_of cs s"
    using skip_ws_Cons[OF assms(2)] assms(1) by (meson strict_suffix_of_def suffix_trans2)
  then show "suffix (skip_ws cs) s" using suffix_skip_ws suffix_trans2 by (auto simp: strict_suffix_of_def)
qed

lemma items_loop_consumes:
  assumes p: "consumes p"
  shows "items_loop p close s = Inr (vs, r) \<Longrightarrow> strict_suffix_of r s"
proof (induction "length s" arbitrary: s vs rule: less_induct)
  case less
  from items_loop_InrD[OF less.prems] obtain x q c cs where q: "p s = Inr (x, q)" "skip_ws q = c # cs" and
    n: "r = cs \<or> length (skip_ws cs) < length s \<and> (\<exists>ws. items_loop p close (skip_ws cs) = Inr (ws, r))" by blast
  note a = after_item[OF consumesD[OF p q(1)] q(2)]
  from n show ?case using a less.hyps by (metis strict_suffix_of_trans)
qed

lemma items_loop_error:
  assumes p: "consumes p"
  shows "items_loop p close s = Inl e \<Longrightarrow> e = ValueError \<or> (\<exists>t. suffix t s \<and> p t = Inl e)"
proof (induction "length s" arbitrary: s rule: less_induct)
  case less
  from items_loop_InlD[OF less.prems] consider "e = ValueError" | "p s = Inl e" |
    x q c cs where "p s = Inr (x, q)" "skip_ws q = c # cs" "length (skip_ws cs) < length s" "items_loop p close (skip_ws cs) = Inl e"
    by blast
  then show ?case
  proof cases
    case 3
    from less.hyps[OF 3(3,4)] show ?thesis
      using after_item(2)[OF consumesD[OF p 3(1)] 3(2)] suffix_order.trans by blast
  qed auto
qed

lemma skip_ws_tl: "suffix (skip_ws (tl (skip_ws q))) q"
  by (meson suffix_skip_ws suffix_tl suffix_order.trans)

lemma scan_member_consumes:
  assumes p: "consumes p"
  shows "consumes (scan_member p)"
  unfolding consumes_def
proof (intro allI impI)
  fix s kv r assume "scan_member p s = Inr (kv, r)"
  then obtain k q v where q: "scan_string (tl s) = Inr (k, q)" "p (skip_ws (tl (skip_ws q))) = Inr (v, r)"
    by (auto simp: scan_member_def result_simps split: if_splits)
  have "strict_suffix_of r q" using strict_suffix_of_trans[OF consumesD[OF p q(2)] skip_ws_tl] .
  moreover have "strict_suffix_of q s" by (rule strict_suffix_of_tl[OF scan_string_consumes[OF q(1)]])
  ultimately show "strict_suffix_of r s" by (metis strict_suffix_of_def strict_suffix_of_trans)
qed

lemma scan_member_error:
  assumes p: "consumes p" and e: "scan_member p s = Inl e"
  shows "e = ValueError \<or> (\<exists>t. suffix t s \<and> p t = Inl e)"
proof (rule ccontr)
  assume a: "\<not> ?thesis"
  with e obtain k q where "scan_string (tl s) = Inr (k, q)" "p (skip_ws (tl (skip_ws q))) = Inl e"
    by (auto simp: scan_member_def result_simps split: if_splits dest: scan_string_error)
  moreover from strict_suffix_of_tl[OF scan_string_consumes[OF this(1)]]
  have "suffix (skip_ws (tl (skip_ws q))) s"
    using suffix_order.trans[OF skip_ws_tl] by (simp add: strict_suffix_of_def)
  ultimately show False using a by blast
qed

lemma scan_items_consumes:
  assumes p: "consumes p" and "scan_items p close mk (tl s) = Inr (v, r)" "s \<noteq> []"
  shows "strict_suffix_of r s"
proof -
  have t: "strict_suffix_of (skip_ws (tl s)) s" using assms(3) suffix_skip_ws[of "tl s"] suffix_length_le[OF suffix_skip_ws[of "tl s"]]
    by (cases s) (auto simp: strict_suffix_of_def suffix_ConsI)
  then have "r = tl (skip_ws (tl s)) \<or> (\<exists>xs. items_loop p close (skip_ws (tl s)) = Inr (xs, r))"
    using assms(2) by (auto simp: scan_items_def Let_def result_simps split: if_splits)
  then show ?thesis
  proof
    assume "r = tl (skip_ws (tl s))"
    then show ?thesis using suffix_trans2[OF suffix_tl t] by simp
  next
    assume "\<exists>xs. items_loop p close (skip_ws (tl s)) = Inr (xs, r)"
    then have "strict_suffix_of r (skip_ws (tl s))" using items_loop_consumes[OF p] by blast
    then show ?thesis using t by (auto simp: strict_suffix_of_def intro: suffix_order.trans)
  qed
qed

lemma scan_items_error:
  assumes p: "consumes p" and "scan_items p close mk s = Inl e"
  shows "e = ValueError \<or> (\<exists>t. suffix t s \<and> p t = Inl e)"
proof -
  have "items_loop p close (skip_ws s) = Inl e"
    using assms(2) by (auto simp: scan_items_def Let_def result_simps split: if_splits)
  from items_loop_error[OF p this] show ?thesis using suffix_order.trans[OF _ suffix_skip_ws[of s]] by blast
qed

lemma scan_once_consumes: "consumes (scan_once n)"
proof (induction n)
  case 0
  then show ?case by (auto simp: consumes_def split: if_splits dest: scan_leaf_consumes)
next
  case (Suc n)
  show ?case unfolding consumes_def
  proof (intro allI impI)
    fix s v r assume "scan_once (Suc n) s = Inr (v, r)"
    then consider "s \<noteq> []" "scan_items (scan_member (scan_once n)) 125 (\<lambda>kvs. JObj (dict_of kvs)) (tl s) = Inr (v, r)" |
        "s \<noteq> []" "scan_items (scan_once n) 93 JList (tl s) = Inr (v, r)" | "scan_leaf s = Inr (v, r)"
      by (auto split: if_splits)
    then show "strict_suffix_of r s"
    proof cases
      case 1
      from scan_items_consumes[OF scan_member_consumes[OF Suc.IH] 1(2,1)] show ?thesis .
    next
      case 2
      from scan_items_consumes[OF Suc.IH 2(2,1)] show ?thesis .
    qed (rule scan_leaf_consumes)
  qed
qed

definition brackets :: "pystr \<Rightarrow> nat" where
  "brackets s = length (filter (\<lambda>c. c = 123 \<or> c = 91) s)"

lemma brackets_suffix: "suffix t s \<Longrightarrow> brackets t \<le> brackets s"
  by (auto simp: suffix_def brackets_def)

lemma scan_once_error: "scan_once n s = Inl e \<Longrightarrow> e = ValueError \<or> e = OtherException \<and> n < brackets s"
proof (induction n arbitrary: s e)
  case 0
  then show ?case by (cases s) (auto simp: brackets_def split: if_splits dest: scan_leaf_error)
next
  case (Suc n)
  show ?case
  proof (cases "s \<noteq> [] \<and> (hd s = 123 \<or> hd s = 91)")
    case True
    then have b: "brackets s = Suc (brackets (tl s))" by (cases s) (auto simp: brackets_def)
    have "e = ValueError \<or> (\<exists>t. suffix t (tl s) \<and> scan_once n t = Inl e)"
    proof (cases "hd s = 123")
      case True
      then have "scan_items (scan_member (scan_once n)) 125 (\<lambda>kvs. JObj (dict_of kvs)) (tl s) = Inl e"
        using Suc.prems \<open>s \<noteq> [] \<and> _\<close> by simp
      from scan_items_error[OF scan_member_consumes[OF scan_once_consumes] this]
      show ?thesis
        using scan_member_error[OF scan_once_consumes, of n _ e] suffix_order.trans by blast
    next
      case False
      then have "scan_items (scan_once n) 93 JList (tl s) = Inl e" using Suc.prems \<open>s \<noteq> [] \<and> _\<close> by simp
      from scan_items_error[OF scan_once_consumes this] show ?thesis .
    qed
    then show ?thesis
    proof
      assume "\<exists>t. suffix t (tl s) \<and> scan_once n t = Inl e"
      then obtain t where t: "suffix t (tl s)" "scan_once n t = Inl e" by blast
      show ?thesis using Suc.IH[OF t(2)] brackets_suffix[OF t(1)] b by auto
    qed simp
  next
    case False
    then show ?thesis using Suc.prems by (auto split: if_splits dest: scan_leaf_error)
  qed
qed

text \<open>Decoding a request body terminates on every text and fails in two ways only: \<open>InvalidJsonBody\<close>, or
  the interpreter's \<open>RecursionError\<close>, which is not turned into a client error; the latter only for a text
  with more opening brackets than the recursion limit.\<close>

theorem load_json_object_errors:
  assumes "load_json_object limit s = Inl e"
  shows "e = InvalidJsonBody \<or> e = OtherException \<and> limit < brackets s"
proof (cases "json_loads limit s")
  case (Inl x)
  then have "x = ValueError \<or> x = OtherException \<and> limit < brackets (skip_ws s)"
    using scan_once_error[of limit "skip_ws s" x] by (auto simp: json_loads_def result_simps split: if_splits)
  then show ?thesis using Inl assms brackets_suffix[OF suffix_skip_ws[of s]]
    by (auto simp: load_json_object_def split: if_splits)
next
  case (Inr v)
  then show ?thesis using assms by (auto simp: load_json_object_def split: json.splits)
qed

theorem load_json_object_errors_witness:
  "load_json_object 3 (lit ''nul'') = Inl InvalidJsonBody \<and> \<not> 3 < brackets (lit ''nul'')"
proof -
  have e: "load_json_object (Suc (Suc (Suc 0))) (lit ''nul'') = Inl InvalidJsonBody"
    by (simp add: load_json_object_def json_loads_def json_ws_def scan_leaf_def scan_number_def scan_unsigned_def
        ascii_digit_def)
  have "load_json_object 3 (lit ''nul'') = Inl InvalidJsonBody" using e by (simp add: numeral_3_eq_3 del: lit_simps)
  with load_json_object_errors[OF this] show ?thesis by (simp add: brackets_def)
qed

text \<open>Whatever the limit, one more opening bracket escapes the check as another exception.\<close>

lemma deep_nesting_escapes: "load_json_object limit (replicate (Suc limit) 91) = Inl OtherException"
proof -
  have "scan_once limit (replicate (Suc limit) 91) = Inl OtherException"
  proof (induction limit)
    case (Suc n)
    let ?t = "replicate (Suc n) (91 :: nat)"
    have "items_loop (scan_once n) 93 ?t = Inl OtherException" using Suc by (subst items_loop.simps) simp
    then show ?case by (simp add: scan_items_def json_ws_def)
  qed simp
  then show ?thesis by (simp add: load_json_object_def json_loads_def json_ws_def)
qed

section \<open>Encoding, then decoding\<close>

text \<open>Unicode scalar values: what a string without lone surrogates holds.\<close>

definition scalar_char :: "nat \<Rightarrow> bool" where
  "scalar_char c \<longleftrightarrow> c < 0xD800 \<or> 0xE000 \<le> c \<and> c < 0x110000"

lemma hex_digit_lower: "d < 16 \<Longrightarrow> hex_digit (hex_lower d) = Some d"
  by (auto simp: hex_digit_def hex_lower_def)

lemma hex_digits_value:
  "4096 * (c div 4096) + 256 * (c div 256 mod 16) + 16 * (c div 16 mod 16) + c mod 16 = (c :: nat)"
proof -
  have e: "c div 256 = c div 16 div 16" "c div 4096 = c div 16 div 16 div 16"
    by (simp_all only: div_mult2_eq[symmetric] numeral_times_numeral semiring_norm)
  have horner: "4096 * y + 256 * p + 16 * q + w = v"
    if "16 * u + w = v" "16 * x + q = u" "16 * y + p = x" for y p q w v u x :: nat
    using that by linarith
  show ?thesis unfolding e by (rule horner) (rule mult_div_mod_eq)+
qed

lemma hex4_u_escape: "c < 0x10000 \<Longrightarrow> hex4 (drop 2 (u_escape c) @ r) = Some c"
  using hex_digits_value[of c] by (simp add: u_escape_def hex4_def hex_digit_lower)

lemma u_escape_length: "length (u_escape c) = 6" "take 2 (u_escape c) = [92, 117]"
  by (simp_all add: u_escape_def)

lemma scan_u_escape:
  assumes "c < 0x10000" "\<not> high_surrogate c"
  shows "scan_string (u_escape c @ r) = cons_fst c (scan_string r)"
proof -
  obtain h where h: "u_escape c = 92 # 117 # h" "length h = 4" by (simp add: u_escape_def)
  have "hex4 (h @ r) = Some c" using hex4_u_escape[OF assms(1), of r] h by simp
  then show ?thesis using assms(2) h by (simp add: scan_string.simps[of "92 # 117 # h @ r"])
qed

lemma scan_u_escape_pair:
  assumes "high_surrogate u" "low_surrogate l"
  shows "scan_string (u_escape u @ u_escape l @ r) =
    cons_fst (0x10000 + (u - 0xD800) * 1024 + (l - 0xDC00)) (scan_string r)"
proof -
  have lt: "u < 0x10000" "l < 0x10000" using assms by (auto simp: high_surrogate_def low_surrogate_def)
  obtain h where h: "u_escape u = 92 # 117 # h" "length h = 4" by (simp add: u_escape_def)
  obtain k where k: "u_escape l = 92 # 117 # k" "length k = 4" by (simp add: u_escape_def)
  have "hex4 (h @ u_escape l @ r) = Some u" "hex4 (k @ r) = Some l"
    using hex4_u_escape[OF lt(1), of "u_escape l @ r"] hex4_u_escape[OF lt(2), of r] h k by simp_all
  then show ?thesis using assms h k by (simp add: scan_string.simps[of "92 # 117 # h @ 92 # 117 # k @ r"])
qed

lemma scan_escape_char:
  assumes "scalar_char c"
  shows "scan_string (escape_char c @ r) = cons_fst c (scan_string r)"
proof (cases "c < 0x10000")
  case True
  then have "\<not> high_surrogate c" using assms by (auto simp: scalar_char_def high_surrogate_def)
  then show ?thesis using True scan_u_escape[of c r]
    by (simp add: escape_char_def simple_escape_def scan_string.simps[of "_ # _"])
next
  case False
  let ?d = "c - 0x10000"
  have d: "?d < 1024 * 1024" using False assms by (simp add: scalar_char_def)
  then have m: "?d div 1024 mod 1024 = ?d div 1024" by (simp add: less_mult_imp_div_less)
  have "?d div 1024 < 1024" "?d mod 1024 < 1024" using d by (simp_all add: less_mult_imp_div_less)
  then have "high_surrogate (0xD800 + ?d div 1024)" "low_surrogate (0xDC00 + ?d mod 1024)"
    by (simp_all add: high_surrogate_def low_surrogate_def)
  from scan_u_escape_pair[OF this, of r]
  have "scan_string (escape_char c @ r) = cons_fst (0x10000 + (?d div 1024 * 1024 + ?d mod 1024)) (scan_string r)"
    using False m by (simp add: escape_char_def add.assoc)
  then show ?thesis using False by simp
qed

lemma scan_dump_string:
  "list_all scalar_char s \<Longrightarrow> scan_string (concat (map escape_char s) @ 34 # r) = Inr (s, r)"
  by (induction s) (simp_all add: scan_escape_char scan_string.simps[of "34 # r"] cons_fst_def)

text \<open>What may follow a value: the end, a comma, a closing bracket, white space.\<close>

definition ends_value :: "pystr \<Rightarrow> bool" where
  "ends_value r \<longleftrightarrow> r = [] \<or> hd r = 44 \<or> hd r = 93 \<or> hd r = 125 \<or> json_ws (hd r)"

lemma digits_nat_head: "digits_nat n \<noteq> [48] \<Longrightarrow> hd (digits_nat n) \<noteq> 48"
proof (induction n rule: digits_nat.induct)
  case (1 n)
  show ?case
  proof (cases "n < 10")
    case True
    then show ?thesis using 1 by (simp add: digits_nat.simps[of n])
  next
    case False
    then have "n div 10 \<noteq> 0" by simp
    then have "digits_nat (n div 10) \<noteq> [48]"
      using digits_val_digits_nat[of "n div 10"] by force
    then show ?thesis using 1(1)[OF False] False
      by (simp add: digits_nat.simps[of n] hd_append)
  qed
qed

lemma scan_digits:
  assumes "ends_value r" "length (digits_nat n) \<le> MAX_STR_DIGITS"
  shows "scan_number (digits_nat n @ r) = Inr (JInt (int n), r)"
    "scan_number (45 # digits_nat n @ r) = Inr (JInt (- int n), r)"
proof -
  let ?ds = "digits_nat n"
  have dig: "\<forall>c\<in>set ?ds. ascii_digit c" using digits_nat_range by (auto simp: ascii_digit_def)
  have nd: "r = [] \<or> \<not> ascii_digit (hd r)" and fe: "number_frac r = ([], r)" "number_exp r = (None, r)"
    using assms(1) by (cases r; auto simp: ends_value_def json_ws_def ascii_digit_def number_frac_def number_exp_def)+
  have tw: "takeWhile ascii_digit (?ds @ r) = ?ds" "dropWhile ascii_digit (?ds @ r) = r"
    using dig nd by (cases r; simp add: takeWhile_append2 dropWhile_append2)+
  have d: "ascii_digit (hd ?ds)" using dig by simp
  have hd: "hd (?ds @ r) = hd ?ds" "ascii_digit (hd ?ds)" "hd ?ds \<noteq> 45" using d by (auto simp: ascii_digit_def)
  have val: "number_value b ?ds [] None = Inr (JInt (if b then - int n else int n))" for b
    using assms(2) by (simp add: number_value_def digits_val_digits_nat)
  have "scan_number (?ds @ r) = Inr (JInt (int n), r) \<and> scan_number (45 # ?ds @ r) = Inr (JInt (- int n), r)"
  proof (cases "?ds = [48]")
    case True
    then show ?thesis using fe val[of False] val[of True] by (simp add: scan_number_def scan_unsigned_def number_tail_def ascii_digit_def)
  next
    case False
    then have "hd ?ds \<noteq> 48" by (rule digits_nat_head)
    then show ?thesis using hd tw fe val[of False] val[of True] by (simp add: scan_number_def scan_unsigned_def number_tail_def)
  qed
  then show "scan_number (?ds @ r) = Inr (JInt (int n), r)" "scan_number (45 # ?ds @ r) = Inr (JInt (- int n), r)"
    by simp_all
qed

lemma scan_leaf_digits:
  assumes "ends_value r" "length (digits_nat (nat \<bar>i\<bar>)) \<le> MAX_STR_DIGITS"
  shows "scan_once n (str_int i @ r) = Inr (JInt i, r)"
proof -
  let ?s = "str_int i @ r"
  have "hd (str_int i) = 45 \<or> ascii_digit (hd (str_int i))"
    using digits_nat_range[of "hd (digits_nat (nat i))" "nat i"] by (auto simp: str_int_def ascii_digit_def)
  moreover have ne: "str_int i \<noteq> []" by (simp add: str_int_def)
  ultimately obtain c cs where c: "?s = c # cs" "c = 45 \<or> ascii_digit c"
    by (metis append_Cons hd_append2 list.collapse)
  have "scan_number ?s = Inr (JInt i, r)"
    using scan_digits[OF assms] assms(2) by (cases "i < 0") (auto simp: str_int_def)
  moreover have "scan_once n ?s = scan_number ?s"
    using c by (cases n) (auto simp: scan_leaf_def ascii_digit_def)
  ultimately show ?thesis by simp
qed

section \<open>Nested values\<close>

primrec json_depth :: "json \<Rightarrow> nat" where
  "json_depth JNull = 0"
| "json_depth (JBool _) = 0"
| "json_depth (JInt _) = 0"
| "json_depth (JFloat _) = 0"
| "json_depth (JStr _) = 0"
| "json_depth (JList xs) = Suc (foldr max (map json_depth xs) 0)"
| "json_depth (JObj kvs) = Suc (foldr max (map snd (map (map_prod id json_depth) kvs)) 0)"

text \<open>
  Values that survive the trip: no doubles, no lone surrogates, integers the interpreter converts, and the
  distinct keys every dictionary has.
\<close>

primrec json_plain :: "json \<Rightarrow> bool" where
  "json_plain JNull = True"
| "json_plain (JBool _) = True"
| "json_plain (JInt i) = (length (digits_nat (nat \<bar>i\<bar>)) \<le> MAX_STR_DIGITS)"
| "json_plain (JFloat _) = False"
| "json_plain (JStr s) = list_all scalar_char s"
| "json_plain (JList xs) = list_all id (map json_plain xs)"
| "json_plain (JObj kvs) =
     (distinct (map fst kvs) \<and> list_all (\<lambda>(k, ok). list_all scalar_char k \<and> ok) (map (map_prod id json_plain) kvs))"

text \<open>The value whose dictionaries have the order in which \<open>json.dumps\<close> writes them.\<close>

primrec json_written :: "bool \<Rightarrow> json \<Rightarrow> json" where
  "json_written sort_keys JNull = JNull"
| "json_written sort_keys (JBool b) = JBool b"
| "json_written sort_keys (JInt i) = JInt i"
| "json_written sort_keys (JFloat f) = JFloat f"
| "json_written sort_keys (JStr s) = JStr s"
| "json_written sort_keys (JList xs) = JList (map (json_written sort_keys) xs)"
| "json_written sort_keys (JObj kvs) =
     (let items = map (map_prod id (json_written sort_keys)) kvs
      in JObj (if sort_keys then sort_key fst items else items))"

lemma foldr_max_le: "foldr max xs 0 \<le> (n :: nat) \<longleftrightarrow> (\<forall>x\<in>set xs. x \<le> n)"
  by (induction xs) auto

lemma sort_key_fst_map:
  "sort_key fst (map (map_prod id f) xs) = map (map_prod id f) (sort_key fst xs)"
proof (induction xs)
  case (Cons x xs)
  have "insort_key fst (map_prod id f x) (map (map_prod id f) ys) = map (map_prod id f) (insort_key fst x ys)" for ys
    by (induction ys) auto
  then have "insort_key fst (map_prod id f x) (sort_key fst (map (map_prod id f) xs)) =
      map (map_prod id f) (insort_key fst x (sort_key fst xs))"
    unfolding Cons .
  then show ?case by (simp add: id_def)
qed simp

lemma join_with_hd: "xs \<noteq> [] \<Longrightarrow> \<exists>t. join_with sep xs = hd xs @ t"
  by (cases "(sep, xs)" rule: join_with.cases) auto

definition starts_value :: "pystr \<Rightarrow> bool" where
  "starts_value s \<longleftrightarrow> s \<noteq> [] \<and> \<not> json_ws (hd s) \<and> hd s \<noteq> 93 \<and> hd s \<noteq> 125"

lemma skip_ws_starts: "starts_value s \<Longrightarrow> skip_ws (s @ r) = s @ r"
  by (cases s) (auto simp: starts_value_def)

lemma ends_value_simps [simp]: "ends_value (93 # r)" "ends_value (125 # r)" "ends_value (44 # r)" "ends_value []"
  by (simp_all add: ends_value_def)

lemma str_int_head: "str_int i \<noteq> []" "hd (str_int i) = 45 \<or> ascii_digit (hd (str_int i))"
  using digits_nat_range[of "hd (digits_nat (nat i))" "nat i"] by (auto simp: str_int_def ascii_digit_def)

lemma dumps_ascii: "json_plain v \<Longrightarrow> hd (json_dumps fr sk v) \<noteq> 0xFEFF"
proof (cases v)
  case (JInt i)
  then show ?thesis using str_int_head(2)[of i] by (auto simp: ascii_digit_def)
qed (auto simp: dump_string_def Let_def)

lemma dumps_starts: "json_plain v \<Longrightarrow> starts_value (json_dumps fr sk v)"
proof (cases v)
  case (JInt i)
  then show ?thesis using str_int_head[of i] by (auto simp: starts_value_def json_ws_def ascii_digit_def)
qed (auto simp: starts_value_def json_ws_def dump_string_def Let_def)

lemma items_loop_dumps:
  assumes "\<And>v r. v \<in> set vs \<Longrightarrow> ends_value r \<Longrightarrow> p (f v @ r) = Inr (g v, r)"
    and "\<And>v. v \<in> set vs \<Longrightarrow> starts_value (f v)" and "vs \<noteq> []" and "close = 93 \<or> close = 125"
  shows "items_loop p close (join_with (lit '', '') (map f vs) @ close # r) = Inr (map g vs, r)"
  using assms
proof (induction vs)
  case (Cons v vs)
  have close: "ends_value (close # r)" "skip_ws (close # r) = close # r" "close \<noteq> 44"
    using Cons.prems(4) by (auto simp: json_ws_def)
  show ?case
  proof (cases vs)
    case Nil
    then show ?thesis using Cons.prems(1)[of v "close # r"] close by (simp add: items_loop.simps)
  next
    case (Cons w ws)
    let ?rest = "join_with (lit '', '') (map f vs) @ close # r"
    have st: "starts_value (f w)" using Cons.prems(2) Cons by simp
    then have "skip_ws ?rest = ?rest"
      using skip_ws_starts[of "f w"] Cons by (cases ws) simp_all
    moreover have "p (f v @ 44 # 32 # ?rest) = Inr (g v, 44 # 32 # ?rest)" using Cons.prems(1) by simp
    moreover have "items_loop p close ?rest = Inr (map g vs, r)"
      by (rule Cons.IH) (use Cons.prems Cons in auto)
    ultimately show ?thesis using Cons close
      by (subst items_loop.simps) (simp add: json_ws_def cons_fst_def)
  qed
qed simp

lemma scan_items_dumps:
  assumes "\<And>v r. v \<in> set vs \<Longrightarrow> ends_value r \<Longrightarrow> p (f v @ r) = Inr (g v, r)"
    and "\<And>v. v \<in> set vs \<Longrightarrow> starts_value (f v)" and "close = 93 \<or> close = 125"
  shows "scan_items p close mk (join_with (lit '', '') (map f vs) @ close # r) = Inr (mk (map g vs), r)"
proof (cases "vs = []")
  case True
  then show ?thesis using assms(3) by (auto simp: scan_items_def json_ws_def)
next
  case False
  let ?t = "join_with (lit '', '') (map f vs) @ close # r"
  obtain t where "?t = f (hd vs) @ t" using join_with_hd[of "map f vs" "lit '', ''"] False by (auto simp: hd_map)
  moreover have "starts_value (f (hd vs))" using assms(2) False by simp
  ultimately have "skip_ws ?t = ?t" "hd ?t \<noteq> close"
    using assms(3) by (auto simp: skip_ws_starts starts_value_def)
  then show ?thesis using items_loop_dumps[where r = r, OF assms(1,2) False assms(3)] by (simp add: scan_items_def)
qed

lemma dict_set_new: "k \<notin> fst ` set kvs \<Longrightarrow> dict_set k v kvs = kvs @ [(k, v)]"
  by (induction kvs) auto

lemma dict_of_distinct: "distinct (map fst kvs) \<Longrightarrow> dict_of kvs = kvs"
proof -
  have "distinct (map fst acc @ map fst kvs) \<Longrightarrow> fold (\<lambda>(k, v). dict_set k v) kvs acc = acc @ kvs" for acc
  proof (induction kvs arbitrary: acc)
    case (Cons kv kvs)
    then have "dict_set (fst kv) (snd kv) acc = acc @ [kv]" by (subst dict_set_new) auto
    then show ?case using Cons.IH[of "acc @ [kv]"] Cons.prems by (auto simp: case_prod_unfold)
  qed simp
  from this[of "[]"] show "distinct (map fst kvs) \<Longrightarrow> dict_of kvs = kvs" by (simp add: dict_of_def)
qed

lemma scan_member_dumps:
  assumes "list_all scalar_char k" "starts_value t" "p (t @ r) = Inr (v, r)"
  shows "scan_member p ((dump_string k @ lit '': '' @ t) @ r) = Inr ((k, v), r)"
  using assms skip_ws_starts[OF assms(2), of r]
  by (simp add: scan_member_def dump_string_def scan_dump_string json_ws_def)

lemma scan_once_dumps:
  "json_plain v \<Longrightarrow> json_depth v \<le> n \<Longrightarrow> ends_value r \<Longrightarrow>
   scan_once n (json_dumps fr sk v @ r) = Inr (json_written sk v, r)"
proof (induction v arbitrary: n r)
  case JNull
  then show ?case by (cases n) (simp_all add: scan_leaf_def)
next
  case (JBool b)
  then show ?case by (cases n; cases b) (simp_all add: scan_leaf_def)
next
  case (JInt i)
  then show ?case using scan_leaf_digits by simp
next
  case (JFloat f)
  then show ?case by simp
next
  case (JStr s)
  then show ?case by (cases n) (simp_all add: scan_leaf_def dump_string_def scan_dump_string)
next
  case (JList xs)
  then obtain m where m: "n = Suc m" by (cases n) auto
  have el: "json_plain x" "json_depth x \<le> m" if "x \<in> set xs" for x
    using JList.prems(1,2) that by (auto simp: m foldr_max_le list_all_iff)
  have "scan_items (scan_once m) 93 JList (join_with (lit '', '') (map (json_dumps fr sk) xs) @ 93 # r) =
      Inr (JList (map (json_written sk) xs), r)"
    by (rule scan_items_dumps) (use JList.IH el dumps_starts in auto)
  then show ?case by (simp add: m)
next
  case (JObj kvs)
  then obtain m where m: "n = Suc m" by (cases n) auto
  let ?kvs = "if sk then sort_key fst kvs else kvs"
  have set: "set ?kvs = set kvs" by simp
  have el: "json_plain x" "json_depth x \<le> m" "list_all scalar_char k" if "(k, x) \<in> set ?kvs" for k x
    using JObj.prems(1,2) that unfolding set by (auto simp: m foldr_max_le list_all_iff)
  let ?text = "\<lambda>(k, v). dump_string k @ lit '': '' @ json_dumps fr sk v"
  let ?val = "map_prod id (json_written sk)"
  have dump: "json_dumps fr sk (JObj kvs) @ r = 123 # join_with (lit '', '') (map ?text ?kvs) @ 125 # r"
    by (simp add: Let_def sort_key_fst_map comp_def case_prod_unfold)
  have written: "json_written sk (JObj kvs) = JObj (map ?val ?kvs)"
    by (simp add: Let_def sort_key_fst_map)
  have "distinct (map fst ?kvs)" using JObj.prems(1) by (simp add: distinct_map)
  then have dict: "dict_of (map ?val ?kvs) = map ?val ?kvs" by (intro dict_of_distinct) (simp add: comp_def)
  have "scan_items (scan_member (scan_once m)) 125 (\<lambda>kvs. JObj (dict_of kvs))
      (join_with (lit '', '') (map ?text ?kvs) @ 125 # r) = Inr (JObj (dict_of (map ?val ?kvs)), r)"
  proof (rule scan_items_dumps)
    fix kv t assume kv: "kv \<in> set ?kvs" "ends_value t"
    obtain k v where p: "kv = (k, v)" by fastforce
    have "scan_once m (json_dumps fr sk v @ t) = Inr (json_written sk v, t)"
      using JObj.IH[of kv v m t] kv el[of k v] unfolding set p by simp
    then show "scan_member (scan_once m) (?text kv @ t) = Inr (?val kv, t)"
      using scan_member_dumps el[of k v] kv p dumps_starts by (simp del: lit_simps)
  qed (auto simp: starts_value_def dump_string_def json_ws_def)
  then show ?case unfolding dump written dict by (simp add: m del: lit_simps)
qed

lemma json_loads_dumps:
  assumes "json_plain v" "json_depth v \<le> limit"
  shows "json_loads limit (json_dumps float_repr sort_keys v) = Inr (json_written sort_keys v)"
proof -
  let ?t = "json_dumps float_repr sort_keys v"
  have "starts_value ?t" by (rule dumps_starts[OF assms(1)])
  moreover from scan_once_dumps[OF assms, of "[]"]
  have "scan_once limit ?t = Inr (json_written sort_keys v, [])" by simp
  moreover have "hd ?t \<noteq> 0xFEFF" by (rule dumps_ascii[OF assms(1)])
  ultimately show ?thesis using skip_ws_starts[of ?t "[]"] by (simp add: json_loads_def)
qed

text \<open>Texts written by \<open>json.dumps\<close> are read back by \<open>json.loads\<close>: any value without doubles or lone
  surrogates, nested no deeper than the interpreter allows, is decoded to itself with its dictionaries in
  the order they were written.\<close>

theorem json_roundtrip:
  assumes "json_plain v" "json_depth v \<le> limit"
  shows "json_loads limit (json_dumps float_repr sort_keys v) = Inr (json_written sort_keys v)"
  using assms by (rule json_loads_dumps)

theorem json_roundtrip_witness:
  "json_loads 2 (json_dumps (\<lambda>_. []) True (JObj [(lit ''b'', JList [JInt (- 7), JNull]), (lit ''a'', JStr [10, 233])])) =
   Inr (JObj [(lit ''a'', JStr [10, 233]), (lit ''b'', JList [JInt (- 7), JNull])])"
proof -
  let ?v = "JObj [(lit ''b'', JList [JInt (- 7), JNull]), (lit ''a'', JStr [10, 233])]"
  have "json_plain ?v" "json_depth ?v \<le> 2" "json_written True ?v = JObj [(lit ''a'', JStr [10, 233]), (lit ''b'', JList [JInt (- 7), JNull])]"
    by (simp_all add: scalar_char_def digits_nat.simps MAX_STR_DIGITS_def)
  then show ?thesis using json_roundtrip[of ?v 2 "\<lambda>_. []" True] by simp
qed

end
