(* ===== verification/Motu_Access.thy ===== *)
theory Motu_Access
  imports Motu_Json Motu_Protocol
begin

text \<open>
  Who may write (\<^verbatim>\<open>motu_proxy/http_server.py\<close>, the functions before \<open>dispatch_datastore_request\<close>): the client
  number of a query, the form body, and the checks of the \<open>Host\<close> header, the \<open>Origin\<close> header and the write
  token, with what they use of \<open>urllib.parse\<close> and \<open>ipaddress\<close>. Four things depend on the interpreter and
  are collected in \<open>py_env\<close>: the authorities \<open>urlsplit\<close> accepts, the nesting \<open>json\<close> allows, and whether an
  IPv4-mapped IPv6 address counts as a loopback address, and the text of a double.
\<close>

record py_env =
  env_netloc_ok :: "pystr \<Rightarrow> bool"
  env_json_limit :: nat
  env_mapped_loopback :: bool
  env_float_repr :: "pyfloat \<Rightarrow> pystr"

definition DEFAULT_MAX_WRITE_BODY_BYTES :: int where "DEFAULT_MAX_WRITE_BODY_BYTES = 60 * 1024"
definition MAX_CLIENT_ID :: int where "MAX_CLIENT_ID = 0xFFFFFFFF"
definition WRITE_TOKEN_HEADER :: pystr where "WRITE_TOKEN_HEADER = lit ''X-Motu-Proxy-Token''"
definition STATUS_PATH :: pystr where "STATUS_PATH = lit ''/__motu_proxy/status''"

definition MAX_CONFIGURABLE_WRITE_BODY_BYTES :: "int result" where
  "MAX_CONFIGURABLE_WRITE_BODY_BYTES = max_post_json_body_bytes DATASTORE (lit ''NREK'') None"

section \<open>Query strings\<close>

text \<open>\<open>unquote(s, errors="strict")\<close>\<close>

function unquote_strict_runs :: "pystr \<Rightarrow> pystr result" where
  "unquote_strict_runs s =
     (case s of
        [] \<Rightarrow> Inr []
      | c # cs \<Rightarrow>
          if c < 128
          then bindR (utf8_decode (unquote_to_bytes (takeWhile (\<lambda>x. x < 128) s))) (\<lambda>a.
               bindR (unquote_strict_runs (dropWhile (\<lambda>x. x < 128) s)) (\<lambda>b. Inr (a @ b)))
          else bindR (unquote_strict_runs cs) (\<lambda>b. Inr (c # b)))"
  by pat_completeness auto
termination
  by (relation "measure length") (auto simp: le_imp_less_Suc length_dropWhile_le)

declare unquote_strict_runs.simps [simp del]

definition unquote_strict :: "pystr \<Rightarrow> pystr result" where
  "unquote_strict s = (if 37 \<in> set s then unquote_strict_runs s else Inr s)"

text \<open>\<open>parse_qsl(qs, keep_blank_values=True)\<close> with the decoding of names and values as an argument.\<close>

definition plus_to_space :: "pystr \<Rightarrow> pystr" where
  "plus_to_space s = map (\<lambda>c. if c = 43 then 32 else c) s"

definition parse_qsl :: "(pystr \<Rightarrow> pystr result) \<Rightarrow> pystr \<Rightarrow> (pystr \<times> pystr) list result" where
  "parse_qsl decode qs =
     mapR (\<lambda>name_value.
         case partition_at 61 name_value of (n, _, v) \<Rightarrow>
           bindR (decode (plus_to_space n)) (\<lambda>name.
           bindR (decode (plus_to_space v)) (\<lambda>value. Inr (name, value))))
       (filter (\<lambda>p. p \<noteq> []) (split_on 38 qs))"

text \<open>\<open>parse_qs(...).get(key)\<close>: the values of a key, none when it is absent.\<close>

definition qs_values :: "pystr \<Rightarrow> (pystr \<times> pystr) list \<Rightarrow> pystr list" where
  "qs_values key pairs = map snd (filter (\<lambda>p. fst p = key) pairs)"

definition parse_write_body :: "pystr \<Rightarrow> pystr \<Rightarrow> pystr result" where
  "parse_write_body raw content_type =
     (if find_sub (lit ''application/x-www-form-urlencoded'') content_type \<noteq> None \<or> prefix (lit ''json='') raw
      then (case parse_qsl unquote_strict raw of
              Inl e \<Rightarrow> if e = UnicodeDecodeError then Inl BadRequest else Inl e
            | Inr pairs \<Rightarrow> (case qs_values (lit ''json'') pairs of [] \<Rightarrow> Inr raw | v # _ \<Rightarrow> Inr v))
      else Inr raw)"

definition validate_client_query_value :: "pystr \<Rightarrow> pystr result" where
  "validate_client_query_value v =
     (let v = py_strip v in
      if \<not> py_isdecimal v then Inl BadRequest
      else case py_int v of
             None \<Rightarrow> Inl ValueError
           | Some client \<Rightarrow> if MAX_CLIENT_ID < client then Inl BadRequest else Inr (str_int client))"

definition parse_client_query :: "py_env \<Rightarrow> pystr \<Rightarrow> pystr option result" where
  "parse_client_query env request_path =
     bindR (urlparse (env_netloc_ok env) True request_path) (\<lambda>u.
     bindR (parse_qsl (\<lambda>s. Inr (unquote s)) (url_query u)) (\<lambda>pairs.
     case qs_values (lit ''client'') pairs of
       [] \<Rightarrow> Inr None
     | v # _ \<Rightarrow> bindR (validate_client_query_value v) (\<lambda>c. Inr (Some c))))"

fun collect_query_fields ::
    "(pystr \<times> pystr) list \<Rightarrow> pystr option \<Rightarrow> (pystr \<times> pystr) list \<Rightarrow> ((pystr \<times> pystr) list \<times> pystr option) result" where
  "collect_query_fields [] client fs = Inr (fs, client)"
| "collect_query_fields ((name, v) # pairs) client fs =
     (if name = [] then Inl BadRequest
      else if name = lit ''client''
      then bindR (validate_client_query_value v) (\<lambda>v.
             if client \<noteq> None then Inl BadRequest
             else collect_query_fields pairs (Some v) (fs @ [(name, v)]))
      else collect_query_fields pairs client (fs @ [(name, v)]))"

definition parse_get_query_fields :: "py_env \<Rightarrow> pystr \<Rightarrow> ((pystr \<times> pystr) list \<times> pystr option) result" where
  "parse_get_query_fields env request_path =
     bindR (urlparse (env_netloc_ok env) True request_path) (\<lambda>u.
     case parse_qsl unquote_strict (url_query u) of
       Inl e \<Rightarrow> if e = UnicodeDecodeError then Inl BadRequest else Inl e
     | Inr pairs \<Rightarrow> collect_query_fields pairs None [])"

section \<open>Addresses\<close>

text \<open>\<open>IPv4Address\<close> and \<open>IPv6Address\<close> of a text as numbers, \<open>None\<close> for \<open>AddressValueError\<close>.\<close>

definition parse_octet :: "pystr \<Rightarrow> nat option" where
  "parse_octet s =
     (if s = [] \<or> \<not> list_all ascii_digit s \<or> 3 < length s \<or> (s \<noteq> [48] \<and> hd s = 48) \<or> 255 < digits_val 0 s
      then None else Some (digits_val 0 s))"

definition parse_ipv4 :: "pystr \<Rightarrow> nat option" where
  "parse_ipv4 s =
     (if 47 \<in> set s then None
      else case map parse_octet (split_on 46 s) of
             [Some a, Some b, Some c, Some d] \<Rightarrow> Some (((a * 256 + b) * 256 + c) * 256 + d)
           | _ \<Rightarrow> None)"

definition parse_hextet :: "pystr \<Rightarrow> nat option" where
  "parse_hextet s =
     (if 4 < length s then None
      else fold (\<lambda>c acc. case (acc, hex_digit c) of (Some a, Some d) \<Rightarrow> Some (16 * a + d) | _ \<Rightarrow> None) s (Some 0))"

fun hextets :: "pystr list \<Rightarrow> nat list option" where
  "hextets [] = Some []"
| "hextets (p # ps) =
     (case (if p = [] then None else parse_hextet p, hextets ps) of (Some a, Some b) \<Rightarrow> Some (a # b) | _ \<Rightarrow> None)"

text \<open>The groups of an IPv6 text: a trailing dotted quad is two of them; one \<open>::\<close> stands for the zeros left out.\<close>

definition ipv6_groups :: "pystr list \<Rightarrow> nat list option" where
  "ipv6_groups parts =
     (let inner = (if 2 \<le> length parts then filter (\<lambda>i. parts ! i = []) [1 ..< length parts - 1] else [])
      in case inner of
           [] \<Rightarrow> if length parts = 8 then hextets parts else None
         | [skip] \<Rightarrow>
             (let hi = (if hd parts = [] then [] else take skip parts);
                  lo = (if last parts = [] then [] else drop (skip + 1) parts)
              in if (hd parts = [] \<and> skip \<noteq> 1) \<or> (last parts = [] \<and> skip + 2 \<noteq> length parts) \<or> 8 < length hi + length lo + 1
                 then None
                 else case (hextets hi, hextets lo) of
                        (Some a, Some b) \<Rightarrow> Some (a @ replicate (8 - (length hi + length lo)) 0 @ b)
                      | _ \<Rightarrow> None)
         | _ \<Rightarrow> None)"

fun hex_text :: "nat \<Rightarrow> pystr" where
  "hex_text n = (if n < 16 then [hex_lower n] else hex_text (n div 16) @ [hex_lower (n mod 16)])"

declare hex_text.simps [simp del]

definition expand_quad :: "pystr list \<Rightarrow> pystr list option" where
  "expand_quad parts =
     (if 46 \<in> set (last parts)
      then map_option (\<lambda>v. butlast parts @ [hex_text (v div 65536), hex_text (v mod 65536)]) (parse_ipv4 (last parts))
      else Some parts)"

definition parse_ipv6 :: "pystr \<Rightarrow> nat option" where
  "parse_ipv6 s =
     (case partition_at 37 s of
        (addr, scoped, scope) \<Rightarrow>
          if 47 \<in> set s \<or> (scoped \<and> (scope = [] \<or> 37 \<in> set scope)) \<or> length (split_on 58 addr) < 3 then None
          else
            (case expand_quad (split_on 58 addr) of
               None \<Rightarrow> None
             | Some parts \<Rightarrow>
                 if 9 < length parts then None
                 else map_option (\<lambda>gs. fold (\<lambda>g acc. acc * 65536 + g) gs 0) (ipv6_groups parts)))"

text \<open>\<open>ip_address(name).is_loopback\<close>; the network 127.0.0.0/8, and \<open>::1\<close>.\<close>

definition ipv4_loopback :: "nat \<Rightarrow> bool" where
  "ipv4_loopback v \<longleftrightarrow> v div 16777216 = 127"

definition ip_is_loopback :: "py_env \<Rightarrow> pystr \<Rightarrow> bool option" where
  "ip_is_loopback env name =
     (case parse_ipv4 name of
        Some v \<Rightarrow> Some (ipv4_loopback v)
      | None \<Rightarrow>
          (case parse_ipv6 name of
             Some v \<Rightarrow>
               Some (if env_mapped_loopback env \<and> v div 4294967296 = 0xFFFF then ipv4_loopback (v mod 4294967296)
                     else v = 1)
           | None \<Rightarrow> None))"

section \<open>The checks of a write\<close>

text \<open>\<open>SplitResult.hostname\<close>\<close>

definition rpartition_after :: "nat \<Rightarrow> pystr \<Rightarrow> pystr" where
  "rpartition_after c s = rev (takeWhile (\<lambda>x. x \<noteq> c) (rev s))"

definition url_hostname :: "pystr \<Rightarrow> pystr option" where
  "url_hostname netloc =
     (let hostinfo = rpartition_after 64 netloc;
          hostname =
            (case partition_at 91 hostinfo of
               (_, True, bracketed) \<Rightarrow> fst (partition_at 93 bracketed)
             | _ \<Rightarrow> fst (partition_at 58 hostinfo))
      in if hostname = [] then None
         else case partition_at 37 hostname of
                (h, percent, zone) \<Rightarrow> Some (py_lower h @ (if percent then [37] else []) @ zone))"

definition host_name :: "py_env \<Rightarrow> pystr option \<Rightarrow> pystr result" where
  "host_name env host =
     (case host of
        None \<Rightarrow> Inr []
      | Some h \<Rightarrow>
          if h = [] then Inr []
          else bindR (urlparse (env_netloc_ok env) False (lit ''//'' @ h)) (\<lambda>u.
                 Inr (py_lower (case url_hostname (url_netloc u) of None \<Rightarrow> [] | Some n \<Rightarrow> n))))"

definition is_loopback_host :: "py_env \<Rightarrow> pystr option \<Rightarrow> bool result" where
  "is_loopback_host env host =
     bindR (host_name env host) (\<lambda>name.
       if name = lit ''localhost'' then Inr True
       else Inr (ip_is_loopback env name = Some True))"

definition origin_matches_host :: "py_env \<Rightarrow> pystr \<Rightarrow> pystr \<Rightarrow> bool result" where
  "origin_matches_host env origin host =
     bindR (urlparse (env_netloc_ok env) True origin) (\<lambda>u.
       Inr (url_scheme u = lit ''http'' \<and> url_netloc u \<noteq> [] \<and> py_lower (url_netloc u) = py_lower host))"

definition GET :: pystr where "GET = lit ''GET''"

definition validate_write_host :: "py_env \<Rightarrow> pystr \<Rightarrow> bool \<Rightarrow> pystr option \<Rightarrow> bool \<Rightarrow> unit result" where
  "validate_write_host env method allow_writes host allow_remote_writes =
     (if method = GET \<or> \<not> allow_writes \<or> allow_remote_writes then Inr ()
      else bindR (is_loopback_host env host) (\<lambda>ok. if \<not> ok then Inl HostNotAllowed else Inr ()))"

text \<open>An absent header and an empty one are both false.\<close>

definition truthy :: "pystr option \<Rightarrow> bool" where
  "truthy v = (case v of None \<Rightarrow> False | Some s \<Rightarrow> s \<noteq> [])"

definition validate_write_origin :: "py_env \<Rightarrow> pystr \<Rightarrow> bool \<Rightarrow> pystr option \<Rightarrow> pystr option \<Rightarrow> unit result" where
  "validate_write_origin env method allow_writes origin host =
     (if method = GET \<or> \<not> allow_writes \<or> \<not> truthy origin then Inr ()
      else if the origin = lit ''null'' then Inl CrossOriginWrite
      else if \<not> truthy host then Inl CrossOriginWrite
      else bindR (origin_matches_host env (the origin) (the host)) (\<lambda>ok.
             if \<not> ok then Inl CrossOriginWrite else Inr ()))"

text \<open>\<open>encode("utf-8", "surrogateescape")\<close>: the surrogates \<open>U+DC80\<close> to \<open>U+DCFF\<close> stand for single bytes.\<close>

definition token_char :: "nat \<Rightarrow> bytes result" where
  "token_char c = (if 0xDC80 \<le> c \<and> c \<le> 0xDCFF then Inr [of_nat (c - 0xDC00)] else utf8_char c)"

definition token_bytes :: "pystr \<Rightarrow> bytes result" where
  "token_bytes token = bindR (mapR token_char token) (\<lambda>bs. Inr (concat bs))"

definition validate_write_token :: "pystr \<Rightarrow> bool \<Rightarrow> pystr option \<Rightarrow> pystr option \<Rightarrow> unit result" where
  "validate_write_token method allow_writes expected_token request_token =
     (if method = GET \<or> \<not> allow_writes \<or> expected_token = None then Inr ()
      else if \<not> truthy request_token then Inl WriteTokenRequired
      else bindR (token_bytes (the expected_token)) (\<lambda>a.
           bindR (token_bytes (the request_token)) (\<lambda>b.
             if a \<noteq> b then Inl WriteTokenRequired else Inr ())))"


section \<open>What the checks accept\<close>

lemma spaces_no_digits:
  "list_all (\<lambda>c. decimal_digit c = None)
     ([9..<14] @ [8192..<8203] @ [43, 45, 32, 133, 160, 5760, 8232, 8233, 8239, 8287, 12288])"
  by (simp add: decimal_digit_def decimal_zeros_def upt_rec_numeral)

lemma int_space_no_digit: "int_space c \<or> c = 43 \<or> c = 45 \<Longrightarrow> decimal_digit c = None"
  using spaces_no_digits unfolding list_all_iff set_append int_space_def py_space_def
  by (elim disjE conjE ballE[of _ _ c]) (auto, arith)

lemma int_digits_nonneg_text:
  assumes "py_isdecimal v" "py_int v = Some n"
  shows "0 \<le> n"
proof -
  have dig: "\<forall>c\<in>set v. decimal_digit c \<noteq> None" and ne: "v \<noteq> []" using assms(1) by (auto simp: py_isdecimal_def list_all_iff)
  have nsp: "\<not> int_space c" "c \<noteq> 45" "c \<noteq> 43" if "decimal_digit c \<noteq> None" for c
    using that int_space_no_digit by auto
  have "strip_by int_space v = v" using dig ne nsp by (intro strip_by_id) auto
  moreover obtain c cs where "v = c # cs" using ne by (cases v) auto
  moreover have "c \<noteq> 45" "c \<noteq> 43" using nsp dig \<open>v = c # cs\<close> by auto
  ultimately have "map_option int (int_digits False 0 v) = Some n"
    using assms(2) by (auto simp: py_int_def int_text_def split: if_splits)
  then show ?thesis by auto
qed

lemma py_isdecimal_digits: "py_isdecimal (digits_nat n)"
  using digits_nat_range[of _ n] decimal_digit_ascii by (auto simp: py_isdecimal_def list_all_iff)

lemma py_strip_digits: "py_strip (digits_nat n) = digits_nat n"
proof -
  have "\<not> py_space c" if "c \<in> set (digits_nat n)" for c
    using digits_nat_range[OF that] by (auto simp: py_space_def)
  then show ?thesis unfolding py_strip_def by (intro strip_by_id) auto
qed

lemma digits_nat_length: "n < 10 ^ k \<Longrightarrow> 0 < k \<Longrightarrow> length (digits_nat n) \<le> k"
proof (induction k arbitrary: n)
  case (Suc k)
  show ?case
  proof (cases "n < 10")
    case False
    then have "0 < k" using Suc.prems(1) by (cases k) auto
    moreover have "n div 10 < 10 ^ k" using Suc.prems(1) by (simp add: div_less_iff_less_mult)
    ultimately show ?thesis using Suc.IH[of "n div 10"] False by (simp add: digits_nat.simps[of n])
  qed (simp add: digits_nat.simps[of n])
qed simp

lemma validate_client_accepts:
  assumes "0 \<le> n" "n \<le> MAX_CLIENT_ID"
  shows "validate_client_query_value (str_int n) = Inr (str_int n)"
proof -
  have s: "str_int n = digits_nat (nat n)" using assms(1) by (simp add: str_int_def)
  have "nat n < 10 ^ 10" using assms by (simp add: MAX_CLIENT_ID_def)
  then have "length (str_int n) \<le> MAX_STR_DIGITS" using digits_nat_length[of "nat n" 10] s by (simp add: MAX_STR_DIGITS_def)
  then have "py_int (digits_nat (nat n)) = Some n" using py_int_str_int s by metis
  then show ?thesis
    using assms(2) s by (simp add: validate_client_query_value_def py_strip_digits py_isdecimal_digits)
qed

lemma validate_client_bounds:
  assumes "validate_client_query_value v = Inr c"
  shows "\<exists>n. 0 \<le> n \<and> n \<le> MAX_CLIENT_ID \<and> c = str_int n"
proof -
  obtain n where "py_isdecimal (py_strip v)" "py_int (py_strip v) = Some n" "n \<le> MAX_CLIENT_ID" "c = str_int n"
    using assms by (auto simp: validate_client_query_value_def Let_def split: if_splits option.splits)
  then show ?thesis using int_digits_nonneg_text by blast
qed

definition client_values :: "(pystr \<times> pystr) list \<Rightarrow> pystr list" where
  "client_values fs = qs_values (lit ''client'') fs"

lemma collect_query_fields_client:
  "collect_query_fields pairs client fs = Inr (gs, client') \<Longrightarrow>
   client_values fs = (case client of None \<Rightarrow> [] | Some c \<Rightarrow> [c]) \<Longrightarrow> [] \<notin> fst ` set fs \<Longrightarrow>
   (\<forall>c. client = Some c \<longrightarrow> (\<exists>n. 0 \<le> n \<and> n \<le> MAX_CLIENT_ID \<and> c = str_int n)) \<Longrightarrow>
   client_values gs = (case client' of None \<Rightarrow> [] | Some c \<Rightarrow> [c]) \<and> [] \<notin> fst ` set gs \<and>
   (\<forall>c. client' = Some c \<longrightarrow> (\<exists>n. 0 \<le> n \<and> n \<le> MAX_CLIENT_ID \<and> c = str_int n))"
proof (induction pairs client fs rule: collect_query_fields.induct)
  case (2 name v pairs client fs)
  show ?case
  proof (cases "name = lit ''client''")
    case True
    then obtain w where w: "validate_client_query_value v = Inr w" "client = None"
      "collect_query_fields pairs (Some w) (fs @ [(name, w)]) = Inr (gs, client')"
      using 2(3) by (auto simp: result_simps simp del: lit_simps split: if_splits)
    have ne: "name \<noteq> []" using 2(3) by (auto split: if_splits)
    show ?thesis
      by (rule 2(1)[OF ne True w(1) _ w(3)])
         (use 2(4,5) w True validate_client_bounds[OF w(1)] in \<open>auto simp: client_values_def qs_values_def\<close>)
  next
    case False
    then have ne: "name \<noteq> []" and s: "collect_query_fields pairs client (fs @ [(name, v)]) = Inr (gs, client')"
      using 2(3) by (auto simp del: lit_simps split: if_splits)
    show ?thesis
      by (rule 2(2)[OF ne False s]) (use 2(4-6) False ne in \<open>auto simp: client_values_def qs_values_def simp del: lit_simps\<close>)
  qed
qed simp

text \<open>The client number of a GET request: the fields passed to the device hold the \<open>client\<close> field at most
  once, with exactly the client number returned beside them, which is the canonical decimal text of a
  32-bit unsigned number; no field name is empty.\<close>

theorem query_client_canonical:
  assumes "parse_get_query_fields env request_path = Inr (fs, client)"
  shows "client_values fs = (case client of None \<Rightarrow> [] | Some c \<Rightarrow> [c]) \<and> [] \<notin> fst ` set fs \<and>
    (\<forall>c. client = Some c \<longrightarrow> (\<exists>n. 0 \<le> n \<and> n \<le> MAX_CLIENT_ID \<and> c = str_int n))"
proof -
  obtain pairs where "collect_query_fields pairs None [] = Inr (fs, client)"
    using assms unfolding parse_get_query_fields_def
    by (cases "urlparse (env_netloc_ok env) True request_path";
        cases "parse_qsl unquote_strict (url_query (projr (urlparse (env_netloc_ok env) True request_path)))")
       (auto split: if_splits)
  from collect_query_fields_client[OF this] show ?thesis by (simp add: client_values_def qs_values_def)
qed

definition any_env :: py_env where
  "any_env = \<lparr>env_netloc_ok = (\<lambda>_. True), env_json_limit = 1000, env_mapped_loopback = True, env_float_repr = (\<lambda>_. [])\<rparr>"

theorem query_client_canonical_witness:
  "parse_get_query_fields any_env (lit ''/datastore?a=b&client=007'') =
     Inr ([(lit ''a'', lit ''b''), (lit ''client'', lit ''7'')], Some (lit ''7'')) \<and>
   client_values [(lit ''a'', lit ''b''), (lit ''client'', lit ''7'')] = [lit ''7'']"
proof -
  have "parse_get_query_fields any_env (lit ''/datastore?a=b&client=007'') =
     Inr ([(lit ''a'', lit ''b''), (lit ''client'', lit ''7'')], Some (lit ''7''))"
    unfolding any_env_def
    by (simp add: parse_get_query_fields_def urlparse_def urlsplit_def url_clean_def split_scheme_def split_netloc_def
        ascii_alpha_def scheme_char_def parse_qsl_def plus_to_space_def unquote_strict_def
        validate_client_query_value_def py_strip_def strip_by_def py_space_def py_isdecimal_def decimal_digit_def
        decimal_zeros_def py_int_def int_text_def int_space_def MAX_STR_DIGITS_def MAX_CLIENT_ID_def str_int_def
        digits_nat.simps uses_params_def)
  from query_client_canonical[OF this] this show ?thesis by auto
qed

text \<open>More digits than the interpreter converts raise \<open>ValueError\<close>, not \<open>BadRequest\<close>.\<close>

lemma long_client_number: "4300 < n \<Longrightarrow> validate_client_query_value (replicate n 49) = Inl ValueError"
proof -
  assume n: "4300 < n"
  have d: "decimal_digit 49 = Some 1" using decimal_digit_ascii[of 49] by simp
  have "py_strip (replicate n 49) = replicate n 49"
    unfolding py_strip_def using n by (intro strip_by_id) (simp add: py_space_def)
  moreover have "py_isdecimal (replicate n 49)" using n d by (simp add: py_isdecimal_def list_all_iff)
  moreover have "py_int (replicate n 49) = None" using n d by (simp add: py_int_def MAX_STR_DIGITS_def)
  ultimately show ?thesis by (simp add: validate_client_query_value_def)
qed

text \<open>A dotted quad is a loopback address exactly when its first number is 127.\<close>

lemma parse_octet_digits: "n < 256 \<Longrightarrow> parse_octet (digits_nat n) = Some n"
proof -
  assume n: "n < 256"
  have "list_all ascii_digit (digits_nat n)" using digits_nat_range by (auto simp: list_all_iff ascii_digit_def)
  moreover have "length (digits_nat n) \<le> 3" using n digits_nat_length[of n 3] by simp
  moreover have "digits_nat n \<noteq> [48] \<Longrightarrow> hd (digits_nat n) \<noteq> 48" by (rule digits_nat_head)
  ultimately show ?thesis using n by (auto simp: parse_octet_def digits_val_digits_nat)
qed

lemma digits_nat_no: "\<not> (48 \<le> x \<and> x \<le> 57) \<Longrightarrow> x \<notin> set (digits_nat n)"
  using digits_nat_range by blast

definition dotted_quad :: "nat \<Rightarrow> nat \<Rightarrow> nat \<Rightarrow> nat \<Rightarrow> pystr" where
  "dotted_quad a b c d = digits_nat a @ 46 # digits_nat b @ 46 # digits_nat c @ 46 # digits_nat d"

lemma dotted_quad_loopback:
  assumes "a < 256" "b < 256" "c < 256" "d < 256"
  shows "ip_is_loopback env (dotted_quad a b c d) = Some (a = 127)"
proof -
  have "split_on 46 (dotted_quad a b c d) = [digits_nat a, digits_nat b, digits_nat c, digits_nat d]"
    unfolding dotted_quad_def by (simp add: split_on_append_sep split_on_no_sep digits_nat_no)
  then have "parse_ipv4 (dotted_quad a b c d) = Some (((a * 256 + b) * 256 + c) * 256 + d)"
    using assms by (simp add: parse_ipv4_def parse_octet_digits dotted_quad_def digits_nat_no)
  moreover have "(((a * 256 + b) * 256 + c) * 256 + d) div 16777216 = a" using assms by simp
  ultimately show ?thesis by (simp add: ip_is_loopback_def ipv4_loopback_def)
qed

end
