(* ===== verification/Motu_Http.thy ===== *)
theory Motu_Http
  imports Motu_Access Motu_Parser
begin

text \<open>
  The HTTP front end (\<^verbatim>\<open>motu_proxy/http_server.py\<close>): \<open>dispatch_datastore_request\<close> and
  \<open>MotuProxyHandler\<close>. The datastore operations, the write log and the status provider are arguments, as in
  the code; they act on a state of their own. The handler acts on a connection: the header lines buffered by
  the base class, what was written to the socket, the close flag and the socket's time-out.
\<close>

section \<open>Dispatching a request\<close>

datatype run_result = RawBytes bytes | Payload datastore_payload

definition coerce_datastore_payload :: "run_result \<Rightarrow> datastore_payload" where
  "coerce_datastore_payload v =
     (case v of
        Payload p \<Rightarrow> p
      | RawBytes b \<Rightarrow> \<lparr>dp_body = b, dp_etag = None, dp_status = None, dp_content_type = None\<rparr>)"

record dispatch_result =
  dr_response :: bytes
  dr_path :: pystr
  dr_etag :: "pystr option"
  dr_status :: nat
  dr_content_type :: "pystr option"

record 's backend =
  run_get :: "pystr \<Rightarrow> pystr option \<Rightarrow> pystr option \<Rightarrow> (pystr \<times> pystr) list \<Rightarrow> ('s, run_result) sop"
  run_post :: "pystr \<Rightarrow> bytes \<Rightarrow> pystr option \<Rightarrow> ('s, run_result) sop"
  log_write :: "(pystr \<Rightarrow> pystr \<Rightarrow> bytes \<Rightarrow> ('s, unit) sop) option"
  status_provider :: "('s, json) sop option"

record dispatcher =
  allow_writes :: bool
  write_token :: "pystr option"
  allow_remote_writes :: bool
  validate_writes :: bool
  allow_unknown_writes :: bool

record request =
  rq_method :: pystr
  rq_path :: pystr
  rq_origin :: "pystr option"
  rq_host :: "pystr option"
  rq_token_header :: "pystr option"
  rq_authorization :: "pystr option"
  rq_transfer_encoding :: "pystr option"
  rq_content_length :: "pystr option"
  rq_content_type :: "pystr option"
  rq_if_none_match :: "pystr option"

definition APPLICATION_JSON :: pystr where "APPLICATION_JSON = lit ''application/json''"

text \<open>The three parts of \<open>dispatch_datastore_request\<close>: the status page, a GET, a write.\<close>

definition dispatch_status :: "py_env \<Rightarrow> ('s, json) sop \<Rightarrow> ('s, dispatch_result) sop" where
  "dispatch_status env provider =
     bindS provider (\<lambda>status.
     bindS (liftR (utf8_encode (json_dumps (env_float_repr env) True status))) (\<lambda>body.
     retS \<lparr>dr_response = body, dr_path = STATUS_PATH, dr_etag = None, dr_status = 200,
           dr_content_type = Some APPLICATION_JSON\<rparr>))"

definition dispatch_get ::
    "py_env \<Rightarrow> 's backend \<Rightarrow> pystr \<Rightarrow> pystr \<Rightarrow> pystr option \<Rightarrow> ('s, dispatch_result) sop" where
  "dispatch_get env be path request_path if_none_match =
     bindS (liftR (parse_get_query_fields env request_path)) (\<lambda>(query_fields, client).
     bindS (run_get be path client (map_option py_strip if_none_match) query_fields) (\<lambda>res.
     let payload = coerce_datastore_payload res
     in retS \<lparr>dr_response = dp_body payload, dr_path = path, dr_etag = dp_etag payload,
              dr_status = (if not_modified payload then 304 else 200), dr_content_type = dp_content_type payload\<rparr>))"

text \<open>Everything a write must pass before the device is asked, in the order of the code.\<close>

definition check_write ::
    "py_env \<Rightarrow> dispatcher \<Rightarrow> pystr \<Rightarrow> pystr \<Rightarrow> pystr \<Rightarrow> pystr \<Rightarrow> pystr \<Rightarrow> pystr option \<Rightarrow> pystr option \<Rightarrow>
     pystr option \<Rightarrow> (bytes \<times> pystr option) result" where
  "check_write env cfg method path request_path raw_body content_type origin host request_token =
     bindR (parse_client_query env request_path) (\<lambda>client.
     if \<not> allow_writes cfg then Inl WritesDisabled
     else
       bindR (validate_write_host env method (allow_writes cfg) host (allow_remote_writes cfg)) (\<lambda>_.
       bindR (validate_write_origin env method (allow_writes cfg) origin host) (\<lambda>_.
       bindR (validate_write_token method (allow_writes cfg) (write_token cfg) request_token) (\<lambda>_.
       bindR (parse_write_body raw_body content_type) (\<lambda>write_body.
       bindR (load_json_object (env_json_limit env) write_body) (\<lambda>write_object.
       bindR (utf8_encode write_body) (\<lambda>write_body_bytes.
       bindR (if validate_writes cfg
              then validate_datastore_write_object (env_netloc_ok env) (allow_unknown_writes cfg) path write_object
              else Inr []) (\<lambda>_.
       bindR (validate_post_frame_size path write_body_bytes (lit ''NREK'') (map_option QStr client)) (\<lambda>_.
       Inr (write_body_bytes, client))))))))))"

definition dispatch_write ::
    "py_env \<Rightarrow> dispatcher \<Rightarrow> 's backend \<Rightarrow> pystr \<Rightarrow> pystr \<Rightarrow> pystr \<Rightarrow> pystr \<Rightarrow> pystr \<Rightarrow> pystr option \<Rightarrow>
     pystr option \<Rightarrow> pystr option \<Rightarrow> ('s, dispatch_result) sop" where
  "dispatch_write env cfg be method path request_path raw_body content_type origin host request_token =
     bindS (liftR (check_write env cfg method path request_path raw_body content_type origin host request_token))
       (\<lambda>(write_body_bytes, client).
     bindS (case log_write be of None \<Rightarrow> retS () | Some logger \<Rightarrow> logger method path write_body_bytes) (\<lambda>_.
     bindS (run_post be path write_body_bytes client) (\<lambda>res.
     let payload = coerce_datastore_payload res
     in retS \<lparr>dr_response = dp_body payload, dr_path = path, dr_etag = dp_etag payload, dr_status = 200,
              dr_content_type = dp_content_type payload\<rparr>)))"

definition dispatch_datastore_request ::
    "py_env \<Rightarrow> dispatcher \<Rightarrow> 's backend \<Rightarrow> pystr \<Rightarrow> pystr \<Rightarrow> pystr \<Rightarrow> pystr \<Rightarrow> pystr option \<Rightarrow> pystr option \<Rightarrow>
     pystr option \<Rightarrow> pystr option \<Rightarrow> ('s, dispatch_result) sop" where
  "dispatch_datastore_request env cfg be method request_path raw_body content_type origin host request_token if_none_match =
     bindS (liftR (urlparse (env_netloc_ok env) True request_path)) (\<lambda>request_url.
     if method = GET \<and> url_path request_url = STATUS_PATH \<and> status_provider be \<noteq> None
     then dispatch_status env (the (status_provider be))
     else
       bindS (liftR (normalize_path (env_netloc_ok env) (url_path request_url))) (\<lambda>path.
       if method = GET then dispatch_get env be path request_path if_none_match
       else dispatch_write env cfg be method path request_path raw_body content_type origin host request_token))"

text \<open>\<open>DatastoreDispatcher.validate_write_headers\<close>\<close>

definition validate_write_headers ::
    "py_env \<Rightarrow> dispatcher \<Rightarrow> pystr \<Rightarrow> pystr option \<Rightarrow> pystr option \<Rightarrow> pystr option \<Rightarrow> unit result" where
  "validate_write_headers env cfg method origin host request_token =
     (if method = GET then Inr ()
      else if \<not> allow_writes cfg then Inl WritesDisabled
      else
        bindR (validate_write_host env method (allow_writes cfg) host (allow_remote_writes cfg)) (\<lambda>_.
        bindR (validate_write_origin env method (allow_writes cfg) origin host) (\<lambda>_.
        validate_write_token method (allow_writes cfg) (write_token cfg) request_token)))"

section \<open>The connection\<close>

text \<open>
  What goes to the client. The status line stands for the line and the \<open>Server\<close> and \<open>Date\<close> headers that
  the base class adds to it.
\<close>

datatype out_item = StatusLine nat | HeaderLine pystr pystr | EndHeaders | BodyBytes bytes

datatype body_read = ReadBytes bytes | ReadTimeout | ReadError exc

record 's conn =
  cn_close :: bool
  cn_started :: bool
  cn_pending :: "out_item list"
  cn_sent :: "out_item list"
  cn_timeout :: "rat option"
  cn_state :: 's

text \<open>
  The socket is an argument: \<open>so_write\<close> is the error of a write after what was sent before, \<open>so_read\<close> what a
  read of so many bytes under a time-out gives.
\<close>

record sock =
  so_write :: "out_item list \<Rightarrow> out_item list \<Rightarrow> exc option"
  so_read :: "rat option \<Rightarrow> nat \<Rightarrow> body_read"

record server =
  sv_dispatcher :: dispatcher
  sv_debug :: bool
  sv_max_write_body_bytes :: int
  sv_write_body_read_timeout_s :: "rat option"

definition on_state :: "('s, 'a) sop \<Rightarrow> ('s conn, 'a) sop" where
  "on_state m = (\<lambda>c. case m (cn_state c) of (r, s) \<Rightarrow> (r, c\<lparr>cn_state := s\<rparr>))"

definition send_response :: "nat \<Rightarrow> ('s conn, unit) sop" where
  "send_response code = modS (\<lambda>c. c\<lparr>cn_pending := cn_pending c @ [StatusLine code]\<rparr>)"

text \<open>Header lines are encoded as ISO-8859-1, strictly.\<close>

definition send_header :: "pystr \<Rightarrow> pystr \<Rightarrow> ('s conn, unit) sop" where
  "send_header k v =
     (if list_all (\<lambda>c. c < 256) v then modS (\<lambda>c. c\<lparr>cn_pending := cn_pending c @ [HeaderLine k v]\<rparr>)
      else raiseS UnicodeEncodeError)"

definition wfile_write :: "sock \<Rightarrow> out_item list \<Rightarrow> ('s conn, unit) sop" where
  "wfile_write so items =
     (\<lambda>c. case so_write so (cn_sent c) items of
            Some e \<Rightarrow> (Inl e, c)
          | None \<Rightarrow> (Inr (), c\<lparr>cn_sent := cn_sent c @ items\<rparr>))"

definition end_headers :: "sock \<Rightarrow> ('s conn, unit) sop" where
  "end_headers so =
     (\<lambda>c. bindS (wfile_write so (cn_pending c @ [EndHeaders])) (\<lambda>_. modS (\<lambda>c. c\<lparr>cn_pending := []\<rparr>)) c)"

definition whenS :: "bool \<Rightarrow> ('s, unit) sop \<Rightarrow> ('s, unit) sop" where
  "whenS b m = (if b then m else retS ())"

definition set_close :: "('s conn, unit) sop" where
  "set_close = modS (\<lambda>c. c\<lparr>cn_close := True\<rparr>)"

definition send_close_header :: "('s conn, unit) sop" where
  "send_close_header = (\<lambda>c. whenS (cn_close c) (send_header (lit ''Connection'') (lit ''close'')) c)"

section \<open>The handler\<close>

definition read_write_token :: "request \<Rightarrow> pystr option" where
  "read_write_token rq =
     (if truthy (rq_token_header rq) then Some (py_strip (the (rq_token_header rq)))
      else
        case partition_at 32 (case rq_authorization rq of None \<Rightarrow> [] | Some a \<Rightarrow> a) of
          (scheme, _, v) \<Rightarrow> if py_lower scheme = lit ''bearer'' \<and> v \<noteq> [] then Some (py_strip v) else None)"

definition close_get_connection_if_body_announced :: "request \<Rightarrow> ('s conn, unit) sop" where
  "close_get_connection_if_body_announced rq =
     (if truthy (rq_transfer_encoding rq) then set_close
      else
        case rq_content_length rq of
          None \<Rightarrow> retS ()
        | Some cl \<Rightarrow>
            (case py_int (if cl = [] then lit ''0'' else cl) of
               None \<Rightarrow> bindS set_close (\<lambda>_. raiseS BadRequest)
             | Some n \<Rightarrow>
                 if n < 0 then bindS set_close (\<lambda>_. raiseS BadRequest)
                 else whenS (0 < n) set_close))"

definition read_exact_body_bytes :: "server \<Rightarrow> sock \<Rightarrow> nat \<Rightarrow> ('s conn, bytes) sop" where
  "read_exact_body_bytes sv so n =
     (if n = 0 then retS []
      else
        (\<lambda>c. let previous_timeout = cn_timeout c; limited = (sv_write_body_read_timeout_s sv \<noteq> None)
             in finallyS
                  (bindS (whenS limited (modS (\<lambda>c. c\<lparr>cn_timeout := sv_write_body_read_timeout_s sv\<rparr>))) (\<lambda>_.
                   (\<lambda>c. case so_read so (cn_timeout c) n of
                          ReadBytes b \<Rightarrow> (Inr b, c)
                        | ReadTimeout \<Rightarrow> bindS set_close (\<lambda>_. raiseS RequestBodyTimeout) c
                        | ReadError e \<Rightarrow> (Inl e, c))))
                  (whenS limited (modS (\<lambda>c. c\<lparr>cn_timeout := previous_timeout\<rparr>))) c))"

definition read_raw_body :: "server \<Rightarrow> sock \<Rightarrow> request \<Rightarrow> ('s conn, pystr) sop" where
  "read_raw_body sv so rq =
     (if truthy (rq_transfer_encoding rq) \<and> py_lower (the (rq_transfer_encoding rq)) \<noteq> lit ''identity''
      then raiseS BadRequest
      else
        case py_int (case rq_content_length rq of None \<Rightarrow> lit ''0'' | Some cl \<Rightarrow> if cl = [] then lit ''0'' else cl) of
          None \<Rightarrow> raiseS BadRequest
        | Some n \<Rightarrow>
            if n < 0 then raiseS BadRequest
            else if sv_max_write_body_bytes sv < n then raiseS RequestBodyTooLarge
            else
              bindS (read_exact_body_bytes sv so (nat n)) (\<lambda>raw.
              if int (length raw) \<noteq> n then bindS set_close (\<lambda>_. raiseS BadRequest)
              else case utf8_decode raw of Inl _ \<Rightarrow> raiseS BadRequest | Inr t \<Rightarrow> retS t))"

definition response_content_type :: "bytes \<Rightarrow> pystr" where
  "response_content_type body = datastore_body_content_type body"

definition send_result :: "sock \<Rightarrow> pystr \<Rightarrow> dispatch_result \<Rightarrow> ('s conn, unit) sop" where
  "send_result so method result =
     (let body = (if dr_status result = 304 then [] else dr_response result) in
      bindS (send_response (dr_status result)) (\<lambda>_.
      bindS (modS (\<lambda>c. c\<lparr>cn_started := True\<rparr>)) (\<lambda>_.
      bindS (whenS (dr_status result \<noteq> 304)
               (send_header (lit ''Content-Type'')
                  (if truthy (dr_content_type result) then the (dr_content_type result) else response_content_type body))) (\<lambda>_.
      bindS (send_header (lit ''Cache-Control'') (lit ''no-cache'')) (\<lambda>_.
      bindS (whenS (method = GET \<and> dr_etag result \<noteq> None) (send_header (lit ''ETag'') (the (dr_etag result)))) (\<lambda>_.
      bindS (whenS (dr_status result \<noteq> 304)
               (send_header (lit ''Content-Length'') (str_int (int (length body))))) (\<lambda>_.
      bindS send_close_header (\<lambda>_.
      bindS (end_headers so) (\<lambda>_.
      whenS (body \<noteq> []) (wfile_write so [BodyBytes body]))))))))))"

text \<open>The \<open>try\<close> block of \<open>handle_datastore_request\<close>: up to the dispatch, then the response.\<close>

definition handle_dispatch :: "py_env \<Rightarrow> server \<Rightarrow> 's backend \<Rightarrow> sock \<Rightarrow> request \<Rightarrow> ('s conn, dispatch_result) sop" where
  "handle_dispatch env sv be so rq =
     (let method = rq_method rq; request_token = (if method \<noteq> GET then read_write_token rq else None) in
      bindS (whenS (method = GET) (close_get_connection_if_body_announced rq)) (\<lambda>_.
      bindS (whenS (method \<noteq> GET)
               (liftR (validate_write_headers env (sv_dispatcher sv) method (rq_origin rq) (rq_host rq) request_token))) (\<lambda>_.
      bindS (if method \<noteq> GET then read_raw_body sv so rq else retS []) (\<lambda>raw_body.
      on_state (dispatch_datastore_request env (sv_dispatcher sv) be method (rq_path rq) raw_body
        (case rq_content_type rq of None \<Rightarrow> [] | Some t \<Rightarrow> t) (rq_origin rq) (rq_host rq) request_token
        (if method = GET then rq_if_none_match rq else None))))))"

definition handle_main :: "py_env \<Rightarrow> server \<Rightarrow> 's backend \<Rightarrow> sock \<Rightarrow> request \<Rightarrow> ('s conn, unit) sop" where
  "handle_main env sv be so rq = bindS (handle_dispatch env sv be so rq) (send_result so (rq_method rq))"

text \<open>The \<open>except\<close> clauses: the status, and the public message of a backend error.\<close>

fun error_status :: "exc \<Rightarrow> nat" where
  "error_status WritesDisabled = 403"
| "error_status CrossOriginWrite = 403"
| "error_status HostNotAllowed = 403"
| "error_status WriteTokenRequired = 403"
| "error_status (DatastorePermissionError _) = 403"
| "error_status (DatastoreValidationError _) = 422"
| "error_status RequestBodyTooLarge = 413"
| "error_status (ProtocolFrameTooLarge _ _) = 413"
| "error_status RequestBodyTimeout = 408"
| "error_status BadRequest = 400"
| "error_status InvalidJsonBody = 400"
| "error_status DatastoreDeviceUnavailable = 503"
| "error_status (DeviceDiscoveryError _) = 503"
| "error_status NoDeviceFound = 503"
| "error_status MultipleDevicesFound = 503"
| "error_status NoControlInterfaceFound = 503"
| "error_status DatastoreNoResponse = 504"
| "error_status DatastoreTimeout = 504"
| "error_status _ = 502"

definition public_message :: "exc \<Rightarrow> pystr option" where
  "public_message e =
     (if error_status e = 503 then Some (lit ''MOTU USB device is not available'')
      else if error_status e = 504 then Some (lit ''MOTU USB datastore did not respond'')
      else if error_status e = 502 then
        Some (case e of
                ResponseFrameError _ \<Rightarrow> lit ''MOTU USB datastore returned an invalid response''
              | DatastoreResponseLimit \<Rightarrow> lit ''MOTU USB datastore returned an invalid response''
              | ShortUsbFrame _ \<Rightarrow> lit ''MOTU USB datastore returned an invalid response''
              | ShortUsbWrite _ _ \<Rightarrow> lit ''MOTU USB datastore returned an invalid response''
              | _ \<Rightarrow> lit ''MOTU USB datastore request failed'')
      else None)"

definition error_body :: "py_env \<Rightarrow> pystr \<Rightarrow> bytes result" where
  "error_body env message = utf8_encode (json_dumps (env_float_repr env) False (JObj [(lit ''error'', JStr message)]))"

definition send_json_error :: "py_env \<Rightarrow> sock \<Rightarrow> nat \<Rightarrow> pystr \<Rightarrow> ('s conn, unit) sop" where
  "send_json_error env so status message =
     bindS (liftR (error_body env message)) (\<lambda>body.
     bindS (send_response status) (\<lambda>_.
     bindS (send_header (lit ''Content-Type'') APPLICATION_JSON) (\<lambda>_.
     bindS (send_header (lit ''Content-Length'') (str_int (int (length body)))) (\<lambda>_.
     bindS send_close_header (\<lambda>_.
     bindS (end_headers so) (\<lambda>_.
     wfile_write so [BodyBytes body]))))))"

text \<open>\<open>exc_text\<close> is \<open>str(exc)\<close>; a backend error is also printed.\<close>

definition error_message :: "server \<Rightarrow> (exc \<Rightarrow> pystr) \<Rightarrow> exc \<Rightarrow> pystr" where
  "error_message sv exc_text e =
     (case public_message e of None \<Rightarrow> exc_text e | Some m \<Rightarrow> if sv_debug sv then exc_text e else m)"

definition handle_error :: "py_env \<Rightarrow> server \<Rightarrow> sock \<Rightarrow> (exc \<Rightarrow> pystr) \<Rightarrow> request \<Rightarrow> exc \<Rightarrow> ('s conn, unit) sop" where
  "handle_error env sv so exc_text rq e =
     bindS (whenS (rq_method rq \<noteq> GET) set_close) (\<lambda>_.
     (\<lambda>c. if cn_started c then set_close c
          else send_json_error env so (error_status e) (error_message sv exc_text e) c))"

definition handle_datastore_request ::
    "py_env \<Rightarrow> server \<Rightarrow> 's backend \<Rightarrow> sock \<Rightarrow> (exc \<Rightarrow> pystr) \<Rightarrow> request \<Rightarrow> ('s conn, unit) sop" where
  "handle_datastore_request env sv be so exc_text rq =
     bindS (modS (\<lambda>c. c\<lparr>cn_started := False\<rparr>)) (\<lambda>_.
     onErrorS (handle_main env sv be so rq) (handle_error env sv so exc_text rq))"


section \<open>The write gate\<close>

text \<open>What must hold of a request before the device is asked to write.\<close>

definition write_authorised ::
    "py_env \<Rightarrow> dispatcher \<Rightarrow> pystr option \<Rightarrow> pystr option \<Rightarrow> pystr option \<Rightarrow> bool" where
  "write_authorised env cfg origin host request_token \<longleftrightarrow>
     allow_writes cfg \<and>
     (allow_remote_writes cfg \<or> is_loopback_host env host = Inr True) \<and>
     (truthy origin \<longrightarrow> origin \<noteq> Some (lit ''null'') \<and> truthy host \<and>
        origin_matches_host env (the origin) (the host) = Inr True) \<and>
     (\<forall>t. write_token cfg = Some t \<longrightarrow> truthy request_token \<and>
        (\<exists>b. token_bytes t = Inr b \<and> token_bytes (the request_token) = Inr b))"

lemma write_checks_iff:
  assumes "method \<noteq> GET" "allow_writes cfg"
  shows "validate_write_host env method (allow_writes cfg) host (allow_remote_writes cfg) = Inr () \<and>
    validate_write_origin env method (allow_writes cfg) origin host = Inr () \<and>
    validate_write_token method (allow_writes cfg) (write_token cfg) request_token = Inr () \<longleftrightarrow>
    write_authorised env cfg origin host request_token"
proof -
  have h: "validate_write_host env method (allow_writes cfg) host (allow_remote_writes cfg) = Inr () \<longleftrightarrow>
      allow_remote_writes cfg \<or> is_loopback_host env host = Inr True"
    using assms by (auto simp: validate_write_host_def result_simps split: if_splits)
  have o: "validate_write_origin env method (allow_writes cfg) origin host = Inr () \<longleftrightarrow>
      (truthy origin \<longrightarrow> origin \<noteq> Some (lit ''null'') \<and> truthy host \<and>
         origin_matches_host env (the origin) (the host) = Inr True)"
    using assms by (cases origin) (auto simp: validate_write_origin_def result_simps truthy_def simp del: lit_simps split: if_splits)
  have t: "validate_write_token method (allow_writes cfg) (write_token cfg) request_token = Inr () \<longleftrightarrow>
      (\<forall>t. write_token cfg = Some t \<longrightarrow> truthy request_token \<and>
         (\<exists>b. token_bytes t = Inr b \<and> token_bytes (the request_token) = Inr b))"
    using assms by (cases "write_token cfg") (auto simp: validate_write_token_def result_simps split: if_splits)
  show ?thesis unfolding h o t write_authorised_def using assms(2) by simp
qed

lemma validate_write_headers_iff:
  assumes "method \<noteq> GET"
  shows "validate_write_headers env cfg method origin host request_token = Inr () \<longleftrightarrow>
    write_authorised env cfg origin host request_token"
proof (cases "allow_writes cfg")
  case True
  then show ?thesis
    unfolding write_checks_iff[OF assms True, symmetric] using assms
    by (auto simp: validate_write_headers_def result_simps)
next
  case False
  then show ?thesis using assms by (simp add: validate_write_headers_def write_authorised_def)
qed

definition body_accepted :: "py_env \<Rightarrow> dispatcher \<Rightarrow> pystr \<Rightarrow> pystr \<Rightarrow> bytes \<Rightarrow> pystr option \<Rightarrow> bool" where
  "body_accepted env cfg path text body client \<longleftrightarrow>
     utf8_encode text = Inr body \<and>
     (\<exists>obj. load_json_object (env_json_limit env) text = Inr obj \<and>
        (validate_writes cfg \<longrightarrow>
           (\<exists>p. normalize_path (env_netloc_ok env) path = Inr p \<and>
              list_all (item_accepted (env_netloc_ok env) (allow_unknown_writes cfg) (py_rstrip_char 47 p)) obj))) \<and>
     validate_post_frame_size path body (lit ''NREK'') (map_option QStr client) = Inr ()"

lemma write_accepted_items:
  "validate_datastore_write_object netloc_ok allow_unknown path body = Inr ws \<Longrightarrow>
   \<exists>p. normalize_path netloc_ok path = Inr p \<and> list_all (item_accepted netloc_ok allow_unknown (py_rstrip_char 47 p)) body"
  unfolding validate_datastore_write_object_def validate_items_iff[symmetric]
  by (auto simp: result_simps split: if_splits)

lemma check_write_Inr:
  assumes "method \<noteq> GET"
    and "check_write env cfg method path request_path raw_body content_type origin host request_token = Inr (body, client)"
  shows "write_authorised env cfg origin host request_token"
    "\<exists>text. parse_write_body raw_body content_type = Inr text \<and> body_accepted env cfg path text body client"
    "parse_client_query env request_path = Inr client"
proof -
  have a: "allow_writes cfg" using assms(2) by (auto simp: check_write_def result_simps split: if_splits)
  show "write_authorised env cfg origin host request_token"
    unfolding write_checks_iff[OF assms(1) a, symmetric] using assms(2) a
    by (auto simp: check_write_def result_simps simp del: lit_simps)
  show "parse_client_query env request_path = Inr client"
    using assms(2) a by (auto simp: check_write_def result_simps simp del: lit_simps)
  show "\<exists>text. parse_write_body raw_body content_type = Inr text \<and> body_accepted env cfg path text body client"
    using assms(2) a write_accepted_items
    unfolding check_write_def body_accepted_def by (fastforce simp: result_simps simp del: lit_simps split: if_splits)
qed

text \<open>A request that is not a GET, case by case.\<close>

lemma write_gate_cases:
  assumes "method \<noteq> GET"
  shows "(\<exists>e. \<forall>s. dispatch_datastore_request env cfg be method request_path raw_body content_type origin host request_token inm s = (Inl e, s)) \<or>
    (\<exists>path text body client. device_path path \<and> write_authorised env cfg origin host request_token \<and>
       parse_write_body raw_body content_type = Inr text \<and> body_accepted env cfg path text body client \<and>
       parse_client_query env request_path = Inr client \<and>
       dispatch_datastore_request env cfg be method request_path raw_body content_type origin host request_token inm =
         bindS (case log_write be of None \<Rightarrow> retS () | Some logger \<Rightarrow> logger method path body) (\<lambda>_.
         bindS (run_post be path body client) (\<lambda>res.
         retS \<lparr>dr_response = dp_body (coerce_datastore_payload res), dr_path = path,
               dr_etag = dp_etag (coerce_datastore_payload res), dr_status = 200,
               dr_content_type = dp_content_type (coerce_datastore_payload res)\<rparr>)))"
proof (cases "urlparse (env_netloc_ok env) True request_path")
  case (Inl e)
  then show ?thesis by (simp add: dispatch_datastore_request_def)
next
  case (Inr u)
  show ?thesis
  proof (cases "normalize_path (env_netloc_ok env) (url_path u)")
    case (Inl e)
    then show ?thesis using Inr assms by (simp add: dispatch_datastore_request_def)
  next
    case path: (Inr path)
    have dev: "device_path path" using normalize_path_device[OF path] .
    let ?c = "check_write env cfg method path request_path raw_body content_type origin host request_token"
    show ?thesis
    proof (cases ?c)
      case (Inl e)
      then show ?thesis using Inr path assms by (simp add: dispatch_datastore_request_def dispatch_write_def)
    next
      case ok: (Inr bc)
      obtain body client where bc: "bc = (body, client)" by fastforce
      note c = check_write_Inr[OF assms ok[unfolded bc]]
      then obtain tx where t: "parse_write_body raw_body content_type = Inr tx" "body_accepted env cfg path tx body client" by blast
      show ?thesis
        by (intro disjI2 exI conjI, rule dev, rule c(1), rule t(1), rule t(2), rule c(3))
           (use Inr path assms ok bc in \<open>simp add: dispatch_datastore_request_def dispatch_write_def Let_def fun_eq_iff\<close>)
    qed
  qed
qed

text \<open>C3: The write gate. Whatever the backend does, a request that is not a GET either leaves it untouched and
  raises, or all of this holds: writes are enabled, the \<open>Host\<close> is a loopback host unless remote writes are
  allowed, an \<open>Origin\<close> is the host's own, the write token matches when one is required, the body is a JSON
  object that the schema accepts when validation is on and fits one frame, and the path is a datastore path.
  Then exactly the log and one device write are run, with that path, those bytes and that client.\<close>

theorem write_gate:
  assumes "method \<noteq> GET"
  shows "(\<exists>e. \<forall>s. dispatch_datastore_request env cfg be method request_path raw_body content_type origin host request_token inm s = (Inl e, s)) \<or>
    (\<exists>path text body client. device_path path \<and> write_authorised env cfg origin host request_token \<and>
       parse_write_body raw_body content_type = Inr text \<and> body_accepted env cfg path text body client \<and>
       parse_client_query env request_path = Inr client \<and>
       dispatch_datastore_request env cfg be method request_path raw_body content_type origin host request_token inm =
         bindS (case log_write be of None \<Rightarrow> retS () | Some logger \<Rightarrow> logger method path body) (\<lambda>_.
         bindS (run_post be path body client) (\<lambda>res.
         retS \<lparr>dr_response = dp_body (coerce_datastore_payload res), dr_path = path,
               dr_etag = dp_etag (coerce_datastore_payload res), dr_status = 200,
               dr_content_type = dp_content_type (coerce_datastore_payload res)\<rparr>)))"
  by (rule write_gate_cases[OF assms])

section \<open>One response per request\<close>

text \<open>Code that writes nothing to the client.\<close>

definition silent :: "'s conn \<Rightarrow> 's conn \<Rightarrow> bool" where
  "silent c c' \<longleftrightarrow> cn_pending c' = cn_pending c \<and> cn_sent c' = cn_sent c \<and> cn_started c' = cn_started c \<and>
     cn_timeout c' = cn_timeout c"

lemma silent_order: "reflp silent" "transp silent"
  by (auto simp: silent_def reflp_def transp_def)

lemma silent_steps [keeps_intros]:
  "keepsS silent set_close" "keepsS silent (on_state m)"
  by (auto simp: keepsS_def silent_def set_close_def on_state_def split: prod.splits)

lemma silent_read_exact [keeps_intros]: "keepsS silent (read_exact_body_bytes sv so n)"
  by (auto simp: keepsS_def silent_def read_exact_body_bytes_def finallyS_def whenS_def set_close_def Let_def
      split: body_read.splits)

lemma silent_read_raw_body [keeps_intros]: "keepsS silent (read_raw_body sv so rq)"
  unfolding read_raw_body_def
  by (auto intro!: keeps_intros silent_order split: option.splits sum.splits simp del: lit_simps)

lemma silent_close_get [keeps_intros]: "keepsS silent (close_get_connection_if_body_announced rq)"
  unfolding close_get_connection_if_body_announced_def whenS_def
  by (auto intro!: keeps_intros silent_order split: option.splits simp del: lit_simps)

lemma silent_handle_dispatch: "keepsS silent (handle_dispatch env sv be so rq)"
  unfolding handle_dispatch_def Let_def whenS_def
  by (auto intro!: keeps_intros silent_order)

text \<open>The header lines of a response, and the complete response.\<close>

definition result_body :: "dispatch_result \<Rightarrow> bytes" where
  "result_body result = (if dr_status result = 304 then [] else dr_response result)"

definition result_headers :: "pystr \<Rightarrow> dispatch_result \<Rightarrow> bool \<Rightarrow> (pystr \<times> pystr) list" where
  "result_headers method result close =
     (if dr_status result = 304 then []
      else [(lit ''Content-Type'',
             if truthy (dr_content_type result) then the (dr_content_type result)
             else response_content_type (result_body result))]) @
     [(lit ''Cache-Control'', lit ''no-cache'')] @
     (if method = GET \<and> dr_etag result \<noteq> None then [(lit ''ETag'', the (dr_etag result))] else []) @
     (if dr_status result = 304 then [] else [(lit ''Content-Length'', str_int (int (length (result_body result))))]) @
     (if close then [(lit ''Connection'', lit ''close'')] else [])"

definition response_items :: "nat \<Rightarrow> (pystr \<times> pystr) list \<Rightarrow> bytes \<Rightarrow> out_item list" where
  "response_items status hs body =
     StatusLine status # map (\<lambda>(k, v). HeaderLine k v) hs @ EndHeaders # (if body = [] then [] else [BodyBytes body])"

definition latin1 :: "pystr \<Rightarrow> bool" where
  "latin1 s = list_all (\<lambda>c. c < 256) s"

lemma latin1_lits: "latin1 (lit s)" "latin1 (str_int i)" "latin1 (response_content_type b)"
proof -
  show l: "latin1 (lit s)" for s
  proof (induction s)
    case (Cons c s)
    have "(of_char c :: nat) < 256" by (rule nat_of_char_less_256)
    with Cons show ?case by (simp add: latin1_def)
  qed (simp add: latin1_def)
  show "latin1 (str_int i)" using ascii_str_str_int[of i] by (auto simp: latin1_def ascii_str_def list_all_iff)
  show "latin1 (response_content_type b)"
    unfolding response_content_type_def datastore_body_content_type_def using l by (simp del: lit_simps)
qed

lemma send_header_ok: "latin1 v \<Longrightarrow> send_header k v = modS (\<lambda>c. c\<lparr>cn_pending := cn_pending c @ [HeaderLine k v]\<rparr>)"
  by (simp add: send_header_def latin1_def)

lemma send_header_bad: "\<not> latin1 v \<Longrightarrow> send_header k v = raiseS UnicodeEncodeError"
  by (simp add: send_header_def latin1_def)

definition healthy :: "sock \<Rightarrow> bool" where
  "healthy so \<longleftrightarrow> so_write so = (\<lambda>_ _. None)"

lemma wfile_write_healthy: "healthy so \<Longrightarrow> wfile_write so items = modS (\<lambda>c. c\<lparr>cn_sent := cn_sent c @ items\<rparr>)"
  by (simp add: healthy_def wfile_write_def modS_def)

lemma end_headers_healthy:
  "healthy so \<Longrightarrow> end_headers so = modS (\<lambda>c. c\<lparr>cn_sent := cn_sent c @ cn_pending c @ [EndHeaders], cn_pending := []\<rparr>)"
  by (rule ext) (simp add: end_headers_def wfile_write_healthy)

lemma send_close_header_eq:
  "send_close_header = modS (\<lambda>c. if cn_close c then c\<lparr>cn_pending := cn_pending c @ [HeaderLine (lit ''Connection'') (lit ''close'')]\<rparr> else c)"
  by (rule ext) (simp add: send_close_header_def whenS_def send_header_ok latin1_lits del: lit_simps)

lemma whenS_modS: "whenS b (modS f) = modS (if b then f else id)"
  by (rule ext) (simp add: whenS_def)

lemma whenS_send_header:
  "(b \<Longrightarrow> latin1 v) \<Longrightarrow>
   whenS b (send_header k v) = modS (if b then (\<lambda>c. c\<lparr>cn_pending := cn_pending c @ [HeaderLine k v]\<rparr>) else id)"
  by (cases b) (simp_all add: whenS_modS[symmetric] send_header_ok, simp_all add: whenS_def fun_eq_iff)

definition result_latin1 :: "pystr \<Rightarrow> dispatch_result \<Rightarrow> bool" where
  "result_latin1 method result \<longleftrightarrow> list_all (\<lambda>(k, v). latin1 v) (result_headers method result False)"

lemma send_result_ok:
  assumes "healthy so" "result_latin1 method result" "cn_pending c = []"
  shows "send_result so method result c =
    (Inr (), c\<lparr>cn_started := True,
       cn_sent := cn_sent c @ response_items (dr_status result) (result_headers method result (cn_close c)) (result_body result)\<rparr>)"
proof -
  let ?ct = "if truthy (dr_content_type result) then the (dr_content_type result) else response_content_type (result_body result)"
  have ct: "dr_status result \<noteq> 304 \<Longrightarrow> latin1 ?ct" and et: "method = GET \<and> dr_etag result \<noteq> None \<Longrightarrow> latin1 (the (dr_etag result))"
    using assms(2) by (auto simp: result_latin1_def result_headers_def split: if_splits)
  have w1: "whenS (dr_status result \<noteq> 304) (send_header k ?ct) =
      modS (if dr_status result \<noteq> 304 then (\<lambda>c. c\<lparr>cn_pending := cn_pending c @ [HeaderLine k ?ct]\<rparr>) else id)" for k
    by (rule whenS_send_header) (rule ct)
  have w2: "whenS (method = GET \<and> dr_etag result \<noteq> None) (send_header k (the (dr_etag result))) =
      modS (if method = GET \<and> dr_etag result \<noteq> None
            then (\<lambda>c. c\<lparr>cn_pending := cn_pending c @ [HeaderLine k (the (dr_etag result))]\<rparr>) else id)" for k
    by (rule whenS_send_header) (rule et)
  show ?thesis
    unfolding send_result_def result_body_def[symmetric] Let_def w1 w2
    using assms(1,3)
    by (simp add: send_response_def send_header_ok latin1_lits whenS_modS wfile_write_healthy end_headers_healthy
        send_close_header_eq response_items_def result_headers_def del: lit_simps)
qed

lemma send_result_bad:
  assumes "healthy so" "\<not> result_latin1 method result"
  shows "\<exists>c'. send_result so method result c = (Inl UnicodeEncodeError, c') \<and> cn_started c' \<and> cn_sent c' = cn_sent c \<and>
     cn_timeout c' = cn_timeout c"
proof -
  let ?ct = "if truthy (dr_content_type result) then the (dr_content_type result) else response_content_type (result_body result)"
  consider "dr_status result \<noteq> 304" "\<not> latin1 ?ct" |
    "dr_status result = 304 \<or> latin1 ?ct" "method = GET" "dr_etag result \<noteq> None" "\<not> latin1 (the (dr_etag result))"
    using assms(2) latin1_lits by (auto simp: result_latin1_def result_headers_def simp del: lit_simps split: if_splits)
  then show ?thesis
  proof cases
    case 1
    then show ?thesis unfolding send_result_def result_body_def[symmetric] Let_def
      by (simp add: send_response_def whenS_def send_header_bad del: lit_simps)
  next
    case 2
    then show ?thesis unfolding send_result_def result_body_def[symmetric] Let_def
      by (auto simp: send_response_def whenS_def send_header_ok latin1_lits send_header_bad simp del: lit_simps)
  qed
qed

lemma escape_char_ascii: "x \<in> set (escape_char c) \<Longrightarrow> x < 128"
proof -
  have "hex_lower d < 128" if "d < 16" for d using that by (simp add: hex_lower_def)
  then have "x \<in> set (u_escape k) \<Longrightarrow> x < 128" for k by (auto simp: u_escape_def)
  then show "x \<in> set (escape_char c) \<Longrightarrow> x < 128" by (auto simp: escape_char_def split: if_splits)
qed

lemma dump_string_ascii: "ascii_str (dump_string s)"
  using escape_char_ascii by (auto simp: ascii_str_def dump_string_def)

definition error_text :: "py_env \<Rightarrow> pystr \<Rightarrow> pystr" where
  "error_text env message = json_dumps (env_float_repr env) False (JObj [(lit ''error'', JStr message)])"

lemma error_body_eq: "error_body env message = Inr (map of_nat (error_text env message))"
proof -
  have "ascii_str (error_text env message)"
    using dump_string_ascii[of "lit ''error''"] dump_string_ascii[of message]
    by (auto simp: error_text_def ascii_str_def Let_def simp del: lit_simps) (auto simp: lit_def)
  then show ?thesis unfolding error_body_def error_text_def[symmetric] by (rule utf8_encode_ascii)
qed

lemma error_text_nonempty: "error_text env message \<noteq> []"
  by (simp add: error_text_def Let_def)

definition error_headers :: "bytes \<Rightarrow> bool \<Rightarrow> (pystr \<times> pystr) list" where
  "error_headers body close =
     [(lit ''Content-Type'', APPLICATION_JSON), (lit ''Content-Length'', str_int (int (length body)))] @
     (if close then [(lit ''Connection'', lit ''close'')] else [])"

lemma send_json_error_ok:
  assumes "healthy so" "cn_pending c = []"
  shows "send_json_error env so status message c =
    (Inr (), c\<lparr>cn_sent := cn_sent c @
       (let body = map of_nat (error_text env message) in response_items status (error_headers body (cn_close c)) body)\<rparr>)"
proof -
  have "latin1 APPLICATION_JSON" unfolding APPLICATION_JSON_def by (rule latin1_lits)
  then show ?thesis
    unfolding send_json_error_def error_body_eq using assms
    by (simp add: send_response_def send_header_ok latin1_lits wfile_write_healthy end_headers_healthy send_close_header_eq
        response_items_def error_headers_def error_text_nonempty Let_def del: lit_simps)
qed

lemma handle_error_unstarted:
  assumes "healthy so" "cn_pending c = []" "\<not> cn_started c"
  shows "\<exists>c'. handle_error env sv so exc_text rq e c = (Inr (), c') \<and>
    cn_timeout c' = cn_timeout c \<and> (rq_method rq \<noteq> GET \<longrightarrow> cn_close c') \<and>
    cn_sent c' = cn_sent c @
      (let body = map of_nat (error_text env (error_message sv exc_text e))
       in response_items (error_status e) (error_headers body (cn_close c')) body)"
proof (cases "rq_method rq = GET")
  case True
  then show ?thesis using assms send_json_error_ok[OF assms(1,2)] by (simp add: handle_error_def whenS_def Let_def)
next
  case False
  then show ?thesis using assms send_json_error_ok[OF assms(1), of "c\<lparr>cn_close := True\<rparr>"]
    by (simp add: handle_error_def whenS_def set_close_def Let_def)
qed

lemma error_status_not_304 [simp]: "error_status e \<noteq> 304"
  by (cases e) auto

text \<open>A response a client can read: the length is announced, and so is the close of the connection.\<close>

definition proper_response :: "nat \<Rightarrow> (pystr \<times> pystr) list \<Rightarrow> bytes \<Rightarrow> bool \<Rightarrow> bool" where
  "proper_response status hs body close \<longleftrightarrow>
     (if status = 304 then body = [] else (lit ''Content-Length'', str_int (int (length body))) \<in> set hs) \<and>
     (close \<longrightarrow> (lit ''Connection'', lit ''close'') \<in> set hs)"

lemma error_proper: "proper_response (error_status e) (error_headers body close) body close"
  by (simp add: proper_response_def error_headers_def del: lit_simps)

lemma result_proper:
  "proper_response (dr_status result) (result_headers method result close) (result_body result) close"
  by (simp add: proper_response_def result_headers_def result_body_def del: lit_simps)

text \<open>C30: One response per request. On a working socket every request, whatever the backend does and however it
  fails, is answered with exactly one complete response, whose \<open>Content-Length\<close> is the length of its body
  (none for 304), which announces the close of the connection when it closes; the socket's time-out is
  restored. The one exception is a device answer whose ETag or content type is not ISO-8859-1: nothing is
  sent and the connection is closed.\<close>

theorem one_response:
  assumes "healthy so" "cn_pending c = []"
  shows "\<exists>c'. handle_datastore_request env sv be so exc_text rq c = (Inr (), c') \<and> cn_timeout c' = cn_timeout c \<and>
    ((\<exists>status hs body. cn_sent c' = cn_sent c @ response_items status hs body \<and>
        proper_response status hs body (cn_close c')) \<or>
     (cn_sent c' = cn_sent c \<and> cn_close c' \<and>
      (\<exists>result. fst (handle_dispatch env sv be so rq (c\<lparr>cn_started := False\<rparr>)) = Inr result \<and>
         \<not> result_latin1 (rq_method rq) result)))"
proof -
  let ?c = "c\<lparr>cn_started := False\<rparr>"
  obtain r d where d: "handle_dispatch env sv be so rq ?c = (r, d)" by fastforce
  have s: "cn_pending d = []" "cn_sent d = cn_sent c" "\<not> cn_started d" "cn_timeout d = cn_timeout c"
    using silent_handle_dispatch[of env sv be so rq] d assms(2) by (auto simp: keepsS_def silent_def dest: spec[of _ ?c])
  have run: "handle_datastore_request env sv be so exc_text rq c =
      (case bindS (handle_dispatch env sv be so rq) (send_result so (rq_method rq)) ?c of
         (Inl e, t) \<Rightarrow> handle_error env sv so exc_text rq e t | (Inr x, t) \<Rightarrow> (Inr x, t))"
    by (simp add: handle_datastore_request_def onErrorS_def handle_main_def)
  show ?thesis
  proof (cases r)
    case (Inl e)
    then have "handle_datastore_request env sv be so exc_text rq c = handle_error env sv so exc_text rq e d"
      using d run by (simp add: bindS_apply(1))
    moreover obtain c' where "handle_error env sv so exc_text rq e d = (Inr (), c')" "cn_timeout c' = cn_timeout d"
      "cn_sent c' = cn_sent d @ (let body = map of_nat (error_text env (error_message sv exc_text e))
        in response_items (error_status e) (error_headers body (cn_close c')) body)"
      using handle_error_unstarted[OF assms(1) s(1,3), of env sv exc_text rq e] by blast
    ultimately show ?thesis using s error_proper[of e _ "cn_close c'"] unfolding Let_def by metis
  next
    case (Inr result)
    then have b: "bindS (handle_dispatch env sv be so rq) (send_result so (rq_method rq)) ?c = send_result so (rq_method rq) result d"
      using d by (simp add: bindS_apply(2))
    show ?thesis
    proof (cases "result_latin1 (rq_method rq) result")
      case True
      let ?d = "d\<lparr>cn_started := True, cn_sent := cn_sent d @
        response_items (dr_status result) (result_headers (rq_method rq) result (cn_close d)) (result_body result)\<rparr>"
      have "handle_datastore_request env sv be so exc_text rq c = (Inr (), ?d)"
        using send_result_ok[OF assms(1) True s(1)] run b by simp
      moreover have "cn_timeout ?d = cn_timeout c" "cn_close ?d = cn_close d" using s by simp_all
      moreover have "cn_sent ?d = cn_sent c @ response_items (dr_status result)
          (result_headers (rq_method rq) result (cn_close d)) (result_body result)" using s by simp
      ultimately show ?thesis using result_proper by metis
    next
      case False
      obtain t where t: "send_result so (rq_method rq) result d = (Inl UnicodeEncodeError, t)" "cn_started t"
        "cn_sent t = cn_sent d" "cn_timeout t = cn_timeout d" using send_result_bad[OF assms(1) False, of d] by blast
      then have "handle_datastore_request env sv be so exc_text rq c = (Inr (), t\<lparr>cn_close := True\<rparr>)"
        using run b by (simp add: handle_error_def whenS_def set_close_def)
      then show ?thesis using t s d Inr False by auto
    qed
  qed
qed


text \<open>C31: Errors are reported: when a request fails before its response is started, the client gets the status
  of the exception (403 refused, 422 invalid write, 413 too large, 408 slow body, 400 malformed, 503 no
  device, 504 no answer, 502 otherwise) and a JSON object with the message, which decodes to exactly that
  message; and a refused write closes the connection, so that an unread body is not taken for the next
  request.\<close>

theorem errors_reported:
  assumes "healthy so" "cn_pending c = []"
    and "handle_dispatch env sv be so rq (c\<lparr>cn_started := False\<rparr>) = (Inl e, d)"
    and "list_all scalar_char (error_message sv exc_text e)" "0 < limit"
  shows "\<exists>c' body tx. handle_datastore_request env sv be so exc_text rq c = (Inr (), c') \<and>
    cn_sent c' = cn_sent c @ response_items (error_status e) (error_headers body (cn_close c')) body \<and>
    utf8_decode body = Inr tx \<and>
    json_loads limit tx = Inr (JObj [(lit ''error'', JStr (error_message sv exc_text e))]) \<and>
    (rq_method rq \<noteq> GET \<longrightarrow> cn_close c')"
proof -
  let ?m = "error_message sv exc_text e" and ?v = "JObj [(lit ''error'', JStr (error_message sv exc_text e))]"
  let ?body = "map of_nat (error_text env ?m) :: bytes"
  have s: "cn_pending d = []" "cn_sent d = cn_sent c" "\<not> cn_started d"
    using silent_handle_dispatch[of env sv be so rq] assms(2,3)
    by (auto simp: keepsS_def silent_def dest: spec[of _ "c\<lparr>cn_started := False\<rparr>"])
  have run: "handle_datastore_request env sv be so exc_text rq c = handle_error env sv so exc_text rq e d"
    using assms(3) by (simp add: handle_datastore_request_def onErrorS_def handle_main_def bindS_apply(1))
  obtain c' where c': "handle_error env sv so exc_text rq e d = (Inr (), c')" "rq_method rq \<noteq> GET \<longrightarrow> cn_close c'"
    "cn_sent c' = cn_sent d @ response_items (error_status e) (error_headers ?body (cn_close c')) ?body"
    using handle_error_unstarted[OF assms(1) s(1,3), of env sv exc_text rq e] unfolding Let_def by blast
  have "json_plain ?v" "json_depth ?v \<le> limit" using assms(4,5) by (simp_all add: scalar_char_def)
  from json_loads_dumps[OF this, of "env_float_repr env" False]
  have j: "json_loads limit (error_text env ?m) = Inr ?v" by (simp add: error_text_def Let_def del: lit_simps)
  have dec: "utf8_decode ?body = Inr (error_text env ?m)"
    by (rule utf8_decode_encode) (use error_body_eq[of env ?m] in \<open>simp add: error_body_def error_text_def\<close>)
  show ?thesis using run c' s(2) dec j by metis
qed

text \<open>Sending does not touch the backend.\<close>

definition same_state :: "'s conn \<Rightarrow> 's conn \<Rightarrow> bool" where
  "same_state c c' \<longleftrightarrow> cn_state c' = cn_state c"

lemma same_state_order: "reflp same_state" "transp same_state"
  by (auto simp: same_state_def reflp_def transp_def)

lemma same_state_steps [keeps_intros]:
  "keepsS same_state (wfile_write so items)" "keepsS same_state set_close" "keepsS same_state (send_response k)"
  "keepsS same_state (send_header n v)"
  by (auto simp: keepsS_def same_state_def wfile_write_def set_close_def send_response_def send_header_def split: option.splits)

lemma same_state_headers [keeps_intros]: "keepsS same_state (end_headers so)" "keepsS same_state send_close_header"
  by (auto simp: keepsS_def same_state_def end_headers_def wfile_write_def send_close_header_def whenS_def send_header_def
      bindS_def split: option.splits)

lemma same_state_send_json_error [keeps_intros]: "keepsS same_state (send_json_error env so status m)"
  unfolding send_json_error_def by (intro keeps_intros same_state_order)

lemma error_keeps_state: "keepsS same_state (handle_error env sv so exc_text rq e :: ('s conn, unit) sop)"
proof -
  have "keepsS same_state (set_close :: ('s conn, unit) sop)"
    "keepsS same_state (send_json_error env so (error_status e) (error_message sv exc_text e) :: ('s conn, unit) sop)"
    by (rule keeps_intros)+
  then have "keepsS same_state (\<lambda>c :: 's conn. if cn_started c then set_close c
      else send_json_error env so (error_status e) (error_message sv exc_text e) c)"
    unfolding keepsS_def by simp
  then show ?thesis unfolding handle_error_def whenS_def by (intro keeps_intros same_state_order)
qed

text \<open>Reading never writes: the answer to a GET does not depend on the write operation, the write log, the
  write settings or the headers that guard writes.\<close>

lemma get_never_writes:
  "dispatch_datastore_request env cfg be GET request_path raw_body content_type origin host request_token inm =
   dispatch_datastore_request env cfg' (be\<lparr>run_post := post', log_write := log'\<rparr>) GET request_path raw_body' content_type'
     origin' host' request_token' inm"
  by (simp add: dispatch_datastore_request_def dispatch_get_def cong: if_cong)

text \<open>C32: The body of a refused write is never read: when the headers do not authorise the write, the request is
  answered without a read of the socket and without touching the backend.\<close>

theorem refused_write_unread:
  assumes "rq_method rq \<noteq> GET"
    and "\<not> write_authorised env (sv_dispatcher sv) (rq_origin rq) (rq_host rq) (read_write_token rq)"
  shows "handle_datastore_request env sv be so exc_text rq c =
      handle_datastore_request env sv be (so\<lparr>so_read := read'\<rparr>) exc_text rq c \<and>
    cn_state (snd (handle_datastore_request env sv be so exc_text rq c)) = cn_state c"
proof -
  obtain e where e: "validate_write_headers env (sv_dispatcher sv) (rq_method rq) (rq_origin rq) (rq_host rq) (read_write_token rq) = Inl e"
    using validate_write_headers_iff[OF assms(1), of env "sv_dispatcher sv" "rq_origin rq" "rq_host rq" "read_write_token rq"] assms(2)
    by (metis (full_types) old.unit.exhaust sum.exhaust)
  have d: "handle_dispatch env sv be s' rq c1 = (Inl e, c1)" for s' c1
    using assms(1) e by (simp add: handle_dispatch_def Let_def whenS_def)
  have w: "wfile_write (so\<lparr>so_read := read'\<rparr>) items = wfile_write so items" for items by (simp add: wfile_write_def)
  have eh: "end_headers (so\<lparr>so_read := read'\<rparr>) = end_headers so" by (simp add: end_headers_def w)
  have er: "handle_error env sv (so\<lparr>so_read := read'\<rparr>) exc_text rq e = handle_error env sv so exc_text rq e"
    by (simp add: handle_error_def send_json_error_def w eh cong: if_cong)
  have "same_state (c\<lparr>cn_started := False\<rparr>) (snd (handle_error env sv so exc_text rq e (c\<lparr>cn_started := False\<rparr>)))"
    using error_keeps_state[of env sv so exc_text rq e] by (auto simp: keepsS_def)
  then show ?thesis
    by (simp add: handle_datastore_request_def onErrorS_def handle_main_def bindS_apply(1)[OF d] er same_state_def)
qed

section \<open>Concrete runs\<close>

definition demo_dispatcher :: dispatcher where
  "demo_dispatcher = \<lparr>allow_writes = True, write_token = Some (lit ''secret''), allow_remote_writes = False,
     validate_writes = False, allow_unknown_writes = False\<rparr>"

definition demo_backend :: "nat backend" where
  "demo_backend = \<lparr>run_get = (\<lambda>_ _ _ _ n. (Inr (RawBytes (blit ''{}'')), n + 1)),
     run_post = (\<lambda>_ _ _ n. (Inr (RawBytes []), n + 1)), log_write = None, status_provider = None\<rparr>"

text \<open>A write without the token leaves the backend alone.\<close>

theorem write_gate_witness:
  "\<exists>e. \<forall>s. dispatch_datastore_request any_env demo_dispatcher demo_backend (lit ''POST'') (lit ''/datastore/host/os'')
     (lit ''{}'') [] None (Some (lit ''localhost'')) None None s = (Inl e, s)"
proof -
  have m: "lit ''POST'' \<noteq> GET" by (simp add: GET_def)
  have "\<not> write_authorised any_env demo_dispatcher None (Some (lit ''localhost'')) None"
    by (simp add: write_authorised_def demo_dispatcher_def truthy_def del: lit_simps)
  with write_gate[OF m, of any_env demo_dispatcher demo_backend "lit ''/datastore/host/os''" "lit ''{}''" "[]" None "Some (lit ''localhost'')" None None]
  show ?thesis by blast
qed

definition demo_request :: request where
  "demo_request = \<lparr>rq_method = lit ''POST'', rq_path = lit ''/datastore/host/os'', rq_origin = None,
     rq_host = Some (lit ''localhost''), rq_token_header = None, rq_authorization = None, rq_transfer_encoding = None,
     rq_content_length = None, rq_content_type = None, rq_if_none_match = None\<rparr>"

definition demo_server :: server where
  "demo_server = \<lparr>sv_dispatcher = demo_dispatcher\<lparr>allow_writes := False\<rparr>, sv_debug = False,
     sv_max_write_body_bytes = DEFAULT_MAX_WRITE_BODY_BYTES, sv_write_body_read_timeout_s = Some 5\<rparr>"

definition demo_sock :: sock where
  "demo_sock = \<lparr>so_write = (\<lambda>_ _. None), so_read = (\<lambda>_ _. ReadTimeout)\<rparr>"

definition demo_conn :: "nat conn" where
  "demo_conn = \<lparr>cn_close = False, cn_started = False, cn_pending = [], cn_sent = [], cn_timeout = Some 65, cn_state = 0\<rparr>"

lemma demo_conn_simps: "healthy demo_sock" "cn_pending demo_conn = []" "cn_sent demo_conn = []"
  by (simp_all add: healthy_def demo_sock_def demo_conn_def)

lemma demo_refused:
  "handle_dispatch any_env demo_server demo_backend demo_sock demo_request (demo_conn\<lparr>cn_started := False\<rparr>) =
   (Inl WritesDisabled, demo_conn\<lparr>cn_started := False\<rparr>)"
  by (simp add: handle_dispatch_def Let_def demo_request_def GET_def whenS_def validate_write_headers_def demo_server_def
      demo_dispatcher_def)

theorem errors_reported_witness:
  "\<exists>c' body tx. handle_datastore_request any_env demo_server demo_backend demo_sock (\<lambda>_. lit ''no'') demo_request demo_conn = (Inr (), c') \<and>
    cn_sent c' = response_items 403 (error_headers body (cn_close c')) body \<and> utf8_decode body = Inr tx \<and>
    json_loads 5 tx = Inr (JObj [(lit ''error'', JStr (lit ''no''))]) \<and> cn_close c'"
proof -
  have m: "error_message demo_server (\<lambda>_. lit ''no'') WritesDisabled = lit ''no''"
    by (simp add: error_message_def public_message_def)
  have "list_all scalar_char (lit ''no'')" by (simp add: scalar_char_def)
  moreover have "rq_method demo_request \<noteq> GET" by (simp add: demo_request_def GET_def)
  ultimately show ?thesis
    using errors_reported[OF demo_conn_simps(1,2) demo_refused, of "\<lambda>_. lit ''no''" 5] demo_conn_simps(3)
    by (simp add: m del: lit_simps)
qed

theorem one_response_witness:
  "\<exists>c' status hs body. handle_datastore_request any_env demo_server demo_backend demo_sock (\<lambda>_. lit ''no'') demo_request demo_conn = (Inr (), c') \<and>
    cn_timeout c' = Some 65 \<and> cn_sent c' = response_items status hs body \<and> proper_response status hs body (cn_close c')"
proof -
  have "cn_timeout demo_conn = Some 65" by (simp add: demo_conn_def)
  then show ?thesis
    using one_response[OF demo_conn_simps(1,2), of any_env demo_server demo_backend "\<lambda>_. lit ''no''" demo_request] demo_conn_simps(3)
    by (auto simp: demo_refused simp del: lit_simps)
qed

theorem refused_write_unread_witness:
  "cn_state (snd (handle_datastore_request any_env demo_server demo_backend demo_sock (\<lambda>_. lit ''no'') demo_request demo_conn)) = 0"
proof -
  have "rq_method demo_request \<noteq> GET"
    "\<not> write_authorised any_env (sv_dispatcher demo_server) (rq_origin demo_request) (rq_host demo_request) (read_write_token demo_request)"
    by (simp_all add: demo_request_def GET_def write_authorised_def demo_server_def)
  from refused_write_unread[OF this, of demo_backend demo_sock "\<lambda>_. lit ''no''" demo_conn "\<lambda>_ _. ReadTimeout"]
  have "cn_state (snd (handle_datastore_request any_env demo_server demo_backend demo_sock (\<lambda>_. lit ''no'') demo_request demo_conn)) =
    cn_state demo_conn" by blast
  then show ?thesis by (simp add: demo_conn_def del: lit_simps)
qed

text \<open>An ETag outside ISO-8859-1 cannot be sent: the client gets no response at all.\<close>

lemma wide_etag_not_sent:
  "\<not> result_latin1 GET \<lparr>dr_response = [], dr_path = DATASTORE, dr_etag = Some [0x2603], dr_status = 200, dr_content_type = None\<rparr>"
  by (simp add: result_latin1_def result_headers_def latin1_def)

end
