(* ===== verification/Motu_Device.thy ===== *)
theory Motu_Device
  imports Motu_Session "HOL-Library.Product_Lexorder" "HOL-Library.List_Lexorder"
begin

unbundle bit_operations_syntax

text \<open>
  Device discovery in sysfs (\<^verbatim>\<open>motu_proxy/device.py\<close>). The file system is an argument: what listing a
  directory, reading a file and testing for one give, or the \<open>OSError\<close> they raise. A path is the list of its
  components; the sorted entries of one directory are sorted by name.
\<close>

section \<open>Files\<close>

type_synonym path = "pystr list"

record fs =
  fs_iterdir :: "path \<Rightarrow> pystr list result"
  fs_read :: "path \<Rightarrow> bytes result"
  fs_exists :: "path \<Rightarrow> bool result"

text \<open>\<open>FileNotFoundError\<close> and \<open>PermissionError\<close> are the \<open>OSError\<close> with \<open>ENOENT\<close>, and with \<open>EPERM\<close> or \<open>EACCES\<close>.\<close>

definition file_not_found :: "exc \<Rightarrow> bool" where
  "file_not_found e \<longleftrightarrow> e = OSError 2"

definition permission_error :: "exc \<Rightarrow> bool" where
  "permission_error e \<longleftrightarrow> e = OSError 1 \<or> e = OSError 13"

text \<open>Text mode with \<open>encoding="ascii", errors="replace"\<close> and universal newlines.\<close>

definition decode_ascii :: "bytes \<Rightarrow> pystr" where
  "decode_ascii b = replace_cr (replace_crlf (map (\<lambda>x. if unat x < 128 then unat x else 0xFFFD) b))"

definition read_text :: "fs \<Rightarrow> path \<Rightarrow> pystr result" where
  "read_text fs p = bindR (fs_read fs p) (\<lambda>b. Inr (py_strip (decode_ascii b)))"

definition read_optional_text :: "fs \<Rightarrow> path \<Rightarrow> pystr result" where
  "read_optional_text fs p =
     (case read_text fs p of Inl e \<Rightarrow> if file_not_found e then Inr [] else Inl e | Inr t \<Rightarrow> Inr t)"

text \<open>\<open>int(s, 16)\<close>: as \<open>int(s, 10)\<close>, with an optional prefix \<open>0x\<close> that an underscore may follow.\<close>

definition hex_value :: "nat \<Rightarrow> nat option" where
  "hex_value c =
     (case decimal_digit c of
        Some d \<Rightarrow> Some d
      | None \<Rightarrow>
          if 65 \<le> c \<and> c \<le> 70 then Some (c - 55) else if 97 \<le> c \<and> c \<le> 102 then Some (c - 87) else None)"

fun hex_run :: "bool \<Rightarrow> nat \<Rightarrow> pystr \<Rightarrow> nat option" where
  "hex_run prev acc [] = (if prev then Some acc else None)"
| "hex_run prev acc (c # cs) =
     (if c = 95 then (if prev \<and> cs \<noteq> [] then hex_run False acc cs else None)
      else case hex_value c of None \<Rightarrow> None | Some d \<Rightarrow> hex_run True (16 * acc + d) cs)"

definition hex_unsigned :: "pystr \<Rightarrow> nat option" where
  "hex_unsigned s =
     (if prefix (lit ''0x'') s \<or> prefix (lit ''0X'') s
      then (case drop 2 s of
              c # cs \<Rightarrow> if c = 95 then hex_run False 0 cs else hex_run False 0 (c # cs)
            | [] \<Rightarrow> None)
      else hex_run False 0 s)"

definition int_hex :: "pystr \<Rightarrow> int option" where
  "int_hex s =
     (case strip_by int_space s of
        [] \<Rightarrow> None
      | c # cs \<Rightarrow>
          if c = 45 then map_option (\<lambda>n. - int n) (hex_unsigned cs)
          else if c = 43 then map_option int (hex_unsigned cs)
          else map_option int (hex_unsigned (c # cs)))"

definition parse_hex_file :: "fs \<Rightarrow> path \<Rightarrow> int result" where
  "parse_hex_file fs p =
     bindR (read_text fs p) (\<lambda>t. case int_hex t of None \<Rightarrow> Inl ValueError | Some i \<Rightarrow> Inr i)"

section \<open>The control interface\<close>

record endpoint =
  ep_address :: int
  ep_max_packet_size :: int

definition parse_endpoint :: "fs \<Rightarrow> path \<Rightarrow> endpoint option result" where
  "parse_endpoint fs p =
     (if \<not> prefix (lit ''ep_'') (last p) then Inr None
      else case int_hex (drop 3 (last p)) of
             None \<Rightarrow> Inr None
           | Some address \<Rightarrow>
               bindR (read_optional_text fs (p @ [lit ''type''])) (\<lambda>ep_type.
               if ep_type \<noteq> [] \<and> py_lower ep_type \<noteq> lit ''bulk'' then Inr None
               else
                 (case parse_hex_file fs (p @ [lit ''wMaxPacketSize'']) of
                    Inl e \<Rightarrow>
                      if file_not_found e \<or> e = ValueError
                      then Inr (Some \<lparr>ep_address = address, ep_max_packet_size = int DEFAULT_MAX_USB_CHUNK\<rparr>)
                      else Inl e
                  | Inr m \<Rightarrow> Inr (Some \<lparr>ep_address = address, ep_max_packet_size = m\<rparr>))))"

definition is_in :: "endpoint \<Rightarrow> bool" where
  "is_in ep \<longleftrightarrow> ep_address ep AND 0x80 \<noteq> 0"

text \<open>The errors after which an interface or a device is skipped.\<close>

definition skipped :: "exc \<Rightarrow> bool" where
  "skipped e \<longleftrightarrow> file_not_found e \<or> permission_error e \<or> e = ValueError"

definition listing_skipped :: "exc \<Rightarrow> bool" where
  "listing_skipped e \<longleftrightarrow> file_not_found e \<or> permission_error e"

type_synonym candidate = "int \<times> int \<times> int \<times> int"

text \<open>\<open>try: r except E: continue\<close>: what is skipped gives no candidate.\<close>

definition skip_on :: "(exc \<Rightarrow> bool) \<Rightarrow> 'a result \<Rightarrow> ('a \<Rightarrow> 'b option result) \<Rightarrow> 'b option result" where
  "skip_on p r f = (case r of Inl e \<Rightarrow> if p e then Inr None else Inl e | Inr x \<Rightarrow> f x)"

definition interface_candidate :: "fs \<Rightarrow> path \<Rightarrow> candidate option result" where
  "interface_candidate fs p =
     skip_on skipped (parse_hex_file fs (p @ [lit ''bInterfaceClass''])) (\<lambda>interface_class.
     skip_on skipped (parse_hex_file fs (p @ [lit ''bInterfaceNumber''])) (\<lambda>interface_number.
     if interface_class \<noteq> 0xFF then Inr None
     else
       bindR (fs_exists fs (p @ [lit ''driver''])) (\<lambda>bound.
       if bound then Inr None
       else
         skip_on listing_skipped (fs_iterdir fs p) (\<lambda>names.
         bindR (mapR (\<lambda>n. parse_endpoint fs (p @ [n])) (sort names)) (\<lambda>eps.
         let endpoints = List.map_filter id eps;
             bulk_in = sort_key ep_address (filter is_in endpoints);
             bulk_out = sort_key ep_address (filter (\<lambda>ep. \<not> is_in ep) endpoints)
         in if bulk_in = [] \<or> bulk_out = [] then Inr None
            else Inr (Some (interface_number, ep_address (hd bulk_out), ep_address (hd bulk_in),
                       max (ep_max_packet_size (hd bulk_in)) (ep_max_packet_size (hd bulk_out)))))))))"

definition discover_control_interface :: "fs \<Rightarrow> path \<Rightarrow> pystr \<Rightarrow> candidate option result" where
  "discover_control_interface fs sysfs_root device =
     (case fs_iterdir fs sysfs_root of
        Inl e \<Rightarrow> if listing_skipped e then Inr None else Inl e
      | Inr names \<Rightarrow>
          bindR (mapR (\<lambda>n. interface_candidate fs (sysfs_root @ [n]))
                   (filter (\<lambda>n. prefix (device @ lit '':1.'') n) (sort names))) (\<lambda>cs.
          let candidates = List.map_filter id cs
          in Inr (if candidates = [] then None else Some (hd (sort candidates)))))"

section \<open>Finding the device\<close>

record usb_device_info =
  di_sysfs_path :: path
  di_devfs_path :: path
  di_serial :: pystr
  di_product :: pystr
  di_interface :: int
  di_ep_out :: int
  di_ep_in :: int
  di_max_packet_size :: int

record find_args =
  fa_vid :: int
  fa_pid :: int
  fa_serial :: "pystr option"
  fa_sysfs_root :: path
  fa_devfs_root :: path
  fa_interface :: "int option"
  fa_ep_out :: "int option"
  fa_ep_in :: "int option"

text \<open>\<open>f"{n:03d}"\<close>\<close>

definition fmt_03d :: "int \<Rightarrow> pystr" where
  "fmt_03d n =
     (let ds = digits_nat (nat \<bar>n\<bar>); w = (if n < 0 then 2 else 3)
      in (if n < 0 then [45] else []) @ replicate (w - length ds) 48 @ ds)"

datatype scan = NotMatched | NoControl | Matched usb_device_info

definition manual_overrides :: "find_args \<Rightarrow> (int \<times> int \<times> int) option" where
  "manual_overrides a =
     (case (fa_interface a, fa_ep_out a, fa_ep_in a) of (Some i, Some out, Some inp) \<Rightarrow> Some (i, out, inp) | _ \<Rightarrow> None)"

definition partial_overrides :: "find_args \<Rightarrow> bool" where
  "partial_overrides a \<longleftrightarrow>
     (fa_interface a \<noteq> None \<or> fa_ep_out a \<noteq> None \<or> fa_ep_in a \<noteq> None) \<and> manual_overrides a = None"

definition serial_wanted :: "find_args \<Rightarrow> pystr option" where
  "serial_wanted a = (case fa_serial a of Some s \<Rightarrow> if s = [] then None else Some s | None \<Rightarrow> None)"

definition read_decimal :: "fs \<Rightarrow> path \<Rightarrow> int result" where
  "read_decimal fs p = bindR (read_text fs p) (\<lambda>t. case py_int t of None \<Rightarrow> Inl ValueError | Some i \<Rightarrow> Inr i)"

text \<open>The identity files of a device directory: serial, product, bus and device numbers; \<open>None\<close> for another serial.\<close>

definition read_identity :: "fs \<Rightarrow> find_args \<Rightarrow> path \<Rightarrow> (pystr \<times> pystr \<times> int \<times> int) option result" where
  "read_identity fs a p =
     bindR (read_optional_text fs (p @ [lit ''serial''])) (\<lambda>device_serial.
     if \<exists>s \<in> set_option (serial_wanted a). device_serial \<noteq> s then Inr None
     else
       bindR (read_optional_text fs (p @ [lit ''product''])) (\<lambda>device_product.
       bindR (read_decimal fs (p @ [lit ''busnum''])) (\<lambda>bus.
       bindR (read_decimal fs (p @ [lit ''devnum''])) (\<lambda>dev.
       Inr (Some (device_serial, device_product, bus, dev))))))"

definition device_info :: "find_args \<Rightarrow> path \<Rightarrow> pystr \<times> pystr \<times> int \<times> int \<Rightarrow> candidate \<Rightarrow> usb_device_info" where
  "device_info a p ident found =
     (case ident of (device_serial, device_product, bus, dev) \<Rightarrow>
      case found of (i, out, inp, packet) \<Rightarrow>
      case (case manual_overrides a of None \<Rightarrow> (i, out, inp) | Some m \<Rightarrow> m) of (i, out, inp) \<Rightarrow>
        \<lparr>di_sysfs_path = p, di_devfs_path = fa_devfs_root a @ [fmt_03d bus, fmt_03d dev], di_serial = device_serial,
         di_product = device_product, di_interface = i, di_ep_out = out, di_ep_in = inp, di_max_packet_size = packet\<rparr>)"

text \<open>The body of the loop over the device directories.\<close>

definition scan_device :: "fs \<Rightarrow> find_args \<Rightarrow> pystr \<Rightarrow> scan result" where
  "scan_device fs a name =
     (let p = fa_sysfs_root a @ [name] in
      case bindR (parse_hex_file fs (p @ [lit ''idVendor''])) (\<lambda>v.
           bindR (parse_hex_file fs (p @ [lit ''idProduct''])) (\<lambda>d. Inr (v, d))) of
        Inl e \<Rightarrow> if skipped e then Inr NotMatched else Inl e
      | Inr (device_vid, device_pid) \<Rightarrow>
          if device_vid \<noteq> fa_vid a \<or> device_pid \<noteq> fa_pid a then Inr NotMatched
          else
            (case read_identity fs a p of
               Inl e \<Rightarrow> if skipped e then Inr NotMatched else Inl e
             | Inr None \<Rightarrow> Inr NotMatched
             | Inr (Some ident) \<Rightarrow>
                 bindR (discover_control_interface fs (fa_sysfs_root a) name) (\<lambda>discovered.
                 case discovered of
                   Some found \<Rightarrow> Inr (Matched (device_info a p ident found))
                 | None \<Rightarrow>
                     (case manual_overrides a of
                        Some (i, out, inp) \<Rightarrow> Inr (Matched (device_info a p ident (i, out, inp, int DEFAULT_MAX_USB_CHUNK)))
                      | None \<Rightarrow> if serial_wanted a \<noteq> None then Inl NoControlInterfaceFound else Inr NoControl))))"

fun matches_of :: "scan list \<Rightarrow> usb_device_info list" where
  "matches_of [] = []"
| "matches_of (Matched i # ss) = i # matches_of ss"
| "matches_of (_ # ss) = matches_of ss"

definition find_motu_device :: "fs \<Rightarrow> find_args \<Rightarrow> usb_device_info result" where
  "find_motu_device fs a =
     (if partial_overrides a then Inl (DeviceDiscoveryError False)
      else
        case fs_iterdir fs (fa_sysfs_root a) of
          Inl e \<Rightarrow>
            if file_not_found e then Inl (DeviceDiscoveryError False)
            else if permission_error e then Inl (DeviceDiscoveryError True) else Inl e
        | Inr names \<Rightarrow>
            bindR (mapR (scan_device fs a) (sort names)) (\<lambda>scans.
            case matches_of scans of
              [] \<Rightarrow> Inl (if NoControl \<in> set scans then NoControlInterfaceFound else NoDeviceFound)
            | [i] \<Rightarrow> Inr i
            | _ \<Rightarrow> Inl MultipleDevicesFound))"

section \<open>What is found\<close>

lemma sort_key_hd:
  fixes f :: "'a \<Rightarrow> 'b :: linorder"
  assumes "xs \<noteq> []"
  shows "hd (sort_key f xs) \<in> set xs" "x \<in> set xs \<Longrightarrow> f (hd (sort_key f xs)) \<le> f x"
proof -
  have ne: "sort_key f xs \<noteq> []" using assms by (metis length_0_conv length_sort)
  then show "hd (sort_key f xs) \<in> set xs" by (metis hd_in_set set_sort)
  have "sorted (map f (sort_key f xs))" by simp
  then show "x \<in> set xs \<Longrightarrow> f (hd (sort_key f xs)) \<le> f x"
    using ne by (cases "sort_key f xs") (auto simp flip: set_sort[of f xs])
qed

lemma map_filter_id: "x \<in> set (List.map_filter id ys) \<longleftrightarrow> Some x \<in> set ys"
  by (induction ys) (auto simp: List.map_filter_def)

lemma mapR_member: "mapR f xs = Inr ys \<Longrightarrow> y \<in> set ys \<longleftrightarrow> (\<exists>x\<in>set xs. f x = Inr y)"
  unfolding mapR_Inr_iff by (induction xs ys rule: list_all2_induct) auto

lemma skip_on_Some: "skip_on p r f = Inr (Some y) \<longleftrightarrow> (\<exists>x. r = Inr x \<and> f x = Inr (Some y))"
  by (auto simp: skip_on_def split: sum.splits)

text \<open>An unbound vendor-specific interface with its lowest bulk endpoint of each direction.\<close>

definition control_interface :: "fs \<Rightarrow> path \<Rightarrow> candidate \<Rightarrow> bool" where
  "control_interface fs p c \<longleftrightarrow>
     (case c of (number, out, inp, packet) \<Rightarrow>
        parse_hex_file fs (p @ [lit ''bInterfaceClass'']) = Inr 0xFF \<and>
        parse_hex_file fs (p @ [lit ''bInterfaceNumber'']) = Inr number \<and>
        fs_exists fs (p @ [lit ''driver'']) = Inr False \<and>
        (\<exists>names a b. fs_iterdir fs p = Inr names \<and>
           (\<exists>n\<in>set names. parse_endpoint fs (p @ [n]) = Inr (Some a)) \<and> is_in a \<and> ep_address a = inp \<and>
           (\<exists>n\<in>set names. parse_endpoint fs (p @ [n]) = Inr (Some b)) \<and> \<not> is_in b \<and> ep_address b = out \<and>
           (\<forall>n\<in>set names. \<forall>e. parse_endpoint fs (p @ [n]) = Inr (Some e) \<longrightarrow>
              (if is_in e then inp \<le> ep_address e else out \<le> ep_address e)) \<and>
           packet = max (ep_max_packet_size a) (ep_max_packet_size b)))"

lemma interface_candidate_sound:
  assumes "interface_candidate fs p = Inr (Some c)"
  shows "control_interface fs p c"
proof -
  obtain number names eps where h: "parse_hex_file fs (p @ [lit ''bInterfaceClass'']) = Inr 0xFF"
    "parse_hex_file fs (p @ [lit ''bInterfaceNumber'']) = Inr number" "fs_exists fs (p @ [lit ''driver'']) = Inr False"
    "fs_iterdir fs p = Inr names" "mapR (\<lambda>n. parse_endpoint fs (p @ [n])) (sort names) = Inr eps"
    and g: "(let endpoints = List.map_filter id eps; bulk_in = sort_key ep_address (filter is_in endpoints);
             bulk_out = sort_key ep_address (filter (\<lambda>ep. \<not> is_in ep) endpoints)
         in if bulk_in = [] \<or> bulk_out = [] then Inr None
            else Inr (Some (number, ep_address (hd bulk_out), ep_address (hd bulk_in),
                       max (ep_max_packet_size (hd bulk_in)) (ep_max_packet_size (hd bulk_out))))) = (Inr (Some c) :: candidate option result)"
    using assms unfolding interface_candidate_def
    by (auto simp: skip_on_Some result_simps simp del: lit_simps split: if_splits)
  define ins outs where "ins = filter is_in (List.map_filter id eps)" and "outs = filter (\<lambda>ep. \<not> is_in ep) (List.map_filter id eps)"
  let ?a = "hd (sort_key ep_address ins)" and ?b = "hd (sort_key ep_address outs)"
  have ne: "ins \<noteq> []" "outs \<noteq> []" and c: "c = (number, ep_address ?b, ep_address ?a, max (ep_max_packet_size ?a) (ep_max_packet_size ?b))"
    using g unfolding Let_def ins_def[symmetric] outs_def[symmetric] by (auto split: if_splits)
  have mem: "Some e \<in> set eps \<longleftrightarrow> (\<exists>n\<in>set names. parse_endpoint fs (p @ [n]) = Inr (Some e))" for e
    using mapR_member[OF h(5), of "Some e"] by simp
  have "?a \<in> set ins" "?b \<in> set outs" using ne by (auto intro: sort_key_hd(1))
  then have ab: "\<exists>n\<in>set names. parse_endpoint fs (p @ [n]) = Inr (Some ?a)" "is_in ?a"
    "\<exists>n\<in>set names. parse_endpoint fs (p @ [n]) = Inr (Some ?b)" "\<not> is_in ?b"
    by (auto simp: ins_def outs_def map_filter_id mem)
  have low: "if is_in e then ep_address ?a \<le> ep_address e else ep_address ?b \<le> ep_address e"
    if "n \<in> set names" "parse_endpoint fs (p @ [n]) = Inr (Some e)" for n e
  proof -
    have "Some e \<in> set eps" using that mem by blast
    then show ?thesis
      using sort_key_hd(2)[OF ne(1), of e ep_address] sort_key_hd(2)[OF ne(2), of e ep_address]
      by (simp add: ins_def outs_def map_filter_id)
  qed
  show ?thesis unfolding control_interface_def c prod.case
    using h(1-4) ab low by blast
qed

lemma discover_sound:
  assumes "discover_control_interface fs base device = Inr (Some c)"
  shows "\<exists>names n. fs_iterdir fs base = Inr names \<and> n \<in> set names \<and> prefix (device @ lit '':1.'') n \<and>
    control_interface fs (base @ [n]) c \<and>
    (\<forall>m\<in>set names. \<forall>d. prefix (device @ lit '':1.'') m \<longrightarrow> interface_candidate fs (base @ [m]) = Inr (Some d) \<longrightarrow> c \<le> d)"
proof -
  obtain names cs where h: "fs_iterdir fs base = Inr names"
    "mapR (\<lambda>n. interface_candidate fs (base @ [n])) (filter (\<lambda>n. prefix (device @ lit '':1.'') n) (sort names)) = Inr cs"
    "List.map_filter id cs \<noteq> []" "c = hd (sort (List.map_filter id cs))"
    using assms by (auto simp: discover_control_interface_def result_simps Let_def simp del: lit_simps split: sum.split_asm if_splits)
  have mem: "d \<in> set (List.map_filter id cs) \<longleftrightarrow>
      (\<exists>n\<in>set names. prefix (device @ lit '':1.'') n \<and> interface_candidate fs (base @ [n]) = Inr (Some d))" for d
    using mapR_member[OF h(2), of "Some d"] by (auto simp: map_filter_id)
  have "c \<in> set (List.map_filter id cs)" "\<And>d. d \<in> set (List.map_filter id cs) \<Longrightarrow> c \<le> d"
    unfolding h(4) using sort_key_hd[OF h(3), where f = "\<lambda>x. x"] by auto
  then show ?thesis using h(1) mem interface_candidate_sound by metis
qed

lemma matches_of_set: "i \<in> set (matches_of ss) \<longleftrightarrow> Matched i \<in> set ss"
  by (induction ss rule: matches_of.induct) auto

lemma device_info_fields:
  "di_sysfs_path (device_info a p (s, pr, b, d) found) = p" "di_serial (device_info a p (s, pr, b, d) found) = s"
  unfolding device_info_def by (simp_all split: prod.split)

lemma device_info_interface:
  "(case manual_overrides a of
      Some m \<Rightarrow> (di_interface i, di_ep_out i, di_ep_in i) = m
    | None \<Rightarrow> (di_interface i, di_ep_out i, di_ep_in i, di_max_packet_size i) = found)"
  if "i = device_info a p ident found"
  unfolding that by (cases found; cases ident; cases "manual_overrides a") (auto simp: device_info_def split: prod.splits)

lemma scan_device_Matched:
  assumes "scan_device fs a name = Inr (Matched i)"
  shows "\<exists>ident found. read_identity fs a (fa_sysfs_root a @ [name]) = Inr (Some ident) \<and>
    parse_hex_file fs (fa_sysfs_root a @ [name, lit ''idVendor'']) = Inr (fa_vid a) \<and>
    parse_hex_file fs (fa_sysfs_root a @ [name, lit ''idProduct'']) = Inr (fa_pid a) \<and>
    i = device_info a (fa_sysfs_root a @ [name]) ident found \<and>
    (discover_control_interface fs (fa_sysfs_root a) name = Inr (Some found) \<or> manual_overrides a \<noteq> None)"
proof -
  let ?p = "fa_sysfs_root a @ [name]"
  obtain ident d where h: "parse_hex_file fs (?p @ [lit ''idVendor'']) = Inr (fa_vid a)"
    "parse_hex_file fs (?p @ [lit ''idProduct'']) = Inr (fa_pid a)" "read_identity fs a ?p = Inr (Some ident)"
    and d: "discover_control_interface fs (fa_sysfs_root a) name = Inr d"
      "(case d of Some found \<Rightarrow> Inr (Matched (device_info a ?p ident found))
        | None \<Rightarrow> (case manual_overrides a of
            Some (i, out, inp) \<Rightarrow> Inr (Matched (device_info a ?p ident (i, out, inp, int DEFAULT_MAX_USB_CHUNK)))
          | None \<Rightarrow> if serial_wanted a \<noteq> None then Inl NoControlInterfaceFound else Inr NoControl)) = Inr (Matched i)"
    using assms unfolding scan_device_def Let_def
    by (auto simp: result_simps simp del: lit_simps not_None_eq split_paired_Ex split: sum.split_asm if_split_asm option.split_asm)
  show ?thesis
  proof (cases d)
    case (Some found)
    then have "i = device_info a ?p ident found" using d(2) by simp
    then show ?thesis using h d(1) Some by (intro exI[of _ ident] exI[of _ found]) simp
  next
    case None
    then obtain i' out inp where m: "manual_overrides a = Some (i', out, inp)"
      "i = device_info a ?p ident (i', out, inp, int DEFAULT_MAX_USB_CHUNK)"
      using d(2) by (auto split: option.splits if_splits)
    then show ?thesis using h by (intro exI[of _ ident] exI[of _ "(i', out, inp, int DEFAULT_MAX_USB_CHUNK)"]) simp
  qed
qed

lemma read_identity_serial:
  "read_identity fs a p = Inr (Some (s, rest)) \<Longrightarrow> serial_wanted a = Some t \<Longrightarrow> s = t"
  by (auto simp: read_identity_def result_simps simp del: lit_simps split: if_splits)

text \<open>C34: The device that is opened is the one asked for: a directory of the sysfs root with the vendor and
  product numbers and, when one is given, the serial number; its interface is an unbound vendor-specific
  interface of that device, with the lowest bulk endpoint of each direction (or the overrides, all three),
  and no other directory of the root would have matched.\<close>

theorem find_motu_device_sound:
  assumes "find_motu_device fs a = Inr i"
  shows "\<exists>names name. fs_iterdir fs (fa_sysfs_root a) = Inr names \<and> name \<in> set names \<and>
    di_sysfs_path i = fa_sysfs_root a @ [name] \<and>
    parse_hex_file fs (fa_sysfs_root a @ [name, lit ''idVendor'']) = Inr (fa_vid a) \<and>
    parse_hex_file fs (fa_sysfs_root a @ [name, lit ''idProduct'']) = Inr (fa_pid a) \<and>
    (\<forall>s. serial_wanted a = Some s \<longrightarrow> di_serial i = s) \<and>
    (case manual_overrides a of
       Some m \<Rightarrow> (di_interface i, di_ep_out i, di_ep_in i) = m
     | None \<Rightarrow> \<exists>n\<in>set names. prefix (name @ lit '':1.'') n \<and>
         control_interface fs (fa_sysfs_root a @ [n]) (di_interface i, di_ep_out i, di_ep_in i, di_max_packet_size i)) \<and>
    (\<forall>n\<in>set names. \<forall>j. scan_device fs a n = Inr (Matched j) \<longrightarrow> n = name)"
proof -
  obtain names scans where h: "fs_iterdir fs (fa_sysfs_root a) = Inr names"
    "mapR (scan_device fs a) (sort names) = Inr scans" "matches_of scans = [i]"
    using assms by (auto simp: find_motu_device_def result_simps split: if_splits sum.split_asm list.split_asm)
  have mem: "Matched j \<in> set scans \<longleftrightarrow> (\<exists>n\<in>set names. scan_device fs a n = Inr (Matched j))" for j
    using mapR_member[OF h(2), of "Matched j"] by simp
  have only: "j = i" if "n \<in> set names" "scan_device fs a n = Inr (Matched j)" for n j
    using that mem matches_of_set[of j scans] h(3) by auto
  obtain name where name: "name \<in> set names" "scan_device fs a name = Inr (Matched i)"
    using mem[of i] matches_of_set[of i scans] h(3) by auto
  have path: "di_sysfs_path j = fa_sysfs_root a @ [n]" if sc: "scan_device fs a n = Inr (Matched j)" for n j
  proof -
    obtain ident found where "j = device_info a (fa_sysfs_root a @ [n]) ident found" using scan_device_Matched[OF sc] by blast
    then show ?thesis using device_info_fields(1) by (cases ident) simp
  qed
  obtain s prod bus dev found where m: "read_identity fs a (fa_sysfs_root a @ [name]) = Inr (Some (s, prod, bus, dev))"
    "parse_hex_file fs (fa_sysfs_root a @ [name, lit ''idVendor'']) = Inr (fa_vid a)"
    "parse_hex_file fs (fa_sysfs_root a @ [name, lit ''idProduct'']) = Inr (fa_pid a)"
    "i = device_info a (fa_sysfs_root a @ [name]) (s, prod, bus, dev) found"
    "discover_control_interface fs (fa_sysfs_root a) name = Inr (Some found) \<or> manual_overrides a \<noteq> None"
    using scan_device_Matched[OF name(2)] by (metis prod_cases4)
  have serial: "di_serial i = s" using m(4) by (simp add: device_info_fields)
  have ov: "case manual_overrides a of
       Some m \<Rightarrow> (di_interface i, di_ep_out i, di_ep_in i) = m
     | None \<Rightarrow> \<exists>n\<in>set names. prefix (name @ lit '':1.'') n \<and>
         control_interface fs (fa_sysfs_root a @ [n]) (di_interface i, di_ep_out i, di_ep_in i, di_max_packet_size i)"
  proof (cases "manual_overrides a")
    case None
    then have d: "discover_control_interface fs (fa_sysfs_root a) name = Inr (Some found)" using m(5) by simp
    have "(di_interface i, di_ep_out i, di_ep_in i, di_max_packet_size i) = found"
      using device_info_interface[OF m(4)] None by simp
    then show ?thesis using discover_sound[OF d] h(1) None by (auto simp del: lit_simps)
  next
    case (Some m)
    then show ?thesis using device_info_interface[OF m(4)] by simp
  qed
  have uniq: "n = name" if "n \<in> set names" "scan_device fs a n = Inr (Matched j)" for n j
    using path[OF that(2)] path[OF name(2)] only[OF that] by simp
  have ser: "\<forall>t. serial_wanted a = Some t \<longrightarrow> di_serial i = t" using read_identity_serial[OF m(1)] serial by blast
  show ?thesis
    by (intro exI[of _ names] exI[of _ name] conjI ballI allI impI; (rule h(1) name(1) path[OF name(2)] m(2,3) ov)?)
       (use ser uniq in blast)+
qed

text \<open>A tree with one device and one suitable interface, bound by no driver.\<close>

definition demo_files :: "(pystr list \<times> string) list" where
  "demo_files =
     [([lit ''1-1'', lit ''idVendor''], ''07fd''), ([lit ''1-1'', lit ''idProduct''], ''0005''),
      ([lit ''1-1'', lit ''serial''], ''S1''), ([lit ''1-1'', lit ''busnum''], ''1''), ([lit ''1-1'', lit ''devnum''], ''7''),
      ([lit ''1-1:1.0'', lit ''bInterfaceClass''], ''ff''), ([lit ''1-1:1.0'', lit ''bInterfaceNumber''], ''00'')]"

definition demo_fs :: fs where
  "demo_fs = \<lparr>
     fs_iterdir = (\<lambda>p. if p = [] then Inr [lit ''1-1'', lit ''1-1:1.0'']
                      else if p = [lit ''1-1:1.0''] then Inr [lit ''ep_83'', lit ''ep_02''] else Inl (OSError 2)),
     fs_read = (\<lambda>p. case map_of demo_files p of Some t \<Rightarrow> Inr (blit t) | None \<Rightarrow> Inl (OSError 2)),
     fs_exists = (\<lambda>_. Inr False)\<rparr>"

definition demo_args :: find_args where
  "demo_args = \<lparr>fa_vid = 0x07FD, fa_pid = 5, fa_serial = Some (lit ''S1''), fa_sysfs_root = [], fa_devfs_root = [],
     fa_interface = None, fa_ep_out = None, fa_ep_in = None\<rparr>"

definition demo_info :: usb_device_info where
  "demo_info = \<lparr>di_sysfs_path = [lit ''1-1''], di_devfs_path = [lit ''001'', lit ''007''], di_serial = lit ''S1'',
     di_product = [], di_interface = 0, di_ep_out = 2, di_ep_in = 0x83, di_max_packet_size = 512\<rparr>"

lemmas text_defs = parse_hex_file_def read_text_def decode_ascii_def replace_cr_def py_strip_def strip_by_def
  py_space_def int_hex_def int_space_def hex_unsigned_def
  read_optional_text_def file_not_found_def read_decimal_def py_int_def int_text_def MAX_STR_DIGITS_def

lemma ascii_digits:
  "decimal_digit 48 = Some 0" "decimal_digit 49 = Some 1" "decimal_digit 50 = Some 2" "decimal_digit 51 = Some 3"
  "decimal_digit 53 = Some 5" "decimal_digit 55 = Some 7" "decimal_digit 56 = Some 8"
  "decimal_digit 100 = None" "decimal_digit 102 = None"
  by (simp_all add: decimal_digit_def decimal_zeros_def)

lemma ascii_hex_values:
  "hex_value 48 = Some 0" "hex_value 49 = Some 1" "hex_value 50 = Some 2" "hex_value 51 = Some 3" "hex_value 53 = Some 5"
  "hex_value 55 = Some 7" "hex_value 56 = Some 8" "hex_value 100 = Some 13" "hex_value 102 = Some 15"
  by (simp_all add: hex_value_def ascii_digits)

lemma demo_reads:
  "parse_hex_file demo_fs [lit ''1-1'', lit ''idVendor''] = Inr 0x7FD"
  "parse_hex_file demo_fs [lit ''1-1'', lit ''idProduct''] = Inr 5"
  "parse_hex_file demo_fs [lit ''1-1:1.0'', lit ''idVendor''] = Inl (OSError 2)"
  "read_optional_text demo_fs [lit ''1-1'', lit ''serial''] = Inr (lit ''S1'')"
  "read_optional_text demo_fs [lit ''1-1'', lit ''product''] = Inr []"
  "read_decimal demo_fs [lit ''1-1'', lit ''busnum''] = Inr 1"
  "read_decimal demo_fs [lit ''1-1'', lit ''devnum''] = Inr 7"
  "parse_hex_file demo_fs [lit ''1-1:1.0'', lit ''bInterfaceClass''] = Inr 255"
  "parse_hex_file demo_fs [lit ''1-1:1.0'', lit ''bInterfaceNumber''] = Inr 0"
  by (simp_all add: text_defs ascii_digits ascii_hex_values demo_fs_def demo_files_def)

lemma demo_endpoints:
  "parse_endpoint demo_fs [lit ''1-1:1.0'', lit ''ep_83''] = Inr (Some \<lparr>ep_address = 0x83, ep_max_packet_size = 512\<rparr>)"
  "parse_endpoint demo_fs [lit ''1-1:1.0'', lit ''ep_02''] = Inr (Some \<lparr>ep_address = 2, ep_max_packet_size = 512\<rparr>)"
  by (simp_all add: parse_endpoint_def text_defs ascii_digits ascii_hex_values demo_fs_def demo_files_def DEFAULT_MAX_USB_CHUNK_def)

lemma demo_lists:
  "fs_iterdir demo_fs [] = Inr [lit ''1-1'', lit ''1-1:1.0'']"
  "fs_iterdir demo_fs [lit ''1-1:1.0''] = Inr [lit ''ep_83'', lit ''ep_02'']"
  "fs_exists demo_fs p = Inr False"
  "sort [lit ''1-1'', lit ''1-1:1.0''] = [lit ''1-1'', lit ''1-1:1.0'']"
  "sort [lit ''ep_83'', lit ''ep_02''] = [lit ''ep_02'', lit ''ep_83'']"
  "filter (\<lambda>n. prefix (lit ''1-1'' @ lit '':1.'') n) [lit ''1-1'', lit ''1-1:1.0''] = [lit ''1-1:1.0'']"
  by (simp_all add: demo_fs_def)

lemma demo_candidate: "interface_candidate demo_fs [lit ''1-1:1.0''] = Inr (Some (0, 2, 0x83, 512))"
proof -
  have "mapR (\<lambda>n. parse_endpoint demo_fs ([lit ''1-1:1.0''] @ [n])) (sort [lit ''ep_83'', lit ''ep_02'']) =
      Inr [Some \<lparr>ep_address = 2, ep_max_packet_size = 512\<rparr>, Some \<lparr>ep_address = 0x83, ep_max_packet_size = 512\<rparr>]"
    unfolding demo_lists by (simp add: demo_endpoints del: lit_simps)
  then show ?thesis
    by (simp add: interface_candidate_def demo_lists(2,3) skip_on_def demo_reads is_in_def List.map_filter_def
        del: lit_simps sort_key_simps) simp
qed

lemma demo_interface: "discover_control_interface demo_fs [] (lit ''1-1'') = Inr (Some (0, 2, 0x83, 512))"
  unfolding discover_control_interface_def demo_lists(1) sum.case demo_lists(4,6)
  by (simp add: demo_candidate List.map_filter_def del: lit_simps)

lemma demo_scans:
  "scan_device demo_fs demo_args (lit ''1-1'') = Inr (Matched demo_info)"
  "scan_device demo_fs demo_args (lit ''1-1:1.0'') = Inr NotMatched"
proof -
  have a: "fa_sysfs_root demo_args = []" "fa_vid demo_args = 0x7FD" "fa_pid demo_args = 5" "serial_wanted demo_args = Some (lit ''S1'')"
    "manual_overrides demo_args = None" "fa_devfs_root demo_args = []"
    by (simp_all add: demo_args_def serial_wanted_def manual_overrides_def)
  have f: "fmt_03d 1 = lit ''001''" "fmt_03d 7 = lit ''007''" by (simp_all add: fmt_03d_def digits_nat.simps numeral_eq_Suc)
  show "scan_device demo_fs demo_args (lit ''1-1'') = Inr (Matched demo_info)"
    by (simp add: scan_device_def read_identity_def device_info_def demo_info_def a f demo_reads demo_interface del: lit_simps)
  show "scan_device demo_fs demo_args (lit ''1-1:1.0'') = Inr NotMatched"
    by (simp add: scan_device_def a demo_reads skipped_def file_not_found_def del: lit_simps)
qed

lemma demo_find: "find_motu_device demo_fs demo_args = Inr demo_info"
proof -
  have "fa_sysfs_root demo_args = []" "\<not> partial_overrides demo_args"
    by (simp_all add: demo_args_def partial_overrides_def manual_overrides_def)
  then show ?thesis by (simp add: find_motu_device_def demo_lists demo_scans del: lit_simps sort_key_simps)
qed

theorem find_motu_device_sound_witness:
  "find_motu_device demo_fs demo_args = Inr demo_info \<and>
   (\<exists>n. control_interface demo_fs [n] (0, 2, 0x83, 512))"
proof -
  have "manual_overrides demo_args = None" "fa_sysfs_root demo_args = []" by (simp_all add: manual_overrides_def demo_args_def)
  moreover have "(di_interface demo_info, di_ep_out demo_info, di_ep_in demo_info, di_max_packet_size demo_info) = (0, 2, 0x83, 512)"
    by (simp add: demo_info_def)
  ultimately show ?thesis using find_motu_device_sound[OF demo_find] demo_find by (auto simp del: lit_simps)
qed

text \<open>
  Every unreadable file of a device or an interface makes the scan skip it, except the type of an endpoint:
  there the \<open>PermissionError\<close> leaves the scan.
\<close>

lemma endpoint_permission_escapes:
  assumes "prefix (lit ''ep_'') (last p)" "int_hex (drop 3 (last p)) \<noteq> None" "fs_read fs (p @ [lit ''type'']) = Inl (OSError 13)"
  shows "parse_endpoint fs p = Inl (OSError 13)"
  using assms by (auto simp: parse_endpoint_def read_optional_text_def read_text_def file_not_found_def simp del: lit_simps)

end
