(* ===== verification/Motu_Usbfs.thy ===== *)
theory Motu_Usbfs
  imports Motu_Session
begin

unbundle bit_operations_syntax

text \<open>
  The usbfs transport (\<^verbatim>\<open>motu_proxy/transports/usbfs.py\<close>). \<open>UsbFsTransport\<close> is modelled as operations over
  a kernel that is an argument. \<open>UsbFsCancellableBulkRead\<close>, whose \<open>read\<close> and \<open>cancel\<close> run in different threads,
  is a step relation: the reading thread, one cancelling thread, and a kernel of which only named facts are
  used. One step is one system call or one access to shared fields; the other thread can run between any
  two of them.
\<close>

section \<open>Requests\<close>

definition ioc :: "int \<Rightarrow> nat \<Rightarrow> int \<Rightarrow> int \<Rightarrow> int" where
  "ioc direction type_char number sz =
     (push_bit 30 direction OR push_bit 16 sz) OR (push_bit 8 (int type_char) OR number)"

text \<open>The error numbers of Linux.\<close>

definition EIO :: int where "EIO = 5"
definition ENOENT :: int where "ENOENT = 2"
definition EBADF :: int where "EBADF = 9"
definition EPIPE :: int where "EPIPE = 32"
definition EAGAIN :: int where "EAGAIN = 11"
definition ENODEV :: int where "ENODEV = 19"
definition EINVAL :: int where "EINVAL = 22"
definition ECONNRESET :: int where "ECONNRESET = 104"
definition ETIMEDOUT :: int where "ETIMEDOUT = 110"
definition ECANCELED :: int where "ECANCELED = 125"

definition CANCELLED_URB_STATUSES :: "int list" where
  "CANCELLED_URB_STATUSES = [- ENOENT, - ECONNRESET, - ECANCELED]"

lemmas errno_defs = EBADF_def EPIPE_def EIO_def ENOENT_def EAGAIN_def ENODEV_def EINVAL_def ECONNRESET_def ETIMEDOUT_def ECANCELED_def

section \<open>The transport\<close>

text \<open>The system calls; each may raise an \<open>OSError\<close>. A bulk transfer returns its \<open>ioctl\<close> value and the buffer.\<close>

record 'k syscalls =
  sys_open :: "pystr list \<Rightarrow> ('k, int) sop"
  sys_close :: "int \<Rightarrow> ('k, unit) sop"
  sys_claim :: "int \<Rightarrow> int \<Rightarrow> ('k, unit) sop"
  sys_release :: "int \<Rightarrow> int \<Rightarrow> ('k, unit) sop"
  sys_bulk_out :: "int \<Rightarrow> int \<Rightarrow> bytes \<Rightarrow> int \<Rightarrow> ('k, int) sop"
  sys_bulk_in :: "int \<Rightarrow> int \<Rightarrow> int \<Rightarrow> int \<Rightarrow> ('k, int \<times> bytes) sop"

record usb_transport =
  ut_devfs_path :: "pystr list"
  ut_interface :: int
  ut_ep_out :: int
  ut_ep_in :: int
  ut_max_packet_size :: int
  ut_timeout_ms :: int
  ut_fd :: "int option"

type_synonym 'k ut = "usb_transport \<times> 'k"

definition on_kernel :: "('k, 'a) sop \<Rightarrow> ('k ut, 'a) sop" where
  "on_kernel m = (\<lambda>(t, k). case m k of (r, k') \<Rightarrow> (r, (t, k')))"

definition set_fd :: "int option \<Rightarrow> ('k ut, unit) sop" where
  "set_fd fd = modS (\<lambda>(t, k). (t\<lparr>ut_fd := fd\<rparr>, k))"

text \<open>\<open>__enter__\<close>: an interface that cannot be claimed closes the file again.\<close>

definition transport_enter :: "'k syscalls \<Rightarrow> ('k ut, unit) sop" where
  "transport_enter sys = (\<lambda>(t, k).
     bindS (on_kernel (sys_open sys (ut_devfs_path t))) (\<lambda>fd.
     bindS (set_fd (Some fd)) (\<lambda>_.
     onErrorS (on_kernel (sys_claim sys fd (ut_interface t))) (\<lambda>e.
       bindS (on_kernel (sys_close sys fd)) (\<lambda>_.
       bindS (set_fd None) (\<lambda>_. raiseS e))))) (t, k))"

definition transport_exit :: "'k syscalls \<Rightarrow> ('k ut, unit) sop" where
  "transport_exit sys = (\<lambda>(t, k).
     case ut_fd t of
       None \<Rightarrow> (Inr (), (t, k))
     | Some fd \<Rightarrow>
         finallyS (on_kernel (sys_release sys fd (ut_interface t)))
           (bindS (on_kernel (sys_close sys fd)) (\<lambda>_. set_fd None)) (t, k))"

definition max_packet_size :: "usb_transport \<Rightarrow> int" where
  "max_packet_size t = (if ut_max_packet_size t \<noteq> 0 then ut_max_packet_size t else int DEFAULT_MAX_USB_CHUNK)"

definition transport_bulk_write :: "'k syscalls \<Rightarrow> bytes \<Rightarrow> ('k ut, int) sop" where
  "transport_bulk_write sys data = (\<lambda>(t, k).
     case ut_fd t of
       None \<Rightarrow> (Inl RuntimeError, (t, k))
     | Some fd \<Rightarrow>
         bindS (on_kernel (sys_bulk_out sys fd (ut_ep_out t) data (ut_timeout_ms t))) (\<lambda>ret.
         if ret \<noteq> int (length data) then raiseS (OSError EIO) else retS ret) (t, k))"

definition transport_bulk_read :: "'k syscalls \<Rightarrow> int option \<Rightarrow> int option \<Rightarrow> ('k ut, bytes) sop" where
  "transport_bulk_read sys sz timeout_ms = (\<lambda>(t, k).
     case ut_fd t of
       None \<Rightarrow> (Inl RuntimeError, (t, k))
     | Some fd \<Rightarrow>
         let read_size = (case sz of None \<Rightarrow> max_packet_size t | Some n \<Rightarrow> n);
             timeout = (case timeout_ms of None \<Rightarrow> ut_timeout_ms t | Some n \<Rightarrow> n)
         in if read_size < 0 then (Inl ValueError, (t, k))
            else onErrorS
              (bindS (on_kernel (sys_bulk_in sys fd (ut_ep_in t) read_size timeout)) (\<lambda>(ret, buf). retS (take (nat ret) buf)))
              (\<lambda>e. if e = OSError ETIMEDOUT \<or> e = OSError EAGAIN then retS [] else raiseS e) (t, k))"

text \<open>
  \<open>begin_cancellable_bulk_read\<close>: the file, endpoint, size and time-out of the pending read. A buffer of negative
  size cannot be created.
\<close>

definition begin_cancellable_bulk_read ::
    "usb_transport \<Rightarrow> int option \<Rightarrow> int option \<Rightarrow> (int \<times> int \<times> int \<times> int) result" where
  "begin_cancellable_bulk_read t sz timeout_ms =
     (case ut_fd t of
        None \<Rightarrow> Inl RuntimeError
      | Some fd \<Rightarrow>
          let read_size = (case sz of None \<Rightarrow> max_packet_size t | Some n \<Rightarrow> n)
          in if read_size < 0 then Inl ValueError
             else Inr (fd, ut_ep_in t, read_size, case timeout_ms of None \<Rightarrow> ut_timeout_ms t | Some n \<Rightarrow> n))"

section \<open>A cancellable read\<close>

text \<open>
  What the reading object asks of the kernel. \<open>k_reap\<close> is \<open>REAPURBNDELAY\<close>; \<open>k_reap_wait\<close> is \<open>REAPURB\<close>, with
  \<open>None\<close> while it blocks; \<open>k_write\<close> is a write to a file that is not the wake-up pipe; \<open>k_event\<close> is progress
  of the device. The kernel owns the request block from its submission until it is reaped.
\<close>

datatype reaped_urb = Mine int bytes | Foreign

record 'k usb_kernel =
  k_submit :: "('k, unit) sop"
  k_discard :: "('k, unit) sop"
  k_reap :: "('k, reaped_urb) sop"
  k_reap_wait :: "'k \<Rightarrow> (reaped_urb result \<times> 'k) option"
  k_pipe :: "('k, nat) sop"
  k_write :: "nat \<Rightarrow> ('k, unit) sop"
  k_ready :: "'k \<Rightarrow> bool"
  k_event :: "nat \<Rightarrow> 'k \<Rightarrow> 'k"
  k_owned :: "'k \<Rightarrow> bool"
  k_completed :: "'k \<Rightarrow> bool"

text \<open>
  Where a call of \<open>cancel\<close> and a call of \<open>read\<close> stand. \<open>Cancelled\<close> is the \<open>InterruptedError\<close> that \<open>read\<close> itself
  raises, \<open>Failed\<close> an exception that a system call raised or the error status of the transfer.
\<close>

datatype cpc = CIdle | CFlag | CCheck | CIoctl | CMark | CFail int | CErrno int | CGet | CWrite nat | CRaised exc

datatype outcome = Data bytes | Timeout | Cancelled | Failed exc

datatype rpc = RStart | RSubmit | RMark | RAfter | RCancel bool cpc | RDeadline | ROpen | RReap | RAgain | RDead
  | RWait | RPoll "int option" | RDrain | RFinish | RRace | RBlock | RClose "exc option" | RStatus | RDone outcome

text \<open>
  The fields of \<open>UsbFsCancellableBulkRead\<close> (the two ends of the pipe are set and cleared together, and are one
  field), the threads, the clock and the kernel. The last three fields are history: what was reaped, what the
  reader knew of the failed discard when it gave up, and writes of the wake-up byte to another file.
\<close>

record 'k read_state =
  rd_submitted :: bool
  rd_reaped :: bool
  rd_cancel_requested :: bool
  rd_discard_submitted :: bool
  rd_discard_failed :: bool
  rd_discard_errno :: "int option"
  rd_timed_out :: bool
  rd_status :: int
  rd_data :: bytes
  rd_wakeup :: "nat option"
  rd_bytes :: nat
  rd_deadline :: "int option"
  rd_pc :: rpc
  rd_canc :: cpc
  rd_now :: int
  rd_kernel :: 'k
  rd_reaps :: "(int \<times> bytes) list"
  rd_gave_up :: "int option option"
  rd_stray :: "nat list"

definition read_init :: "'k \<Rightarrow> int \<Rightarrow> 'k read_state" where
  "read_init k now =
     \<lparr>rd_submitted = False, rd_reaped = False, rd_cancel_requested = False, rd_discard_submitted = False,
      rd_discard_failed = False, rd_discard_errno = None, rd_timed_out = False, rd_status = 0, rd_data = [],
      rd_wakeup = None, rd_bytes = 0, rd_deadline = None, rd_pc = RStart, rd_canc = CIdle, rd_now = now,
      rd_kernel = k, rd_reaps = [], rd_gave_up = None, rd_stray = []\<rparr>"

text \<open>
  One step of \<open>cancel\<close>. The four flags that \<open>_discard_pending_urb\<close> tests are read in one step: they only ever
  change from false to true, so reading them one after the other gives no other answer. \<open>_cancel_event\<close> is set
  and never read.
\<close>

definition PIPE_CAPACITY :: nat where "PIPE_CAPACITY = 65536"

fun os_errno :: "exc \<Rightarrow> int option" where
  "os_errno (OSError n) = Some n"
| "os_errno e = None"

definition discard_outcome :: "unit result \<Rightarrow> cpc" where
  "discard_outcome r =
     (case r of
        Inr _ \<Rightarrow> CMark
      | Inl e \<Rightarrow>
          (case os_errno e of
             None \<Rightarrow> CRaised e
           | Some n \<Rightarrow> if n \<in> {EINVAL, ENODEV, ENOENT} then CFail n else CRaised e))"

fun cancel_step :: "'k usb_kernel \<Rightarrow> cpc \<Rightarrow> 'k read_state \<Rightarrow> cpc \<times> 'k read_state" where
  "cancel_step K CFlag s = (CCheck, s\<lparr>rd_cancel_requested := True\<rparr>)"
| "cancel_step K CCheck s =
     (if \<not> rd_submitted s \<or> rd_reaped s \<or> rd_discard_submitted s \<or> rd_discard_failed s then CGet else CIoctl, s)"
| "cancel_step K CIoctl s = (case k_discard K (rd_kernel s) of (r, k) \<Rightarrow> (discard_outcome r, s\<lparr>rd_kernel := k\<rparr>))"
| "cancel_step K CMark s = (CGet, s\<lparr>rd_discard_submitted := True\<rparr>)"
| "cancel_step K (CFail n) s = (CErrno n, s\<lparr>rd_discard_failed := True\<rparr>)"
| "cancel_step K (CErrno n) s = (CGet, s\<lparr>rd_discard_errno := Some n\<rparr>)"
| "cancel_step K CGet s = (case rd_wakeup s of None \<Rightarrow> CIdle | Some w \<Rightarrow> CWrite w, s)"
| "cancel_step K (CWrite w) s =
     (if rd_wakeup s = Some w then (CIdle, s\<lparr>rd_bytes := min PIPE_CAPACITY (rd_bytes s + 1)\<rparr>)
      else
        (case k_write K w (rd_kernel s) of (r, k) \<Rightarrow>
          (case r of
             Inr _ \<Rightarrow> (CIdle, s\<lparr>rd_kernel := k, rd_stray := w # rd_stray s\<rparr>)
           | Inl e \<Rightarrow> (if os_errno e \<in> {Some EAGAIN, Some EBADF, Some EPIPE} then CIdle else CRaised e, s\<lparr>rd_kernel := k\<rparr>))))"
| "cancel_step K c s = (c, s)"

definition accept_reaped_urb :: "reaped_urb \<Rightarrow> 'k read_state \<Rightarrow> 'k read_state" where
  "accept_reaped_urb r s =
     (case r of
        Foreign \<Rightarrow> s\<lparr>rd_pc := RClose (Some (OSError EIO))\<rparr>
      | Mine status data \<Rightarrow>
          s\<lparr>rd_reaped := True, rd_status := status, rd_data := data, rd_reaps := (status, data) # rd_reaps s,
            rd_pc := RClose None\<rparr>)"

text \<open>One step of \<open>read\<close>; \<open>None\<close> when it is finished or blocked in \<open>poll\<close> or \<open>REAPURB\<close>.\<close>

definition poll_ready :: "'k usb_kernel \<Rightarrow> int option \<Rightarrow> 'k read_state \<Rightarrow> bool" where
  "poll_ready K until s \<longleftrightarrow>
     0 < rd_bytes s \<or> k_ready K (rd_kernel s) \<or> (case until of None \<Rightarrow> False | Some t \<Rightarrow> t \<le> rd_now s)"

definition read_result :: "'k read_state \<Rightarrow> outcome" where
  "read_result s =
     (if rd_timed_out s then Timeout
      else if rd_cancel_requested s \<or> rd_status s \<in> set CANCELLED_URB_STATUSES then Cancelled
      else if rd_status s \<noteq> 0 then Failed (OSError \<bar>rd_status s\<bar>)
      else Data (rd_data s))"

fun after_cancel :: "bool \<Rightarrow> cpc \<Rightarrow> rpc" where
  "after_cancel in_reap CIdle = (if in_reap then RFinish else RDeadline)"
| "after_cancel in_reap (CRaised e) = (if in_reap then RClose (Some e) else RDone (Failed e))"
| "after_cancel in_reap c = RCancel in_reap c"

fun reader_step :: "'k usb_kernel \<Rightarrow> int option \<Rightarrow> rpc \<Rightarrow> 'k read_state \<Rightarrow> 'k read_state option" where
  "reader_step K timeout RStart s =
     Some (if rd_cancel_requested s then s\<lparr>rd_pc := RDone Cancelled\<rparr> else s\<lparr>rd_pc := RSubmit\<rparr>)"
| "reader_step K timeout RSubmit s =
     (case k_submit K (rd_kernel s) of (r, k) \<Rightarrow>
       Some (s\<lparr>rd_kernel := k, rd_pc := (case r of Inl e \<Rightarrow> RDone (Failed e) | Inr _ \<Rightarrow> RMark)\<rparr>))"
| "reader_step K timeout RMark s = Some (s\<lparr>rd_submitted := True, rd_pc := RAfter\<rparr>)"
| "reader_step K timeout RAfter s =
     Some (s\<lparr>rd_pc := (if rd_cancel_requested s then RCancel False CFlag else RDeadline)\<rparr>)"
| "reader_step K timeout (RCancel in_reap c) s =
     (case cancel_step K c s of (c', s') \<Rightarrow>
       Some (s'\<lparr>rd_pc := after_cancel in_reap c'\<rparr>))"
| "reader_step K timeout RDeadline s =
     Some (s\<lparr>rd_deadline := map_option (\<lambda>t. rd_now s + t) timeout, rd_pc := ROpen\<rparr>)"
| "reader_step K timeout ROpen s =
     (case k_pipe K (rd_kernel s) of (r, k) \<Rightarrow>
       Some (case r of
          Inl e \<Rightarrow> s\<lparr>rd_kernel := k, rd_pc := RDone (Failed e)\<rparr>
        | Inr w \<Rightarrow> s\<lparr>rd_kernel := k, rd_wakeup := Some w, rd_bytes := 0, rd_pc := RReap\<rparr>))"
| "reader_step K timeout RReap s =
     (case k_reap K (rd_kernel s) of (r, k) \<Rightarrow>
       let s = s\<lparr>rd_kernel := k\<rparr> in
       Some (case r of
          Inl e \<Rightarrow> s\<lparr>rd_pc := (if e = OSError EAGAIN then RAgain else RClose (Some e))\<rparr>
        | Inr u \<Rightarrow> accept_reaped_urb u s))"
| "reader_step K timeout RAgain s = Some (s\<lparr>rd_pc := (if rd_cancel_requested s then RFinish else RDead)\<rparr>)"
| "reader_step K timeout RDead s =
     Some (case rd_deadline s of
        None \<Rightarrow> s\<lparr>rd_pc := RWait\<rparr>
      | Some t \<Rightarrow> if t \<le> rd_now s then s\<lparr>rd_timed_out := True, rd_pc := RCancel True CFlag\<rparr> else s\<lparr>rd_pc := RWait\<rparr>)"
| "reader_step K timeout RWait s =
     Some (s\<lparr>rd_pc :=
       (case rd_deadline s of
          None \<Rightarrow> RPoll None
        | Some t \<Rightarrow> if t - rd_now s \<le> 0 then RReap else RPoll (Some (rd_now s + max 1 (t - rd_now s))))\<rparr>)"
| "reader_step K timeout (RPoll until) s = (if poll_ready K until s then Some (s\<lparr>rd_pc := RDrain\<rparr>) else None)"
| "reader_step K timeout RDrain s =
     Some (if 0 < rd_bytes s then s\<lparr>rd_bytes := rd_bytes s - 1024\<rparr> else s\<lparr>rd_pc := RReap\<rparr>)"
| "reader_step K timeout RFinish s =
     Some (if rd_discard_failed s
           then (if rd_discard_errno s = Some EINVAL \<or> rd_discard_errno s = Some ENOENT then s\<lparr>rd_pc := RRace\<rparr>
                 else s\<lparr>rd_reaped := True, rd_gave_up := Some (rd_discard_errno s), rd_pc := RClose None\<rparr>)
           else s\<lparr>rd_pc := RBlock\<rparr>)"
| "reader_step K timeout RRace s =
     (case k_reap K (rd_kernel s) of (r, k) \<Rightarrow>
       let s = s\<lparr>rd_kernel := k\<rparr> in
       Some (case r of
          Inl e \<Rightarrow> if e = OSError EAGAIN then s\<lparr>rd_reaped := True, rd_pc := RClose None\<rparr> else s\<lparr>rd_pc := RClose (Some e)\<rparr>
        | Inr u \<Rightarrow> accept_reaped_urb u s))"
| "reader_step K timeout RBlock s =
     (case k_reap_wait K (rd_kernel s) of
        None \<Rightarrow> None
      | Some (r, k) \<Rightarrow>
          let s = s\<lparr>rd_kernel := k\<rparr> in
          Some (case r of Inl e \<Rightarrow> s\<lparr>rd_pc := RClose (Some e)\<rparr> | Inr u \<Rightarrow> accept_reaped_urb u s))"
| "reader_step K timeout (RClose failed) s =
     Some (s\<lparr>rd_wakeup := None, rd_bytes := 0, rd_pc := (case failed of None \<Rightarrow> RStatus | Some e \<Rightarrow> RDone (Failed e))\<rparr>)"
| "reader_step K timeout RStatus s = Some (s\<lparr>rd_pc := RDone (read_result s)\<rparr>)"
| "reader_step K timeout (RDone r) s = None"

text \<open>
  The threads: the reader, the thread that calls \<open>cancel\<close> (one at a time: the coordinator calls it under its
  lock), the device, and time.
\<close>

datatype actor = Reader | Canceller | CallCancel | Device nat | Clock nat

fun cancel_over :: "cpc \<Rightarrow> bool" where
  "cancel_over CIdle = True"
| "cancel_over (CRaised e) = True"
| "cancel_over _ = False"

fun act :: "'k usb_kernel \<Rightarrow> int option \<Rightarrow> actor \<Rightarrow> 'k read_state \<Rightarrow> 'k read_state option" where
  "act K timeout Reader s = reader_step K timeout (rd_pc s) s"
| "act K timeout Canceller s =
     (if cancel_over (rd_canc s) then None
      else case cancel_step K (rd_canc s) s of (c, s') \<Rightarrow> Some (s'\<lparr>rd_canc := c\<rparr>))"
| "act K timeout CallCancel s =
     (if cancel_over (rd_canc s) then Some (s\<lparr>rd_canc := CFlag\<rparr>) else None)"
| "act K timeout (Device i) s = Some (s\<lparr>rd_kernel := k_event K i (rd_kernel s)\<rparr>)"
| "act K timeout (Clock d) s = Some (s\<lparr>rd_now := rd_now s + int d\<rparr>)"

inductive interleaved :: "'k usb_kernel \<Rightarrow> int option \<Rightarrow> 'k read_state \<Rightarrow> actor list \<Rightarrow> 'k read_state \<Rightarrow> bool"
  for K :: "'k usb_kernel" and timeout :: "int option" and s :: "'k read_state" where
  start: "interleaved K timeout s [] s"
| step: "interleaved K timeout s as t \<Longrightarrow> act K timeout a t = Some u \<Longrightarrow> interleaved K timeout s (as @ [a]) u"

section \<open>What the kernel promises\<close>


text \<open>The kernel is done with the transfer, or does not hold it.\<close>

definition settled :: "'k usb_kernel \<Rightarrow> 'k \<Rightarrow> bool" where
  "settled K k \<longleftrightarrow> (k_owned K k \<longrightarrow> k_completed K k)"



section \<open>Invariants\<close>

text \<open>Where in \<open>read\<close> the reader stands.\<close>

fun before_submit :: "rpc \<Rightarrow> bool" where
  "before_submit RStart = True" | "before_submit RSubmit = True" | "before_submit _ = False"

fun before_open :: "rpc \<Rightarrow> bool" where
  "before_open (RCancel in_reap c) = (\<not> in_reap)"
| "before_open pc = (pc \<in> {RStart, RSubmit, RMark, RAfter, RDeadline, ROpen})"

fun after_reap :: "rpc \<Rightarrow> bool" where
  "after_reap (RClose e) = True" | "after_reap RStatus = True" | "after_reap (RDone r) = True" | "after_reap _ = False"

fun normal_end :: "rpc \<Rightarrow> bool" where
  "normal_end (RClose None) = True" | "normal_end RStatus = True" | "normal_end _ = False"




text \<open>A call of \<open>cancel\<close> that discards the transfer, or may still do so.\<close>

fun discarding :: "cpc \<Rightarrow> bool" where
  "discarding CIoctl = True" | "discarding CMark = True" | "discarding (CFail n) = True"
| "discarding (CErrno n) = True" | "discarding _ = False"




















section \<open>The outcome of a read\<close>

text \<open>The kernel has given the transfer back, or the reader gave up after a failed discard.\<close>

definition released :: "'k usb_kernel \<Rightarrow> 'k read_state \<Rightarrow> bool" where
  "released K s \<longleftrightarrow> \<not> k_owned K (rd_kernel s) \<or> rd_gave_up s = Some None \<or> rd_gave_up s = Some (Some ENODEV)"

definition outcome_ok :: "'k usb_kernel \<Rightarrow> 'k read_state \<Rightarrow> outcome \<Rightarrow> bool" where
  "outcome_ok K s r \<longleftrightarrow>
     (case r of
        Data d \<Rightarrow> rd_reaps s = [(0, d)] \<and> \<not> k_owned K (rd_kernel s)
      | Timeout \<Rightarrow> (\<exists>t. rd_deadline s = Some t \<and> t \<le> rd_now s) \<and> released K s
      | Cancelled \<Rightarrow>
          (rd_cancel_requested s \<or> (\<exists>st\<in>set CANCELLED_URB_STATUSES. \<exists>d. rd_reaps s = [(st, d)])) \<and> released K s
      | Failed e \<Rightarrow> True)"

text \<open>A refused discard: the transfer is settled unless the device is gone.\<close>

definition refusal :: "'k usb_kernel \<Rightarrow> 'k \<Rightarrow> int \<Rightarrow> bool" where
  "refusal K k n \<longleftrightarrow> n \<in> {EINVAL, ENODEV, ENOENT} \<and> (n \<noteq> ENODEV \<longrightarrow> settled K k)"

fun refused_by :: "cpc \<Rightarrow> int option" where
  "refused_by (CFail n) = Some n" | "refused_by (CErrno n) = Some n" | "refused_by _ = None"

fun reader_cancel :: "rpc \<Rightarrow> cpc" where
  "reader_cancel (RCancel b c) = c" | "reader_cancel _ = CIdle"

definition refusals :: "'k read_state \<Rightarrow> int set" where
  "refusals s = set_option (rd_discard_errno s) \<union> set_option (refused_by (rd_canc s)) \<union>
     set_option (refused_by (reader_cancel (rd_pc s)))"

definition read_inv :: "'k usb_kernel \<Rightarrow> 'k read_state \<Rightarrow> bool" where
  "read_inv K s \<longleftrightarrow>
     (before_submit (rd_pc s) \<longrightarrow> \<not> k_owned K (rd_kernel s)) \<and>
     (\<not> rd_submitted s \<longrightarrow> rd_discard_errno s = None \<and> \<not> discarding (rd_canc s)) \<and>
     (\<forall>n\<in>refusals s. refusal K (rd_kernel s) n) \<and>
     (rd_pc s = RRace \<longrightarrow> settled K (rd_kernel s)) \<and>
     (rd_timed_out s \<longrightarrow> \<not> before_open (rd_pc s) \<and> (\<exists>t. rd_deadline s = Some t \<and> t \<le> rd_now s)) \<and>
     (\<not> after_reap (rd_pc s) \<longrightarrow> rd_reaps s = []) \<and>
     (normal_end (rd_pc s) \<longrightarrow>
        rd_reaps s = [(rd_status s, rd_data s)] \<and> \<not> k_owned K (rd_kernel s) \<or> rd_cancel_requested s \<and> released K s) \<and>
     (\<forall>r. rd_pc s = RDone r \<longrightarrow> outcome_ok K s r)"





lemma outcome_ok_Failed [simp]: "outcome_ok K s (Failed e)"
  by (simp add: outcome_ok_def)



text \<open>A step that moves the reader and changes only the kernel.\<close>

lemma read_inv_goto:
  assumes "read_inv K s" and "before_submit p \<Longrightarrow> before_submit (rd_pc s)" "refused_by (reader_cancel p) = None"
    "p \<noteq> RRace" "before_open p \<Longrightarrow> before_open (rd_pc s)" "after_reap (rd_pc s) \<Longrightarrow> after_reap p"
    "normal_end p \<Longrightarrow> normal_end (rd_pc s)" "\<And>r. p = RDone r \<Longrightarrow> outcome_ok K (s\<lparr>rd_kernel := k, rd_pc := p\<rparr>) r"
    and "\<not> k_owned K (rd_kernel s) \<Longrightarrow> \<not> k_owned K k" "settled K (rd_kernel s) \<Longrightarrow> settled K k"
  shows "read_inv K (s\<lparr>rd_kernel := k, rd_pc := p\<rparr>)"
proof -
  have "\<forall>n\<in>refusals (s\<lparr>rd_kernel := k, rd_pc := p\<rparr>). refusal K k n"
    using assms(1,3,10) by (auto simp: read_inv_def refusals_def refusal_def)
  moreover have "released K s \<Longrightarrow> released K (s\<lparr>rd_kernel := k, rd_pc := p\<rparr>)"
    using assms(9) by (auto simp: released_def)
  ultimately show ?thesis
    using assms unfolding read_inv_def by auto
qed

lemmas read_inv_move = read_inv_goto[where k = "rd_kernel s" and s = s for s, simplified]












section \<open>A small kernel\<close>

text \<open>
  One transfer at a time: it is pending until the device completes it or it is discarded, and is then reaped.
  Witnesses and the schedules below run on it.
\<close>

datatype urb_phase = NoUrb | PendingUrb | CompletedUrb int bytes

fun phase_discard :: "(urb_phase, unit) sop" where
  "phase_discard PendingUrb = (Inr (), CompletedUrb (- ENOENT) [])"
| "phase_discard p = (Inl (OSError EINVAL), p)"

fun phase_reap :: "(urb_phase, reaped_urb) sop" where
  "phase_reap (CompletedUrb st d) = (Inr (Mine st d), NoUrb)"
| "phase_reap p = (Inl (OSError EAGAIN), p)"

fun phase_event :: "nat \<Rightarrow> urb_phase \<Rightarrow> urb_phase" where
  "phase_event i PendingUrb = CompletedUrb 0 [of_nat i]"
| "phase_event i p = p"

fun phase_completed :: "urb_phase \<Rightarrow> bool" where
  "phase_completed (CompletedUrb st d) = True"
| "phase_completed p = False"

definition phase_kernel :: "urb_phase usb_kernel" where
  "phase_kernel =
     \<lparr>k_submit = (\<lambda>p. (Inr (), PendingUrb)), k_discard = phase_discard, k_reap = phase_reap,
      k_reap_wait = (\<lambda>p. if phase_completed p then Some (phase_reap p) else None),
      k_pipe = (\<lambda>p. (Inr 7, p)), k_write = (\<lambda>w p. (Inr (), p)), k_ready = phase_completed, k_event = phase_event,
      k_owned = (\<lambda>p. p \<noteq> NoUrb), k_completed = phase_completed\<rparr>"


fun run_schedule :: "'k usb_kernel \<Rightarrow> int option \<Rightarrow> actor list \<Rightarrow> 'k read_state \<Rightarrow> 'k read_state option" where
  "run_schedule K timeout [] s = Some s"
| "run_schedule K timeout (a # as) s =
     (case act K timeout a s of None \<Rightarrow> None | Some t \<Rightarrow> run_schedule K timeout as t)"

lemma interleaved_first:
  assumes "act K timeout a s = Some t" "interleaved K timeout t as u"
  shows "interleaved K timeout s (a # as) u"
  using assms(2,1)
proof (induction rule: interleaved.induct)
  case start
  then show ?case using interleaved.step[OF interleaved.start, of K timeout a s t] by simp
next
  case (step as t' b u)
  then show ?case using interleaved.step[of K timeout s "a # as" t' b u] by simp
qed

lemma run_schedule_interleaved: "run_schedule K timeout as s = Some t \<Longrightarrow> interleaved K timeout s as t"
  by (induction as arbitrary: s) (auto intro: interleaved.start interleaved_first split: option.splits)


lemmas run_simps = read_init_def phase_kernel_def Let_def accept_reaped_urb_def poll_ready_def read_result_def
  CANCELLED_URB_STATUSES_def discard_outcome_def PIPE_CAPACITY_def errno_defs




section \<open>A cancelled read ends\<close>














text \<open>
  Three schedules in which the code does not do what it means to. The reader tests the failure flag between
  the two assignments of \<open>_discard_pending_urb\<close> (\<open>usbfs.py\<close>, line 181), takes the discard as failed with no error
  number and leaves the completed transfer with the kernel.
\<close>

lemma errno_race:
  "\<exists>as s. interleaved phase_kernel None (read_init NoUrb 0) as s \<and> rd_pc s = RDone Cancelled \<and>
     rd_gave_up s = Some None \<and> rd_discard_errno s = Some EINVAL \<and> rd_kernel s = CompletedUrb 0 [65]"
proof -
  have "\<exists>s. run_schedule phase_kernel None
      [Reader, Reader, Reader, Reader, Reader, Reader, Reader, Device 65, CallCancel, Canceller,
       Canceller, Canceller, Canceller, Reader, Reader, Reader, Reader, Canceller, Canceller]
      (read_init NoUrb 0) = Some s \<and> rd_pc s = RDone Cancelled \<and> rd_gave_up s = Some None \<and>
     rd_discard_errno s = Some EINVAL \<and> rd_kernel s = CompletedUrb 0 [65]"
    by (simp add: run_simps)
  then show ?thesis using run_schedule_interleaved by metis
qed

text \<open>The wake-up byte goes to a file that another thread has opened on the number of the closed pipe (line 289).\<close>

lemma stray_wakeup_write:
  "\<exists>as s. interleaved phase_kernel None (read_init NoUrb 0) as s \<and> rd_wakeup s = None \<and> rd_stray s = [7]"
proof -
  have "\<exists>s. run_schedule phase_kernel None
      [Reader, Reader, Reader, Reader, Reader, Reader, Reader, CallCancel, Canceller, Canceller,
       Canceller, Canceller, Canceller, Reader, Reader, Reader, Reader, Canceller]
      (read_init NoUrb 0) = Some s \<and> rd_wakeup s = None \<and> rd_stray s = [7]"
    by (simp add: run_simps)
  then show ?thesis using run_schedule_interleaved by metis
qed

text \<open>Data that arrives while a time-out is handled is reaped and then dropped (line 150).\<close>

lemma timeout_drops_data:
  "\<exists>as s. interleaved phase_kernel (Some 10) (read_init NoUrb 0) as s \<and> rd_pc s = RDone Timeout \<and> rd_reaps s = [(0, [65])]"
proof -
  have "\<exists>s. run_schedule phase_kernel (Some 10)
      [Reader, Reader, Reader, Reader, Reader, Reader, Reader, Reader, Clock 10,
       Reader, Device 65, Reader, Reader, Reader, Reader, Reader, Reader,
       Reader, Reader, Reader, Reader, Reader]
      (read_init NoUrb 0) = Some s \<and> rd_pc s = RDone Timeout \<and> rd_reaps s = [(0, [65])]"
    by (simp add: run_simps)
  then show ?thesis using run_schedule_interleaved by metis
qed

text \<open>
  Files. \<open>opened\<close> is the set of open files of the process: opening gives a new one, closing removes it even when
  it reports an error, and the other calls leave it alone.
\<close>

definition files_contract :: "'k syscalls \<Rightarrow> ('k \<Rightarrow> int set) \<Rightarrow> bool" where
  "files_contract sys opened \<longleftrightarrow>
     (\<forall>p k e k'. sys_open sys p k = (Inl e, k') \<longrightarrow> opened k' = opened k) \<and>
     (\<forall>p k fd k'. sys_open sys p k = (Inr fd, k') \<longrightarrow> fd \<notin> opened k \<and> opened k' = insert fd (opened k)) \<and>
     (\<forall>fd k. opened (snd (sys_close sys fd k)) = opened k - {fd}) \<and>
     (\<forall>fd i k. opened (snd (sys_claim sys fd i k)) = opened k) \<and>
     (\<forall>fd i k. opened (snd (sys_release sys fd i k)) = opened k)"

lemma transport_enter_files:
  assumes "files_contract sys opened" "transport_enter sys (t, k) = (r, (t', k'))"
  shows "r = Inr () \<Longrightarrow> \<exists>fd. ut_fd t' = Some fd \<and> fd \<notin> opened k \<and> opened k' = insert fd (opened k)"
    "r = Inl e \<Longrightarrow> opened k' = opened k"
proof -
  obtain r1 k1 where o: "sys_open sys (ut_devfs_path t) k = (r1, k1)" by fastforce
  have "(r = Inr () \<longrightarrow> (\<exists>fd. ut_fd t' = Some fd \<and> fd \<notin> opened k \<and> opened k' = insert fd (opened k))) \<and>
      (r \<noteq> Inr () \<longrightarrow> opened k' = opened k)"
  proof (cases r1)
    case (Inl e1)
    then show ?thesis using assms o
      by (auto simp: transport_enter_def bindS_def on_kernel_def files_contract_def)
  next
    case (Inr fd)
    obtain r2 k2 where c: "sys_claim sys fd (ut_interface t) k1 = (r2, k2)" by fastforce
    obtain r3 k3 where x: "sys_close sys fd k2 = (r3, k3)" by fastforce
    have f: "fd \<notin> opened k" "opened k1 = insert fd (opened k)" "opened k2 = opened k1" "opened k3 = opened k2 - {fd}"
      using assms(1) o c x Inr unfolding files_contract_def by (metis snd_conv)+
    show ?thesis
      using assms(2) o c x Inr f
      by (cases r2; cases r3)
        (auto simp: transport_enter_def bindS_def on_kernel_def set_fd_def onErrorS_def modS_def raiseS_def)
  qed
  then show "r = Inr () \<Longrightarrow> \<exists>fd. ut_fd t' = Some fd \<and> fd \<notin> opened k \<and> opened k' = insert fd (opened k)"
    "r = Inl e \<Longrightarrow> opened k' = opened k" by auto
qed

lemma transport_exit_files:
  assumes "files_contract sys opened" "ut_fd t = Some fd" "transport_exit sys (t, k) = (r, (t', k'))"
  shows "opened k' = opened k - {fd}" "r = Inr () \<Longrightarrow> ut_fd t' = None"
proof -
  obtain r2 k2 where c: "sys_release sys fd (ut_interface t) k = (r2, k2)" by fastforce
  obtain r3 k3 where x: "sys_close sys fd k2 = (r3, k3)" by fastforce
  have f: "opened k2 = opened k" "opened k3 = opened k2 - {fd}"
    using assms(1) c x unfolding files_contract_def by (metis snd_conv)+
  show "opened k' = opened k - {fd}" "r = Inr () \<Longrightarrow> ut_fd t' = None"
    using assms(2,3) c x f
    by (cases r2; cases r3; auto simp: transport_exit_def bindS_def on_kernel_def set_fd_def finallyS_def modS_def)+
qed

text \<open>A short write is an error, and a transport that is not open refuses every transfer.\<close>

lemma transport_bulk_write_complete:
  assumes "transport_bulk_write sys data (t, k) = (Inr n, s)"
  shows "n = int (length data)"
  using assms by (auto simp: transport_bulk_write_def bindS_def retS_def raiseS_def split: option.splits prod.splits sum.splits if_splits)

lemma transport_closed_raises:
  assumes "ut_fd t = None"
  shows "transport_bulk_write sys data (t, k) = (Inl RuntimeError, (t, k))"
    "transport_bulk_read sys sz ms (t, k) = (Inl RuntimeError, (t, k))" "transport_exit sys (t, k) = (Inr (), (t, k))"
    "begin_cancellable_bulk_read t sz ms = Inl RuntimeError"
  using assms by (simp_all add: transport_bulk_write_def transport_bulk_read_def transport_exit_def begin_cancellable_bulk_read_def)

end
