(* ===== verification/Motu_Effort.thy ===== *)
theory Motu_Effort
  imports Motu_Session
begin

text \<open>
  How much a session reads at most. The loops of \<^verbatim>\<open>motu_proxy/datastore.py\<close> are bounded by their limits of reads and by
  the length field of a logical frame alone: the bounds below hold for every device, also for one that never stops
  sending and with a clock that stands still.
\<close>

text \<open>The bulk reads one logical frame takes at most: the length field has two bytes and no chunk is empty.\<close>

definition FRAME_READS :: nat where "FRAME_READS = 65535"

lemma read_u16_range: "read_u16 b n = Inr v \<Longrightarrow> 0 \<le> v \<and> v < 65536"
  using le16.valid_dec[of "pyslice b n (n + 2)"]
  by (auto simp: read_u16_def split: if_splits)

context logged_transport
begin

text \<open>At most \<open>n\<close> chunks are read.\<close>

definition reads_within :: "nat \<Rightarrow> 'w \<Rightarrow> 'w \<Rightarrow> bool" where
  "reads_within n w w' \<longleftrightarrow> length (chunks w') \<le> length (chunks w) + n"

lemma reads_within_trans: "reads_within n w w1 \<Longrightarrow> reads_within m w1 w2 \<Longrightarrow> n + m \<le> k \<Longrightarrow> reads_within k w w2"
  by (simp add: reads_within_def)

lemma reads_within_0: "chunks w' = chunks w \<Longrightarrow> reads_within n w w'"
  by (simp add: reads_within_def)

lemma bulk_read_once:
  assumes "silent_mode rm" "bulk_read tr rm n t w = (r, w')"
  shows "reads_within 1 w w'"
proof (cases "rm_cancellable rm")
  case False
  then show ?thesis using assms(2) read_log by (fastforce simp: bulk_read_def reads_within_def split: sum.splits)
next
  case True
  show ?thesis
  proof (cases "tr_begin_read tr")
    case None
    then show ?thesis using True assms(2) by (simp add: bulk_read_def reads_within_def)
  next
    case (Some f)
    obtain h w1 where 1: "f n t w = (h, w1)" by fastforce
    note l1 = begin_log[OF Some 1]
    show ?thesis
    proof (cases h)
      case (Inl e)
      then show ?thesis using True Some 1 assms(2) l1 by (auto simp: bulk_read_def bindS_apply reads_within_def)
    next
      case (Inr k)
      obtain u w2 where 2: "note_read rm (Some k) w1 = (u, w2)" by fastforce
      obtain q w3 where 3: "tr_pending_read tr k w2 = (q, w3)" by fastforce
      obtain v w4 where 4: "note_read rm None w3 = (v, w4)" by fastforce
      note l = l1 note_read_log[OF assms(1) 2] pending_log[OF 3] note_read_log[OF assms(1) 4]
      have "w' = w2 \<or> w' = w4"
        using True Some Inr 1 2 3 4 assms(2)
        by (cases u; cases q; cases v) (auto simp: bulk_read_def bindS_apply bindS_def finallyS_def onErrorS_def)
      then show ?thesis using l by (auto simp: reads_within_def split: sum.splits)
    qed
  qed
qed

lemma read_more_bound:
  assumes "silent_mode rm" "read_more tr rm t expected acc w = (r, w')"
  shows "reads_within (expected - length acc) w w'"
  using assms(2)
proof (induction "expected - length acc" arbitrary: acc w rule: less_induct)
  case less
  show ?case
  proof (cases "length acc < expected")
    case False
    then show ?thesis using less.prems by (simp add: read_more.simps reads_within_def)
  next
    case True
    obtain q w1 where b: "bulk_read tr rm (max_chunk tr) t w = (q, w1)" by fastforce
    note one = bulk_read_once[OF assms(1) b]
    show ?thesis
    proof (cases "\<exists>c. q = Inr c \<and> c \<noteq> []")
      case False
      then have "w' = w1" using b less.prems True by (cases q) (auto simp: read_more.simps)
      then show ?thesis using one True by (simp add: reads_within_def)
    next
      case c: True
      then obtain c where c: "q = Inr c" "c \<noteq> []" by blast
      then have m: "read_more tr rm t expected (acc @ c) w1 = (r, w')"
        using b less.prems True by (simp add: read_more.simps[of tr rm t expected acc w])
      have "expected - length (acc @ c) < expected - length acc" using True c(2) by (simp add: diff_less_mono2)
      from less.hyps[OF this m] show ?thesis
        using reads_within_trans[OF one, of "expected - length (acc @ c)"] True c(2) by (cases c) auto
    qed
  qed
qed

lemma logical_frame_bound:
  assumes "silent_mode rm" "read_logical_frame tr rm t w = (r, w')"
  shows "reads_within FRAME_READS w w'"
proof -
  obtain q w1 where b: "bulk_read tr rm (max_chunk tr) t w = (q, w1)" by fastforce
  note one = bulk_read_once[OF assms(1) b]
  show ?thesis
  proof (cases "\<exists>first e. q = Inr first \<and> first \<noteq> [] \<and> 4 \<le> length first \<and> read_u16 first 2 = Inr e \<and> 4 \<le> e")
    case False
    then have "w' = w1" using b assms(2)
      by (cases q; cases "read_u16 (projr q) 2") (auto simp: read_logical_frame_def bindS_apply bindS_def split: if_splits)
    then show ?thesis using one by (simp add: reads_within_def FRAME_READS_def)
  next
    case True
    then obtain first e where q: "q = Inr first" "first \<noteq> []" "4 \<le> length first"
      "read_u16 first 2 = Inr e" "4 \<le> e" by blast
    obtain q2 w2 where m: "read_more tr rm t (nat e) first w1 = (q2, w2)" by fastforce
    have "w' = w2" using b q m assms(2)
      by (cases q2) (auto simp: read_logical_frame_def bindS_apply bindS_def split: if_splits)
    moreover have "nat e - length first + 1 \<le> FRAME_READS" using read_u16_range[OF q(4)] q(3) by (auto simp: FRAME_READS_def)
    ultimately show ?thesis using reads_within_trans[OF one read_more_bound[OF assms(1) m]] by simp
  qed
qed

end

context logged_transport
begin

lemma no_reads_within: "keepsS no_reads m \<Longrightarrow> m s = (r, t) \<Longrightarrow> reads_within n (snd s) (snd t)"
  unfolding keepsS_def no_reads_def by (metis reads_within_0 snd_conv)

lemma collect_read_bound:
  assumes "silent_cancel ca" "collect_read tr ca cs rt s = (r, t)"
  shows "reads_within FRAME_READS (snd s) (snd t)"
proof -
  obtain d w where s: "s = (d, w)" by fastforce
  obtain q w1 where l: "read_logical_frame tr (ca_read_mode ca) (Some rt) w = (q, w1)" by fastforce
  have one: "reads_within FRAME_READS w w1" using logical_frame_bound[OF _ l] assms(1) by (simp add: silent_cancel_def)
  have "reads_within 0 w1 (snd t)"
  proof (cases q)
    case (Inl e)
    have "keepsS no_reads (if e = DatastoreCancelled then collect_fail tr ca cs e else raiseS e :: ('w, bytes) sess)"
      by (intro keeps_intros noreads.prim_keeps)
    moreover have "(if e = DatastoreCancelled then collect_fail tr ca cs e else raiseS e) (d, w1) = (r, t)"
      using assms(2) l Inl by (simp add: collect_read_def onErrorS_def onWorld_def s)
    ultimately show ?thesis using no_reads_within by fastforce
  next
    case (Inr p)
    then have "t = (d, w1)" using assms(2) l by (simp add: collect_read_def onErrorS_def onWorld_def s)
    then show ?thesis by (simp add: reads_within_def)
  qed
  then show ?thesis using reads_within_trans[OF one] by (simp add: s)
qed

lemma iteration_bound:
  assumes "silent_cancel ca" "collect_iteration tr ca cs s = (r, t)"
  shows "reads_within (if cs_reads cs < ca_max_reads ca then FRAME_READS else 0) (snd s) (snd t)"
proof -
  have kg: "keepsS no_reads (collect_guard tr ca cs)"
    by (rule noreads.guard_keeps[OF silent_asks_cancel[OF assms(1)]])
  obtain g s1 where g: "collect_guard tr ca cs s = (g, s1)" by (metis surj_pair)
  note w1 = no_reads_within[OF kg g, of 0]
  show ?thesis
  proof (cases g)
    case (Inl e)
    then have "t = s1" using g assms(2) by (simp add: collect_iteration_def bindS_apply)
    then show ?thesis using w1 by (simp add: reads_within_def)
  next
    case (Inr rt)
    have lim: "cs_reads cs < ca_max_reads ca"
      using g Inr by (auto simp: collect_guard_def result_simps split: if_splits)
    obtain p s2 where p: "collect_read tr ca cs rt s1 = (p, s2)" by (metis surj_pair)
    note w2 = collect_read_bound[OF assms(1) p]
    have "reads_within 0 (snd s2) (snd t)"
    proof (cases p)
      case (Inl e)
      then have "t = s2" using g p Inr assms(2) by (simp add: collect_iteration_def bindS_apply)
      then show ?thesis by (simp add: reads_within_def)
    next
      case ok: (Inr packet)
      then have "collect_received tr ca cs packet s2 = (r, t)"
        using g p Inr assms(2) by (simp add: collect_iteration_def bindS_apply)
      then show ?thesis by (rule no_reads_within[OF noreads.received_keeps])
    qed
    then show ?thesis
      using reads_within_trans[OF w1 w2, of FRAME_READS] reads_within_trans[of FRAME_READS "snd s" "snd s2" 0 "snd t"] lim by simp
  qed
qed

lemma loop_bound:
  assumes "silent_cancel ca" "collect_loop tr ca cs s = (r, t)"
  shows "reads_within ((ca_max_reads ca - cs_reads cs) * FRAME_READS) (snd s) (snd t)"
  using assms(2)
proof (induction "ca_max_reads ca - cs_reads cs" arbitrary: cs s rule: less_induct)
  case less
  obtain q u where it: "collect_iteration tr ca cs s = (q, u)" by (metis surj_pair)
  note w1 = iteration_bound[OF assms(1) it]
  show ?case
  proof (cases "cs_quiet_reads cs < 2 \<and> (\<exists>cs'. q = Inr (cs', False))")
    case False
    then have "t = s \<or> t = u" using it less.prems
      by (cases q) (auto simp: collect_loop.simps[of tr ca cs s] split: if_splits)
    then show ?thesis using w1 by (cases "ca_max_reads ca - cs_reads cs") (auto simp: reads_within_def split: if_splits)
  next
    case True
    then obtain cs' where cs': "cs_quiet_reads cs < 2" "q = Inr (cs', False)" by blast
    note d = collect_iteration_reads[OF it[unfolded cs'(2)]]
    have lp: "collect_loop tr ca cs' u = (r, t)" using less.prems it cs' by (simp add: collect_loop.simps[of tr ca cs s])
    have n: "ca_max_reads ca - cs_reads cs = Suc (ca_max_reads ca - cs_reads cs')" using d by linarith
    then have "ca_max_reads ca - cs_reads cs' < ca_max_reads ca - cs_reads cs" by linarith
    note w2 = less.hyps[OF this lp]
    have "reads_within FRAME_READS (snd s) (snd u)" using w1 d(2) by simp
    from reads_within_trans[OF this w2 order_refl] show ?thesis unfolding n mult_Suc .
  qed
qed

lemma response_bound:
  assumes "silent_cancel ca" "collect_response tr ca s = (r, t)"
  shows "reads_within (ca_max_reads ca * FRAME_READS) (snd s) (snd t)"
proof -
  obtain d w where s: "s = (d, w)" by fastforce
  let ?d = "d\<lparr>ms_last_response_stats := None, ms_last_response_etag := None, ms_last_response_payload := None\<rparr>"
  obtain n1 w1 n2 w2 where c: "tr_monotonic tr w = (n1, w1)" "tr_monotonic tr w1 = (n2, w2)" by fastforce
  let ?ca = "ca\<lparr>ca_started := n1, ca_deadline := n2 + of_int (ca_timeout_ms ca) / 1000\<rparr>"
  have sc: "silent_cancel ?ca" using assms(1) by (simp add: silent_cancel_def)
  have w: "reads_within 0 w w2" using clock_log[OF c(1)] clock_log[OF c(2)] by (simp add: reads_within_def)
  obtain q u where l: "collect_loop tr ?ca collect_start (?d, w2) = (q, u)" by (metis surj_pair)
  have b: "reads_within (ca_max_reads ca * FRAME_READS) w2 (snd u)" using loop_bound[OF sc l] by (simp add: collect_start_def)
  have e: "collect_response tr ca s = bindS (collect_loop tr ?ca collect_start) (collect_finish tr ?ca) (?d, w2)"
    by (simp add: collect_response_def s c monotonic_def bindS_def Let_def)
  have "reads_within 0 (snd u) (snd t)"
  proof (cases q)
    case (Inl x)
    then show ?thesis using assms(2) l e by (simp add: bindS_apply reads_within_def)
  next
    case (Inr cs)
    then have "collect_finish tr ?ca cs u = (r, t)" using assms(2) l e by (simp add: bindS_apply)
    then show ?thesis by (rule no_reads_within[OF noreads.finish_keeps])
  qed
  then show ?thesis using reads_within_trans[OF reads_within_trans[OF w b order_refl]] by (simp add: s)
qed

end

context logged_transport
begin

lemma bind_bound:
  assumes "keepsS no_reads m" "\<And>x s1 r t. f x s1 = (r, t) \<Longrightarrow> reads_within n (snd s1) (snd t)" "bindS m f s = (r, t)"
  shows "reads_within n (snd s) (snd t)"
proof -
  obtain q s1 where m: "m s = (q, s1)" by (metis surj_pair)
  note w1 = no_reads_within[OF assms(1) m, of 0]
  show ?thesis
  proof (cases q)
    case (Inl e)
    then show ?thesis using w1 m assms(3) by (simp add: bindS_apply reads_within_def)
  next
    case (Inr x)
    then have "f x s1 = (r, t)" using m assms(3) by (simp add: bindS_apply)
    from reads_within_trans[OF w1 assms(2)[OF this]] show ?thesis by simp
  qed
qed

lemma sending_keeps:
  "keepsS no_reads sess_next_host_seq" "keepsS no_reads (liftR q)" "keepsS no_reads (write_frame tr frame)"
  "keepsS no_reads (modS (\<lambda>(d, w). (advance_message_seq d, w)))"
proof -
  show "keepsS no_reads sess_next_host_seq"
    by (auto simp: keepsS_def no_reads_def sess_next_host_seq_def split: prod.splits)
  show "keepsS no_reads (liftR q)" "keepsS no_reads (modS (\<lambda>(d, w). (advance_message_seq d, w)))"
    by (auto simp: keepsS_def no_reads_def)
  have "keepsS no_reads (onWorld (tr_bulk_write tr frame))"
    using write_log[of frame] by (auto simp: keepsS_def no_reads_def onWorld_def split: prod.splits)
  then show "keepsS no_reads (write_frame tr frame)"
    unfolding write_frame_def by (intro keeps_intros noreads.prim_keeps)
qed

lemma request_bound:
  assumes "silent_cancel ca"
    and "bindS sess_next_host_seq (\<lambda>q. bindS (liftR (build q)) (\<lambda>frame. bindS (write_frame tr frame) (\<lambda>_.
      bindS (modS (\<lambda>(d, w). (advance_message_seq d, w))) (\<lambda>_. collect_response tr ca)))) s = (r, t)"
  shows "reads_within (ca_max_reads ca * FRAME_READS) (snd s) (snd t)"
proof (rule bind_bound[OF sending_keeps(1) _ assms(2)])
  fix q s1 r t
  assume a: "bindS (liftR (build q)) (\<lambda>frame. bindS (write_frame tr frame) (\<lambda>_.
      bindS (modS (\<lambda>(d, w). (advance_message_seq d, w))) (\<lambda>_. collect_response tr ca))) s1 = (r, t)"
  show "reads_within (ca_max_reads ca * FRAME_READS) (snd s1) (snd t)"
  proof (rule bind_bound[OF sending_keeps(2) _ a])
    fix frame s2 r t
    assume b: "bindS (write_frame tr frame) (\<lambda>_. bindS (modS (\<lambda>(d, w). (advance_message_seq d, w))) (\<lambda>_. collect_response tr ca)) s2 = (r, t)"
    show "reads_within (ca_max_reads ca * FRAME_READS) (snd s2) (snd t)"
      by (rule bind_bound[OF sending_keeps(3) bind_bound[OF sending_keeps(4) response_bound[OF assms(1)]] b])
  qed
qed

lemma get_bound:
  assumes "silent_cancel ((default_collect_args 0 0)\<lparr>ca_should_cancel := ga_should_cancel ga, ca_read_mode := ga_read_mode ga\<rparr>)"
    and "sess_get tr path ga s = (r, t)"
  shows "reads_within (DEFAULT_MAX_RESPONSE_READS * FRAME_READS) (snd s) (snd t)"
proof -
  obtain d w where s: "s = (d, w)" by fastforce
  let ?ca = "(default_collect_args (current_message_seq d) (ga_timeout_ms ga))
          \<lparr>ca_should_cancel := ga_should_cancel ga, ca_read_timeout_slice_ms := ga_read_timeout_slice_ms ga,
           ca_read_mode := ga_read_mode ga\<rparr>"
  have "silent_cancel ?ca" using assms(1) by (simp add: silent_cancel_def)
  from request_bound[OF this assms(2)[unfolded sess_get_def s Let_def split_conv]]
  show ?thesis by (simp add: s default_collect_args_def)
qed

lemma post_bound:
  assumes "sess_post tr path body client timeout s = (r, t)"
  shows "reads_within (DEFAULT_MAX_RESPONSE_READS * FRAME_READS) (snd s) (snd t)"
proof -
  obtain d w where s: "s = (d, w)" by fastforce
  have "silent_cancel (default_collect_args (current_message_seq d) timeout)"
    by (simp add: silent_cancel_def silent_mode_def default_collect_args_def plain_read_def)
  from request_bound[OF this assms[unfolded sess_post_def s Let_def split_conv]]
  show ?thesis by (simp add: s default_collect_args_def)
qed

end

text \<open>C10: A request ends. Whatever the device sends, for however long, and even if the clock stands still, \<open>get\<close> and
  \<open>post\<close> return or raise after at most 546 logical frames, that is after at most \<open>546 * 65535\<close> bulk reads that return
  (a read that raises ends the request). The callbacks given to \<open>get\<close> must not read from the device themselves.\<close>

theorem requests_end:
  assumes "leaves_log_args ga"
  shows "length (snd (snd (snd (snd (sess_get (logging tr) path ga (d, (w, out, inp))))))) \<le> length inp + 546 * 65535 \<and>
    length (snd (snd (snd (snd (sess_post (logging tr) path body client timeout (d, (w, out, inp))))))) \<le> length inp + 546 * 65535"
proof -
  have n: "DEFAULT_MAX_RESPONSE_READS * FRAME_READS = 546 * 65535" by (simp add: session_consts FRAME_READS_def)
  have "lt.silent_cancel ((default_collect_args 0 0)\<lparr>ca_should_cancel := ga_should_cancel ga, ca_read_mode := ga_read_mode ga\<rparr>)"
    using assms unfolding lt.silent_cancel_def lt.silent_mode_def leaves_log_args_def by (auto intro: leaves_log_silent)
  from lt.get_bound[OF this] lt.post_bound show ?thesis unfolding lt.reads_within_def n
    by (metis fst_conv prod.collapse snd_conv)
qed

text \<open>A device that sends frames of another request for ever, and a clock that stands still.\<close>

definition babbling :: "unit transport" where
  "babbling =
     \<lparr>tr_max_packet_size = Some 64, tr_bulk_write = (\<lambda>frame w. (Inr (int (length frame)), w)),
      tr_bulk_read = (\<lambda>_ _ w. (Inr [1, 0, 4, 0], w)), tr_begin_read = None, tr_pending_read = (\<lambda>_. raiseS RuntimeError),
      tr_monotonic = (\<lambda>w. (0, w))\<rparr>"

theorem requests_end_witness:
  "length (snd (snd (snd (snd (sess_get (logging babbling) (lit ''/datastore/uid'') default_get_args
     (\<lparr>ms_host_seq = \<lparr>hs_next = 0x20\<rparr>, ms_message_seq = 2, ms_last_response_stats = None, ms_last_response_etag = None,
        ms_last_response_payload = None\<rparr>, ((), [], []))))))) \<le> 546 * 65535"
proof -
  have "leaves_log_args default_get_args" by (simp add: leaves_log_args_def default_get_args_def plain_read_def)
  from requests_end[OF this, of babbling "lit ''/datastore/uid''" _ "()" "[]" "[]"] show ?thesis by (simp del: lit_simps)
qed

end
