(* ===== verification/Motu_Validate.thy ===== *)
theory Motu_Validate
  imports Motu_Session Motu_Paths
begin

text \<open>
  The live frame validator (\<^verbatim>\<open>tools/live_validate_response_frames.py\<close>): it captures the frames of a response with
  its own loop and checks every field, collecting all errors instead of stopping at the first. It is a second
  implementation of the wire format, and is compared here with the parser of the proxy. Error texts are a
  datatype with the values they print.
\<close>

section \<open>The checks\<close>

datatype check_error =
    TooShort nat
  | BadWrapperType int
  | BadWrapperLen int
  | WrapperExceeds int nat
  | NonAsciiHeader bytes
  | BodyTooShort nat
  | PayloadBeyond int nat
  | UnexpectedHeader pystr
  | CrcDiffers int int
  | SeqDiffers int int
  | BadFinal int
  | PayloadLenDiffers int nat
  | BadTrailerLen nat
  | TrailerDiffers bytes bytes
  | SegmentDiffers int nat
  | FinalTooEarly nat
  | NoFinalFlag

record frame_check =
  fc_path :: pystr
  fc_index :: nat
  fc_packet_len :: nat
  fc_wrapper_seq :: int
  fc_wrapper_type :: int
  fc_wrapper_len :: int
  fc_trailing_padding :: int
  fc_header :: pystr
  fc_stored_crc :: int
  fc_computed_crc :: int
  fc_message_seq :: int
  fc_expected_message_seq :: int
  fc_final_field :: int
  fc_segment_index :: int
  fc_payload_len :: int
  fc_actual_payload_len :: nat
  fc_trailer :: bytes
  fc_errors :: "check_error list"

definition check_ok :: "frame_check \<Rightarrow> bool" where
  "check_ok c \<longleftrightarrow> fc_errors c = []"

definition ascii_bytes :: "bytes \<Rightarrow> bool" where
  "ascii_bytes b \<longleftrightarrow> list_all (\<lambda>x. unat x < 128) b"

text \<open>A check whose fields were not read, as the two early returns build it.\<close>

definition unread_check ::
    "pystr \<Rightarrow> nat \<Rightarrow> bytes \<Rightarrow> int \<Rightarrow> int \<Rightarrow> int \<Rightarrow> int \<Rightarrow> int \<Rightarrow> pystr \<Rightarrow> check_error list \<Rightarrow> frame_check" where
  "unread_check path index packet expected_message_seq wrapper_seq wrapper_type wrapper_len padding header errors =
     \<lparr>fc_path = path, fc_index = index, fc_packet_len = length packet, fc_wrapper_seq = wrapper_seq,
      fc_wrapper_type = wrapper_type, fc_wrapper_len = wrapper_len, fc_trailing_padding = padding,
      fc_header = header, fc_stored_crc = 0, fc_computed_crc = 0, fc_message_seq = -1,
      fc_expected_message_seq = expected_message_seq, fc_final_field = 0, fc_segment_index = 0,
      fc_payload_len = 0, fc_actual_payload_len = 0, fc_trailer = [], fc_errors = errors\<rparr>"

definition wrapper_errors :: "bytes \<Rightarrow> int \<Rightarrow> int \<Rightarrow> bytes \<Rightarrow> check_error list" where
  "wrapper_errors packet wrapper_type wrapper_len raw_header =
     (if wrapper_type \<noteq> 0 then [BadWrapperType wrapper_type] else []) @
     (if wrapper_len < 28 then [BadWrapperLen wrapper_len] else []) @
     (if wrapper_len > int (length packet) then [WrapperExceeds wrapper_len (length packet)] else []) @
     (if \<not> ascii_bytes raw_header then [NonAsciiHeader raw_header] else [])"

definition field_errors ::
    "pystr \<Rightarrow> int \<Rightarrow> int \<Rightarrow> int \<Rightarrow> int \<Rightarrow> int \<Rightarrow> int \<Rightarrow> bytes \<Rightarrow> bytes \<Rightarrow> bytes \<Rightarrow> check_error list" where
  "field_errors header stored_crc computed_crc message_seq expected_message_seq final_field payload_len payload
       trailer wrapper_header =
     (if header \<noteq> lit ''NREK'' \<and> header \<noteq> lit ''PTTH'' then [UnexpectedHeader header] else []) @
     (if stored_crc \<noteq> computed_crc then [CrcDiffers stored_crc computed_crc] else []) @
     (if message_seq \<noteq> expected_message_seq then [SeqDiffers message_seq expected_message_seq] else []) @
     (if final_field \<noteq> 0 \<and> final_field \<noteq> 1 then [BadFinal final_field] else []) @
     (if payload_len \<noteq> int (length payload) then [PayloadLenDiffers payload_len (length payload)] else []) @
     (if length trailer \<noteq> 4 then [BadTrailerLen (length trailer)]
      else if trailer \<noteq> wrapper_header then [TrailerDiffers trailer wrapper_header] else [])"

definition validate_response_packet :: "pystr \<Rightarrow> nat \<Rightarrow> bytes \<Rightarrow> int \<Rightarrow> frame_check result" where
  "validate_response_packet path index packet expected_message_seq =
     (if length packet < 24 then
        bindR (read_u16 (packet @ replicate 4 0) 2) (\<lambda>wrapper_len.
        Inr (unread_check path index packet expected_message_seq
               (if length packet > 0 then uint (packet ! 0) else -1)
               (if length packet > 1 then uint (packet ! 1) else -1) wrapper_len 0 [] [TooShort (length packet)]))
      else
        let wrapper_seq = uint (packet ! 0); wrapper_type = uint (packet ! 1) in
        bindR (read_u16 packet 2) (\<lambda>wrapper_len.
        let logical_packet = (if wrapper_len > int (length packet) then packet else take (nat wrapper_len) packet);
            trailing_padding = (if wrapper_len > int (length packet) then 0 else int (length packet) - wrapper_len);
            wrapper_header = take 4 logical_packet;
            body = drop 4 logical_packet;
            raw_header = take 4 body;
            header = (if ascii_bytes raw_header then map unat raw_header else bytes_hex raw_header);
            errors = wrapper_errors packet wrapper_type wrapper_len raw_header
        in if length body < 20
           then Inr (unread_check path index packet expected_message_seq wrapper_seq wrapper_type wrapper_len
                       trailing_padding header (errors @ [BodyTooShort (length body)]))
           else
             bindR (read_u32 body 4) (\<lambda>stored_crc.
             bindR (read_u32 body 8) (\<lambda>message_seq.
             bindR (read_u32 body 12) (\<lambda>final_field.
             bindR (read_u16 body 16) (\<lambda>segment_index.
             bindR (read_u16 body 18) (\<lambda>payload_len.
             let payload_end = 20 + nat payload_len;
                 fits = payload_end \<le> length body;
                 payload = (if fits then pyslice body 20 payload_end else drop 20 body);
                 trailer = (if fits then drop payload_end body else []);
                 errors = errors @ (if fits then [] else [PayloadBeyond payload_len (length payload)]);
                 computed_crc = crc32 payload
             in Inr \<lparr>fc_path = path, fc_index = index, fc_packet_len = length packet, fc_wrapper_seq = wrapper_seq,
                     fc_wrapper_type = wrapper_type, fc_wrapper_len = wrapper_len,
                     fc_trailing_padding = trailing_padding, fc_header = header, fc_stored_crc = stored_crc,
                     fc_computed_crc = computed_crc, fc_message_seq = message_seq,
                     fc_expected_message_seq = expected_message_seq, fc_final_field = final_field,
                     fc_segment_index = segment_index, fc_payload_len = payload_len,
                     fc_actual_payload_len = length payload, fc_trailer = trailer,
                     fc_errors = errors @ field_errors header stored_crc computed_crc message_seq expected_message_seq
                       final_field payload_len payload trailer wrapper_header\<rparr>)))))))"

text \<open>\<open>validate_response_sequence\<close> adds to the errors of the checks in place.\<close>

definition sequence_errors :: "nat \<Rightarrow> nat \<Rightarrow> frame_check \<Rightarrow> check_error list" where
  "sequence_errors count expected_index c =
     (if fc_segment_index c \<noteq> int expected_index then [SegmentDiffers (fc_segment_index c) expected_index] else []) @
     (if fc_final_field c \<noteq> 0 \<and> fc_final_field c \<noteq> 1 then []
      else
        let is_last = (expected_index = count - 1) in
        (if fc_final_field c = 1 \<and> \<not> is_last then [FinalTooEarly expected_index] else []) @
        (if fc_final_field c = 0 \<and> is_last then [NoFinalFlag] else []))"

definition validate_response_sequence :: "frame_check list \<Rightarrow> frame_check list" where
  "validate_response_sequence checks =
     map (\<lambda>(i, c). c\<lparr>fc_errors := fc_errors c @ sequence_errors (length checks) i c\<rparr>) (enumerate 0 checks)"

definition response_payload :: "bytes \<Rightarrow> bytes result" where
  "response_payload packet =
     (if length packet < 24 then Inr []
      else bindR (read_u16 packet 2) (\<lambda>wrapper_len.
        let wrapper_len = min wrapper_len (int (length packet));
            body = drop 4 (take (nat wrapper_len) packet)
        in if length body < 20 then Inr []
           else bindR (read_u16 body 18) (\<lambda>payload_len. Inr (pyslice body 20 (20 + nat payload_len)))))"

definition response_frame_is_final :: "bytes \<Rightarrow> bool result" where
  "response_frame_is_final packet =
     (if length packet < 20 then Inr False
      else bindR (read_u16 packet 2) (\<lambda>wrapper_len.
        if wrapper_len > int (length packet) then Inr False
        else
          let body = drop 4 (take (nat wrapper_len) packet)
          in if length body < 16 then Inr False
             else bindR (read_u32 body 12) (\<lambda>v. Inr (v = 1))))"


section \<open>Capturing a response\<close>

record capture =
  cp_device_acks :: "bytes list"
  cp_response_packets :: "bytes list"
  cp_host_acks :: "bytes list"
  cp_unexpected_packets :: "bytes list"
  cp_total :: nat
  cp_quiet_reads :: nat
  cp_reads :: nat

definition capture_start :: capture where
  "capture_start = \<lparr>cp_device_acks = [], cp_response_packets = [], cp_host_acks = [], cp_unexpected_packets = [],
     cp_total = 0, cp_quiet_reads = 0, cp_reads = 0\<rparr>"

record capture_limits =
  cl_max_bytes :: int
  cl_response_timeout_ms :: int
  cl_max_reads :: int
  cl_max_ignored_packets :: int
  cl_max_response_frames :: int

text \<open>What the loop does with a packet; the flag says whether it is left.\<close>

definition capture_packet ::
    "'w transport \<Rightarrow> capture_limits \<Rightarrow> capture \<Rightarrow> bytes \<Rightarrow> ('w, capture \<times> bool) sess" where
  "capture_packet tr cl cp packet =
     (if is_device_ack packet then retS (cp\<lparr>cp_device_acks := cp_device_acks cp @ [packet]\<rparr>, False)
      else
        let body = (if 4 \<le> length packet then drop 4 packet else [])
        in if take 4 body = NREK \<or> take 4 body = PTTH then
             let cp = cp\<lparr>cp_response_packets := cp_response_packets cp @ [packet], cp_total := cp_total cp + length packet\<rparr>
             in bindS sess_next_host_seq (\<lambda>q.
                bindS (write_frame tr (build_ack q)) (\<lambda>_.
                let cp = cp\<lparr>cp_host_acks := cp_host_acks cp @ [build_ack q]\<rparr>
                in if cl_max_response_frames cl < int (length (cp_response_packets cp)) then raiseS RuntimeError
                   else if cl_max_bytes cl < int (cp_total cp) then raiseS RuntimeError
                   else bindS (liftR (response_frame_is_final packet)) (\<lambda>final. retS (cp, final))))
           else
             let cp = cp\<lparr>cp_unexpected_packets := cp_unexpected_packets cp @ [packet]\<rparr>
             in if cl_max_ignored_packets cl < int (length (cp_unexpected_packets cp)) then raiseS RuntimeError
                else retS (cp, False))"

definition capture_iteration ::
    "'w transport \<Rightarrow> capture_limits \<Rightarrow> rat \<Rightarrow> capture \<Rightarrow> ('w, capture \<times> bool) sess" where
  "capture_iteration tr cl deadline cp =
     (if cl_max_reads cl \<le> int (cp_reads cp) then raiseS RuntimeError
      else bindS (monotonic tr) (\<lambda>now.
        if deadline \<le> now then raiseS RuntimeError
        else
          let read_timeout_ms = max 1 \<lfloor>(deadline - now) * 1000\<rfloor>
          in bindS (onWorld (read_logical_frame tr plain_read (Some read_timeout_ms))) (\<lambda>packet.
             let cp = cp\<lparr>cp_reads := cp_reads cp + 1\<rparr>
             in if packet = [] then retS (cp\<lparr>cp_quiet_reads := cp_quiet_reads cp + 1\<rparr>, False)
                else capture_packet tr cl (cp\<lparr>cp_quiet_reads := 0\<rparr>) packet)))"

lemma capture_packet_reads:
  "capture_packet tr cl cp packet s = (Inr (cp', stop), t) \<Longrightarrow> cp_reads cp' = cp_reads cp"
  by (auto simp: capture_packet_def Let_def result_simps split: if_splits)

lemma capture_iteration_reads:
  assumes "capture_iteration tr cl deadline cp s = (Inr (cp', stop), t)"
  shows "cp_reads cp' = Suc (cp_reads cp)" "int (cp_reads cp) < cl_max_reads cl"
  using assms by (auto simp: capture_iteration_def Let_def result_simps split: if_splits dest!: capture_packet_reads)

function capture_loop :: "'w transport \<Rightarrow> capture_limits \<Rightarrow> rat \<Rightarrow> capture \<Rightarrow> ('w, capture) sess" where
  "capture_loop tr cl deadline cp s =
     (if cp_quiet_reads cp < 2 then
        (case capture_iteration tr cl deadline cp s of
           (Inl e, t) \<Rightarrow> (Inl e, t)
         | (Inr (cp', stop), t) \<Rightarrow> if stop then (Inr cp', t) else capture_loop tr cl deadline cp' t)
      else (Inr cp, s))"
  by pat_completeness auto
termination
  by (relation "measure (\<lambda>(tr, cl, deadline, cp, s). nat (cl_max_reads cl - int (cp_reads cp)))")
    (auto simp: capture_iteration_reads(1)[OF sym] dest: capture_iteration_reads(2)[OF sym])

declare capture_loop.simps [simp del]

record capture_result =
  cr_path :: pystr
  cr_request_seq :: int
  cr_message_seq :: int
  cr_capture :: capture
  cr_frame_checks :: "frame_check list"
  cr_joined_response :: bytes

definition capture_ok :: "capture_result \<Rightarrow> bool" where
  "capture_ok r \<longleftrightarrow>
     cp_response_packets (cr_capture r) \<noteq> [] \<and> cp_unexpected_packets (cr_capture r) = [] \<and>
     list_all check_ok (cr_frame_checks r)"

text \<open>The checks and the payload of the captured packets; indices are counted from 1.\<close>

definition check_packets :: "pystr \<Rightarrow> int \<Rightarrow> bytes list \<Rightarrow> (frame_check list \<times> bytes) result" where
  "check_packets path message_seq packets =
     bindR (mapR (\<lambda>(i, packet). validate_response_packet path i packet message_seq) (enumerate 1 packets)) (\<lambda>checks.
     bindR (mapR response_payload packets) (\<lambda>payloads.
     Inr (validate_response_sequence checks, concat payloads)))"

text \<open>The message sequence is used and advanced without the mask of the session's own \<open>get\<close>.\<close>

definition capture_get ::
    "'w transport \<Rightarrow> (pystr \<Rightarrow> bool) \<Rightarrow> pystr \<Rightarrow> pystr \<Rightarrow> capture_limits \<Rightarrow> ('w, capture_result) sess" where
  "capture_get tr netloc_ok path etag cl =
     bindS (liftR (normalize_path netloc_ok path)) (\<lambda>path.
     bindS sess_next_host_seq (\<lambda>request_seq (d, w).
     let message_seq = ms_message_seq d in
     bindS (liftR (build_get_frame request_seq message_seq path etag (lit ''NREK'') None NoFields)) (\<lambda>frame.
     bindS (write_frame tr frame) (\<lambda>_.
     bindS (modS (\<lambda>(d, w). (d\<lparr>ms_message_seq := ms_message_seq d + 1\<rparr>, w))) (\<lambda>_.
     bindS (monotonic tr) (\<lambda>started.
     bindS (capture_loop tr cl (started + of_int (cl_response_timeout_ms cl) / 1000) capture_start) (\<lambda>cp.
     bindS (liftR (check_packets path message_seq (cp_response_packets cp))) (\<lambda>(checks, joined).
     retS \<lparr>cr_path = path, cr_request_seq = request_seq, cr_message_seq = message_seq, cr_capture = cp,
           cr_frame_checks = checks, cr_joined_response = joined\<rparr>)))))) (d, w)))"


section \<open>The validator and the parser agree\<close>

lemma reads_in_range:
  "k + 2 \<le> length d \<Longrightarrow> read_u16 d k = Inr (le_val (pyslice d k (k + 2)))"
  "k + 4 \<le> length d \<Longrightarrow> read_u32 d k = Inr (le_val (pyslice d k (k + 4)))"
  by (simp_all add: read_u16_def read_u32_def)

text \<open>No check raises.\<close>

lemma validate_response_packet_total: "\<exists>c. validate_response_packet path i packet ms = Inr c"
proof (cases "length packet < 24")
  case False
  then obtain w where "read_u16 packet 2 = Inr w" by (simp add: read_u16_def)
  then show ?thesis using False
    by (auto simp: validate_response_packet_def Let_def reads_in_range)
qed (simp add: validate_response_packet_def read_u16_def)

lemma response_payload_total: "\<exists>p. response_payload packet = Inr p"
proof (cases "length packet < 24")
  case False
  then obtain w where "read_u16 packet 2 = Inr w" by (simp add: read_u16_def)
  then show ?thesis using False by (auto simp: response_payload_def Let_def reads_in_range)
qed (simp add: response_payload_def)

lemma header_text:
  "(if ascii_bytes h then map unat h else bytes_hex h) = lit ''NREK'' \<and> ascii_bytes h \<longleftrightarrow> h = NREK"
  "(if ascii_bytes h then map unat h else bytes_hex h) = lit ''PTTH'' \<and> ascii_bytes h \<longleftrightarrow> h = PTTH"
proof -
  have "map unat h = map unat NREK \<longleftrightarrow> h = NREK" "map unat h = map unat PTTH \<longleftrightarrow> h = PTTH"
    by (metis list.inj_map_strong unsigned_word_eqI)+
  moreover have "map unat NREK = lit ''NREK''" "map unat PTTH = lit ''PTTH''" "ascii_bytes NREK" "ascii_bytes PTTH"
    by (simp_all add: NREK_def PTTH_def ascii_bytes_def)
  ultimately show "(if ascii_bytes h then map unat h else bytes_hex h) = lit ''NREK'' \<and> ascii_bytes h \<longleftrightarrow> h = NREK"
    "(if ascii_bytes h then map unat h else bytes_hex h) = lit ''PTTH'' \<and> ascii_bytes h \<longleftrightarrow> h = PTTH"
    by auto
qed

text \<open>What a check without errors has established.\<close>

definition clean_frame :: "bytes \<Rightarrow> int \<Rightarrow> bool" where
  "clean_frame packet ms \<longleftrightarrow>
     28 \<le> length packet \<and> uint (packet ! 1) = 0 \<and>
     (let w = le_val (pyslice packet 2 4); body = drop 4 (take (nat w) packet);
          plen = nat (le_val (pyslice body 18 20)); fin = le_val (pyslice body 12 16) in
        28 \<le> w \<and> w \<le> int (length packet) \<and> (take 4 body = NREK \<or> take 4 body = PTTH) \<and>
        le_val (pyslice body 8 12) = ms \<and> (fin = 0 \<or> fin = 1) \<and> 24 + plen = length body \<and>
        le_val (pyslice body 4 8) = crc32 (pyslice body 20 (20 + plen)) \<and>
        drop (20 + plen) body = take 4 packet)"

lemma parse_clean: "(\<exists>f. parse_response_frame packet ms = Inr f) \<longleftrightarrow> clean_frame packet ms"
proof
  assume "\<exists>f. parse_response_frame packet ms = Inr f"
  then obtain f where "parse_response_frame packet ms = Inr f" by blast
  then show "clean_frame packet ms"
  proof (rule parse_response_frame_InrE)
    fix wlen crc fin seg plen body
    assume p: "28 \<le> length packet" "uint (packet ! 1) = 0" "read_u16 packet 2 = Inr wlen" "28 \<le> wlen"
      "wlen \<le> int (length packet)" "body = drop 4 (take (nat wlen) packet)" "take 4 body = NREK \<or> take 4 body = PTTH"
      "read_u32 body 4 = Inr crc" "read_u32 body 8 = Inr ms" "read_u32 body 12 = Inr fin" "read_u16 body 18 = Inr plen"
      "fin = 0 \<or> fin = 1" "24 + nat plen = length body" "crc = crc32 (pyslice body 20 (20 + nat plen))"
      "pyslice body (20 + nat plen) (24 + nat plen) = take 4 packet"
    have v: "le_val (pyslice packet 2 4) = wlen" "le_val (pyslice body 4 8) = crc" "le_val (pyslice body 8 12) = ms"
      "le_val (pyslice body 12 16) = fin" "le_val (pyslice body 18 20) = plen"
      using p(3,8-11) by (auto simp: result_simps)
    have "drop (20 + nat plen) body = take 4 packet" using p(13,15) by (simp add: pyslice_def)
    then show "clean_frame packet ms"
      unfolding clean_frame_def Let_def v(1) p(6)[symmetric] v using p by simp
  qed
next
  define w body where "w = le_val (pyslice packet 2 4)" and "body = drop 4 (take (nat w) packet)"
  define plen where "plen = le_val (pyslice body 18 20)"
  assume "clean_frame packet ms"
  then have c: "28 \<le> length packet" "uint (packet ! 1) = 0" "28 \<le> w" "w \<le> int (length packet)"
    "take 4 body = NREK \<or> take 4 body = PTTH" "le_val (pyslice body 8 12) = ms"
    "le_val (pyslice body 12 16) = 0 \<or> le_val (pyslice body 12 16) = 1" "24 + nat plen = length body"
    "le_val (pyslice body 4 8) = crc32 (pyslice body 20 (20 + nat plen))" "drop (20 + nat plen) body = take 4 packet"
    unfolding clean_frame_def Let_def w_def[symmetric] body_def[symmetric] plen_def[symmetric] by simp_all
  have r: "read_u16 packet 2 = Inr w" "read_u32 body 4 = Inr (le_val (pyslice body 4 8))" "read_u32 body 8 = Inr ms"
    "read_u32 body 12 = Inr (le_val (pyslice body 12 16))" "read_u16 body 16 = Inr (le_val (pyslice body 16 18))"
    "read_u16 body 18 = Inr plen"
    using c(1,6,8) by (auto simp: read_u16_def read_u32_def w_def plen_def)
  have t: "take 4 (take (nat w) packet) = take 4 packet" using c(3) by (auto simp: min_def)
  have s: "pyslice body (20 + nat plen) (20 + nat plen + 4) = take 4 packet"
    by (simp add: pyslice_def c(10))
  have l: "\<not> length packet < 28" "\<not> w < 28" "\<not> w > int (length packet)" "\<not> (take 4 body \<noteq> NREK \<and> take 4 body \<noteq> PTTH)"
    "\<not> (le_val (pyslice body 12 16) \<noteq> 0 \<and> le_val (pyslice body 12 16) \<noteq> 1)" "20 + nat plen + 4 = length body"
    using c by auto
  show "\<exists>f. parse_response_frame packet ms = Inr f"
    unfolding parse_response_frame_def Let_def if_not_P[OF l(1)] r(1) bindR_simps body_def[symmetric] c(2)
      if_not_P[OF l(2)] if_not_P[OF l(3)] if_not_P[OF l(4)] r t if_not_P[OF l(5)] l(6) c(9) by (simp add: s[unfolded l(6)])
qed

lemma if_nil: "((if b then [x] else []) = []) \<longleftrightarrow> \<not> b" "((if b then [] else [x]) = []) \<longleftrightarrow> b"
  by auto

lemma validate_clean:
  assumes "validate_response_packet path i packet ms = Inr c"
  shows "fc_errors c = [] \<longleftrightarrow> clean_frame packet ms"
proof (cases "24 \<le> length packet")
  case True
  define w where "w = le_val (pyslice packet 2 4)"
  have r: "read_u16 packet 2 = Inr w" using True by (simp add: read_u16_def w_def)
  show ?thesis
  proof (cases "28 \<le> w \<and> w \<le> int (length packet) \<and> uint (packet ! 1) = 0")
    case w: True
    define body where "body = drop 4 (take (nat w) packet)"
    define plen where "plen = le_val (pyslice body 18 20)"
    let ?h = "if ascii_bytes (take 4 body) then map unat (take 4 body) else bytes_hex (take 4 body)"
    let ?fits = "20 + nat plen \<le> length body"
    let ?payload = "if ?fits then pyslice body 20 (20 + nat plen) else drop 20 body"
    let ?trailer = "if ?fits then drop (20 + nat plen) body else []"
    have b: "24 \<le> length body" "28 \<le> length packet" using w by (auto simp: body_def)
    have t: "take 4 (take (nat w) packet) = take 4 packet" "\<not> w > int (length packet)" using w by (auto simp: min_def)
    have rb: "read_u32 body 4 = Inr (le_val (pyslice body 4 8))" "read_u32 body 8 = Inr (le_val (pyslice body 8 12))"
      "read_u32 body 12 = Inr (le_val (pyslice body 12 16))" "read_u16 body 16 = Inr (le_val (pyslice body 16 18))"
      "read_u16 body 18 = Inr plen"
      using b(1) by (simp_all add: read_u16_def read_u32_def plen_def)
    have n: "\<not> length packet < 24" "\<not> length body < 20" using True b by auto
    have e: "fc_errors c = (if ascii_bytes (take 4 body) then [] else [NonAsciiHeader (take 4 body)]) @
        (if ?fits then [] else [PayloadBeyond plen (length ?payload)]) @
        field_errors ?h (le_val (pyslice body 4 8)) (crc32 ?payload) (le_val (pyslice body 8 12)) ms
          (le_val (pyslice body 12 16)) plen ?payload ?trailer (take 4 packet)"
      using assms w
      unfolding validate_response_packet_def Let_def if_not_P[OF n(1)] r bindR_simps if_not_P[OF t(2)] t(1)
        body_def[symmetric] if_not_P[OF n(2)] rb by (auto simp: wrapper_errors_def)
    have p0: "0 \<le> plen" using read_u16_bounds[OF rb(5)] by simp
    have "fc_errors c = [] \<longleftrightarrow> ascii_bytes (take 4 body) \<and> ?fits \<and> (?h = lit ''NREK'' \<or> ?h = lit ''PTTH'') \<and>
        le_val (pyslice body 4 8) = crc32 ?payload \<and> le_val (pyslice body 8 12) = ms \<and>
        (le_val (pyslice body 12 16) = 0 \<or> le_val (pyslice body 12 16) = 1) \<and> length ?trailer = 4 \<and> ?trailer = take 4 packet"
      unfolding e field_errors_def append_is_Nil_conv if_nil using p0
      by (auto simp: length_pyslice simp del: lit_simps)
    note A = this
    have B: "ascii_bytes (take 4 body) \<and> (?h = lit ''NREK'' \<or> ?h = lit ''PTTH'') \<longleftrightarrow> take 4 body = NREK \<or> take 4 body = PTTH"
      using header_text[of "take 4 body"] by blast
    have C: "clean_frame packet ms \<longleftrightarrow> (take 4 body = NREK \<or> take 4 body = PTTH) \<and> le_val (pyslice body 8 12) = ms \<and>
        (le_val (pyslice body 12 16) = 0 \<or> le_val (pyslice body 12 16) = 1) \<and> 24 + nat plen = length body \<and>
        le_val (pyslice body 4 8) = crc32 (pyslice body 20 (20 + nat plen)) \<and> drop (20 + nat plen) body = take 4 packet"
      unfolding clean_frame_def Let_def w_def[symmetric] body_def[symmetric] plen_def[symmetric] using b w by simp
    show ?thesis
    proof (cases ?fits)
      case fits: True
      then have "length (drop (20 + nat plen) body) = 4 \<longleftrightarrow> 24 + nat plen = length body" by auto
      then show ?thesis using B fits unfolding A C if_P[OF fits] by blast
    next
      case False
      then have "24 + nat plen \<noteq> length body" by simp
      then show ?thesis using False unfolding A C by blast
    qed
  next
    case False
    define h where "h = take 4 (drop 4 (if w > int (length packet) then packet else take (nat w) packet))"
    have "\<exists>x. fc_errors c = wrapper_errors packet (uint (packet ! 1)) w h @ x"
    proof -
      define body where "body = drop 4 (if w > int (length packet) then packet else take (nat w) packet)"
      have n: "\<not> length packet < 24" using True by simp
      show ?thesis
      proof (cases "length body < 20")
        case short: True
        show ?thesis
          using assms unfolding validate_response_packet_def Let_def if_not_P[OF n] r bindR_simps h_def
            body_def[symmetric] if_P[OF short] by (auto simp: unread_check_def)
      next
        case long: False
        have rb: "read_u32 body 4 = Inr (le_val (pyslice body 4 8))" "read_u32 body 8 = Inr (le_val (pyslice body 8 12))"
          "read_u32 body 12 = Inr (le_val (pyslice body 12 16))" "read_u16 body 16 = Inr (le_val (pyslice body 16 18))"
          "read_u16 body 18 = Inr (le_val (pyslice body 18 20))"
          using long by (simp_all add: read_u16_def read_u32_def)
        show ?thesis
          using assms unfolding validate_response_packet_def Let_def if_not_P[OF n] r bindR_simps h_def
            body_def[symmetric] if_not_P[OF long] by (auto simp: rb)
      qed
    qed
    moreover have "wrapper_errors packet (uint (packet ! 1)) w h \<noteq> []"
      using False by (auto simp: wrapper_errors_def)
    ultimately have "fc_errors c \<noteq> []" by auto
    moreover have "\<not> clean_frame packet ms" using False unfolding clean_frame_def Let_def w_def[symmetric] by blast
    ultimately show ?thesis by simp
  qed
next
  case False
  then show ?thesis using assms by (auto simp: validate_response_packet_def clean_frame_def read_u16_def unread_check_def)
qed

text \<open>The fields of an accepted frame.\<close>

lemma validate_fields:
  assumes "parse_response_frame packet ms = Inr f" "validate_response_packet path i packet ms = Inr c"
  shows "fc_segment_index c = rf_segment_index f" "fc_final_field c = (if rf_final f then 1 else 0)"
    "response_payload packet = Inr (rf_payload f)"
proof -
  obtain wlen crc fin seg plen body where p:
    "28 \<le> length packet" "uint (packet ! 1) = 0" "read_u16 packet 2 = Inr wlen"
    "28 \<le> wlen" "wlen \<le> int (length packet)" "body = drop 4 (take (nat wlen) packet)"
    "read_u32 body 4 = Inr crc" "read_u32 body 8 = Inr ms" "read_u32 body 12 = Inr fin"
    "read_u16 body 16 = Inr seg" "read_u16 body 18 = Inr plen" "fin = 0 \<or> fin = 1"
    "24 + nat plen = length body"
    "f = \<lparr>rf_header = take 4 body, rf_wrapper_seq = uint (packet ! 0), rf_wrapper_type = 0,
          rf_wrapper_len = wlen, rf_message_seq = ms, rf_final = (fin \<noteq> 0),
          rf_segment_index = seg, rf_payload = pyslice body 20 (20 + nat plen)\<rparr>"
    by (rule parse_response_frame_InrE[OF assms(1)])
  have b: "\<not> length body < 20" "\<not> length packet < 24" "\<not> wlen > int (length packet)" "min wlen (int (length packet)) = wlen"
    using p(1,4,5,13) by auto
  have "fc_segment_index c = seg \<and> fc_final_field c = fin"
    using assms(2) b(1-3) p(3,7-11) unfolding validate_response_packet_def p(6) Let_def by auto
  then show "fc_segment_index c = rf_segment_index f" "fc_final_field c = (if rf_final f then 1 else 0)"
    using p(12,14) by auto
  show "response_payload packet = Inr (rf_payload f)"
    using b p(3,11) unfolding response_payload_def p(6,14) Let_def by simp
qed

lemma sequence_errors_nil:
  assumes "fc_final_field c = (if fin then 1 else 0)" "i < n"
  shows "sequence_errors n i c = [] \<longleftrightarrow> fc_segment_index c = int i \<and> (fin \<longleftrightarrow> Suc i = n)"
  using assms by (auto simp: sequence_errors_def Let_def)

lemma parse_all_or_fault:
  obtains fs where "mapR (\<lambda>p. parse_response_frame p ms) packets = Inr fs"
  | fault where "mapR (\<lambda>p. parse_response_frame p ms) packets = Inl (ResponseFrameError fault)"
      "\<exists>p\<in>set packets. \<forall>f. parse_response_frame p ms \<noteq> Inr f"
proof -
  have "(\<exists>fs. mapR (\<lambda>p. parse_response_frame p ms) packets = Inr fs) \<or>
    (\<exists>fault. mapR (\<lambda>p. parse_response_frame p ms) packets = Inl (ResponseFrameError fault)) \<and>
     (\<exists>p\<in>set packets. \<forall>f. parse_response_frame p ms \<noteq> Inr f)"
  proof (induction packets)
    case (Cons p ps)
    show ?case
    proof (cases "parse_response_frame p ms")
      case (Inl e)
      then show ?thesis using parse_response_frame_error[OF Inl] by auto
    next
      case (Inr f)
      then show ?thesis using Cons by auto
    qed
  qed simp
  then show ?thesis using that by blast
qed

lemma check_packets_total:
  obtains cs payloads where
    "list_all2 (\<lambda>(i, p) c. validate_response_packet path i p ms = Inr c) (enumerate 1 packets) cs"
    "list_all2 (\<lambda>p d. response_payload p = Inr d) packets payloads"
    "check_packets path ms packets = Inr (validate_response_sequence cs, concat payloads)"
proof -
  have "\<exists>ys. mapR g xs = Inr ys" if "\<And>x. \<exists>y. g x = Inr y" for g :: "'x \<Rightarrow> 'y result" and xs
  proof (induction xs)
    case (Cons x xs)
    then show ?case using that[of x] by auto
  qed simp
  note all = this
  obtain cs where m1: "mapR (\<lambda>(i, p). validate_response_packet path i p ms) (enumerate 1 packets) = Inr cs"
    using all[of "\<lambda>(i, p). validate_response_packet path i p ms"] validate_response_packet_total by fastforce
  obtain payloads where m2: "mapR response_payload packets = Inr payloads"
    using all[of response_payload] response_payload_total by blast
  show ?thesis
  proof (rule that)
    show "list_all2 (\<lambda>(i, p) c. validate_response_packet path i p ms = Inr c) (enumerate 1 packets) cs"
      using m1 unfolding mapR_Inr_iff by (simp add: split_def)
    show "list_all2 (\<lambda>p d. response_payload p = Inr d) packets payloads" using m2 unfolding mapR_Inr_iff .
    show "check_packets path ms packets = Inr (validate_response_sequence cs, concat payloads)"
      unfolding check_packets_def m1 m2 by simp
  qed
qed

lemma validate_response_sequence_ok:
  "list_all check_ok (validate_response_sequence cs) \<longleftrightarrow>
     (\<forall>i<length cs. fc_errors (cs ! i) = [] \<and> sequence_errors (length cs) i (cs ! i) = [])"
  by (auto simp: validate_response_sequence_def list_all_length nth_enumerate_eq check_ok_def)

lemma join_parsed_iff:
  "join_parsed_response_frames frames = Inr r \<longleftrightarrow> segments_in_order frames \<and> r = concat (map rf_payload frames)"
  using join_loop_Inr_iff [of 0 frames "length frames"]
  by (auto simp: join_parsed_response_frames_def segments_in_order_def)

text \<open>The checks of the tool against the parser.\<close>

lemma check_packets_agree:
  "\<exists>checks joined fault. check_packets path ms packets = Inr (checks, joined) \<and>
     join_response_frames packets ms =
       (if list_all check_ok checks then Inr joined else Inl (ResponseFrameError fault))"
proof -
  obtain cs payloads where c: "list_all2 (\<lambda>(i, p) c. validate_response_packet path i p ms = Inr c) (enumerate 1 packets) cs"
    and d: "list_all2 (\<lambda>p d. response_payload p = Inr d) packets payloads"
    and res: "check_packets path ms packets = Inr (validate_response_sequence cs, concat payloads)"
    by (rule check_packets_total)
  have len: "length cs = length packets" using c by (auto dest: list_all2_lengthD)
  have ci: "validate_response_packet path (Suc i) (packets ! i) ms = Inr (cs ! i)" if "i < length packets" for i
    using list_all2_nthD[OF c, of i] that by (simp add: nth_enumerate_eq)
  show ?thesis
  proof (cases rule: parse_all_or_fault[of ms packets])
    case (1 fs)
    then have f: "list_all2 (\<lambda>p f. parse_response_frame p ms = Inr f) packets fs" unfolding mapR_Inr_iff .
    have fl: "length fs = length packets" using f by (auto dest: list_all2_lengthD)
    have fi: "parse_response_frame (packets ! i) ms = Inr (fs ! i)" if "i < length packets" for i
      using list_all2_nthD[OF f that] .
    have "payloads = map rf_payload fs"
      by (rule nth_equalityI)
        (use d fl validate_fields(3)[OF fi ci] list_all2_nthD[OF d] in \<open>auto dest: list_all2_lengthD\<close>)
    moreover have "list_all check_ok (validate_response_sequence cs) \<longleftrightarrow> segments_in_order fs"
      unfolding validate_response_sequence_ok segments_in_order_def len fl
    proof (intro all_cong1 imp_cong refl)
      fix i assume i: "i < length packets"
      have "fc_errors (cs ! i) = []" using validate_clean[OF ci[OF i]] parse_clean fi[OF i] by blast
      then show "(fc_errors (cs ! i) = [] \<and> sequence_errors (length packets) i (cs ! i) = []) =
          (rf_segment_index (fs ! i) = int i \<and> rf_final (fs ! i) = (Suc i = length packets))"
        using sequence_errors_nil[OF validate_fields(2)[OF fi[OF i] ci[OF i]] i] validate_fields(1)[OF fi[OF i] ci[OF i]] by simp
    qed
    moreover have "join_response_frames packets ms = join_parsed_response_frames fs" using 1 by (simp add: join_response_frames_def)
    moreover have "\<exists>fault. join_parsed_response_frames fs =
        (if segments_in_order fs then Inr (concat (map rf_payload fs)) else Inl (ResponseFrameError fault))"
      using join_parsed_iff[of fs] join_parsed_response_frames_error[of fs]
      by (cases "join_parsed_response_frames fs") auto
    ultimately show ?thesis using res by auto
  next
    case (2 fault)
    then obtain i where i: "i < length packets" "\<forall>f. parse_response_frame (packets ! i) ms \<noteq> Inr f"
      by (auto simp: in_set_conv_nth)
    then have "fc_errors (cs ! i) \<noteq> []" using validate_clean[OF ci[OF i(1)]] parse_clean by blast
    then have "\<not> list_all check_ok (validate_response_sequence cs)"
      unfolding validate_response_sequence_ok len using i(1) by blast
    then show ?thesis using res 2(1) by (simp add: join_response_frames_def)
  qed
qed

text \<open>C11: The validator of the live tool and the parser of the proxy are the same check. For any packets the
  validator returns, and it finds no error exactly when the proxy parses all frames and joins them; the payload
  it reports is then the response of the proxy. Otherwise the proxy raises \<open>ResponseFrameError\<close>.\<close>

theorem validator_agrees:
  "\<exists>checks joined fault. check_packets path ms packets = Inr (checks, joined) \<and>
     join_response_frames packets ms =
       (if list_all check_ok checks then Inr joined else Inl (ResponseFrameError fault))"
  by (rule check_packets_agree)

end
