(* ===== verification/Motu_Info.thy ===== *)
theory Motu_Info
  imports Motu_Session Motu_Json
begin

text \<open>
  What the commands make of a response: \<open>response_to_text\<close> of \<^verbatim>\<open>motu_proxy/parser.py\<close> and the capability
  information of \<^verbatim>\<open>motu_proxy/datastore.py\<close> (\<open>read_device_capability_info\<close>). Both use \<open>json.loads\<close> with the
  constants \<open>NaN\<close>, \<open>Infinity\<close> and \<open>-Infinity\<close>, and tell \<open>JSONDecodeError\<close> from the plain \<open>ValueError\<close> of an
  integer with too many digits: in this theory \<open>ValueError\<close> is the former, and the latter is one of the exceptions
  collected in \<open>OtherException\<close>, like \<open>RecursionError\<close>.
\<close>

section \<open>The standard decoder and the indenting encoder\<close>

definition starts_number :: "pystr \<Rightarrow> bool" where
  "starts_number s = (let t = (if s \<noteq> [] \<and> hd s = 45 then tl s else s) in t \<noteq> [] \<and> ascii_digit (hd t))"

text \<open>Where a number begins, the only error is that of too many digits.\<close>

definition scan_leaf_std :: "pystr \<Rightarrow> (json \<times> pystr) result" where
  "scan_leaf_std s =
     (if prefix (lit ''NaN'') s then Inr (JFloat FNaN, drop 3 s)
      else if prefix (lit ''Infinity'') s then Inr (JFloat FPosInf, drop 8 s)
      else if prefix (lit ''-Infinity'') s then Inr (JFloat FNegInf, drop 9 s)
      else case scan_leaf s of
        Inl e \<Rightarrow> Inl (if starts_number s then OtherException else e)
      | Inr x \<Rightarrow> Inr x)"

fun scan_once_std :: "nat \<Rightarrow> pystr \<Rightarrow> (json \<times> pystr) result" where
  "scan_once_std 0 s = (if s \<noteq> [] \<and> (hd s = 123 \<or> hd s = 91) then Inl OtherException else scan_leaf_std s)"
| "scan_once_std (Suc n) s =
     (if s \<noteq> [] \<and> hd s = 123 then scan_items (scan_member (scan_once_std n)) 125 (\<lambda>kvs. JObj (dict_of kvs)) (tl s)
      else if s \<noteq> [] \<and> hd s = 91 then scan_items (scan_once_std n) 93 JList (tl s)
      else scan_leaf_std s)"

definition json_loads_std :: "nat \<Rightarrow> pystr \<Rightarrow> json result" where
  "json_loads_std limit s =
     (if s \<noteq> [] \<and> hd s = 0xFEFF then Inl ValueError
      else bindR (scan_once_std limit (skip_ws s)) (\<lambda>(v, r). if skip_ws r = [] then Inr v else Inl ValueError))"

text \<open>\<open>json.dumps(value, indent=2, sort_keys=True)\<close>; \<open>float_text\<close> writes a double, constants included.\<close>

definition newline_indent :: "nat \<Rightarrow> pystr" where
  "newline_indent level = 10 # replicate (2 * level) 32"

definition bracketed :: "nat \<Rightarrow> nat \<Rightarrow> nat \<Rightarrow> pystr list \<Rightarrow> pystr" where
  "bracketed level opening close items =
     (if items = [] then [opening, close]
      else [opening] @ newline_indent (Suc level) @ join_with (44 # newline_indent (Suc level)) items @
        newline_indent level @ [close])"

primrec json_pretty :: "(pyfloat \<Rightarrow> pystr) \<Rightarrow> json \<Rightarrow> nat \<Rightarrow> pystr" where
  "json_pretty float_text JNull level = lit ''null''"
| "json_pretty float_text (JBool b) level = (if b then lit ''true'' else lit ''false'')"
| "json_pretty float_text (JInt i) level = str_int i"
| "json_pretty float_text (JFloat f) level = float_text f"
| "json_pretty float_text (JStr s) level = dump_string s"
| "json_pretty float_text (JList xs) level =
     bracketed level 91 93 (map (\<lambda>t. t (Suc level)) (map (json_pretty float_text) xs))"
| "json_pretty float_text (JObj kvs) level =
     bracketed level 123 125
       (map (\<lambda>(k, t). dump_string k @ lit '': '' @ t (Suc level))
         (sort_key fst (map (map_prod id (json_pretty float_text)) kvs)))"

text \<open>The encoder recurses too: \<open>dump_limit\<close> is the depth at which the interpreter stops it.\<close>

record json_env =
  je_load_limit :: nat
  je_dump_limit :: nat
  je_float_text :: "pyfloat \<Rightarrow> pystr"

definition dumps_pretty :: "json_env \<Rightarrow> json \<Rightarrow> pystr result" where
  "dumps_pretty je v = (if je_dump_limit je < json_depth v then Inl OtherException else Inr (json_pretty (je_float_text je) v 0))"

definition response_to_text :: "json_env \<Rightarrow> bool \<Rightarrow> bytes \<Rightarrow> pystr result" where
  "response_to_text je pretty response =
     (case extract_json_bytes response of
        Some json_bytes \<Rightarrow>
          (let t = utf8_decode_replace json_bytes
           in if pretty
              then (case bindR (json_loads_std (je_load_limit je) t) (dumps_pretty je) of
                      Inl e \<Rightarrow> if e = ValueError then Inr t else Inl e
                    | Inr p \<Rightarrow> Inr p)
              else Inr t)
      | None \<Rightarrow> Inr (utf8_decode_replace response))"

section \<open>Capability information\<close>

definition CAPABILITY_SECTIONS :: "pystr list" where
  "CAPABILITY_SECTIONS = [lit ''avb'', lit ''router'', lit ''mixer'']"

definition IDENTITY_KEYS :: "pystr list" where
  "IDENTITY_KEYS = [lit ''uid'', lit ''model_name'', lit ''firmware_version'', lit ''serial_number'']"

text \<open>\<open>None\<close> is \<open>JNull\<close>, as in any decoded value. Dictionaries are kept in the order they are built.\<close>

record capability_version =
  cv_present :: bool
  cv_version :: json

record device_capability_info =
  ci_apiversion :: json
  ci_capabilities :: "(pystr \<times> capability_version) list"
  ci_identity :: "(pystr \<times> json) list"

definition capability_as_dict :: "capability_version \<Rightarrow> json" where
  "capability_as_dict c = JObj [(lit ''present'', JBool (cv_present c)), (lit ''version'', cv_version c)]"

definition info_as_dict :: "device_capability_info \<Rightarrow> json" where
  "info_as_dict info =
     JObj [(lit ''apiversion'', ci_apiversion info),
           (lit ''capabilities'', JObj (map (map_prod id capability_as_dict) (ci_capabilities info))),
           (lit ''identity'', JObj (ci_identity info))]"

text \<open>The blanks that \<open>bytes.strip\<close> removes.\<close>

definition byte_space :: "byte \<Rightarrow> bool" where
  "byte_space b \<longleftrightarrow> b = 32 \<or> 9 \<le> b \<and> b \<le> 13"

definition value_of :: "json \<Rightarrow> json" where
  "value_of decoded =
     (case decoded of
        JObj kvs \<Rightarrow> (case map_of kvs (lit ''value'') of Some v \<Rightarrow> v | None \<Rightarrow> decoded)
      | _ \<Rightarrow> decoded)"

definition raw_text_value :: "bytes \<Rightarrow> json" where
  "raw_text_value body = (let t = py_strip (utf8_decode_replace body) in if t = [] then JNull else JStr t)"

definition decode_datastore_value :: "json_env \<Rightarrow> bytes \<Rightarrow> json result" where
  "decode_datastore_value je response =
     bindR (parse_datastore_response response False) (\<lambda>payload.
     let body = strip_by byte_space (dp_body payload)
     in if body = [] then Inr JNull
        else case bindR (utf8_decode body) (json_loads_std (je_load_limit je)) of
          Inl e \<Rightarrow> if e = UnicodeDecodeError \<or> e = ValueError then Inr (raw_text_value body) else Inl e
        | Inr decoded \<Rightarrow> Inr (value_of decoded))"

text \<open>The texts of the exceptions of \<open>parse_response_frame\<close> and \<open>join_parsed_response_frames\<close>.\<close>

function hex_pad :: "nat \<Rightarrow> nat \<Rightarrow> pystr" where
  "hex_pad w n = (if n < 16 \<and> w \<le> 1 then [hex_lower n] else hex_pad (w - 1) (n div 16) @ [hex_lower (n mod 16)])"
  by pat_completeness auto
termination
proof (relation "measure (\<lambda>(w, n). w + n)")
  fix w n :: nat assume "\<not> (n < 16 \<and> w \<le> 1)"
  then show "((w - 1, n div 16), (w, n)) \<in> measure (\<lambda>(w, n). w + n)"
    using div_le_dividend[of n 16] by auto
qed simp

declare hex_pad.simps [simp del]

definition repr_byte :: "nat \<Rightarrow> byte \<Rightarrow> pystr" where
  "repr_byte quote b =
     (let n = unat b in
      if n = quote \<or> n = 92 then [92, n]
      else if n = 9 then [92, 116] else if n = 10 then [92, 110] else if n = 13 then [92, 114]
      else if n < 32 \<or> 127 \<le> n then [92, 120, hex_lower (n div 16), hex_lower (n mod 16)]
      else [n])"

definition repr_bytes :: "bytes \<Rightarrow> pystr" where
  "repr_bytes bs =
     (let quote = (if 39 \<in> set bs \<and> 34 \<notin> set bs then 34 else 39)
      in [98, quote] @ concat (map (repr_byte quote) bs) @ [quote])"

fun fault_message :: "frame_fault \<Rightarrow> pystr" where
  "fault_message (ShortFrame n) = lit ''short response frame: got '' @ digits_nat n @ lit '' bytes''"
| "fault_message (WrapperType t) = lit ''unexpected response wrapper type 0x'' @ hex_pad 2 (nat t)"
| "fault_message (WrapperLength n) = lit ''invalid response wrapper length '' @ str_int n"
| "fault_message (ShortOf n m) = lit ''short response frame: got '' @ digits_nat n @ lit '' of '' @ str_int m @ lit '' bytes''"
| "fault_message (BadHeader h) = lit ''unexpected response header '' @ repr_bytes h"
| "fault_message (MessageSeq m e) = lit ''response message sequence '' @ str_int m @ lit '' != expected '' @ str_int e"
| "fault_message (FinalField f) = lit ''unexpected response final field '' @ str_int f"
| "fault_message (PayloadExceeds n) = lit ''response payload length '' @ str_int n @ lit '' exceeds frame body''"
| "fault_message (TrailerLength n) = lit ''unexpected response body trailer length '' @ str_int n"
| "fault_message (CrcMismatch stored computed) =
     lit ''response CRC mismatch: stored=0x'' @ hex_pad 8 (nat stored) @ lit '' computed=0x'' @ hex_pad 8 (nat computed)"
| "fault_message (TrailerMismatch t w) = lit ''response trailer '' @ bytes_hex t @ lit '' != wrapper '' @ bytes_hex w"
| "fault_message (SegmentIndex i e) = lit ''response segment index '' @ str_int i @ lit '' != expected '' @ digits_nat e"
| "fault_message (EarlyFinal i) = lit ''response final flag set before last segment '' @ digits_nat i"
| "fault_message MissingFinal = lit ''response missing final segment flag''"

text \<open>
  \<open>str(exc)\<close>. Exceptions of the model carry the data of their text only for response frames; for the others
  \<open>other_message\<close> is the text.
\<close>

definition exc_message :: "(exc \<Rightarrow> pystr) \<Rightarrow> exc \<Rightarrow> pystr" where
  "exc_message other_message e = (case e of ResponseFrameError f \<Rightarrow> fault_message f | _ \<Rightarrow> other_message e)"

text \<open>The exceptions that are no \<open>RuntimeError\<close>; the classes of the program all derive from it.\<close>

definition is_runtime_error :: "exc \<Rightarrow> bool" where
  "is_runtime_error e =
     (case e of
        StructError \<Rightarrow> False | ValueError \<Rightarrow> False | UnicodeEncodeError \<Rightarrow> False | UnicodeDecodeError \<Rightarrow> False
      | AssertionError \<Rightarrow> False | OSError n \<Rightarrow> False | InterruptedError \<Rightarrow> False | OtherException \<Rightarrow> False | _ \<Rightarrow> True)"

definition contains :: "'a list \<Rightarrow> 'a list \<Rightarrow> bool" where
  "contains needle s \<longleftrightarrow> find_sub needle s \<noteq> None"

definition looks_like_absent_path :: "(exc \<Rightarrow> pystr) \<Rightarrow> exc \<Rightarrow> bool" where
  "looks_like_absent_path other_message e \<longleftrightarrow>
     (let message = py_lower (exc_message other_message e)
      in contains (lit ''404'') message \<or> contains (lit ''not found'') message \<or> contains (lit ''does not exist'') message)"

type_synonym 's reader = "pystr \<Rightarrow> ('s, bytes) sop"

definition read_required_datastore_value :: "json_env \<Rightarrow> 's reader \<Rightarrow> pystr \<Rightarrow> ('s, json) sop" where
  "read_required_datastore_value je get path = bindS (get path) (\<lambda>response. liftR (decode_datastore_value je response))"

definition optional_value :: "json_env \<Rightarrow> bytes \<Rightarrow> (bool \<times> json) result" where
  "optional_value je response =
     bindR (response_status_code response) (\<lambda>status.
     if status = Some 404 then Inr (False, JNull)
     else bindR (decode_datastore_value je response) (\<lambda>v. Inr (v \<noteq> JNull, v)))"

definition read_optional_datastore_value ::
    "json_env \<Rightarrow> (exc \<Rightarrow> pystr) \<Rightarrow> 's reader \<Rightarrow> pystr \<Rightarrow> ('s, bool \<times> json) sop" where
  "read_optional_datastore_value je other_message get path = (\<lambda>s.
     case get path s of
       (Inl e, s') \<Rightarrow>
         if e = DatastoreNoResponse then (Inr (False, JNull), s')
         else if is_runtime_error e \<and> looks_like_absent_path other_message e then (Inr (False, JNull), s')
         else (Inl e, s')
     | (Inr response, s') \<Rightarrow> (optional_value je response, s'))"

text \<open>A dictionary comprehension that reads a value per key.\<close>

fun read_each :: "('k \<Rightarrow> ('s, 'v) sop) \<Rightarrow> 'k list \<Rightarrow> ('s, ('k \<times> 'v) list) sop" where
  "read_each read [] = retS []"
| "read_each read (k # ks) = bindS (read k) (\<lambda>v. bindS (read_each read ks) (\<lambda>kvs. retS ((k, v) # kvs)))"

definition capability_path :: "pystr \<Rightarrow> pystr" where
  "capability_path section = lit ''/datastore/ext/caps/'' @ section"

definition identity_path :: "pystr \<Rightarrow> pystr" where
  "identity_path key = lit ''/datastore/'' @ key"

definition read_capability ::
    "json_env \<Rightarrow> (exc \<Rightarrow> pystr) \<Rightarrow> 's reader \<Rightarrow> pystr \<Rightarrow> ('s, capability_version) sop" where
  "read_capability je other_message get section =
     bindS (read_optional_datastore_value je other_message get (capability_path section)) (\<lambda>(present, v).
     retS \<lparr>cv_present = present, cv_version = v\<rparr>)"

definition read_identity_value :: "json_env \<Rightarrow> (exc \<Rightarrow> pystr) \<Rightarrow> 's reader \<Rightarrow> pystr \<Rightarrow> ('s, json) sop" where
  "read_identity_value je other_message get key =
     bindS (read_optional_datastore_value je other_message get (identity_path key)) (\<lambda>(_, v). retS v)"

definition read_device_capability_info ::
    "json_env \<Rightarrow> (exc \<Rightarrow> pystr) \<Rightarrow> 's reader \<Rightarrow> ('s, device_capability_info) sop" where
  "read_device_capability_info je other_message get =
     bindS (read_required_datastore_value je get (lit ''/apiversion'')) (\<lambda>apiversion.
     bindS (read_each (read_capability je other_message get) CAPABILITY_SECTIONS) (\<lambda>capabilities.
     bindS (read_each (read_identity_value je other_message get) IDENTITY_KEYS) (\<lambda>identity.
     retS \<lparr>ci_apiversion = apiversion, ci_capabilities = capabilities, ci_identity = identity\<rparr>)))"

text \<open>
  The report as text: \<open>_format_info_value\<close> and the lines of \<open>print_capability_info\<close> (\<^verbatim>\<open>motu_proxy/cli.py\<close>). \<open>str_value\<close>
  is \<open>str\<close> of a double, a list or a dictionary. A section without an entry would be a \<open>KeyError\<close>.
\<close>

definition format_info_value :: "(json \<Rightarrow> pystr) \<Rightarrow> json \<Rightarrow> pystr" where
  "format_info_value str_value v =
     (case v of
        JNull \<Rightarrow> lit ''not present''
      | JStr s \<Rightarrow> concat (map (\<lambda>c. if c = 10 then [92, 110] else [c]) (replace_crlf (py_rstrip_char 10 s)))
      | JBool b \<Rightarrow> if b then lit ''True'' else lit ''False''
      | JInt i \<Rightarrow> str_int i
      | _ \<Rightarrow> str_value v)"

definition capability_line :: "(json \<Rightarrow> pystr) \<Rightarrow> device_capability_info \<Rightarrow> pystr \<Rightarrow> pystr result" where
  "capability_line str_value info section =
     (case map_of (ci_capabilities info) section of
        None \<Rightarrow> Inl OtherException
      | Some c \<Rightarrow>
          Inr (lit ''  '' @ section @ lit '': '' @ format_info_value str_value (if cv_present c then cv_version c else JNull)))"

definition identity_line :: "(json \<Rightarrow> pystr) \<Rightarrow> device_capability_info \<Rightarrow> pystr \<Rightarrow> pystr" where
  "identity_line str_value info key =
     lit ''  '' @ key @ lit '': '' @
     format_info_value str_value (case map_of (ci_identity info) key of None \<Rightarrow> JNull | Some v \<Rightarrow> v)"

definition capability_info_lines :: "(json \<Rightarrow> pystr) \<Rightarrow> device_capability_info \<Rightarrow> pystr list result" where
  "capability_info_lines str_value info =
     bindR (mapR (capability_line str_value info) CAPABILITY_SECTIONS) (\<lambda>sections.
     Inr ([lit ''apiversion: '' @ format_info_value str_value (ci_apiversion info), lit ''capabilities:''] @ sections @
          [lit ''identity:''] @ map (identity_line str_value info) IDENTITY_KEYS))"

section \<open>The decoders agree\<close>

lemma utf8_decode_replace_valid: "utf8_decode bs = Inr t \<Longrightarrow> utf8_decode_replace bs = t"
proof (induction "length bs" arbitrary: bs t rule: less_induct)
  case less
  show ?case
  proof (cases "bs = []")
    case True
    then show ?thesis using less.prems by (simp add: utf8_decode.simps utf8_decode_replace.simps)
  next
    case False
    then obtain c r u where "utf8_take bs = Some (c, r)" "utf8_decode r = Inr u" "t = c # u"
      using less.prems by (subst (asm) utf8_decode.simps) (auto simp: result_simps split: option.splits)
    then show ?thesis using less.hyps[of r u] False utf8_take_shorter by (subst utf8_decode_replace.simps) simp
  qed
qed

text \<open>\<open>q\<close> reads whatever \<open>p\<close> reads.\<close>

definition extends :: "(pystr \<Rightarrow> ('a \<times> pystr) result) \<Rightarrow> (pystr \<Rightarrow> ('a \<times> pystr) result) \<Rightarrow> bool" where
  "extends q p \<longleftrightarrow> (\<forall>s x. p s = Inr x \<longrightarrow> q s = Inr x)"

lemma extendsD: "extends q p \<Longrightarrow> p s = Inr x \<Longrightarrow> q s = Inr x"
  unfolding extends_def by blast

lemma items_loop_extends:
  assumes "extends q p"
  shows "extends (items_loop q close) (items_loop p close)"
proof -
  have "items_loop p close s = Inr x \<Longrightarrow> items_loop q close s = Inr x" for s x
  proof (induction "length s" arbitrary: s x rule: less_induct)
    case less
    obtain v r where p: "p s = Inr (v, r)"
      using less.prems by (subst (asm) items_loop.simps) (auto simp: result_simps)
    have q: "q s = Inr (v, r)" by (rule extendsD[OF assms p])
    obtain c cs where r: "skip_ws r = c # cs"
      using less.prems by (subst (asm) items_loop.simps) (auto simp: p split: list.splits)
    show ?case using less.prems less.hyps[of "skip_ws cs"] unfolding items_loop.simps[of _ close s]
      by (auto simp: p q r cons_fst_def result_simps simp del: keep_skip_ws split: if_splits)
  qed
  then show ?thesis by (auto simp: extends_def)
qed

lemma scan_member_extends:
  assumes "extends q p"
  shows "extends (scan_member q) (scan_member p)"
  unfolding extends_def
proof (intro allI impI)
  fix s x assume "scan_member p s = Inr x"
  then obtain k r v r' where "s \<noteq> []" "hd s = 34" "scan_string (tl s) = Inr (k, r)" "skip_ws r \<noteq> []" "hd (skip_ws r) = 58"
    "p (skip_ws (tl (skip_ws r))) = Inr (v, r')" "x = ((k, v), r')"
    by (auto simp: scan_member_def result_simps simp del: keep_skip_ws split: if_splits)
  then show "scan_member q s = Inr x" using extendsD[OF assms]
    by (simp add: scan_member_def del: keep_skip_ws)
qed

lemma scan_items_extends: "extends q p \<Longrightarrow> extends (scan_items q close mk) (scan_items p close mk)"
  using items_loop_extends[of q p close]
  by (auto simp: extends_def scan_items_def Let_def result_simps split: if_splits)

lemma scan_leaf_std_extends: "extends scan_leaf_std scan_leaf"
proof -
  have "scan_leaf s = Inl ValueError" if "prefix (lit ''NaN'') s" for s
    using that by (cases s) (simp_all add: scan_leaf_def scan_number_def scan_unsigned_def ascii_digit_def)
  moreover have "scan_leaf s = Inl ValueError" if "prefix (lit ''Infinity'') s" for s
    using that by (cases s) (simp_all add: scan_leaf_def scan_number_def scan_unsigned_def ascii_digit_def)
  moreover have "scan_leaf s = Inl ValueError" if "prefix (lit ''-Infinity'') s" for s
    using that by (cases s; cases "tl s") (simp_all add: scan_leaf_def scan_number_def scan_unsigned_def ascii_digit_def)
  ultimately have "\<not> prefix (lit ''NaN'') s" "\<not> prefix (lit ''Infinity'') s" "\<not> prefix (lit ''-Infinity'') s"
    if "scan_leaf s = Inr x" for s x using that by force+
  then show ?thesis by (simp add: extends_def scan_leaf_std_def del: lit_simps)
qed

lemma scan_once_std_extends: "extends (scan_once_std n) (scan_once n)"
proof (induction n)
  case 0
  show ?case using scan_leaf_std_extends by (auto simp: extends_def split: if_splits)
next
  case (Suc n)
  note a = scan_items_extends[OF scan_member_extends[OF Suc], of 125 "\<lambda>kvs. JObj (dict_of kvs)"]
  note b = scan_items_extends[OF Suc, of 93 JList]
  show ?case using extendsD[OF a] extendsD[OF b] extendsD[OF scan_leaf_std_extends]
    by (auto simp: extends_def split: if_splits)
qed

lemma json_loads_std_extends:
  assumes "json_loads limit s = Inr v"
  shows "json_loads_std limit s = Inr v"
proof -
  obtain r where "\<not> (s \<noteq> [] \<and> hd s = 0xFEFF)" "scan_once limit (skip_ws s) = Inr (v, r)" "skip_ws r = []"
    using assms by (auto simp: json_loads_def result_simps simp del: keep_skip_ws split: if_splits)
  then show ?thesis using extendsD[OF scan_once_std_extends] by (simp add: json_loads_std_def del: keep_skip_ws)
qed

section \<open>The indented text\<close>

lemma blanks_newline: "list_all json_ws (newline_indent n)"
  by (auto simp: newline_indent_def json_ws_def list_all_iff)

lemma skip_blanks: "list_all json_ws ws \<Longrightarrow> skip_ws (ws @ r) = skip_ws r"
  by (simp add: list_all_iff)

lemma items_loop_blanks:
  assumes "\<And>v r. v \<in> set vs \<Longrightarrow> ends_value r \<Longrightarrow> p (f v @ r) = Inr (g v, r)"
    and "\<And>v. v \<in> set vs \<Longrightarrow> starts_value (f v)" and "vs \<noteq> []" and "close = 93 \<or> close = 125"
    and "list_all json_ws ws" "list_all json_ws ws'" "\<And>r. ends_value (ws' @ close # r)"
  shows "items_loop p close (join_with (44 # ws) (map f vs) @ ws' @ close # r) = Inr (map g vs, r)"
  using assms(1-4)
proof (induction vs)
  case (Cons v vs)
  have close: "skip_ws (ws' @ close # r) = close # r" "close \<noteq> 44"
    using Cons.prems(4) skip_blanks[OF assms(6)] by (auto simp: json_ws_def)
  show ?case
  proof (cases vs)
    case Nil
    then show ?thesis using Cons.prems(1)[of v "ws' @ close # r"] close assms(7) by (simp add: items_loop.simps)
  next
    case (Cons w us)
    let ?rest = "join_with (44 # ws) (map f vs) @ ws' @ close # r"
    have st: "starts_value (f w)" using Cons.prems(2) Cons by simp
    then have "skip_ws (ws @ ?rest) = ?rest"
      using skip_ws_starts[of "f w"] Cons skip_blanks[OF assms(5)] by (cases us) simp_all
    moreover have "p (f v @ 44 # ws @ ?rest) = Inr (g v, 44 # ws @ ?rest)" using Cons.prems(1) by simp
    moreover have "items_loop p close ?rest = Inr (map g vs, r)"
      by (rule Cons.IH) (use Cons.prems Cons in auto)
    ultimately show ?thesis using Cons close
      by (subst items_loop.simps) (simp add: json_ws_def cons_fst_def)
  qed
qed simp

lemma scan_bracketed:
  assumes "\<And>v r. v \<in> set vs \<Longrightarrow> ends_value r \<Longrightarrow> p (f v @ r) = Inr (g v, r)"
    and "\<And>v. v \<in> set vs \<Longrightarrow> starts_value (f v)" and "close = 93 \<or> close = 125"
  shows "scan_items p close mk (tl (bracketed level opening close (map f vs)) @ r) = Inr (mk (map g vs), r)"
proof (cases "vs = []")
  case True
  then show ?thesis using assms(3) by (auto simp: scan_items_def bracketed_def json_ws_def)
next
  case False
  let ?t = "join_with (44 # newline_indent (Suc level)) (map f vs) @ newline_indent level @ close # r"
  have e: "ends_value (newline_indent level @ close # r)" for r by (simp add: ends_value_def newline_indent_def json_ws_def)
  obtain t where "?t = f (hd vs) @ t"
    using join_with_hd[of "map f vs" "44 # newline_indent (Suc level)"] False by (auto simp: hd_map)
  moreover have "starts_value (f (hd vs))" using assms(2) False by simp
  ultimately have "skip_ws ?t = ?t" "hd ?t \<noteq> close"
    using assms(3) by (auto simp: skip_ws_starts starts_value_def)
  then have "skip_ws (newline_indent (Suc level) @ ?t) = ?t" "hd ?t \<noteq> close" using skip_blanks[OF blanks_newline] by simp_all
  then show ?thesis
    using items_loop_blanks[OF assms(1,2) False assms(3) blanks_newline blanks_newline e] False
    by (simp add: scan_items_def bracketed_def)
qed

lemma pretty_starts: "json_plain v \<Longrightarrow> starts_value (json_pretty ft v level)"
proof (cases v)
  case (JInt i)
  then show ?thesis using str_int_head[of i] by (auto simp: starts_value_def json_ws_def ascii_digit_def)
qed (auto simp: starts_value_def json_ws_def dump_string_def bracketed_def)

lemma pretty_ascii: "json_plain v \<Longrightarrow> hd (json_pretty ft v level) \<noteq> 0xFEFF"
proof (cases v)
  case (JInt i)
  then show ?thesis using str_int_head(2)[of i] by (auto simp: ascii_digit_def)
qed (auto simp: dump_string_def bracketed_def)

lemma bracketed_Cons: "bracketed level opening close items = opening # tl (bracketed level opening close items)"
  by (simp add: bracketed_def)

lemma scan_once_pretty:
  "json_plain v \<Longrightarrow> json_depth v \<le> n \<Longrightarrow> ends_value r \<Longrightarrow>
   scan_once n (json_pretty ft v level @ r) = Inr (json_written True v, r)"
proof (induction v arbitrary: n r level)
  case JNull
  then show ?case by (cases n) (simp_all add: scan_leaf_def)
next
  case (JBool b)
  then show ?case by (cases n; cases b) (simp_all add: scan_leaf_def)
next
  case (JFloat f)
  then show ?case by simp
next
  case (JStr s)
  then show ?case by (cases n) (simp_all add: scan_leaf_def dump_string_def scan_dump_string)
next
  case (JInt i)
  then show ?case using scan_leaf_digits by simp
next
  case (JList xs)
  then obtain m where m: "n = Suc m" by (cases n) auto
  have el: "json_plain x" "json_depth x \<le> m" if "x \<in> set xs" for x
    using JList.prems(1,2) that by (auto simp: m foldr_max_le list_all_iff)
  have "scan_items (scan_once m) 93 JList (tl (bracketed level 91 93 (map (\<lambda>x. json_pretty ft x (Suc level)) xs)) @ r) =
      Inr (JList (map (json_written True) xs), r)"
    by (rule scan_bracketed) (use JList.IH el pretty_starts in auto)
  moreover have "json_pretty ft (JList xs) level = 91 # tl (bracketed level 91 93 (map (\<lambda>x. json_pretty ft x (Suc level)) xs))"
    using bracketed_Cons by (simp add: comp_def)
  ultimately show ?case by (simp add: m del: json_pretty.simps)
next
  case (JObj kvs)
  then obtain m where m: "n = Suc m" by (cases n) auto
  let ?kvs = "sort_key fst kvs"
  have el: "json_plain x" "json_depth x \<le> m" "list_all scalar_char k" if "(k, x) \<in> set kvs" for k x
    using JObj.prems(1,2) that by (auto simp: m foldr_max_le list_all_iff)
  let ?text = "\<lambda>(k, v). dump_string k @ lit '': '' @ json_pretty ft v (Suc level)"
  let ?val = "map_prod id (json_written True)"
  have dump: "json_pretty ft (JObj kvs) level = 123 # tl (bracketed level 123 125 (map ?text ?kvs))"
    by (subst bracketed_Cons[symmetric]) (simp add: sort_key_fst_map comp_def case_prod_unfold)
  have written: "json_written True (JObj kvs) = JObj (map ?val ?kvs)" by (simp add: Let_def sort_key_fst_map)
  have "distinct (map fst ?kvs)" using JObj.prems(1) by (simp add: distinct_map)
  then have dict: "dict_of (map ?val ?kvs) = map ?val ?kvs" by (intro dict_of_distinct) (simp add: comp_def)
  have "scan_items (scan_member (scan_once m)) 125 (\<lambda>kvs. JObj (dict_of kvs))
      (tl (bracketed level 123 125 (map ?text ?kvs)) @ r) = Inr (JObj (dict_of (map ?val ?kvs)), r)"
  proof (rule scan_bracketed)
    fix kv t assume kv: "kv \<in> set ?kvs" "ends_value t"
    obtain k v where p: "kv = (k, v)" by fastforce
    have "scan_once m (json_pretty ft v (Suc level) @ t) = Inr (json_written True v, t)"
      using JObj.IH[of kv v m t] kv el[of k v] unfolding p by simp
    then show "scan_member (scan_once m) (?text kv @ t) = Inr (?val kv, t)"
      using scan_member_dumps el[of k v] kv p pretty_starts by (simp del: lit_simps)
  qed (auto simp: starts_value_def dump_string_def json_ws_def)
  then show ?case unfolding dump written dict by (simp add: m del: lit_simps)
qed

lemma json_loads_pretty:
  assumes "json_plain v" "json_depth v \<le> limit"
  shows "json_loads limit (json_pretty ft v 0) = Inr (json_written True v)"
proof -
  let ?t = "json_pretty ft v 0"
  have "starts_value ?t" by (rule pretty_starts[OF assms(1)])
  moreover from scan_once_pretty[OF assms, of "[]"]
  have "scan_once limit ?t = Inr (json_written True v, [])" by simp
  moreover have "hd ?t \<noteq> 0xFEFF" by (rule pretty_ascii[OF assms(1)])
  ultimately show ?thesis using skip_ws_starts[of ?t "[]"] by (simp add: json_loads_def)
qed

text \<open>What the commands print has the value the device sent. When a response holds a JSON text of a value
  without doubles or lone surrogates, nested no deeper than the interpreter allows, \<open>response_to_text\<close> succeeds,
  and reading its indented, sorted text gives that value back with its dictionaries in the order of their keys.\<close>

theorem printed_text_keeps_value:
  assumes "extract_json_bytes response = Some json_bytes" "utf8_decode json_bytes = Inr t"
    and "json_loads_std (je_load_limit je) t = Inr v"
    and "json_plain v" "json_depth v \<le> je_load_limit je" "json_depth v \<le> je_dump_limit je"
  shows "\<exists>printed. response_to_text je True response = Inr printed \<and>
    json_loads_std (je_load_limit je) printed = Inr (json_written True v)"
proof -
  have "response_to_text je True response = Inr (json_pretty (je_float_text je) v 0)"
    using assms(1,3,6) utf8_decode_replace_valid[OF assms(2)] by (simp add: response_to_text_def dumps_pretty_def)
  then show ?thesis using json_loads_std_extends[OF json_loads_pretty[OF assms(4,5)]] by blast
qed

text \<open>An object as the device sends it, and what is printed.\<close>

definition sample_value :: json where
  "sample_value = JObj [(lit ''value'', JList [JInt 7, JNull])]"

definition sample_json :: pystr where
  "sample_json = json_dumps (\<lambda>_. []) False sample_value"

definition sample_env :: json_env where
  "sample_env = \<lparr>je_load_limit = 3, je_dump_limit = 3, je_float_text = (\<lambda>_. [])\<rparr>"

definition sample_response :: bytes where
  "sample_response = map of_nat sample_json"

lemma sample_json_text: "sample_json = [123, 34] @ lit ''value'' @ [34] @ lit '': [7, null]}''"
  by (simp add: sample_json_def sample_value_def dump_string_def escape_char_def str_int_def digits_nat.simps)

lemma sample_value_plain: "json_plain sample_value" "json_depth sample_value = 2" "json_written sk sample_value = sample_value"
  by (simp_all add: sample_value_def scalar_char_def digits_nat.simps MAX_STR_DIGITS_def Let_def)

lemma sample_reads:
  "extract_json_bytes sample_response = Some sample_response" "utf8_decode sample_response = Inr sample_json"
  "json_loads_std 3 sample_json = Inr sample_value"
proof -
  show "extract_json_bytes sample_response = Some sample_response"
    by (simp add: sample_response_def sample_json_text extract_json_bytes_def)
  have "utf8_encode sample_json = Inr sample_response" unfolding sample_response_def
    by (rule utf8_encode_ascii) (simp add: sample_json_text ascii_str_def)
  then show "utf8_decode sample_response = Inr sample_json" by (rule utf8_decode_encode)
  show "json_loads_std 3 sample_json = Inr sample_value" unfolding sample_json_def
    using json_loads_std_extends[OF json_loads_dumps[of sample_value 3]] sample_value_plain by simp
qed

theorem printed_text_keeps_value_witness:
  "\<exists>printed. response_to_text sample_env True sample_response = Inr printed \<and>
    json_loads_std 3 printed = Inr sample_value"
  using printed_text_keeps_value[of sample_response sample_response sample_json sample_env sample_value]
    sample_reads sample_value_plain by (simp add: sample_env_def)

section \<open>Capability information\<close>

text \<open>
  A device's answer that carries a value: a JSON object with the member \<open>value\<close>, in any layout, blanks around it
  included, and no status 404.
\<close>

definition answers_value :: "json_env \<Rightarrow> bytes \<Rightarrow> json \<Rightarrow> bool" where
  "answers_value je response v \<longleftrightarrow>
     (\<exists>p t kvs. parse_datastore_response response False = Inr p \<and> dp_status p \<noteq> Some 404 \<and>
        utf8_decode (strip_by byte_space (dp_body p)) = Inr t \<and>
        json_loads_std (je_load_limit je) t = Inr (JObj kvs) \<and> map_of kvs (lit ''value'') = Some v)"

text \<open>An answer for a path the device does not have: none at all, an error that says so, or status 404.\<close>

definition answers_absent :: "(exc \<Rightarrow> pystr) \<Rightarrow> bytes result \<Rightarrow> bool" where
  "answers_absent om answer \<longleftrightarrow>
     (case answer of
        Inl e \<Rightarrow> e = DatastoreNoResponse \<or>
          is_runtime_error e \<and> (\<exists>needle\<in>{lit ''404'', lit ''not found'', lit ''does not exist''}. contains needle (py_lower (exc_message om e)))
      | Inr response \<Rightarrow> \<exists>p. parse_datastore_response response False = Inr p \<and> dp_status p = Some 404)"

text \<open>What the device holds at a path, if anything.\<close>

definition info_answers :: "json_env \<Rightarrow> (exc \<Rightarrow> pystr) \<Rightarrow> bytes result \<Rightarrow> json option \<Rightarrow> bool" where
  "info_answers je om answer held \<longleftrightarrow>
     (case held of Some v \<Rightarrow> \<exists>response. answer = Inr response \<and> answers_value je response v | None \<Rightarrow> answers_absent om answer)"

definition null_or :: "json option \<Rightarrow> json" where
  "null_or held = (case held of None \<Rightarrow> JNull | Some v \<Rightarrow> v)"

lemma decode_answer:
  assumes "answers_value je response v"
  shows "decode_datastore_value je response = Inr v" "optional_value je response = Inr (v \<noteq> JNull, v)"
proof -
  obtain p t kvs where p: "parse_datastore_response response False = Inr p" "dp_status p \<noteq> Some 404"
    "utf8_decode (strip_by byte_space (dp_body p)) = Inr t"
    "json_loads_std (je_load_limit je) t = Inr (JObj kvs)" "map_of kvs (lit ''value'') = Some v"
    using assms unfolding answers_value_def by blast
  have "t \<noteq> []" using p(4) by (cases "je_load_limit je") (auto simp: json_loads_std_def scan_leaf_std_def scan_leaf_def scan_number_def scan_unsigned_def starts_number_def)
  then have "strip_by byte_space (dp_body p) \<noteq> []" using p(3) utf8_decode_encode[of "[]"] by (auto simp: utf8_encode_def)
  then show d: "decode_datastore_value je response = Inr v"
    using p by (simp add: decode_datastore_value_def value_of_def del: lit_simps)
  show "optional_value je response = Inr (v \<noteq> JNull, v)"
    using d p(1,2) by (simp add: optional_value_def response_status_code_def)
qed

lemma read_optional_answer:
  assumes "info_answers je om (fst (get path s)) held"
  shows "fst (read_optional_datastore_value je om get path s) = Inr (null_or held \<noteq> JNull, null_or held)"
proof (cases held)
  case None
  then show ?thesis using assms
    by (cases "get path s"; cases "fst (get path s)")
      (auto simp: info_answers_def answers_absent_def null_or_def read_optional_datastore_value_def looks_like_absent_path_def Let_def
        optional_value_def response_status_code_def simp del: lit_simps)
next
  case (Some v)
  then show ?thesis using assms decode_answer(2)
    by (cases "get path s") (auto simp: info_answers_def null_or_def read_optional_datastore_value_def)
qed

lemma read_optional_type:
  "read_optional_datastore_value je om get path s = (Inr (present, v), s') \<Longrightarrow> present \<longleftrightarrow> v \<noteq> JNull"
  by (auto simp: read_optional_datastore_value_def optional_value_def result_simps split: prod.splits sum.splits if_splits)

lemma read_each_keys: "read_each read ks s = (Inr kvs, s') \<Longrightarrow> map fst kvs = ks"
  by (induction ks arbitrary: s kvs s') (auto simp: result_simps)

lemma read_each_all:
  assumes "\<And>k s v s'. read k s = (Inr v, s') \<Longrightarrow> P v" "read_each read ks s = (Inr kvs, s')"
  shows "\<forall>kv\<in>set kvs. P (snd kv)"
  using assms(2)
proof (induction ks arbitrary: s kvs)
  case (Cons k ks)
  then obtain v t kvs' where "read k s = (Inr v, t)" "read_each read ks t = (Inr kvs', s')" "kvs = (k, v) # kvs'"
    by (auto simp: result_simps)
  then show ?case using Cons.IH[of t kvs'] assms(1) by auto
qed simp

lemma read_each_results:
  "(\<And>k s. k \<in> set ks \<Longrightarrow> fst (read k s) = Inr (f k)) \<Longrightarrow> \<exists>s'. read_each read ks s = (Inr (map (\<lambda>k. (k, f k)) ks), s')"
proof (induction ks arbitrary: s)
  case (Cons k ks)
  obtain s' where "read k s = (Inr (f k), s')" using Cons.prems[of k s] by (metis list.set_intros(1) prod.collapse)
  moreover obtain s2 where "read_each read ks s' = (Inr (map (\<lambda>k. (k, f k)) ks), s2)"
    using Cons.IH[of s'] Cons.prems by auto
  ultimately show ?case by (simp add: bindS_def)
qed simp

lemma capability_info_shape:
  assumes "read_device_capability_info je om get s = (Inr info, s')"
  shows "map fst (ci_capabilities info) = CAPABILITY_SECTIONS" "map fst (ci_identity info) = IDENTITY_KEYS"
    "\<forall>kc\<in>set (ci_capabilities info). cv_present (snd kc) \<longleftrightarrow> cv_version (snd kc) \<noteq> JNull"
proof -
  obtain t u w where c: "read_each (read_capability je om get) CAPABILITY_SECTIONS t = (Inr (ci_capabilities info), u)"
    and i: "read_each (read_identity_value je om get) IDENTITY_KEYS u = (Inr (ci_identity info), w)"
    using assms unfolding read_device_capability_info_def bindS_Inr_iff by auto
  show "map fst (ci_capabilities info) = CAPABILITY_SECTIONS" by (rule read_each_keys[OF c])
  show "map fst (ci_identity info) = IDENTITY_KEYS" by (rule read_each_keys[OF i])
  show "\<forall>kc\<in>set (ci_capabilities info). cv_present (snd kc) \<longleftrightarrow> cv_version (snd kc) \<noteq> JNull"
    by (rule read_each_all[OF _ c, where P = "\<lambda>cv. cv_present cv \<longleftrightarrow> cv_version cv \<noteq> JNull"])
      (auto simp: read_capability_def result_simps dest: read_optional_type)
qed

definition capability_paths :: "pystr list" where
  "capability_paths = map capability_path CAPABILITY_SECTIONS @ map identity_path IDENTITY_KEYS"

text \<open>C37: \<open>read_device_capability_info\<close> reports what the device holds. When the device answers \<open>/apiversion\<close> with a value and
  every other path with a value or as a path it does not have (whatever else the reads change), the report is complete: it
  has the API version, every section with the value held there, present exactly when there is one and it is not null,
  and every identity key with its value, or null where the device has none. JSON answers are understood in any layout and with any
  values, doubles included.\<close>

theorem capability_info_reports:
  assumes "\<And>s. info_answers je om (fst (get (lit ''/apiversion'') s)) (Some version)"
    and "\<And>path s. path \<in> set capability_paths \<Longrightarrow> info_answers je om (fst (get path s)) (held path)"
  shows "fst (read_device_capability_info je om get s) =
    Inr \<lparr>ci_apiversion = version,
         ci_capabilities = map (\<lambda>sec. (sec, \<lparr>cv_present = held (capability_path sec) \<notin> {None, Some JNull},
                                            cv_version = null_or (held (capability_path sec))\<rparr>)) CAPABILITY_SECTIONS,
         ci_identity = map (\<lambda>key. (key, null_or (held (identity_path key)))) IDENTITY_KEYS\<rparr>"
proof -
  have paths: "sec \<in> set CAPABILITY_SECTIONS \<Longrightarrow> capability_path sec \<in> set capability_paths"
    "key \<in> set IDENTITY_KEYS \<Longrightarrow> identity_path key \<in> set capability_paths" for sec key
    by (simp_all add: capability_paths_def)
  have null: "null_or h \<noteq> JNull \<longleftrightarrow> h \<notin> {None, Some JNull}" for h by (cases h) (auto simp: null_or_def)
  have opt: "\<exists>s'. read_optional_datastore_value je om get path s = (Inr (held path \<notin> {None, Some JNull}, null_or (held path)), s')"
    if "path \<in> set capability_paths" for path s
    using read_optional_answer[where path = path and held = "held path" and get = get and s = s, OF assms(2)[OF that]] unfolding null by (metis prod.collapse)
  obtain s1 where 1: "read_required_datastore_value je get (lit ''/apiversion'') s = (Inr version, s1)"
    using assms(1)[of s] decode_answer(1)
    by (cases "get (lit ''/apiversion'') s") (auto simp: info_answers_def read_required_datastore_value_def bindS_def simp del: lit_simps)
  have "fst (read_capability je om get sec s) =
      Inr \<lparr>cv_present = held (capability_path sec) \<notin> {None, Some JNull}, cv_version = null_or (held (capability_path sec))\<rparr>"
    if "sec \<in> set CAPABILITY_SECTIONS" for sec s
    using opt[OF paths(1)[OF that], of s] by (auto simp: read_capability_def bindS_def)
  from read_each_results[where read = "read_capability je om get" and ks = CAPABILITY_SECTIONS and s = s1, OF this] obtain s2 where
    2: "read_each (read_capability je om get) CAPABILITY_SECTIONS s1 =
      (Inr (map (\<lambda>sec. (sec, \<lparr>cv_present = held (capability_path sec) \<notin> {None, Some JNull},
         cv_version = null_or (held (capability_path sec))\<rparr>)) CAPABILITY_SECTIONS), s2)" by blast
  have "fst (read_identity_value je om get key s) = Inr (null_or (held (identity_path key)))" if "key \<in> set IDENTITY_KEYS" for key s
    using opt[OF paths(2)[OF that], of s] by (auto simp: read_identity_value_def bindS_def)
  from read_each_results[where read = "read_identity_value je om get" and ks = IDENTITY_KEYS and s = s2, OF this] obtain s3 where
    3: "read_each (read_identity_value je om get) IDENTITY_KEYS s2 =
      (Inr (map (\<lambda>key. (key, null_or (held (identity_path key)))) IDENTITY_KEYS), s3)" by blast
  show ?thesis using 1 2 3 by (simp add: read_device_capability_info_def bindS_def del: lit_simps)
qed

text \<open>The device of the repository's tests: compact JSON, a section that is not found, and a serial number without an answer.\<close>

definition compact_answer_text :: pystr where
  "compact_answer_text = [123, 34] @ lit ''value'' @ [34, 58, 34] @ lit ''1.0.0'' @ [34, 125]"

definition info_get :: "unit reader" where
  "info_get path = (\<lambda>s.
     (if path = lit ''/datastore/ext/caps/mixer'' then Inl RuntimeError
      else if path = lit ''/datastore/serial_number'' then Inl DatastoreNoResponse else Inr (map of_nat compact_answer_text), s))"

definition info_held :: "pystr \<Rightarrow> json option" where
  "info_held path =
     (if path = lit ''/datastore/ext/caps/mixer'' \<or> path = lit ''/datastore/serial_number'' then None else Some (JStr (lit ''1.0.0'')))"

definition info_message :: "exc \<Rightarrow> pystr" where
  "info_message e = lit ''404 not found''"

lemma scan_string_plain:
  "scan_string (34 # cs) = Inr ([], cs)"
  "c \<noteq> 34 \<Longrightarrow> c \<noteq> 92 \<Longrightarrow> 32 \<le> c \<Longrightarrow> scan_string (c # cs) = cons_fst c (scan_string cs)"
  by (simp_all add: scan_string.simps[of "c # cs"] scan_string.simps[of "34 # cs"])

lemma compact_answer: "answers_value sample_env (map of_nat compact_answer_text) (JStr (lit ''1.0.0''))"
proof -
  have "ascii_str compact_answer_text" by (simp add: compact_answer_text_def ascii_str_def)
  then have u: "utf8_decode (map of_nat compact_answer_text) = Inr compact_answer_text" using utf8_encode_ascii utf8_decode_encode by blast
  have p: "parse_datastore_response (map of_nat compact_answer_text) False =
      Inr \<lparr>dp_body = map of_nat compact_answer_text, dp_etag = None, dp_status = None, dp_content_type = None\<rparr>"
    by (simp add: parse_datastore_response_def parse_utom_response_def parse_text_http_response_def
        split_text_http_response_def compact_answer_text_def)
  have s: "strip_by byte_space (map of_nat compact_answer_text) = map of_nat compact_answer_text"
    by (simp add: strip_by_def compact_answer_text_def byte_space_def)
  have "json_loads_std 3 compact_answer_text = Inr (JObj [(lit ''value'', JStr (lit ''1.0.0''))])"
    by (simp add: compact_answer_text_def json_loads_std_def json_ws_def numeral_3_eq_3 scan_items_def items_loop.simps[of _ _ "34 # _"] scan_member_def
        scan_string_plain cons_fst_def scan_leaf_std_def scan_leaf_def dict_of_def)
  then show ?thesis unfolding answers_value_def using u p s by (auto simp: sample_env_def simp del: lit_simps)
qed

theorem capability_info_reports_witness:
  "fst (read_device_capability_info sample_env info_message info_get ()) =
    Inr \<lparr>ci_apiversion = JStr (lit ''1.0.0''),
         ci_capabilities = [(lit ''avb'', \<lparr>cv_present = True, cv_version = JStr (lit ''1.0.0'')\<rparr>),
           (lit ''router'', \<lparr>cv_present = True, cv_version = JStr (lit ''1.0.0'')\<rparr>), (lit ''mixer'', \<lparr>cv_present = False, cv_version = JNull\<rparr>)],
         ci_identity = [(lit ''uid'', JStr (lit ''1.0.0'')), (lit ''model_name'', JStr (lit ''1.0.0'')),
           (lit ''firmware_version'', JStr (lit ''1.0.0'')), (lit ''serial_number'', JNull)]\<rparr>"
proof -
  have "contains (lit ''404'') (py_lower (exc_message info_message RuntimeError))"
    by (simp add: contains_def exc_message_def info_message_def py_lower_def lower_char_def)
  then have ans: "info_answers sample_env info_message (fst (info_get path s)) (info_held path)" for path s
    using compact_answer by (auto simp: info_answers_def answers_absent_def info_get_def info_held_def is_runtime_error_def simp del: lit_simps)
  have v: "info_held (lit ''/apiversion'') = Some (JStr (lit ''1.0.0''))" by (simp add: info_held_def)
  show ?thesis
    using capability_info_reports[where get = info_get and held = info_held and je = sample_env and om = info_message and s = "()",
        OF ans[of "lit ''/apiversion''", unfolded v] ans]
    by (simp add: CAPABILITY_SECTIONS_def IDENTITY_KEYS_def capability_path_def identity_path_def info_held_def null_or_def)
qed

section \<open>Errors taken for an absent path\<close>

lemma contains_append: "contains needle s \<Longrightarrow> contains needle (s @ t)"
  unfolding contains_def
proof (induction needle s rule: find_sub.induct)
  case (1 needle)
  then show ?case by (cases t) (auto split: if_splits)
next
  case (2 needle x xs)
  then show ?case using prefix_prefix[of needle "x # xs" t] by (auto split: if_splits)
qed

text \<open>
  \<open>_looks_like_absent_path\<close> looks for the digits \<open>404\<close> in the text of any \<open>RuntimeError\<close>. The text of a CRC mismatch
  holds both checksums: a damaged answer whose checksum field has these digits is reported as an absent path, without
  an error.
\<close>

lemma damaged_answer_reported_absent:
  assumes "get path s = (Inl (ResponseFrameError (CrcMismatch 0x12340455 computed)), s')"
  shows "read_optional_datastore_value je om get path s = (Inr (False, JNull), s')"
proof -
  have hex: "hex_pad 8 0x12340455 = lit ''12340455''"
    by (simp add: hex_pad.simps hex_lower_def)
  have "contains (lit ''404'') (py_lower (lit ''response CRC mismatch: stored=0x'' @ lit ''12340455''))"
    by (simp add: contains_def py_lower_def lower_char_def)
  from contains_append[OF this, of "py_lower (lit '' computed=0x'' @ hex_pad 8 (nat computed))"]
  have "contains (lit ''404'') (py_lower (fault_message (CrcMismatch 0x12340455 computed)))"
    by (simp add: hex py_lower_def del: lit_simps)
  then have "looks_like_absent_path om (ResponseFrameError (CrcMismatch 0x12340455 computed))"
    by (simp add: looks_like_absent_path_def exc_message_def del: fault_message.simps lit_simps)
  then show ?thesis using assms by (simp add: read_optional_datastore_value_def is_runtime_error_def)
qed

text \<open>
  An integer with more digits than the interpreter converts makes \<open>json.loads\<close> raise a plain \<open>ValueError\<close>, which
  the handler for \<open>JSONDecodeError\<close> does not catch.
\<close>

lemma scan_long_integer:
  assumes "list_all ascii_digit ds" "ds \<noteq> []" "hd ds \<noteq> 48" "MAX_STR_DIGITS < length ds"
  shows "scan_once_std n ds = Inl OtherException"
proof -
  obtain c cs where ds: "ds = c # cs" using assms(2) by (cases ds) auto
  have c: "48 < c" "c \<le> 57" using assms(1,3) by (auto simp: ds ascii_digit_def)
  have run: "takeWhile ascii_digit ds = ds" "dropWhile ascii_digit ds = []" "ascii_digit (hd ds)"
    using assms(1,2) by (simp_all add: list_all_iff)
  have "number_tail False ds [] = Inl ValueError"
    using assms(4) by (simp add: number_tail_def number_frac_def number_exp_def number_value_def)
  then have "scan_number ds = Inl ValueError"
    using c assms(2,3) run(3) unfolding scan_number_def scan_unsigned_def run(1,2) by (auto simp: ds)
  moreover have "scan_leaf ds = scan_number ds" using c by (simp add: scan_leaf_def ds)
  ultimately have "scan_leaf ds = Inl ValueError" by simp
  then have "scan_leaf_std ds = Inl OtherException"
    using c by (simp add: scan_leaf_std_def starts_number_def ds ascii_digit_def)
  then show ?thesis using c by (cases n) (simp_all add: ds)
qed

lemma long_integer_escapes:
  assumes "parse_datastore_response response False = Inr p" "strip_by byte_space (dp_body p) = map of_nat ds"
    and "list_all ascii_digit ds" "ds \<noteq> []" "hd ds \<noteq> 48" "MAX_STR_DIGITS < length ds"
  shows "decode_datastore_value je response = Inl OtherException"
proof -
  have "ascii_str ds" using assms(3) by (auto simp: ascii_str_def list_all_iff ascii_digit_def)
  then have u: "utf8_decode (map of_nat ds) = Inr ds" using utf8_encode_ascii utf8_decode_encode by blast
  have "\<not> json_ws (hd ds)" "hd ds \<noteq> 0xFEFF" using assms(3,4) by (cases ds; auto simp: json_ws_def ascii_digit_def)+
  then have "skip_ws ds = ds" "hd ds \<noteq> 0xFEFF" using assms(4) by (cases ds; simp)+
  then have "json_loads_std n ds = Inl OtherException" for n
    using scan_long_integer[OF assms(3-6)] by (simp add: json_loads_std_def)
  then show ?thesis using assms(1,2,4) u by (simp add: decode_datastore_value_def)
qed

section \<open>The report as text\<close>

lemma mapR_total: "(\<And>x. x \<in> set xs \<Longrightarrow> \<exists>y. f x = Inr y) \<Longrightarrow> \<exists>ys. mapR f xs = Inr ys \<and> length ys = length xs"
proof (induction xs)
  case (Cons x xs)
  obtain y where y: "f x = Inr y" using Cons.prems[of x] by auto
  obtain ys where "mapR f xs = Inr ys" "length ys = length xs" using Cons.IH Cons.prems by auto
  then show ?case using y by simp
qed simp

text \<open>A value stays on its line, and a report that was read can always be printed, one line per entry.\<close>

lemma string_value_on_one_line: "10 \<notin> set (format_info_value str_value (JStr s))"
  by (auto simp: format_info_value_def split: if_splits)

lemma capability_info_printable:
  assumes "read_device_capability_info je om get s = (Inr info, s')"
  shows "\<exists>ls. capability_info_lines str_value info = Inr ls \<and> length ls = 10"
proof -
  have "\<exists>y. capability_line str_value info sec = Inr y" if "sec \<in> set CAPABILITY_SECTIONS" for sec
  proof -
    have "sec \<in> fst ` set (ci_capabilities info)"
      using capability_info_shape(1)[OF assms] that by (metis list.set_map)
    then obtain c where "map_of (ci_capabilities info) sec = Some c" by (metis map_of_eq_None_iff not_None_eq)
    then show ?thesis by (simp add: capability_line_def)
  qed
  then obtain ys where "mapR (capability_line str_value info) CAPABILITY_SECTIONS = Inr ys" "length ys = length CAPABILITY_SECTIONS"
    using mapR_total by metis
  then show ?thesis by (simp add: capability_info_lines_def CAPABILITY_SECTIONS_def IDENTITY_KEYS_def)
qed

end
