(* ===== verification/Motu_Status.thy ===== *)
theory Motu_Status
  imports Motu_Coordinator Motu_Http
begin

text \<open>
  The status page: \<open>DatastoreCoordinator.status\<close> and \<open>ManagedDatastore.status\<close> of \<^verbatim>\<open>motu_proxy/datastore.py\<close> as the
  dictionaries that the HTTP server writes as JSON.
\<close>

section \<open>The dictionaries\<close>

text \<open>Class name and text of an exception, and \<open>None\<close> for no exception.\<close>

definition exception_status :: "(exc \<Rightarrow> pystr \<times> pystr) \<Rightarrow> exc option \<Rightarrow> json" where
  "exception_status render e =
     (case e of
        None \<Rightarrow> JNull
      | Some x \<Rightarrow> JObj [(lit ''type'', JStr (fst (render x))), (lit ''message'', JStr (snd (render x)))])"

definition response_stats_status :: "response_stats option \<Rightarrow> json" where
  "response_stats_status stats =
     (case stats of
        None \<Rightarrow> JNull
      | Some s \<Rightarrow>
          JObj [(lit ''timeout_ms'', JInt (st_timeout_ms s)), (lit ''elapsed_ms'', JFloat (FFin (st_elapsed_ms s))),
                (lit ''reads'', JInt (int (st_reads s))), (lit ''accepted_frames'', JInt (int (st_accepted_frames s))),
                (lit ''ignored_packets'', JInt (int (st_ignored_packets s))), (lit ''ack_packets'', JInt (int (st_ack_packets s))),
                (lit ''response_bytes'', JInt (int (st_response_bytes s)))])"

fun reconnect_state_text :: "reconnect_state \<Rightarrow> pystr" where
  "reconnect_state_text Unavailable = lit ''unavailable''"
| "reconnect_state_text Available = lit ''available''"
| "reconnect_state_text Reconnecting = lit ''reconnecting''"
| "reconnect_state_text Backoff = lit ''backoff''"
| "reconnect_state_text ConfigurationError = lit ''configuration_error''"
| "reconnect_state_text ClosedState = lit ''closed''"

definition managed_status_items :: "(exc \<Rightarrow> pystr \<times> pystr) \<Rightarrow> managed_status \<Rightarrow> (pystr \<times> json) list" where
  "managed_status_items render st =
     [(lit ''datastore_available'', JBool (mst_available st)),
      (lit ''datastore_reconnect_state'', JStr (reconnect_state_text (mst_reconnect_state st))),
      (lit ''datastore_session_generation'', JInt (int (mst_session_generation st))),
      (lit ''datastore_last_reconnect_error'', exception_status render (mst_last_reconnect_error st)),
      (lit ''datastore_retry_delay_s'', JFloat (FFin (mst_retry_delay_s st))),
      (lit ''datastore_next_retry_in_s'', case mst_next_retry_in_s st of None \<Rightarrow> JNull | Some r \<Rightarrow> JFloat (FFin r))]"

definition io_owner_status :: "io_owner option \<Rightarrow> json" where
  "io_owner_status owner =
     (case owner of None \<Rightarrow> JNull | Some OwnerForeground \<Rightarrow> JStr (lit ''foreground'') | Some OwnerPoller \<Rightarrow> JStr (lit ''poller''))"

definition opt_str :: "pystr option \<Rightarrow> json" where
  "opt_str s = (case s of None \<Rightarrow> JNull | Some t \<Rightarrow> JStr t)"

text \<open>\<open>worker_alive\<close> says that the polling thread was started and runs.\<close>

definition coordinator_status_items ::
    "(exc \<Rightarrow> pystr \<times> pystr) \<Rightarrow> coordinator \<Rightarrow> bool \<Rightarrow> response_stats option \<Rightarrow> (pystr \<times> json) list" where
  "coordinator_status_items render c worker_alive stats =
     [(lit ''long_poll_mode'', JStr (long_poll_mode c)), (lit ''latest_etag'', opt_str (co_latest_etag c)),
      (lit ''last_poller_error'', exception_status render (co_last_poller_error c)),
      (lit ''last_response_stats'', response_stats_status stats), (lit ''poller_running'', JBool worker_alive),
      (lit ''io_owner'', io_owner_status (co_io_owner c)), (lit ''foreground_waiters'', JInt (co_foreground_waiters c))]"

text \<open>\<open>status.update(datastore_status())\<close>, on a managed datastore whose clock is read once.\<close>

definition coordinator_status ::
    "(exc \<Rightarrow> pystr \<times> pystr) \<Rightarrow> 'w managed_ops \<Rightarrow> bool \<Rightarrow> (coordinator \<times> managed \<times> 'w, json) sop" where
  "coordinator_status render mo worker_alive = (\<lambda>(c, m, w).
     case mo_clock mo w of
       (now, w') \<Rightarrow>
         (Inr (JObj (fold (\<lambda>(k, v). dict_set k v) (managed_status_items render (managed_status_of m now))
            (coordinator_status_items render c worker_alive (managed_last_response_stats mo (m, w))))),
          (c, m, w')))"

section \<open>The page\<close>

definition STATUS_KEYS :: "pystr list" where
  "STATUS_KEYS =
     [lit ''long_poll_mode'', lit ''latest_etag'', lit ''last_poller_error'', lit ''last_response_stats'', lit ''poller_running'',
      lit ''io_owner'', lit ''foreground_waiters'', lit ''datastore_available'', lit ''datastore_reconnect_state'',
      lit ''datastore_session_generation'', lit ''datastore_last_reconnect_error'', lit ''datastore_retry_delay_s'',
      lit ''datastore_next_retry_in_s'']"

lemma status_keys_distinct: "distinct STATUS_KEYS"
  by code_simp

lemma fold_dict_set_new:
  "distinct (map fst kvs @ map fst new) \<Longrightarrow> fold (\<lambda>(k, v). dict_set k v) new kvs = kvs @ new"
proof (induction new arbitrary: kvs)
  case (Cons kv new)
  then have "dict_set (fst kv) (snd kv) kvs = kvs @ [kv]" by (subst dict_set_new) auto
  then show ?case using Cons.IH[of "kvs @ [kv]"] Cons.prems by (auto simp: case_prod_unfold)
qed simp

lemma status_items:
  "fold (\<lambda>(k, v). dict_set k v) (managed_status_items render st) (coordinator_status_items render c alive stats) =
     coordinator_status_items render c alive stats @ managed_status_items render st"
  "map fst (coordinator_status_items render c alive stats @ managed_status_items render st) = STATUS_KEYS"
proof -
  show k: "map fst (coordinator_status_items render c alive stats @ managed_status_items render st) = STATUS_KEYS"
    by (simp add: coordinator_status_items_def managed_status_items_def STATUS_KEYS_def del: lit_simps)
  then show "fold (\<lambda>(k, v). dict_set k v) (managed_status_items render st) (coordinator_status_items render c alive stats) =
     coordinator_status_items render c alive stats @ managed_status_items render st"
    using status_keys_distinct by (intro fold_dict_set_new) simp
qed

text \<open>What \<open>json.dumps\<close> writes is ASCII.\<close>

lemma ascii_append [simp]: "ascii_str (s @ t) \<longleftrightarrow> ascii_str s \<and> ascii_str t" "ascii_str (c # s) \<longleftrightarrow> c < 128 \<and> ascii_str s" "ascii_str []"
  by (auto simp: ascii_str_def)

lemma ascii_join: "ascii_str sep \<Longrightarrow> (\<And>x. x \<in> set xs \<Longrightarrow> ascii_str x) \<Longrightarrow> ascii_str (join_with sep xs)"
  by (induction sep xs rule: join_with.induct) auto

lemma ascii_escape: "ascii_str (escape_char c)"
proof -
  have "hex_lower d < 128" if "d < 16" for d using that by (auto simp: hex_lower_def)
  then have "hex_lower (n mod 16) < 128" for n by simp
  then have "ascii_str (u_escape n)" for n by (simp add: u_escape_def)
  then show ?thesis by (simp add: escape_char_def)
qed

lemma ascii_dump_string: "ascii_str (dump_string s)"
proof -
  have "ascii_str (concat (map escape_char s))" using ascii_escape by (induction s) auto
  then show ?thesis by (simp add: dump_string_def)
qed

lemma dumps_all_ascii:
  assumes "\<And>f. ascii_str (float_repr f)"
  shows "ascii_str (json_dumps float_repr sort_keys v)"
proof (induction v)
  case (JList xs)
  then show ?case by (auto intro!: ascii_join)
next
  case (JObj kvs)
  have "ascii_str (json_dumps float_repr sort_keys v)" if "(k, v) \<in> set kvs" for k v using JObj that by fastforce
  then show ?case using ascii_dump_string by (auto simp: Let_def intro!: ascii_join)
qed (use assms ascii_dump_string ascii_str_str_int in auto)

lemma status_url:
  "netloc_ok [] \<Longrightarrow> urlparse netloc_ok True STATUS_PATH =
     Inr \<lparr>url_scheme = [], url_netloc = [], url_path = STATUS_PATH, url_params = [], url_query = [], url_fragment = []\<rparr>"
  by (simp add: urlparse_def urlsplit_def url_clean_def split_scheme_def split_netloc_def ascii_alpha_def scheme_char_def
      uses_params_def STATUS_PATH_def)

text \<open>The status page is always served and only looks. Whatever state the coordinator and the managed datastore are in
  (errors and ETags with any characters included), a GET of the status path is answered with status 200 and one JSON object with
  the thirteen keys, each once, in ASCII, and neither coordinator nor datastore changes; only the clock is read.\<close>

theorem status_page_served:
  assumes "\<And>f. ascii_str (env_float_repr env f)"
    and "status_provider be = Some (coordinator_status render mo worker_alive)"
    and "mo_clock mo w = (now, w')" and "env_netloc_ok env []"
  shows "\<exists>kvs. map fst kvs = STATUS_KEYS \<and> distinct STATUS_KEYS \<and>
    dispatch_datastore_request env cfg be GET STATUS_PATH raw_body content_type origin host request_token inm (c, m, w) =
      (Inr \<lparr>dr_response = map of_nat (json_dumps (env_float_repr env) True (JObj kvs)), dr_path = STATUS_PATH, dr_etag = None,
            dr_status = 200, dr_content_type = Some APPLICATION_JSON\<rparr>, (c, m, w'))"
proof -
  let ?kvs = "coordinator_status_items render c worker_alive (managed_last_response_stats mo (m, w)) @
    managed_status_items render (managed_status_of m now)"
  have st: "coordinator_status render mo worker_alive (c, m, w) = (Inr (JObj ?kvs), (c, m, w'))"
    using assms(3) by (simp add: coordinator_status_def status_items(1))
  have enc: "utf8_encode (json_dumps (env_float_repr env) True (JObj ?kvs)) =
      Inr (map of_nat (json_dumps (env_float_repr env) True (JObj ?kvs)))"
    by (rule utf8_encode_ascii[OF dumps_all_ascii[OF assms(1)]])
  have "dispatch_datastore_request env cfg be GET STATUS_PATH raw_body content_type origin host request_token inm (c, m, w) =
      (Inr \<lparr>dr_response = map of_nat (json_dumps (env_float_repr env) True (JObj ?kvs)), dr_path = STATUS_PATH, dr_etag = None,
            dr_status = 200, dr_content_type = Some APPLICATION_JSON\<rparr>, (c, m, w'))"
    using assms(2) st enc status_url[of "env_netloc_ok env", OF assms(4)]
    by (simp add: dispatch_datastore_request_def dispatch_status_def bindS_def del: json_dumps.simps)
  then show ?thesis using status_items(2) status_keys_distinct by blast
qed

definition demo_ops :: "unit managed_ops" where
  "demo_ops = \<lparr>mo_open = raiseS NoDeviceFound, mo_exit = (\<lambda>_. retS ()), mo_clock = (\<lambda>w. (7, w)), mo_stats = (\<lambda>_ _. None),
     mo_etag = (\<lambda>_ _. None), mo_payload = (\<lambda>_ _. None), mo_supports_cancellable = (\<lambda>_ _. True)\<rparr>"

definition demo_status_backend :: "(coordinator \<times> managed \<times> unit) backend" where
  "demo_status_backend = \<lparr>run_get = (\<lambda>_ _ _ _. raiseS NoDeviceFound), run_post = (\<lambda>_ _ _. raiseS NoDeviceFound), log_write = None,
     status_provider = Some (coordinator_status (\<lambda>_. ([], [])) demo_ops True)\<rparr>"

theorem status_page_served_witness:
  "\<exists>kvs :: (pystr \<times> json) list. map fst kvs = STATUS_KEYS \<and>
    snd (dispatch_datastore_request any_env demo_dispatcher demo_status_backend GET STATUS_PATH [] [] None None None None
      (coordinator_init True 0, managed_init 1 2 3 True, ())) = (coordinator_init True 0, managed_init 1 2 3 True, ())"
proof -
  have "\<And>f. ascii_str (env_float_repr any_env f)" "env_netloc_ok any_env []" by (simp_all add: any_env_def)
  moreover have "status_provider demo_status_backend = Some (coordinator_status (\<lambda>_. ([], [])) demo_ops True)" "mo_clock demo_ops () = (7, ())"
    by (simp_all add: demo_status_backend_def demo_ops_def)
  ultimately obtain kvs where "map fst kvs = STATUS_KEYS"
    "dispatch_datastore_request any_env demo_dispatcher demo_status_backend GET STATUS_PATH [] [] None None None None
      (coordinator_init True 0, managed_init 1 2 3 True, ()) =
     (Inr \<lparr>dr_response = map of_nat (json_dumps (env_float_repr any_env) True (JObj kvs)), dr_path = STATUS_PATH, dr_etag = None,
            dr_status = 200, dr_content_type = Some APPLICATION_JSON\<rparr>, (coordinator_init True 0, managed_init 1 2 3 True, ()))"
    using status_page_served[of any_env demo_status_backend "\<lambda>_. ([], [])" demo_ops True "()" 7 "()" demo_dispatcher "[]" "[]" None None None None
      "coordinator_init True 0" "managed_init 1 2 3 True"] by blast
  then show ?thesis by auto
qed

end
