(* ===== verification/Motu_Args.thy ===== *)
theory Motu_Args
  imports Motu_Session Motu_Access Motu_Device Motu_Http
begin

text \<open>
  The options of the command line (\<^verbatim>\<open>motu_proxy/cli.py\<close>): the parsers of the option values and the configuration they
  give. \<open>argparse\<close> itself is not modelled: an option is the string it was given as.
\<close>

section \<open>Arguments\<close>

text \<open>\<open>int(s, 0)\<close>: a sign, a radix prefix, underscores between digits; digits of any script count as theirs.\<close>

definition ascii_decimals :: "pystr \<Rightarrow> pystr" where
  "ascii_decimals = map (\<lambda>c. case decimal_digit c of Some d \<Rightarrow> 48 + d | None \<Rightarrow> c)"

fun radix_run :: "nat \<Rightarrow> bool \<Rightarrow> nat \<Rightarrow> pystr \<Rightarrow> nat option" where
  "radix_run base prev acc [] = (if prev then Some acc else None)"
| "radix_run base prev acc (c # cs) =
     (if c = 95 then (if prev \<and> cs \<noteq> [] then radix_run base False acc cs else None)
      else case hex_value c of
        None \<Rightarrow> None
      | Some d \<Rightarrow> if d < base then radix_run base True (base * acc + d) cs else None)"

definition skip_underscore :: "pystr \<Rightarrow> pystr" where
  "skip_underscore s = (case s of c # cs \<Rightarrow> if c = 95 then cs else s | [] \<Rightarrow> [])"

definition int0_unsigned :: "pystr \<Rightarrow> nat option" where
  "int0_unsigned s =
     (if prefix (lit ''0x'') s \<or> prefix (lit ''0X'') s then radix_run 16 False 0 (skip_underscore (drop 2 s))
      else if prefix (lit ''0o'') s \<or> prefix (lit ''0O'') s then radix_run 8 False 0 (skip_underscore (drop 2 s))
      else if prefix (lit ''0b'') s \<or> prefix (lit ''0B'') s then radix_run 2 False 0 (skip_underscore (drop 2 s))
      else if MAX_STR_DIGITS < length (filter (\<lambda>c. c \<noteq> 95) s) then None
      else case radix_run 10 False 0 s of
        None \<Rightarrow> None
      | Some n \<Rightarrow> if prefix [48] s \<and> n \<noteq> 0 then None else Some n)"

text \<open>\<open>_int_arg\<close>; \<open>None\<close> is the \<open>ArgumentTypeError\<close>.\<close>

definition int_arg :: "pystr \<Rightarrow> int option" where
  "int_arg s =
     (case strip_by int_space (ascii_decimals s) of
        [] \<Rightarrow> None
      | c # cs \<Rightarrow>
          if c = 45 then map_option (\<lambda>n. - int n) (int0_unsigned cs)
          else if c = 43 then map_option int (int0_unsigned cs)
          else map_option int (int0_unsigned (c # cs)))"

definition bounded_int_arg :: "int \<Rightarrow> int \<Rightarrow> pystr \<Rightarrow> int option" where
  "bounded_int_arg minimum maximum s =
     (case int_arg s of None \<Rightarrow> None | Some v \<Rightarrow> if minimum \<le> v \<and> v \<le> maximum then Some v else None)"

definition positive_int_arg :: "pystr \<Rightarrow> int option" where
  "positive_int_arg s = (case int_arg s of None \<Rightarrow> None | Some v \<Rightarrow> if v \<le> 0 then None else Some v)"

definition u16_arg :: "pystr \<Rightarrow> int option" where "u16_arg = bounded_int_arg 0 0xFFFF"
definition interface_arg :: "pystr \<Rightarrow> int option" where "interface_arg = bounded_int_arg 0 0xFF"

definition ep_out_arg :: "pystr \<Rightarrow> int option" where
  "ep_out_arg s = (case int_arg s of None \<Rightarrow> None | Some v \<Rightarrow> if 0x01 \<le> v \<and> v \<le> 0x0F then Some v else None)"

definition ep_in_arg :: "pystr \<Rightarrow> int option" where
  "ep_in_arg s = (case int_arg s of None \<Rightarrow> None | Some v \<Rightarrow> if 0x81 \<le> v \<and> v \<le> 0x8F then Some v else None)"

definition host_seq_arg :: "pystr \<Rightarrow> int option" where
  "host_seq_arg s =
     (case int_arg s of None \<Rightarrow> None | Some v \<Rightarrow> (case validate_host_seq v of Inl e \<Rightarrow> None | Inr q \<Rightarrow> Some q))"

definition message_seq_arg :: "pystr \<Rightarrow> int option" where "message_seq_arg = bounded_int_arg 0 MAX_MESSAGE_SEQ"
definition port_arg :: "pystr \<Rightarrow> int option" where "port_arg = bounded_int_arg 1 65535"

definition max_write_body_bytes_arg :: "pystr \<Rightarrow> int option" where
  "max_write_body_bytes_arg s =
     (case (positive_int_arg s, MAX_CONFIGURABLE_WRITE_BODY_BYTES) of
        (Some v, Inr m) \<Rightarrow> if v > m then None else Some v
      | _ \<Rightarrow> None)"

section \<open>The configuration\<close>

record datastore_config =
  dc_vid :: int
  dc_pid :: int
  dc_serial :: "pystr option"
  dc_interface :: "int option"
  dc_ep_out :: "int option"
  dc_ep_in :: "int option"
  dc_timeout_ms :: int
  dc_seq_start :: int
  dc_message_seq :: int
  dc_no_init :: bool
  dc_debug :: bool
  dc_sysfs_root :: path
  dc_devfs_root :: path

text \<open>The USB options as they were typed; \<open>None\<close> for one that is absent.\<close>

record usb_options =
  uo_vid :: "pystr option"
  uo_pid :: "pystr option"
  uo_serial :: "pystr option"
  uo_interface :: "pystr option"
  uo_ep_out :: "pystr option"
  uo_ep_in :: "pystr option"
  uo_timeout_ms :: "pystr option"
  uo_seq_start :: "pystr option"
  uo_message_seq :: "pystr option"
  uo_no_init :: bool
  uo_debug :: bool
  uo_sysfs_root :: path
  uo_devfs_root :: path

definition MOTU_VID :: int where "MOTU_VID = 0x07FD"
definition MOTU_AVB_PID :: int where "MOTU_AVB_PID = 0x0005"

text \<open>An option with a parser: its default when absent, \<open>None\<close> when the parser refuses it.\<close>

definition opt_arg :: "(pystr \<Rightarrow> int option) \<Rightarrow> 'a \<Rightarrow> (int \<Rightarrow> 'a) \<Rightarrow> pystr option \<Rightarrow> 'a option" where
  "opt_arg parser dflt wrap s = (case s of None \<Rightarrow> Some dflt | Some t \<Rightarrow> map_option wrap (parser t))"

text \<open>\<open>add_usb_args\<close>: the namespace that \<open>argparse\<close> gives to the command, or \<open>None\<close> for a usage error.\<close>

definition parse_usb_args :: "usb_options \<Rightarrow> datastore_config option" where
  "parse_usb_args u =
     Option.bind (opt_arg u16_arg MOTU_VID id (uo_vid u)) (\<lambda>vid.
     Option.bind (opt_arg u16_arg MOTU_AVB_PID id (uo_pid u)) (\<lambda>pid.
     Option.bind (opt_arg interface_arg None Some (uo_interface u)) (\<lambda>interface.
     Option.bind (opt_arg ep_out_arg None Some (uo_ep_out u)) (\<lambda>ep_out.
     Option.bind (opt_arg ep_in_arg None Some (uo_ep_in u)) (\<lambda>ep_in.
     Option.bind (opt_arg positive_int_arg DEFAULT_TIMEOUT_MS id (uo_timeout_ms u)) (\<lambda>timeout_ms.
     Option.bind (opt_arg host_seq_arg DEFAULT_SEQ_START id (uo_seq_start u)) (\<lambda>seq_start.
     Option.bind (opt_arg message_seq_arg DEFAULT_MESSAGE_SEQ id (uo_message_seq u)) (\<lambda>message_seq.
     Some \<lparr>dc_vid = vid, dc_pid = pid, dc_serial = uo_serial u, dc_interface = interface, dc_ep_out = ep_out,
           dc_ep_in = ep_in, dc_timeout_ms = timeout_ms, dc_seq_start = seq_start, dc_message_seq = message_seq,
           dc_no_init = uo_no_init u, dc_debug = uo_debug u, dc_sysfs_root = uo_sysfs_root u,
           dc_devfs_root = uo_devfs_root u\<rparr>))))))))"

definition validate_usb_overrides :: "int option \<Rightarrow> int option \<Rightarrow> int option \<Rightarrow> unit result" where
  "validate_usb_overrides interface ep_out ep_in =
     (if (interface \<noteq> None \<or> ep_out \<noteq> None \<or> ep_in \<noteq> None) \<and>
         \<not> (interface \<noteq> None \<and> ep_out \<noteq> None \<and> ep_in \<noteq> None)
      then Inl RuntimeError else Inr ())"

definition validate_cli_range :: "int \<Rightarrow> int \<Rightarrow> int option \<Rightarrow> unit result" where
  "validate_cli_range v minimum maximum =
     (if v < minimum then Inl RuntimeError
      else case maximum of Some m \<Rightarrow> if v > m then Inl RuntimeError else Inr () | None \<Rightarrow> Inr ())"

text \<open>The namespace has the fields of the configuration, under the same names.\<close>

definition config_from_args :: "datastore_config \<Rightarrow> datastore_config result" where
  "config_from_args args =
     bindR (validate_usb_overrides (dc_interface args) (dc_ep_out args) (dc_ep_in args)) (\<lambda>_.
     bindR (validate_host_seq (dc_seq_start args)) (\<lambda>_.
     bindR (validate_cli_range (dc_timeout_ms args) 1 None) (\<lambda>_.
     bindR (validate_cli_range (dc_message_seq args) 0 (Some MAX_MESSAGE_SEQ)) (\<lambda>_.
     Inr args))))"

definition find_args_of :: "datastore_config \<Rightarrow> find_args" where
  "find_args_of c =
     \<lparr>fa_vid = dc_vid c, fa_pid = dc_pid c, fa_serial = dc_serial c, fa_sysfs_root = dc_sysfs_root c,
      fa_devfs_root = dc_devfs_root c, fa_interface = dc_interface c, fa_ep_out = dc_ep_out c, fa_ep_in = dc_ep_in c\<rparr>"

section \<open>What the arguments guarantee\<close>

text \<open>The ranges that the rest of the program relies on.\<close>

definition config_wf :: "datastore_config \<Rightarrow> bool" where
  "config_wf c \<longleftrightarrow>
     0 \<le> dc_vid c \<and> dc_vid c \<le> 0xFFFF \<and> 0 \<le> dc_pid c \<and> dc_pid c \<le> 0xFFFF \<and>
     (\<forall>i\<in>set_option (dc_interface c). 0 \<le> i \<and> i \<le> 0xFF) \<and>
     (\<forall>e\<in>set_option (dc_ep_out c). 1 \<le> e \<and> e \<le> 0x0F) \<and>
     (\<forall>e\<in>set_option (dc_ep_in c). 0x81 \<le> e \<and> e \<le> 0x8F) \<and>
     1 \<le> dc_timeout_ms c \<and> 0x20 \<le> dc_seq_start c \<and> dc_seq_start c \<le> 0x3F \<and>
     0 \<le> dc_message_seq c \<and> dc_message_seq c \<le> MAX_MESSAGE_SEQ"

lemmas host_seq_consts = HOST_SEQ_MIN_def HOST_SEQ_MAX_EXCLUSIVE_def HOST_SEQ_COUNT_def

lemma opt_arg_Some:
  "opt_arg p d w s = Some v \<longleftrightarrow> s = None \<and> v = d \<or> (\<exists>t i. s = Some t \<and> p t = Some i \<and> v = w i)"
  by (cases s) (auto simp: opt_arg_def)

lemma bounded_int_arg_range: "bounded_int_arg a b s = Some v \<Longrightarrow> a \<le> v \<and> v \<le> b"
  by (auto simp: bounded_int_arg_def split: option.splits if_splits)

lemma endpoint_arg_range:
  "ep_out_arg s = Some v \<Longrightarrow> 1 \<le> v \<and> v \<le> 0x0F" "ep_in_arg s = Some w \<Longrightarrow> 0x81 \<le> w \<and> w \<le> 0x8F"
  by (auto simp: ep_out_arg_def ep_in_arg_def split: option.splits if_splits)

lemma positive_int_arg_range: "positive_int_arg s = Some v \<Longrightarrow> 1 \<le> v"
  by (auto simp: positive_int_arg_def split: option.splits if_splits)

lemma host_seq_arg_range: "host_seq_arg s = Some q \<Longrightarrow> 0x20 \<le> q \<and> q \<le> 0x3F"
  by (auto simp: host_seq_arg_def validate_host_seq_def host_seq_consts split: option.splits sum.splits if_splits)

lemma parsed_config_wf:
  assumes "parse_usb_args u = Some c"
  shows "config_wf c"
proof -
  obtain vid pid interface ep_out ep_in tm sq mq where o:
    "opt_arg u16_arg MOTU_VID id (uo_vid u) = Some vid" "opt_arg u16_arg MOTU_AVB_PID id (uo_pid u) = Some pid"
    "opt_arg interface_arg None Some (uo_interface u) = Some interface" "opt_arg ep_out_arg None Some (uo_ep_out u) = Some ep_out"
    "opt_arg ep_in_arg None Some (uo_ep_in u) = Some ep_in"
    "opt_arg positive_int_arg DEFAULT_TIMEOUT_MS id (uo_timeout_ms u) = Some tm"
    "opt_arg host_seq_arg DEFAULT_SEQ_START id (uo_seq_start u) = Some sq"
    "opt_arg message_seq_arg DEFAULT_MESSAGE_SEQ id (uo_message_seq u) = Some mq"
    and c: "dc_vid c = vid" "dc_pid c = pid" "dc_interface c = interface" "dc_ep_out c = ep_out" "dc_ep_in c = ep_in"
      "dc_timeout_ms c = tm" "dc_seq_start c = sq" "dc_message_seq c = mq"
    using assms unfolding parse_usb_args_def bind_eq_Some_conv by auto
  have "0 \<le> vid \<and> vid \<le> 0xFFFF" "0 \<le> pid \<and> pid \<le> 0xFFFF"
    using o(1,2) bounded_int_arg_range unfolding opt_arg_Some u16_arg_def by (auto simp: MOTU_VID_def MOTU_AVB_PID_def)
  moreover have "\<forall>i\<in>set_option interface. 0 \<le> i \<and> i \<le> 0xFF"
    using o(3) bounded_int_arg_range unfolding opt_arg_Some interface_arg_def by auto
  moreover have "\<forall>e\<in>set_option ep_out. 1 \<le> e \<and> e \<le> 0x0F" "\<forall>e\<in>set_option ep_in. 0x81 \<le> e \<and> e \<le> 0x8F"
    using o(4,5) endpoint_arg_range unfolding opt_arg_Some by auto
  moreover have "1 \<le> tm" using o(6) positive_int_arg_range unfolding opt_arg_Some by (auto simp: session_consts)
  moreover have "0x20 \<le> sq \<and> sq \<le> 0x3F" using o(7) host_seq_arg_range unfolding opt_arg_Some by (auto simp: session_consts)
  moreover have "0 \<le> mq \<and> mq \<le> MAX_MESSAGE_SEQ"
    using o(8) bounded_int_arg_range unfolding opt_arg_Some message_seq_arg_def by (auto simp: session_consts)
  ultimately show ?thesis unfolding config_wf_def c by simp
qed

lemma config_from_args_wf:
  assumes "config_wf c"
  shows "config_from_args c = (if partial_overrides (find_args_of c) then Inl RuntimeError else Inr c)"
proof -
  have "validate_usb_overrides (dc_interface c) (dc_ep_out c) (dc_ep_in c) =
      (if partial_overrides (find_args_of c) then Inl RuntimeError else Inr ())"
    by (auto simp: validate_usb_overrides_def partial_overrides_def manual_overrides_def find_args_of_def split: option.splits)
  moreover have "validate_host_seq (dc_seq_start c) = Inr (dc_seq_start c)"
    using assms by (auto simp: config_wf_def validate_host_seq_def host_seq_consts)
  ultimately show ?thesis
    using assms by (auto simp: config_from_args_def validate_cli_range_def config_wf_def)
qed

lemma config_from_args_same: "config_from_args args = Inr c \<Longrightarrow> c = args"
  unfolding config_from_args_def bindR_Inr_iff by auto

text \<open>What argument parsing accepts is well typed: vendor and product are 16-bit numbers, an interface
  is a byte, endpoints have the right direction, the time-out is positive and both sequence numbers are in
  their ranges. Such a configuration is then refused only for an incomplete set of overrides, and a session
  can be created from it.\<close>

theorem parsed_config_typed:
  assumes "parse_usb_args u = Some c"
  shows "config_wf c \<and>
    config_from_args c = (if partial_overrides (find_args_of c) then Inl RuntimeError else Inr c) \<and>
    (\<exists>d. new_session (dc_seq_start c) (dc_message_seq c) = Inr d \<and> host_ok d)"
proof -
  note wf = parsed_config_wf[OF assms]
  have "\<exists>d. new_session (dc_seq_start c) (dc_message_seq c) = Inr d \<and> host_ok d"
    using wf by (auto simp: new_session_def host_sequencer_init_def validate_host_seq_def config_wf_def host_ok_def host_seq_consts)
  then show ?thesis using wf config_from_args_wf[OF wf] by blast
qed

definition plain_options :: usb_options where
  "plain_options = \<lparr>uo_vid = None, uo_pid = None, uo_serial = None, uo_interface = Some (lit ''2''),
     uo_ep_out = None, uo_ep_in = None, uo_timeout_ms = Some (lit ''1_500''), uo_seq_start = Some (lit ''0x2a''), uo_message_seq = None,
     uo_no_init = False, uo_debug = False, uo_sysfs_root = [], uo_devfs_root = []\<rparr>"

lemma int_arg_examples:
  "int_arg (lit ''2'') = Some 2" "int_arg (lit ''1_500'') = Some 1500" "int_arg (lit ''0x2a'') = Some 42"
  "int_arg (lit ''010'') = None" "int_arg (lit '' -0b11 '') = Some (- 3)" "int_arg (lit ''0x'') = None"
  by (simp_all add: int_arg_def ascii_decimals_def strip_by_def int_space_def py_space_def int0_unsigned_def hex_value_def
      decimal_digit_def decimal_zeros_def skip_underscore_def MAX_STR_DIGITS_def)

theorem parsed_config_typed_witness:
  "\<exists>c. parse_usb_args plain_options = Some c \<and> config_wf c \<and> config_from_args c = Inl RuntimeError"
proof -
  have p: "\<exists>c. parse_usb_args plain_options = Some c \<and> partial_overrides (find_args_of c)"
    using int_arg_examples
    by (simp add: parse_usb_args_def plain_options_def opt_arg_def interface_arg_def bounded_int_arg_def positive_int_arg_def
        host_seq_arg_def validate_host_seq_def host_seq_consts partial_overrides_def manual_overrides_def find_args_of_def del: lit_simps)
  then obtain c where "parse_usb_args plain_options = Some c" "partial_overrides (find_args_of c)" by blast
  then show ?thesis using parsed_config_typed[of plain_options c] by auto
qed

end
