(* ===== verification/Motu_Cli.thy ===== *)
theory Motu_Cli
  imports Motu_Usbfs Motu_Info Motu_Args
begin

text \<open>
  The commands of \<^verbatim>\<open>motu_proxy/cli.py\<close> that talk to the device, and \<open>open_datastore\<close> of \<^verbatim>\<open>motu_proxy/datastore.py\<close>, which puts
  discovery, transport and session together. The terminal is not modelled: a command returns what it prints or its
  exit status.
\<close>

section \<open>Opening the datastore\<close>

definition transport_of :: "usb_device_info \<Rightarrow> int \<Rightarrow> usb_transport" where
  "transport_of d timeout_ms =
     \<lparr>ut_devfs_path = di_devfs_path d, ut_interface = di_interface d, ut_ep_out = di_ep_out d, ut_ep_in = di_ep_in d,
      ut_max_packet_size = di_max_packet_size d, ut_timeout_ms = timeout_ms, ut_fd = None\<rparr>"

text \<open>
  The transport as the session sees it. The commands read with \<open>bulk_read\<close>; starting and finishing a
  cancellable read are arguments. A negative packet size makes every read raise.
\<close>

definition usbfs_transport ::
    "'k syscalls \<Rightarrow> ('k \<Rightarrow> rat \<times> 'k) \<Rightarrow> (nat \<Rightarrow> int option \<Rightarrow> ('k ut, nat) sop) \<Rightarrow> (nat \<Rightarrow> ('k ut, bytes) sop) \<Rightarrow>
     usb_transport \<Rightarrow> 'k ut transport" where
  "usbfs_transport sys clock begin_read pending t =
     \<lparr>tr_max_packet_size = Some (nat (max_packet_size t)), tr_bulk_write = transport_bulk_write sys,
      tr_bulk_read = (\<lambda>n ms. if max_packet_size t < 0 then raiseS ValueError else transport_bulk_read sys (Some (int n)) ms),
      tr_begin_read = Some begin_read, tr_pending_read = pending,
      tr_monotonic = (\<lambda>(t, k). case clock k of (now, k') \<Rightarrow> (now, (t, k')))\<rparr>"

text \<open>What the commands need from outside: the file system, the system calls, the clock, cancellable reads.\<close>

record 'k platform =
  pl_fs :: fs
  pl_sys :: "'k syscalls"
  pl_clock :: "'k \<Rightarrow> rat \<times> 'k"
  pl_begin_read :: "nat \<Rightarrow> int option \<Rightarrow> ('k ut, nat) sop"
  pl_pending_read :: "nat \<Rightarrow> ('k ut, bytes) sop"

definition transport_for :: "'k platform \<Rightarrow> usb_transport \<Rightarrow> 'k ut transport" where
  "transport_for pl t = usbfs_transport (pl_sys pl) (pl_clock pl) (pl_begin_read pl) (pl_pending_read pl) t"

text \<open>\<open>with open_datastore(config) as datastore: body\<close>; first the part under the claimed interface.\<close>

definition with_session :: "datastore_config \<Rightarrow> 'w transport \<Rightarrow> ('w, 'a) sess \<Rightarrow> ('w, 'a) sop" where
  "with_session c tr body = (\<lambda>w.
     case new_session (dc_seq_start c) (dc_message_seq c) of
       Inl e \<Rightarrow> (Inl e, w)
     | Inr d \<Rightarrow>
         (case bindS (if dc_no_init c then retS () else sess_init tr) (\<lambda>_. body) (d, w) of (r, (_, w')) \<Rightarrow> (r, w')))"

definition open_datastore ::
    "'k platform \<Rightarrow> datastore_config \<Rightarrow> ('k ut transport \<Rightarrow> ('k ut, 'a) sess) \<Rightarrow> ('k, 'a) sop" where
  "open_datastore pl c body = (\<lambda>k.
     case find_motu_device (pl_fs pl) (find_args_of c) of
       Inl e \<Rightarrow> (Inl e, k)
     | Inr device \<Rightarrow>
         let t = transport_of device (dc_timeout_ms c); tr = transport_for pl t in
         (case transport_enter (pl_sys pl) (t, k) of
            (Inl e, (_, k')) \<Rightarrow> (Inl e, k')
          | (Inr _, s) \<Rightarrow>
              (case finallyS (with_session c tr (body tr)) (transport_exit (pl_sys pl)) s of (r, (_, k')) \<Rightarrow> (r, k'))))"

section \<open>Commands\<close>

text \<open>What a command writes for a response: the bytes with \<open>--raw\<close>, else the text, indented unless \<open>--compact\<close>.\<close>

datatype cli_output = RawOutput bytes | TextOutput pystr

definition show_response :: "json_env \<Rightarrow> bool \<Rightarrow> bool \<Rightarrow> bytes \<Rightarrow> cli_output result" where
  "show_response je raw compact_text response =
     (if raw then Inr (RawOutput response)
      else bindR (response_to_text je (\<not> compact_text) response) (\<lambda>t. Inr (TextOutput t)))"

definition command_info ::
    "'k platform \<Rightarrow> json_env \<Rightarrow> (exc \<Rightarrow> pystr) \<Rightarrow> (json \<Rightarrow> pystr) \<Rightarrow> datastore_config \<Rightarrow> bool \<Rightarrow> ('k, pystr list) sop" where
  "command_info pl je other_message str_value args as_json =
     bindS (liftR (config_from_args args)) (\<lambda>c.
     bindS (open_datastore pl c (\<lambda>tr. read_device_capability_info je other_message (\<lambda>path. sess_get tr path default_get_args))) (\<lambda>info.
     if as_json then liftR (bindR (dumps_pretty je (info_as_dict info)) (\<lambda>t. Inr [t]))
     else liftR (capability_info_lines str_value info)))"

definition command_get ::
    "'k platform \<Rightarrow> json_env \<Rightarrow> (pystr \<Rightarrow> bool) \<Rightarrow> datastore_config \<Rightarrow> bool \<Rightarrow> bool \<Rightarrow> pystr \<Rightarrow> pystr \<Rightarrow> ('k, cli_output) sop" where
  "command_get pl je netloc_ok args raw compact_text path etag =
     bindS (liftR (normalize_path netloc_ok path)) (\<lambda>path.
     bindS (liftR (config_from_args args)) (\<lambda>c.
     bindS (open_datastore pl c (\<lambda>tr. sess_get tr path (default_get_args\<lparr>ga_etag := etag\<rparr>))) (\<lambda>response.
     liftR (show_response je raw compact_text response))))"

definition command_meters ::
    "'k platform \<Rightarrow> json_env \<Rightarrow> datastore_config \<Rightarrow> bool \<Rightarrow> bool \<Rightarrow> pystr \<Rightarrow> pystr \<Rightarrow> ('k, cli_output) sop" where
  "command_meters pl je args raw compact_text meter_group etag =
     bindS (liftR (config_from_args args)) (\<lambda>c.
     bindS (open_datastore pl c (\<lambda>tr.
       sess_get tr (lit ''/meters'')
         (default_get_args\<lparr>ga_etag := etag, ga_query_fields := FieldPairs [(lit ''meters'', QStr meter_group)]\<rparr>))) (\<lambda>response.
     liftR (show_response je raw compact_text response)))"

definition check_post :: "(pystr \<Rightarrow> bool) \<Rightarrow> nat \<Rightarrow> bool \<Rightarrow> bool \<Rightarrow> pystr \<Rightarrow> pystr \<Rightarrow> (pystr \<times> bytes) result" where
  "check_post netloc_ok json_limit no_validate allow_unknown path json_body =
     bindR (normalize_path netloc_ok path) (\<lambda>path.
     bindR (load_json_object json_limit json_body) (\<lambda>write_object.
     bindR (utf8_encode json_body) (\<lambda>write_body.
     bindR (if no_validate then Inr [] else validate_datastore_write_object netloc_ok allow_unknown path write_object) (\<lambda>_.
     Inr (path, write_body)))))"

definition command_post ::
    "'k platform \<Rightarrow> json_env \<Rightarrow> (pystr \<Rightarrow> bool) \<Rightarrow> datastore_config \<Rightarrow> bool \<Rightarrow> bool \<Rightarrow> bool \<Rightarrow> bool \<Rightarrow> pystr \<Rightarrow> pystr \<Rightarrow>
     ('k, cli_output) sop" where
  "command_post pl je netloc_ok args raw compact_text no_validate allow_unknown path json_body =
     bindS (liftR (check_post netloc_ok (je_load_limit je) no_validate allow_unknown path json_body)) (\<lambda>(path, write_body).
     bindS (liftR (config_from_args args)) (\<lambda>c.
     bindS (open_datastore pl c (\<lambda>tr. sess_post tr path write_body None DEFAULT_RESPONSE_TIMEOUT_MS)) (\<lambda>response.
     liftR (show_response je raw compact_text response))))"

definition DEFAULT_SMOKE_PATHS :: "pystr list" where
  "DEFAULT_SMOKE_PATHS = [lit ''/datastore/uid'', lit ''/datastore/ext/maxUSBToHost'', lit ''/datastore/host/mode'']"

text \<open>
  The loops of \<open>command_probe\<close> and \<open>command_smoke\<close>. Both print an error and go on, or stop; an error of
  \<open>response_to_text\<close> counts like one of \<open>get\<close>. \<open>command_smoke\<close> also takes the time.
\<close>

fun probe_loop :: "'w transport \<Rightarrow> pystr list \<Rightarrow> ('w, int) sess" where
  "probe_loop tr [] = retS 0"
| "probe_loop tr (path # paths) = (\<lambda>s. case sess_get tr path default_get_args s of (_, s') \<Rightarrow> probe_loop tr paths s')"

definition smoke_read :: "'w transport \<Rightarrow> json_env \<Rightarrow> bool \<Rightarrow> bool \<Rightarrow> pystr \<Rightarrow> ('w, unit) sess" where
  "smoke_read tr je compact_text no_body path =
     bindS (sess_get tr path default_get_args) (\<lambda>response.
     bindS (monotonic tr) (\<lambda>_.
     if no_body then retS () else bindS (liftR (response_to_text je (\<not> compact_text) response)) (\<lambda>_. retS ())))"

fun smoke_loop :: "'w transport \<Rightarrow> json_env \<Rightarrow> bool \<Rightarrow> bool \<Rightarrow> bool \<Rightarrow> nat \<Rightarrow> pystr list \<Rightarrow> ('w, int) sess" where
  "smoke_loop tr je compact_text no_body continue_on_error failures [] = retS (if failures \<noteq> 0 then 1 else 0)"
| "smoke_loop tr je compact_text no_body continue_on_error failures (path # paths) =
     bindS (monotonic tr) (\<lambda>_ s.
     case smoke_read tr je compact_text no_body path s of
       (Inr _, s') \<Rightarrow> smoke_loop tr je compact_text no_body continue_on_error failures paths s'
     | (Inl _, s') \<Rightarrow>
         bindS (monotonic tr) (\<lambda>_.
         if \<not> continue_on_error then retS 1
         else smoke_loop tr je compact_text no_body continue_on_error (failures + 1) paths) s')"

definition command_probe :: "'k platform \<Rightarrow> datastore_config \<Rightarrow> ('k, int) sop" where
  "command_probe pl args =
     bindS (liftR (config_from_args args)) (\<lambda>c. open_datastore pl c (\<lambda>tr. probe_loop tr DEFAULT_SMOKE_PATHS))"

definition command_smoke ::
    "'k platform \<Rightarrow> json_env \<Rightarrow> (pystr \<Rightarrow> bool) \<Rightarrow> datastore_config \<Rightarrow> bool \<Rightarrow> bool \<Rightarrow> pystr list \<Rightarrow> bool \<Rightarrow> ('k, int) sop" where
  "command_smoke pl je netloc_ok args compact_text no_body paths continue_on_error =
     bindS (liftR (mapR (normalize_path netloc_ok) (if paths = [] then DEFAULT_SMOKE_PATHS else paths))) (\<lambda>paths.
     bindS (liftR (config_from_args args)) (\<lambda>c.
     open_datastore pl c (\<lambda>tr. smoke_loop tr je compact_text no_body continue_on_error 0 paths)))"

definition is_os_error :: "exc \<Rightarrow> bool" where
  "is_os_error e \<longleftrightarrow> os_errno e \<noteq> None \<or> e = InterruptedError"

text \<open>
  \<open>main\<close>: the exit status of a command, or the exception that leaves the program. Of the exceptions collected in
  \<open>OtherException\<close> it catches some (\<open>RecursionError\<close>) and not others (a plain \<open>ValueError\<close>); \<open>catches_other\<close> says which it is.
\<close>

definition main_status :: "bool \<Rightarrow> ('s, int) sop \<Rightarrow> ('s, int) sop" where
  "main_status catches_other command =
     onErrorS command (\<lambda>e.
       if is_os_error e \<or> is_runtime_error e \<or> e = AssertionError \<or> e = OtherException \<and> catches_other then retS 1
       else raiseS e)"

section \<open>Relations that the transport keeps\<close>

text \<open>
  A relation between states of the world that writing, reading and the clock of a transport keep. Every
  session operation that does not use cancellable reads then keeps it.
\<close>

locale world_relation =
  fixes tr :: "'w transport" and W :: "'w \<Rightarrow> 'w \<Rightarrow> bool"
  assumes W_refl: "reflp W"
    and W_trans: "transp W"
    and W_write: "keepsS W (tr_bulk_write tr frame)"
    and W_read: "keepsS W (tr_bulk_read tr n timeout)"
    and W_clock: "W w (snd (tr_monotonic tr w))"
begin

definition R :: "motu_session \<times> 'w \<Rightarrow> motu_session \<times> 'w \<Rightarrow> bool" where
  "R s s' \<longleftrightarrow> W (snd s) (snd s')"

lemma R_order: "reflp R" "transp R"
  using W_refl W_trans by (auto simp: R_def reflp_def transp_def)

lemma on_world: "keepsS W m \<Longrightarrow> keepsS R (onWorld m)"
  by (auto simp: keepsS_def R_def onWorld_def split: prod.splits) (metis snd_conv)

lemma next_host_seq_keeps: "keepsS R sess_next_host_seq"
  using reflpD[OF W_refl] by (auto simp: keepsS_def R_def sess_next_host_seq_def split: prod.splits)

lemma write_frame_keeps: "keepsS R (write_frame tr frame)"
  unfolding write_frame_def by (intro keeps_intros R_order on_world W_write)

text \<open>A way of reading that keeps the relation; plain reads do.\<close>

definition mode_keeps :: "'w read_mode \<Rightarrow> bool" where
  "mode_keeps rm \<longleftrightarrow> (\<forall>n t. keepsS W (bulk_read tr rm n t))"

lemma plain_mode: "mode_keeps plain_read"
  using W_read by (simp add: mode_keeps_def bulk_read_def plain_read_def)

lemma read_more_keeps:
  assumes "mode_keeps rm"
  shows "keepsS W (read_more tr rm timeout expected acc)"
  unfolding keepsS_def
proof
  fix w show "W w (snd (read_more tr rm timeout expected acc w))"
  proof (induction "expected - length acc" arbitrary: acc w rule: less_induct)
    case less
    obtain r w' where b: "bulk_read tr rm (max_chunk tr) timeout w = (r, w')" by fastforce
    have 1: "W w w'" using assms b unfolding mode_keeps_def by (metis keepsS_def snd_conv)
    show ?case
    proof (cases "length acc < expected \<and> (\<exists>c. r = Inr c \<and> c \<noteq> [])")
      case True
      then obtain c where c: "r = Inr c" "c \<noteq> []" "length acc < expected" by blast
      then have "W w' (snd (read_more tr rm timeout expected (acc @ c) w'))" by (intro less) (auto intro!: diff_less_mono2)
      then show ?thesis using 1 b c transpD[OF W_trans]
        by (auto simp: read_more.simps[of tr rm timeout expected acc w])
    next
      case False
      then show ?thesis using 1 b reflpD[OF W_refl]
        by (cases r) (auto simp: read_more.simps[of tr rm timeout expected acc w])
    qed
  qed
qed

lemma read_logical_frame_keeps:
  assumes "mode_keeps rm"
  shows "keepsS W (read_logical_frame tr rm timeout)"
proof -
  have "keepsS W (bulk_read tr rm (max_chunk tr) timeout)" using assms by (simp add: mode_keeps_def)
  then show ?thesis unfolding read_logical_frame_def
    by (intro keeps_intros W_refl W_trans read_more_keeps assms)
qed

end

sublocale world_relation < session: session_relation tr R
proof unfold_locales
  show "reflp R" "transp R" by (rule R_order)+
  show "keepsS R (monotonic tr)"
    using W_clock by (auto simp: keepsS_def R_def monotonic_def split: prod.splits) (metis snd_conv)
  show "keepsS R (write_ack tr)"
    unfolding write_ack_def by (intro keeps_intros R_order next_host_seq_keeps write_frame_keeps)
qed (use W_refl in \<open>auto simp: R_def reflp_def\<close>)

context world_relation
begin

lemma drain_keeps: "keepsS W (drain_quiet tr quiet_reads timeout max_reads)"
  unfolding keepsS_def drain_quiet_def
proof
  fix w show "W w (snd (drain_loop tr quiet_reads timeout max_reads 0 0 [] w))"
  proof -
    have "W w (snd (drain_loop tr quiet_reads timeout max_reads quiet reads packets w))" for quiet reads packets w
    proof (induction "max_reads - reads" arbitrary: quiet reads packets w rule: less_induct)
      case less
      obtain r w' where b: "read_logical_frame tr plain_read (Some timeout) w = (r, w')" by fastforce
      have 1: "W w w'" using read_logical_frame_keeps[OF plain_mode] b by (metis keepsS_def snd_conv)
      show ?case
      proof (cases "quiet < quiet_reads \<and> reads < max_reads")
        case True
        then have "W w' (snd (drain_loop tr quiet_reads timeout max_reads q (reads + 1) ps w'))" for q ps
          by (intro less) auto
        then show ?thesis using True 1 b transpD[OF W_trans]
          by (subst drain_loop.simps) (auto split: sum.splits)
      next
        case False
        then show ?thesis using reflpD[OF W_refl] by (subst drain_loop.simps) auto
      qed
    qed
    then show ?thesis .
  qed
qed

lemma mode_reads_keep:
  "(\<And>f. ca_should_cancel ca = Some f \<Longrightarrow> keepsS W f) \<Longrightarrow> mode_keeps (ca_read_mode ca) \<Longrightarrow> session.reads_keep ca"
  unfolding session.reads_keep_def asks_cancel_def
  by (auto intro!: keeps_intros R_order on_world read_logical_frame_keeps split: option.splits)

lemma sess_init_keeps: "keepsS R (sess_init tr)"
  unfolding sess_init_def
  by (intro keeps_intros R_order next_host_seq_keeps write_frame_keeps on_world drain_keeps)

text \<open>An operation that first looks at the session.\<close>

lemma keeps_split: "(\<And>d w. keepsS R (f d w)) \<Longrightarrow> keepsS R (\<lambda>(d, w). f d w (d, w))"
  by (auto simp: keepsS_def)

lemma sess_get_keeps:
  assumes "\<And>f. ga_should_cancel ga = Some f \<Longrightarrow> keepsS W f" "mode_keeps (ga_read_mode ga)"
  shows "keepsS R (sess_get tr path ga)"
  unfolding sess_get_def Let_def
  by (intro keeps_split keeps_intros R_order next_host_seq_keeps write_frame_keeps session.response_keeps mode_reads_keep)
    (use assms W_refl in \<open>auto simp: default_collect_args_def R_def reflp_def\<close>)

lemma sess_post_keeps: "keepsS R (sess_post tr path body client timeout)"
  unfolding sess_post_def Let_def
  by (intro keeps_split keeps_intros R_order next_host_seq_keeps write_frame_keeps session.response_keeps mode_reads_keep)
    (use W_refl plain_mode in \<open>auto simp: default_collect_args_def R_def reflp_def\<close>)

end

section \<open>The device is always released\<close>

text \<open>
  \<open>opened\<close> is the set of open files. Beside \<open>files_contract\<close>, transfers and the clock leave it alone.
\<close>

definition platform_contract :: "'k platform \<Rightarrow> ('k \<Rightarrow> int set) \<Rightarrow> bool" where
  "platform_contract pl opened \<longleftrightarrow>
     files_contract (pl_sys pl) opened \<and>
     (\<forall>fd ep data ms k. opened (snd (sys_bulk_out (pl_sys pl) fd ep data ms k)) = opened k) \<and>
     (\<forall>fd ep n ms k. opened (snd (sys_bulk_in (pl_sys pl) fd ep n ms k)) = opened k) \<and>
     (\<forall>k. opened (snd (pl_clock pl k)) = opened k)"

definition same_files :: "'k platform \<Rightarrow> ('k \<Rightarrow> int set) \<Rightarrow> 'k ut \<Rightarrow> 'k ut \<Rightarrow> bool" where
  "same_files pl opened s s' \<longleftrightarrow>
     ut_fd (fst s') = ut_fd (fst s) \<and> (platform_contract pl opened \<longrightarrow> opened (snd s') = opened (snd s))"

interpretation usb: world_relation "transport_for pl t" "same_files pl opened" for pl t opened
proof unfold_locales
  show "reflp (same_files pl opened)" "transp (same_files pl opened)"
    by (auto simp: same_files_def reflp_def transp_def)
  show "keepsS (same_files pl opened) (tr_bulk_write (transport_for pl t) frame)" for frame
    by (simp add: keepsS_def transport_for_def usbfs_transport_def transport_bulk_write_def bindS_def on_kernel_def same_files_def
          platform_contract_def retS_def raiseS_def split_def split: option.splits sum.splits)
  show "keepsS (same_files pl opened) (tr_bulk_read (transport_for pl t) n ms)" for n ms
    by (simp add: keepsS_def transport_for_def usbfs_transport_def transport_bulk_read_def bindS_def onErrorS_def on_kernel_def
          same_files_def platform_contract_def retS_def raiseS_def Let_def split_def split: option.splits sum.splits)
  show "same_files pl opened s (snd (tr_monotonic (transport_for pl t) s))" for s
    by (simp add: transport_for_def usbfs_transport_def same_files_def platform_contract_def split_def)
qed

lemma open_datastore_files:
  assumes "platform_contract pl opened" "\<And>t. keepsS (usb.R pl opened) (body (transport_for pl t))"
  shows "opened (snd (open_datastore pl c body k)) = opened k"
proof (cases "find_motu_device (pl_fs pl) (find_args_of c)")
  case (Inr device)
  define t where "t = transport_of device (dc_timeout_ms c)"
  let ?tr = "transport_for pl t"
  have fc: "files_contract (pl_sys pl) opened" using assms(1) by (simp add: platform_contract_def)
  obtain r t1 k1 where e: "transport_enter (pl_sys pl) (t, k) = (r, (t1, k1))" by (metis prod.collapse)
  show ?thesis
  proof (cases r)
    case (Inl x)
    then show ?thesis using transport_enter_files(2)[OF fc e] Inr e by (simp add: open_datastore_def t_def Let_def)
  next
    case ok: (Inr u)
    then obtain fd where fd: "ut_fd t1 = Some fd" "fd \<notin> opened k" "opened k1 = insert fd (opened k)"
      using transport_enter_files(1)[OF fc e] by auto
    let ?m = "with_session c ?tr (body ?tr)"
    have "keepsS (usb.R pl opened) (bindS (if dc_no_init c then retS () else sess_init ?tr) (\<lambda>_. body ?tr))"
      by (intro keeps_intros usb.R_order usb.sess_init_keeps assms(2))
    then have step: "same_files pl opened s (snd (snd (bindS (if dc_no_init c then retS () else sess_init ?tr) (\<lambda>_. body ?tr) (d, s))))" for d s
      unfolding keepsS_def usb.R_def by (metis snd_conv)
    have "same_files pl opened s (snd (?m s))" for s
    proof (cases "new_session (dc_seq_start c) (dc_message_seq c)")
      case (Inr d)
      then show ?thesis using step[of s d] by (simp add: with_session_def split_def)
    qed (simp add: same_files_def with_session_def)
    then obtain r2 t2 k2 where m: "?m (t1, k1) = (r2, (t2, k2))" "ut_fd t2 = Some fd" "opened k2 = opened k1"
      using fd(1) assms(1) unfolding same_files_def by (metis fst_conv prod.collapse snd_conv)
    obtain r3 t3 k3 where x: "transport_exit (pl_sys pl) (t2, k2) = (r3, (t3, k3))" by (metis prod.collapse)
    have "opened k3 = opened k" using transport_exit_files(1)[OF fc m(2) x] m(3) fd(2,3) by auto
    moreover have "snd (open_datastore pl c body k) = k3"
      using Inr e ok m(1) x unfolding open_datastore_def Let_def t_def
      by (auto simp: finallyS_def split: sum.splits)
    ultimately show ?thesis by simp
  qed
qed (simp add: open_datastore_def)

text \<open>Reading the capability information keeps what reading a path keeps.\<close>

lemma keepsS_prod [keeps_intros]: "(\<And>a b. keepsS R (f a b)) \<Longrightarrow> keepsS R (case p of (a, b) \<Rightarrow> f a b)"
  by (cases p) simp

lemma read_optional_keeps: "keepsS R (get path) \<Longrightarrow> keepsS R (read_optional_datastore_value je om get path)"
  by (auto simp: keepsS_def read_optional_datastore_value_def split: prod.splits sum.splits) (metis snd_conv)+

lemma read_each_keeps:
  "reflp R \<Longrightarrow> transp R \<Longrightarrow> (\<And>k. keepsS R (read k)) \<Longrightarrow> keepsS R (read_each read ks)"
  by (induction ks) (auto intro!: keeps_intros)

lemma read_info_keeps:
  assumes "reflp R" "transp R" "\<And>path. keepsS R (get path)"
  shows "keepsS R (read_device_capability_info je om get)"
  unfolding read_device_capability_info_def read_required_datastore_value_def
  by (intro keeps_intros assms read_each_keeps)
    (auto simp: read_capability_def read_identity_value_def intro!: keeps_intros assms read_optional_keeps)

context world_relation
begin

lemma default_get_keeps: "keepsS R (sess_get tr path default_get_args)"
  by (rule sess_get_keeps) (simp_all add: default_get_args_def plain_mode)

lemma monotonic_keeps: "keepsS R (monotonic tr)"
  by (rule session.R_clock)

lemma probe_keeps: "keepsS R (probe_loop tr paths)"
proof (induction paths)
  case (Cons path paths)
  show ?case unfolding keepsS_def
  proof
    fix s
    obtain r t where g: "sess_get tr path default_get_args s = (r, t)" by (metis surj_pair)
    then have "R s t" using default_get_keeps by (metis keepsS_def snd_conv)
    moreover have "R t (snd (probe_loop tr paths t))" using Cons by (cases t) (simp add: keepsS_def)
    ultimately have "R s (snd (probe_loop tr paths t))" by (rule transpD[OF R_order(2)])
    then show "R s (snd (probe_loop tr (path # paths) s))" using g by simp
  qed
qed (unfold probe_loop.simps(1), rule keepsS_pure(1)[OF R_order(1)])

lemma smoke_keeps: "keepsS R (smoke_loop tr je compact_text no_body continue_on_error failures paths)"
proof (induction paths arbitrary: failures)
  case (Cons path paths)
  let ?loop = "\<lambda>n. smoke_loop tr je compact_text no_body continue_on_error n paths"
  have read: "keepsS R (smoke_read tr je compact_text no_body path)"
    unfolding smoke_read_def by (intro keeps_intros R_order default_get_keeps monotonic_keeps)
  let ?failed = "bindS (monotonic tr) (\<lambda>_. if \<not> continue_on_error then retS 1 else ?loop (failures + 1))"
  have failed: "keepsS R ?failed"
    by (intro keeps_intros R_order monotonic_keeps Cons)
  have "keepsS R (\<lambda>s. case smoke_read tr je compact_text no_body path s of
      (Inr _, s') \<Rightarrow> ?loop failures s' | (Inl _, s') \<Rightarrow> ?failed s')"
    unfolding keepsS_def
  proof
    fix s
    obtain r t where g: "smoke_read tr je compact_text no_body path s = (r, t)" by (metis surj_pair)
    then have "R s t" using read by (metis keepsS_def snd_conv)
    moreover have "R t (snd (?loop failures t))" using Cons[of failures] by (cases t) (simp add: keepsS_def)
    moreover have "R t (snd (?failed t))" using failed by (cases t) (simp add: keepsS_def)
    ultimately have "R s (snd (?loop failures t))" "R s (snd (?failed t))" using transpD[OF R_order(2)] by blast+
    then show "R s (snd (case smoke_read tr je compact_text no_body path s of
      (Inr _, s') \<Rightarrow> ?loop failures s' | (Inl _, s') \<Rightarrow> ?failed s'))"
      unfolding g by (cases r) simp_all
  qed
  then show ?case unfolding smoke_loop.simps(2) by (rule keepsS_bindS[OF R_order(2) monotonic_keeps])
qed (auto intro: keeps_intros R_order)

end

text \<open>C9: Every command that talks to the device closes what it opened: for any device, any answers and any
  errors, after \<open>get\<close>, \<open>meters\<close>, \<open>info\<close>, \<open>post\<close>, \<open>probe\<close> and \<open>smoke\<close> exactly the files are open that were open before,
  whether the command succeeds or raises.\<close>

theorem commands_release_device:
  assumes "platform_contract pl opened"
  shows "opened (snd (command_get pl je netloc_ok args raw compact_text path etag k)) = opened k \<and>
    opened (snd (command_meters pl je args raw compact_text meter_group etag k)) = opened k \<and>
    opened (snd (command_info pl je om str_value args as_json k)) = opened k \<and>
    opened (snd (command_post pl je netloc_ok args raw compact_text no_validate allow_unknown path body k)) = opened k \<and>
    opened (snd (command_probe pl args k)) = opened k \<and>
    opened (snd (command_smoke pl je netloc_ok args compact_text no_body paths continue_on_error k)) = opened k"
proof -
  let ?E = "\<lambda>k k'. opened k' = opened k"
  have E: "reflp ?E" "transp ?E" by (auto simp: reflp_def transp_def)
  have opn: "keepsS ?E (open_datastore pl c b)" if "\<And>t. keepsS (usb.R pl opened) (b (transport_for pl t))"
    for c and b :: "'a ut transport \<Rightarrow> ('a ut, 'x) sess"
    using open_datastore_files[OF assms, where body = b, OF that] by (simp add: keepsS_def)
  note keep = keeps_intros E opn
  have "keepsS ?E (command_get pl je netloc_ok args raw compact_text path etag)"
    unfolding command_get_def by (intro keep usb.sess_get_keeps) (simp_all add: default_get_args_def usb.plain_mode)
  moreover have "keepsS ?E (command_meters pl je args raw compact_text meter_group etag)"
    unfolding command_meters_def by (intro keep usb.sess_get_keeps) (simp_all add: default_get_args_def usb.plain_mode)
  moreover have "keepsS ?E (command_info pl je om str_value args as_json)"
    unfolding command_info_def by (intro keep read_info_keeps usb.R_order usb.default_get_keeps)
  moreover have "keepsS ?E (command_post pl je netloc_ok args raw compact_text no_validate allow_unknown path body)"
    unfolding command_post_def by (intro keep usb.sess_post_keeps)
  moreover have "keepsS ?E (command_probe pl args)"
    unfolding command_probe_def by (intro keep usb.probe_keeps)
  moreover have "keepsS ?E (command_smoke pl je netloc_ok args compact_text no_body paths continue_on_error)"
    unfolding command_smoke_def by (intro keep usb.smoke_keeps)
  ultimately show ?thesis by (simp add: keepsS_def)
qed

text \<open>A machine whose world is the list of its open files and whose device is unplugged right after discovery.\<close>

definition demo_platform :: "int list platform" where
  "demo_platform =
     \<lparr>pl_fs = demo_fs,
      pl_sys = \<lparr>sys_open = (\<lambda>_ k. (Inr (1 + foldr max k 0), (1 + foldr max k 0) # k)),
        sys_close = (\<lambda>fd k. (Inr (), filter (\<lambda>x. x \<noteq> fd) k)),
        sys_claim = (\<lambda>_ _ k. (Inr (), k)), sys_release = (\<lambda>_ _ k. (Inl (OSError ENODEV), k)),
        sys_bulk_out = (\<lambda>_ _ _ _ k. (Inl (OSError ENODEV), k)), sys_bulk_in = (\<lambda>_ _ _ _ k. (Inl (OSError ENODEV), k))\<rparr>,
      pl_clock = (\<lambda>k. (0, k)), pl_begin_read = (\<lambda>_ _. raiseS RuntimeError), pl_pending_read = (\<lambda>_. raiseS RuntimeError)\<rparr>"

definition demo_config :: datastore_config where
  "demo_config =
     \<lparr>dc_vid = 0x07FD, dc_pid = 5, dc_serial = Some (lit ''S1''), dc_interface = None, dc_ep_out = None, dc_ep_in = None,
      dc_timeout_ms = 600, dc_seq_start = 0x20, dc_message_seq = 2, dc_no_init = False, dc_debug = False,
      dc_sysfs_root = [], dc_devfs_root = []\<rparr>"

lemma demo_platform_contract: "platform_contract demo_platform set"
proof -
  have "x \<le> foldr max k 0" if "x \<in> set k" for x and k :: "int list"
    using that by (induction k) auto
  then have "1 + foldr max k 0 \<notin> set k" for k :: "int list" by (metis add_le_same_cancel2 not_one_le_zero)
  then show ?thesis by (auto simp: platform_contract_def files_contract_def demo_platform_def)
qed

theorem commands_release_device_witness:
  "find_motu_device (pl_fs demo_platform) (find_args_of demo_config) = Inr demo_info \<and>
   set (snd (command_get demo_platform sample_env (\<lambda>_. True) demo_config False False (lit ''/datastore/uid'') (lit ''0'') [5])) = {5}"
proof -
  have "find_args_of demo_config = demo_args" by (simp add: find_args_of_def demo_config_def demo_args_def)
  then have "find_motu_device (pl_fs demo_platform) (find_args_of demo_config) = Inr demo_info"
    using demo_find by (simp add: demo_platform_def)
  then show ?thesis
    using commands_release_device[OF demo_platform_contract, of sample_env "\<lambda>_. True" demo_config False False "lit ''/datastore/uid''" "lit ''0''" "[5]"]
    by (simp del: lit_simps)
qed

section \<open>Writes from the command line\<close>

text \<open>\<open>post\<close> touches the device only for a write that passed every check: if anything outside the program has
  changed, then the path was normalised, the body is a JSON object that can be encoded, and, unless
  \<open>--no-validate\<close> was given, the schema accepts the write.\<close>

lemma post_checked_first:
  assumes "snd (command_post pl je netloc_ok args raw compact_text no_validate allow_unknown path body k) \<noteq> k"
  shows "\<exists>p obj wb. normalize_path netloc_ok path = Inr p \<and> load_json_object (je_load_limit je) body = Inr obj \<and>
    utf8_encode body = Inr wb \<and>
    (no_validate \<or> (\<exists>ws. validate_datastore_write_object netloc_ok allow_unknown p obj = Inr ws)) \<and>
    config_from_args args = Inr args"
proof -
  obtain p wb where c: "check_post netloc_ok (je_load_limit je) no_validate allow_unknown path body = Inr (p, wb)"
    using assms by (cases "check_post netloc_ok (je_load_limit je) no_validate allow_unknown path body")
      (auto simp: command_post_def)
  have "config_from_args args \<noteq> Inl e" for e using assms c by (auto simp: command_post_def)
  then have "config_from_args args = Inr args"
    using config_from_args_same by (cases "config_from_args args") auto
  then show ?thesis using c unfolding check_post_def bindR_Inr_iff by (auto split: if_splits)
qed

section \<open>Exit status\<close>

text \<open>The exceptions that leave \<open>main\<close>: the handlers name \<open>OSError\<close>, \<open>RuntimeError\<close> and \<open>AssertionError\<close> only.\<close>

lemma main_status_escapes:
  assumes "main_status catches_other command s = (Inl e, s')"
  shows "e \<in> {StructError, ValueError, UnicodeEncodeError, UnicodeDecodeError, OtherException}"
proof -
  have "\<not> is_os_error e" "\<not> is_runtime_error e" "e \<noteq> AssertionError"
    using assms by (auto simp: main_status_def onErrorS_def split: prod.splits sum.splits if_splits)
  then show ?thesis by (cases e) (simp_all add: is_os_error_def is_runtime_error_def)
qed

text \<open>A lone surrogate in the body (what an argument that is not UTF-8 becomes) passes the JSON checks and leaves \<open>main\<close> as \<open>UnicodeEncodeError\<close>.\<close>

lemma surrogate_body_escapes:
  assumes "normalize_path netloc_ok path = Inr p" "load_json_object (je_load_limit je) body = Inr obj" "utf8_encode body = Inl UnicodeEncodeError"
  shows "main_status b (bindS (command_post pl je netloc_ok args raw compact_text no_validate allow_unknown path body) (\<lambda>_. retS 0)) k =
    (Inl UnicodeEncodeError, k)"
  using assms by (simp add: main_status_def onErrorS_def command_post_def check_post_def bindS_def is_os_error_def is_runtime_error_def)

text \<open>\<open>smoke\<close> exits with 0 only when every read succeeded.\<close>

lemma smoke_loop_failures:
  "smoke_loop tr je compact_text no_body continue_on_error failures paths s = (Inr 0, s') \<Longrightarrow> failures = 0"
proof (induction paths arbitrary: failures s)
  case (Cons path paths)
  obtain d w where s: "s = (d, w)" by fastforce
  obtain now w1 where m: "tr_monotonic tr w = (now, w1)" by fastforce
  obtain r t where g: "smoke_read tr je compact_text no_body path (d, w1) = (r, t)" by (metis surj_pair)
  obtain d2 w2 where t: "t = (d2, w2)" by fastforce
  obtain now2 w3 where m2: "tr_monotonic tr w2 = (now2, w3)" by fastforce
  show ?case
    using Cons.prems Cons.IH[of failures t] Cons.IH[of "failures + 1" "(d2, w3)"]
    by (cases r) (auto simp: s m g t m2 bindS_def monotonic_def split: if_splits)
qed (auto split: if_splits)

lemma smoke_reads_all:
  assumes "smoke_loop tr je compact_text no_body continue_on_error 0 paths s = (Inr 0, s')"
  shows "list_all (\<lambda>path. \<exists>t t'. smoke_read tr je compact_text no_body path t = (Inr (), t')) paths"
  using assms
proof (induction paths arbitrary: s)
  case (Cons path paths)
  obtain d w where s: "s = (d, w)" by fastforce
  obtain now w1 where m: "tr_monotonic tr w = (now, w1)" by fastforce
  obtain r t where g: "smoke_read tr je compact_text no_body path (d, w1) = (r, t)" by (metis surj_pair)
  obtain d2 w2 where t: "t = (d2, w2)" by fastforce
  obtain now2 w3 where m2: "tr_monotonic tr w2 = (now2, w3)" by fastforce
  have "r = Inr () \<and> smoke_loop tr je compact_text no_body continue_on_error 0 paths t = (Inr 0, s')"
    using Cons.prems smoke_loop_failures[of tr je compact_text no_body continue_on_error 1 paths "(d2, w3)" s']
    by (cases r) (auto simp: s m g t m2 bindS_def monotonic_def split: if_splits)
  then show ?case using Cons.IH[of t] g by (auto simp: t)
qed simp

end
