(* ===== verification/Motu_Serve.thy ===== *)
theory Motu_Serve
  imports Motu_Cli
begin

text \<open>
  The server command of \<^verbatim>\<open>motu_proxy/cli.py\<close> and \<open>serve\<close> of \<^verbatim>\<open>motu_proxy/http_server.py\<close>: the write token and its file, the safety
  check of the listening address, what is printed, and the order in which everything is closed. Files, threads and the
  socket are operations on a world of any type.
\<close>

section \<open>The write token\<close>

datatype file_kind = RegularFile | SymbolicLink | OtherFile

text \<open>
  File operations of the token code. \<open>fo_open\<close> creates or truncates with mode \<open>0o600\<close> and refuses a symbolic
  link; \<open>fo_token\<close> is \<open>secrets.token_urlsafe(32)\<close>.
\<close>

record 's file_ops =
  fo_token :: "('s, pystr) sop"
  fo_mkdir_parents :: "path \<Rightarrow> ('s, unit) sop"
  fo_lstat :: "path \<Rightarrow> ('s, file_kind) sop"
  fo_open :: "path \<Rightarrow> ('s, nat) sop"
  fo_fchmod :: "nat \<Rightarrow> nat \<Rightarrow> ('s, unit) sop"
  fo_write :: "nat \<Rightarrow> pystr \<Rightarrow> ('s, unit) sop"
  fo_close :: "nat \<Rightarrow> ('s, unit) sop"
  fo_read_text :: "path \<Rightarrow> ('s, pystr) sop"
  fo_unlink :: "path \<Rightarrow> ('s, unit) sop"

text \<open>The mode \<open>0o600\<close>.\<close>

definition OWNER_ONLY :: nat where "OWNER_ONLY = 6 * 64"

definition write_token_file :: "'s file_ops \<Rightarrow> path \<Rightarrow> pystr \<Rightarrow> ('s, unit) sop" where
  "write_token_file fo path token =
     bindS (fo_mkdir_parents fo (butlast path)) (\<lambda>_.
     bindS (onErrorS
         (bindS (fo_lstat fo path) (\<lambda>kind. if kind = SymbolicLink then raiseS RuntimeError else retS ()))
         (\<lambda>e. if file_not_found e then retS () else raiseS e)) (\<lambda>_.
     bindS (fo_open fo path) (\<lambda>fd.
     finallyS
       (bindS (fo_fchmod fo fd OWNER_ONLY) (\<lambda>_. bindS (fo_write fo fd token) (\<lambda>_. fo_write fo fd [10])))
       (fo_close fo fd))))"

definition prepare_write_token :: "'s file_ops \<Rightarrow> path option \<Rightarrow> ('s, pystr \<times> path option) sop" where
  "prepare_write_token fo token_file =
     bindS (fo_token fo) (\<lambda>token.
     case token_file of
       None \<Rightarrow> retS (token, None)
     | Some path \<Rightarrow> bindS (write_token_file fo path token) (\<lambda>_. retS (token, Some path)))"

definition remove_write_token_file :: "'s file_ops \<Rightarrow> path option \<Rightarrow> pystr option \<Rightarrow> ('s, unit) sop" where
  "remove_write_token_file fo token_file token =
     (case (token_file, token) of
        (Some path, Some tok) \<Rightarrow>
          onErrorS
            (bindS (fo_lstat fo path) (\<lambda>kind.
             if kind \<noteq> RegularFile then retS ()
             else bindS (fo_read_text fo path) (\<lambda>content.
               if content \<noteq> tok @ [10] then retS () else fo_unlink fo path)))
            (\<lambda>e. if is_os_error e \<or> e = UnicodeDecodeError then retS () else raiseS e)
      | _ \<Rightarrow> retS ())"

section \<open>The server command\<close>

definition is_loopback_listen_address :: "py_env \<Rightarrow> pystr \<Rightarrow> bool" where
  "is_loopback_listen_address env address =
     (if address = lit ''localhost'' then True
      else case ip_is_loopback env address of None \<Rightarrow> False | Some b \<Rightarrow> b)"

definition validate_serve_write_safety :: "py_env \<Rightarrow> pystr \<Rightarrow> bool \<Rightarrow> bool \<Rightarrow> unit result" where
  "validate_serve_write_safety env listen allow unsafe_allow_remote_writes =
     (if allow \<and> \<not> unsafe_allow_remote_writes \<and> \<not> is_loopback_listen_address env listen
      then Inl RuntimeError else Inr ())"

record serve_args =
  sa_usb :: datastore_config
  sa_listen :: pystr
  sa_port :: int
  sa_allow_writes :: bool
  sa_require_write_token :: bool
  sa_write_token_file :: "path option"
  sa_unsafe_allow_remote_writes :: bool
  sa_max_write_body_bytes :: int
  sa_no_validate :: bool
  sa_allow_unknown_writes :: bool

text \<open>
  Starting and closing the coordinator, closing the managed datastore, binding the socket of a
  \<open>MotuProxyServer\<close>, its address, \<open>serve_forever\<close> (which an interrupt from the keyboard ends normally),
  \<open>server_close\<close>, printing a line, and the text of a path, as operations on the world.
\<close>

record 's serve_ops =
  so_files :: "'s file_ops"
  so_start :: "datastore_config \<Rightarrow> ('s, unit) sop"
  so_close_coordinator :: "('s, unit) sop"
  so_close_datastore :: "('s, unit) sop"
  so_bind :: "pystr \<Rightarrow> int \<Rightarrow> server \<Rightarrow> ('s, unit) sop"
  so_server_address :: "'s \<Rightarrow> pystr \<times> int"
  so_serve_forever :: "server \<Rightarrow> ('s, unit) sop"
  so_server_close :: "('s, unit) sop"
  so_print :: "pystr \<Rightarrow> ('s, unit) sop"
  so_path_text :: "path \<Rightarrow> pystr"

definition server_of :: "serve_args \<Rightarrow> pystr option \<Rightarrow> server" where
  "server_of sa token =
     \<lparr>sv_dispatcher =
        \<lparr>allow_writes = sa_allow_writes sa, write_token = token,
         allow_remote_writes = sa_unsafe_allow_remote_writes sa, validate_writes = \<not> sa_no_validate sa,
         allow_unknown_writes = sa_allow_unknown_writes sa\<rparr>,
      sv_debug = dc_debug (sa_usb sa), sv_max_write_body_bytes = sa_max_write_body_bytes sa,
      sv_write_body_read_timeout_s = Some 5\<rparr>"

text \<open>What \<open>serve\<close> prints before it serves.\<close>

definition token_lines :: "server \<Rightarrow> pystr option \<Rightarrow> pystr list" where
  "token_lines sv token_file =
     (case write_token (sv_dispatcher sv) of
        None \<Rightarrow> [lit ''write token: disabled (use --require-write-token to require one)'']
      | Some token \<Rightarrow>
          [if sv_debug sv \<or> token_file = None \<or> token_file = Some [] then lit ''write token: '' @ token
           else lit ''write token: stored in token file (use --debug to print)''] @
          [lit ''write token header: '' @ WRITE_TOKEN_HEADER @ lit '' or Authorization: Bearer''] @
          (case token_file of Some t \<Rightarrow> if t \<noteq> [] then [lit ''write token file: '' @ t] else [] | None \<Rightarrow> []))"

definition warning_lines :: "server \<Rightarrow> pystr list" where
  "warning_lines sv =
     (let d = sv_dispatcher sv in
      (if allow_remote_writes d
       then [if write_token d = None then lit ''WARNING: remote HTTP writes are enabled without token protection''
             else lit ''WARNING: remote HTTP writes are enabled; keep the token secret'']
       else []) @
      (if \<not> validate_writes d then [lit ''WARNING: datastore write validation is disabled'']
       else if allow_unknown_writes d then [lit ''WARNING: unknown datastore write paths are allowed'']
       else []))"

definition serve_lines :: "pystr \<times> int \<Rightarrow> server \<Rightarrow> pystr option \<Rightarrow> pystr list" where
  "serve_lines address sv token_file =
     [lit ''listening on http://'' @ fst address @ lit '':'' @ str_int (snd address) @ lit '' writes='' @
      (if allow_writes (sv_dispatcher sv) then lit ''on'' else lit ''off'')] @
     (if allow_writes (sv_dispatcher sv) then token_lines sv token_file @ warning_lines sv else [])"

fun print_lines :: "'s serve_ops \<Rightarrow> pystr list \<Rightarrow> ('s, unit) sop" where
  "print_lines so [] = retS ()"
| "print_lines so (l # ls) = bindS (so_print so l) (\<lambda>_. print_lines so ls)"

definition serve :: "'s serve_ops \<Rightarrow> server \<Rightarrow> pystr option \<Rightarrow> ('s, int) sop" where
  "serve so sv token_file = (\<lambda>s.
     bindS (print_lines so (serve_lines (so_server_address so s) sv token_file)) (\<lambda>_.
     bindS (finallyS (so_serve_forever so sv) (bindS (so_close_coordinator so) (\<lambda>_. so_server_close so))) (\<lambda>_.
     retS 0)) s)"

definition serve_cleanup :: "'s serve_ops \<Rightarrow> path option \<Rightarrow> pystr option \<Rightarrow> ('s, unit) sop" where
  "serve_cleanup so token_file token =
     bindS (so_close_coordinator so) (\<lambda>_.
     bindS (so_close_datastore so) (\<lambda>_.
     remove_write_token_file (so_files so) token_file token))"

text \<open>The token, when one is required, and the file it was written to.\<close>

definition serve_token :: "'s file_ops \<Rightarrow> serve_args \<Rightarrow> ('s, pystr option \<times> path option) sop" where
  "serve_token fo sa =
     (if sa_allow_writes sa \<and> sa_require_write_token sa
      then bindS (prepare_write_token fo (sa_write_token_file sa)) (\<lambda>(t, f). retS (Some t, f))
      else retS (None, None))"

definition command_serve :: "py_env \<Rightarrow> 's serve_ops \<Rightarrow> serve_args \<Rightarrow> ('s, int) sop" where
  "command_serve env so sa =
     bindS (liftR (config_from_args (sa_usb sa))) (\<lambda>c.
     bindS (liftR (validate_serve_write_safety env (sa_listen sa) (sa_allow_writes sa) (sa_unsafe_allow_remote_writes sa))) (\<lambda>_.
     bindS (so_start so c) (\<lambda>_ s.
     case serve_token (so_files so) sa s of
       (Inl e, s') \<Rightarrow> finallyS (raiseS e) (serve_cleanup so None None) s'
     | (Inr (token, token_file), s') \<Rightarrow>
         finallyS
           (bindS (so_bind so (sa_listen sa) (sa_port sa) (server_of sa token)) (\<lambda>_.
            serve so (server_of sa token) (map_option (so_path_text so) token_file)))
           (serve_cleanup so token_file token) s')))"

section \<open>The token file\<close>

text \<open>
  What the token code relies on. \<open>view\<close> gives the files that are no directories, \<open>fd_path\<close> the path a descriptor was
  opened with. \<open>open\<close> with \<open>O_CREAT\<close>, \<open>O_TRUNC\<close> and \<open>O_NOFOLLOW\<close> refuses symbolic links, and leaves the mode of a
  file that exists.
\<close>

record token_file =
  tf_kind :: file_kind
  tf_content :: pystr
  tf_mode :: nat

text \<open>How \<open>Path.read_text\<close> translates the ends of lines: CR LF and a single CR become LF.\<close>

fun universal_newlines :: "pystr \<Rightarrow> pystr" where
  "universal_newlines [] = []"
| "universal_newlines (c # cs) =
     (if c = 13 then 10 # universal_newlines (if cs \<noteq> [] \<and> hd cs = 10 then tl cs else cs) else c # universal_newlines cs)"

lemma universal_newlines_id: "13 \<notin> set t \<Longrightarrow> universal_newlines t = t"
  by (induction t) auto

definition same_store :: "('s \<Rightarrow> path \<rightharpoonup> token_file) \<Rightarrow> ('s \<Rightarrow> nat \<rightharpoonup> path) \<Rightarrow> 's \<Rightarrow> 's \<Rightarrow> bool" where
  "same_store view fd_path s s' \<longleftrightarrow> view s' = view s \<and> fd_path s' = fd_path s"

definition opened_file :: "token_file option \<Rightarrow> token_file" where
  "opened_file f =
     (case f of
        None \<Rightarrow> \<lparr>tf_kind = RegularFile, tf_content = [], tf_mode = OWNER_ONLY\<rparr>
      | Some g \<Rightarrow> g\<lparr>tf_content := []\<rparr>)"

definition file_contract :: "'s file_ops \<Rightarrow> ('s \<Rightarrow> path \<rightharpoonup> token_file) \<Rightarrow> ('s \<Rightarrow> nat \<rightharpoonup> path) \<Rightarrow> bool" where
  "file_contract fo view fd_path \<longleftrightarrow>
     (\<forall>p s r s'. fo_mkdir_parents fo p s = (r, s') \<longrightarrow> same_store view fd_path s s') \<and>
     (\<forall>p s r s'. fo_lstat fo p s = (r, s') \<longrightarrow> same_store view fd_path s s') \<and>
     (\<forall>p s k s' f. fo_lstat fo p s = (Inr k, s') \<longrightarrow> view s p = Some f \<longrightarrow> tf_kind f = k) \<and>
     (\<forall>p s k s'. fo_lstat fo p s = (Inr k, s') \<longrightarrow> k \<noteq> OtherFile \<longrightarrow> view s p \<noteq> None) \<and>
     (\<forall>p s e s'. fo_lstat fo p s = (Inl e, s') \<longrightarrow> file_not_found e \<longrightarrow> view s p = None) \<and>
     (\<forall>p s s' e. fo_open fo p s = (Inl e, s') \<longrightarrow> same_store view fd_path s s') \<and>
     (\<forall>p s s' fd. fo_open fo p s = (Inr fd, s') \<longrightarrow>
        view s' = (view s)(p \<mapsto> opened_file (view s p)) \<and> fd_path s' = (fd_path s)(fd \<mapsto> p) \<and>
        tf_kind (opened_file (view s p)) \<noteq> SymbolicLink) \<and>
     (\<forall>fd m s s' p f. fo_fchmod fo fd m s = (Inr (), s') \<longrightarrow> fd_path s fd = Some p \<longrightarrow> view s p = Some f \<longrightarrow>
        view s' = (view s)(p \<mapsto> f\<lparr>tf_mode := m\<rparr>) \<and> fd_path s' = fd_path s) \<and>
     (\<forall>fd t s s' p f. fo_write fo fd t s = (Inr (), s') \<longrightarrow> fd_path s fd = Some p \<longrightarrow> view s p = Some f \<longrightarrow>
        view s' = (view s)(p \<mapsto> f\<lparr>tf_content := tf_content f @ t\<rparr>) \<and> fd_path s' = fd_path s) \<and>
     (\<forall>fd s r s'. fo_close fo fd s = (r, s') \<longrightarrow> view s' = view s) \<and>
     (\<forall>p s r s'. fo_read_text fo p s = (r, s') \<longrightarrow> same_store view fd_path s s') \<and>
     (\<forall>p s t s' f. fo_read_text fo p s = (Inr t, s') \<longrightarrow> view s p = Some f \<longrightarrow> universal_newlines (tf_content f) = t) \<and>
     (\<forall>p s s' e. fo_unlink fo p s = (Inl e, s') \<longrightarrow> same_store view fd_path s s') \<and>
     (\<forall>p s s'. fo_unlink fo p s = (Inr (), s') \<longrightarrow> view s' = (view s)(p := None))"

text \<open>The laws one by one.\<close>

lemmas file_contract_iff = file_contract_def[THEN iffD1]
lemmas store_mkdir = file_contract_iff[THEN conjunct1, rule_format]
lemmas store_lstat = file_contract_iff[THEN conjunct2, THEN conjunct1, rule_format]
lemmas store_lstat_kind = file_contract_iff[THEN conjunct2, THEN conjunct2, THEN conjunct1, rule_format]
lemmas store_lstat_some = file_contract_iff[THEN conjunct2, THEN conjunct2, THEN conjunct2, THEN conjunct1, rule_format]
lemmas store_lstat_none = file_contract_iff[THEN conjunct2, THEN conjunct2, THEN conjunct2, THEN conjunct2, THEN conjunct1, rule_format]
lemmas store_open_fails = file_contract_iff[THEN conjunct2, THEN conjunct2, THEN conjunct2, THEN conjunct2, THEN conjunct2, THEN conjunct1, rule_format]
lemmas store_open = file_contract_iff[THEN conjunct2, THEN conjunct2, THEN conjunct2, THEN conjunct2, THEN conjunct2, THEN conjunct2, THEN conjunct1, rule_format]
lemmas store_fchmod = file_contract_iff[THEN conjunct2, THEN conjunct2, THEN conjunct2, THEN conjunct2, THEN conjunct2, THEN conjunct2, THEN conjunct2, THEN conjunct1, rule_format]
lemmas store_write = file_contract_iff[THEN conjunct2, THEN conjunct2, THEN conjunct2, THEN conjunct2, THEN conjunct2, THEN conjunct2, THEN conjunct2, THEN conjunct2, THEN conjunct1, rule_format]
lemmas store_close = file_contract_iff[THEN conjunct2, THEN conjunct2, THEN conjunct2, THEN conjunct2, THEN conjunct2, THEN conjunct2, THEN conjunct2, THEN conjunct2, THEN conjunct2, THEN conjunct1, rule_format]
lemmas store_read_text = file_contract_iff[THEN conjunct2, THEN conjunct2, THEN conjunct2, THEN conjunct2, THEN conjunct2, THEN conjunct2, THEN conjunct2, THEN conjunct2, THEN conjunct2, THEN conjunct2, THEN conjunct1, rule_format]
lemmas store_read_content = file_contract_iff[THEN conjunct2, THEN conjunct2, THEN conjunct2, THEN conjunct2, THEN conjunct2, THEN conjunct2, THEN conjunct2, THEN conjunct2, THEN conjunct2, THEN conjunct2, THEN conjunct2, THEN conjunct1, rule_format]
lemmas store_unlink_fails = file_contract_iff[THEN conjunct2, THEN conjunct2, THEN conjunct2, THEN conjunct2, THEN conjunct2, THEN conjunct2, THEN conjunct2, THEN conjunct2, THEN conjunct2, THEN conjunct2, THEN conjunct2, THEN conjunct2, THEN conjunct1, rule_format]
lemmas store_unlink = file_contract_iff[THEN conjunct2, THEN conjunct2, THEN conjunct2, THEN conjunct2, THEN conjunct2, THEN conjunct2, THEN conjunct2, THEN conjunct2, THEN conjunct2, THEN conjunct2, THEN conjunct2, THEN conjunct2, THEN conjunct2, rule_format]

lemma write_token_file_steps:
  assumes "write_token_file fo path token s = (Inr (), s')"
  obtains u s1 s2 fd s3 s4 s5 s6 where "fo_mkdir_parents fo (butlast path) s = (Inr u, s1)"
    "\<exists>r. fo_lstat fo path s1 = (r, s2)"
    "fo_open fo path s2 = (Inr fd, s3)" "fo_fchmod fo fd OWNER_ONLY s3 = (Inr (), s4)" "fo_write fo fd token s4 = (Inr (), s5)"
    "fo_write fo fd [10] s5 = (Inr (), s6)" "fo_close fo fd s6 = (Inr (), s')"
proof -
  obtain u s1 v s2 fd s3 where m: "fo_mkdir_parents fo (butlast path) s = (Inr u, s1)"
    and l: "onErrorS (bindS (fo_lstat fo path) (\<lambda>kind. if kind = SymbolicLink then raiseS RuntimeError else retS ()))
         (\<lambda>e. if file_not_found e then retS () else raiseS e) s1 = (Inr v, s2)"
    and o: "fo_open fo path s2 = (Inr fd, s3)"
    and f: "finallyS (bindS (fo_fchmod fo fd OWNER_ONLY) (\<lambda>_. bindS (fo_write fo fd token) (\<lambda>_. fo_write fo fd [10])))
      (fo_close fo fd) s3 = (Inr (), s')"
    using assms unfolding write_token_file_def bindS_Inr_iff by blast
  obtain s6 where w: "bindS (fo_fchmod fo fd OWNER_ONLY) (\<lambda>_. bindS (fo_write fo fd token) (\<lambda>_. fo_write fo fd [10])) s3 = (Inr (), s6)"
    and c: "fo_close fo fd s6 = (Inr (), s')"
    using f by (auto simp: finallyS_def split: prod.splits sum.splits)
  obtain s4 s5 where w': "fo_fchmod fo fd OWNER_ONLY s3 = (Inr (), s4)" "fo_write fo fd token s4 = (Inr (), s5)"
    "fo_write fo fd [10] s5 = (Inr (), s6)" using w unfolding bindS_Inr_iff by auto
  have "\<exists>r. fo_lstat fo path s1 = (r, s2)"
    using l by (cases "fo_lstat fo path s1"; cases "fst (fo_lstat fo path s1)")
      (auto simp: onErrorS_def bindS_def split: if_splits)
  then show ?thesis using that[OF m _ o w' c] by blast
qed

lemma remove_token_file_store:
  assumes fc: "file_contract fo view fd_path" and "remove_write_token_file fo (Some path) (Some token) s = (r, s')"
  shows "view s' = view s \<or>
    (\<exists>f. view s path = Some f \<and> tf_kind f = RegularFile \<and> universal_newlines (tf_content f) = token @ [10] \<and>
       (13 \<notin> set (tf_content f) \<longrightarrow> tf_content f = token @ [10])) \<and> view s' = (view s)(path := None)"
proof -
  obtain r1 s1 where l: "fo_lstat fo path s = (r1, s1)" by fastforce
  obtain r2 s2 where t: "fo_read_text fo path s1 = (r2, s2)" by fastforce
  obtain r3 s3 where u: "fo_unlink fo path s2 = (r3, s3)" by fastforce
  have v: "view s1 = view s" "view s2 = view s"
    using store_lstat[OF fc l] store_read_text[OF fc t] by (simp_all add: same_store_def)
  note out = assms(2)[unfolded remove_write_token_file_def onErrorS_def bindS_def]
  show ?thesis
  proof (cases "r1 = Inr RegularFile \<and> r2 = Inr (token @ [10])")
    case True
    obtain f where f: "view s path = Some f" using store_lstat_some[OF fc, of path s RegularFile s1] l True by auto
    have "tf_kind f = RegularFile" using store_lstat_kind[OF fc _ f, of RegularFile s1] l True by simp
    moreover have "universal_newlines (tf_content f) = token @ [10]"
      using store_read_content[OF fc, of path s1 "token @ [10]" s2 f] t True v(1) f by simp
    moreover have "s' = s3" using out l t u True by (cases r3) (auto split: if_splits)
    moreover have "view s3 = view s \<or> view s3 = (view s)(path := None)"
      using store_unlink[OF fc, of path s2 s3] store_unlink_fails[OF fc, of path s2 _ s3] u v by (cases r3) (auto simp: same_store_def)
    ultimately show ?thesis using f universal_newlines_id[of "tf_content f"] by auto
  next
    case False
    then have "s' = s1 \<or> s' = s2" using out l t by (cases r1; cases r2) (auto split: if_splits)
    then show ?thesis using v by auto
  qed
qed

lemma write_token_file_link:
  assumes fc: "file_contract fo view fd_path" and "view s path = Some f" "tf_kind f = SymbolicLink"
  shows "\<exists>e s'. write_token_file fo path token s = (Inl e, s') \<and> view s' = view s"
proof -
  obtain r1 s1 where m: "fo_mkdir_parents fo (butlast path) s = (r1, s1)" by fastforce
  obtain r2 s2 where l: "fo_lstat fo path s1 = (r2, s2)" by fastforce
  have v: "view s1 = view s" "view s2 = view s"
    using store_mkdir[OF fc m] store_lstat[OF fc l] by (simp_all add: same_store_def)
  have "view s1 path = Some f" using v assms(2) by simp
  then have k: "r2 = Inr kind \<Longrightarrow> kind = SymbolicLink" "r2 = Inl e \<Longrightarrow> \<not> file_not_found e" for kind e
    using store_lstat_kind[OF fc] store_lstat_none[OF fc] l assms(3) by fastforce+
  have "\<exists>e. onErrorS (bindS (fo_lstat fo path) (\<lambda>kind. if kind = SymbolicLink then raiseS RuntimeError else retS ()))
         (\<lambda>e. if file_not_found e then retS () else raiseS e) s1 = (Inl e, s2)"
    using k l by (cases r2) (auto simp: onErrorS_def bindS_def file_not_found_def)
  then obtain e where o: "onErrorS (bindS (fo_lstat fo path) (\<lambda>kind. if kind = SymbolicLink then raiseS RuntimeError else retS ()))
         (\<lambda>e. if file_not_found e then retS () else raiseS e) s1 = (Inl e, s2)" by blast
  show ?thesis
  proof (cases r1)
    case (Inl e1)
    then show ?thesis using m v by (simp add: write_token_file_def bindS_apply)
  next
    case (Inr u)
    then show ?thesis using m v o by (simp add: write_token_file_def bindS_apply)
  qed
qed

text \<open>C35: The token file is private and holds exactly the token: when \<open>write_token_file\<close> succeeds, the file has the
  token and a line feed, mode \<open>0o600\<close> whatever its mode was before, and no other file has changed; a symbolic
  link in its place is refused and nothing is written. Removing the token file later deletes nothing but that file, and
  only while it is a regular file that reads as that token and a line feed (it holds just these unless a carriage
  return ends the line); removal never raises an \<open>OSError\<close>.\<close>

theorem token_file_private:
  assumes "file_contract fo view fd_path"
  shows "(\<forall>s'. write_token_file fo path token s = (Inr (), s') \<longrightarrow>
        (\<exists>k. k \<noteq> SymbolicLink \<and> view s' = (view s)(path \<mapsto> \<lparr>tf_kind = k, tf_content = token @ [10], tf_mode = OWNER_ONLY\<rparr>))) \<and>
    ((\<exists>f. view s path = Some f \<and> tf_kind f = SymbolicLink) \<longrightarrow>
        (\<exists>e s'. write_token_file fo path token s = (Inl e, s') \<and> view s' = view s)) \<and>
    (\<forall>s'. remove_write_token_file fo (Some path) (Some token) s = (Inr (), s') \<longrightarrow>
        view s' = view s \<or>
        (\<exists>f. view s path = Some f \<and> tf_kind f = RegularFile \<and> universal_newlines (tf_content f) = token @ [10] \<and>
           (13 \<notin> set (tf_content f) \<longrightarrow> tf_content f = token @ [10])) \<and> view s' = (view s)(path := None)) \<and>
    (\<forall>e s'. remove_write_token_file fo (Some path) (Some token) s = (Inl e, s') \<longrightarrow> \<not> is_os_error e)"
proof (intro conjI allI impI)
  fix s' assume "write_token_file fo path token s = (Inr (), s')"
  then obtain u s1 s2 fd s3 s4 s5 s6 where w: "fo_mkdir_parents fo (butlast path) s = (Inr u, s1)"
    "\<exists>r. fo_lstat fo path s1 = (r, s2)"
    "fo_open fo path s2 = (Inr fd, s3)" "fo_fchmod fo fd OWNER_ONLY s3 = (Inr (), s4)" "fo_write fo fd token s4 = (Inr (), s5)"
    "fo_write fo fd [10] s5 = (Inr (), s6)" "fo_close fo fd s6 = (Inr (), s')"
    by (rule write_token_file_steps)
  have v2: "view s2 = view s" using store_mkdir[OF assms w(1)] store_lstat[OF assms] w(2) by (auto simp: same_store_def)
  define f where "f = opened_file (view s path)"
  have 3: "view s3 = (view s)(path \<mapsto> f)" "fd_path s3 fd = Some path" "tf_kind f \<noteq> SymbolicLink" "tf_content f = []"
    using store_open[OF assms w(3)] by (auto simp: v2 f_def opened_file_def split: option.splits)
  have 4: "view s4 = (view s)(path \<mapsto> f\<lparr>tf_mode := OWNER_ONLY\<rparr>)" "fd_path s4 fd = Some path"
    using store_fchmod[OF assms w(4) 3(2), of f] 3 by auto
  have 5: "view s5 = (view s)(path \<mapsto> f\<lparr>tf_mode := OWNER_ONLY, tf_content := token\<rparr>)" "fd_path s5 fd = Some path"
    using store_write[OF assms w(5) 4(2)] 3(4) 4(2) by (auto simp: 4(1))
  have "view s6 = (view s)(path \<mapsto> f\<lparr>tf_mode := OWNER_ONLY, tf_content := token @ [10]\<rparr>)"
    using store_write[OF assms w(6) 5(2)] by (auto simp: 5(1))
  then have "view s' = (view s)(path \<mapsto> \<lparr>tf_kind = tf_kind f, tf_content = token @ [10], tf_mode = OWNER_ONLY\<rparr>)"
    using store_close[OF assms w(7)] by (cases f) auto
  then show "\<exists>k. k \<noteq> SymbolicLink \<and> view s' = (view s)(path \<mapsto> \<lparr>tf_kind = k, tf_content = token @ [10], tf_mode = OWNER_ONLY\<rparr>)"
    using 3(3) by blast
next
  assume "\<exists>f. view s path = Some f \<and> tf_kind f = SymbolicLink"
  then show "\<exists>e s'. write_token_file fo path token s = (Inl e, s') \<and> view s' = view s"
    using write_token_file_link[OF assms] by blast
next
  fix s' assume "remove_write_token_file fo (Some path) (Some token) s = (Inr (), s')"
  then show "view s' = view s \<or>
        (\<exists>f. view s path = Some f \<and> tf_kind f = RegularFile \<and> universal_newlines (tf_content f) = token @ [10] \<and>
           (13 \<notin> set (tf_content f) \<longrightarrow> tf_content f = token @ [10])) \<and> view s' = (view s)(path := None)"
    by (rule remove_token_file_store[OF assms])
next
  fix e s' assume "remove_write_token_file fo (Some path) (Some token) s = (Inl e, s')"
  then show "\<not> is_os_error e"
    by (auto simp: remove_write_token_file_def onErrorS_def split: prod.splits sum.splits if_splits)
qed

text \<open>A file store that keeps the laws.\<close>

definition demo_store :: "((path \<rightharpoonup> token_file) \<times> (nat \<rightharpoonup> path)) file_ops" where
  "demo_store =
     \<lparr>fo_token = retS (lit ''token''), fo_mkdir_parents = (\<lambda>_. retS ()),
      fo_lstat = (\<lambda>p s. (case fst s p of None \<Rightarrow> Inl (OSError ENOENT) | Some f \<Rightarrow> Inr (tf_kind f), s)),
      fo_open = (\<lambda>p s. if tf_kind (opened_file (fst s p)) = SymbolicLink then (Inl (OSError 40), s)
                        else (Inr 3, ((fst s)(p \<mapsto> opened_file (fst s p)), (snd s)(3 \<mapsto> p)))),
      fo_fchmod = (\<lambda>fd m s. case Option.bind (snd s fd) (\<lambda>p. map_option (Pair p) (fst s p)) of
          None \<Rightarrow> (Inl (OSError 9), s) | Some (p, f) \<Rightarrow> (Inr (), ((fst s)(p \<mapsto> f\<lparr>tf_mode := m\<rparr>), snd s))),
      fo_write = (\<lambda>fd t s. case Option.bind (snd s fd) (\<lambda>p. map_option (Pair p) (fst s p)) of
          None \<Rightarrow> (Inl (OSError 9), s) | Some (p, f) \<Rightarrow> (Inr (), ((fst s)(p \<mapsto> f\<lparr>tf_content := tf_content f @ t\<rparr>), snd s))),
      fo_close = (\<lambda>_. retS ()),
      fo_read_text = (\<lambda>p s. (case fst s p of None \<Rightarrow> Inl (OSError ENOENT) | Some f \<Rightarrow> Inr (universal_newlines (tf_content f)), s)),
      fo_unlink = (\<lambda>p s. (Inr (), ((fst s)(p := None), snd s)))\<rparr>"

lemma demo_store_contract: "file_contract demo_store fst snd"
  unfolding file_contract_def
  by (intro conjI allI impI)
    (auto simp: demo_store_def same_store_def file_not_found_def split: option.splits if_splits prod.splits)

theorem token_file_private_witness:
  "\<exists>k. k \<noteq> SymbolicLink \<and>
     fst (snd (write_token_file demo_store [lit ''run'', lit ''token''] (lit ''abc'') ((\<lambda>_. None), (\<lambda>_. None)))) =
       [[lit ''run'', lit ''token''] \<mapsto> \<lparr>tf_kind = k, tf_content = lit ''abc'' @ [10], tf_mode = OWNER_ONLY\<rparr>]"
proof -
  let ?w = "write_token_file demo_store [lit ''run'', lit ''token''] (lit ''abc'') ((\<lambda>_. None), (\<lambda>_. None))"
  have "fst ?w = Inr ()"
    by (simp add: write_token_file_def demo_store_def bindS_def onErrorS_def finallyS_def opened_file_def file_not_found_def ENOENT_def
        del: lit_simps)
  then obtain s' where "?w = (Inr (), s')" by (metis prod.collapse)
  then show ?thesis
    using token_file_private[OF demo_store_contract, of "[lit ''run'', lit ''token'']" "lit ''abc''" "((\<lambda>_. None), (\<lambda>_. None))"]
    by (simp del: lit_simps)
qed

section \<open>What is printed of the token\<close>

text \<open>The write token is not printed when it is in its file: without \<open>--debug\<close>, and with a token file, the lines that
  \<open>serve\<close> prints are the same whatever the token is.\<close>

lemma token_not_printed:
  assumes "sv_debug sv = False" "token_file = Some t" "t \<noteq> []"
  shows "serve_lines address (sv\<lparr>sv_dispatcher := (sv_dispatcher sv)\<lparr>write_token := Some token\<rparr>\<rparr>) token_file =
    serve_lines address (sv\<lparr>sv_dispatcher := (sv_dispatcher sv)\<lparr>write_token := Some token'\<rparr>\<rparr>) token_file"
  using assms by (simp add: serve_lines_def token_lines_def warning_lines_def Let_def)

end
