(* ===== verification/Motu_Stack.thy ===== *)
theory Motu_Stack
  imports Motu_Cli Motu_Managed
begin

text \<open>
  The managed datastore on real sessions: \<open>ManagedDatastore\<close> of \<^verbatim>\<open>motu_proxy/datastore.py\<close> with
  \<open>open_datastore\<close> as its opener, \<open>MotuUsbDatastore\<close> as its session and \<open>UsbFsTransport\<close> below, as \<open>serve\<close>
  composes them. A contract of the opener (\<open>session_provider\<close>) lifts what a session keeps to every run of the datastore.
\<close>

section \<open>Sessions as objects\<close>

text \<open>
  The sessions that were ever opened, each with its transport, and the kernel. A handle of \<open>ManagedDatastore\<close> is a
  position in the list: objects are not reused.
\<close>

record 'k stack =
  sk_sessions :: "(motu_session \<times> usb_transport) list"
  sk_kernel :: 'k

text \<open>
  \<open>open_datastore(config).__enter__()\<close> runs the generator up to its \<open>yield\<close>: discovery, the transport's \<open>__enter__\<close>,
  the session and \<open>init\<close>. An exception of the latter two leaves through the transport's \<open>__exit__\<close>. \<open>sysfs\<close> is the
  file system as it is when the discovery runs.
\<close>

definition start_session :: "datastore_config \<Rightarrow> 'w transport \<Rightarrow> ('w, motu_session) sop" where
  "start_session c tr = (\<lambda>w.
     case new_session (dc_seq_start c) (dc_message_seq c) of
       Inl e \<Rightarrow> (Inl e, w)
     | Inr d \<Rightarrow>
         (case (if dc_no_init c then retS () else sess_init tr) (d, w) of
            (Inl e, (_, w')) \<Rightarrow> (Inl e, w')
          | (Inr _, (d', w')) \<Rightarrow> (Inr d', w')))"

definition context_enter :: "('k \<Rightarrow> fs) \<Rightarrow> 'k platform \<Rightarrow> datastore_config \<Rightarrow> ('k stack, nat) sop" where
  "context_enter sysfs pl c = (\<lambda>s.
     case find_motu_device (sysfs (sk_kernel s)) (find_args_of c) of
       Inl e \<Rightarrow> (Inl e, s)
     | Inr device \<Rightarrow>
         let t = transport_of device (dc_timeout_ms c) in
         (case transport_enter (pl_sys pl) (t, sk_kernel s) of
            (Inl e, (_, k)) \<Rightarrow> (Inl e, s\<lparr>sk_kernel := k\<rparr>)
          | (Inr _, u) \<Rightarrow>
              (case start_session c (transport_for pl t) u of
                 (Inr d, (t', k)) \<Rightarrow>
                   (Inr (length (sk_sessions s)), \<lparr>sk_sessions = sk_sessions s @ [(d, t')], sk_kernel = k\<rparr>)
               | (Inl e, v) \<Rightarrow>
                   (case transport_exit (pl_sys pl) v of
                      (Inl e', (_, k)) \<Rightarrow> (Inl e', s\<lparr>sk_kernel := k\<rparr>)
                    | (Inr _, (_, k)) \<Rightarrow> (Inl e, s\<lparr>sk_kernel := k\<rparr>)))))"

text \<open>A method of the session with handle \<open>h\<close>, and the rest of the generator: \<open>__exit__\<close>, also called by \<open>_close_context\<close>.\<close>

definition on_session :: "'k platform \<Rightarrow> ('k ut transport \<Rightarrow> ('k ut, 'a) sess) \<Rightarrow> nat \<Rightarrow> ('k stack, 'a) sop" where
  "on_session pl op h = (\<lambda>s.
     case sk_sessions s ! h of (d, t) \<Rightarrow>
     (case op (transport_for pl t) (d, (t, sk_kernel s)) of (r, (d', (t', k))) \<Rightarrow>
        (r, \<lparr>sk_sessions = (sk_sessions s)[h := (d', t')], sk_kernel = k\<rparr>)))"

definition context_exit :: "'k platform \<Rightarrow> nat \<Rightarrow> ('k stack, unit) sop" where
  "context_exit pl h = (\<lambda>s.
     case sk_sessions s ! h of (d, t) \<Rightarrow>
     (case transport_exit (pl_sys pl) (t, sk_kernel s) of (r, (t', k)) \<Rightarrow>
        (r, \<lparr>sk_sessions = (sk_sessions s)[h := (d, t')], sk_kernel = k\<rparr>)))"

text \<open>The opener and the session object as \<open>ManagedDatastore\<close> gets them.\<close>

definition stack_ops :: "('k \<Rightarrow> fs) \<Rightarrow> 'k platform \<Rightarrow> datastore_config \<Rightarrow> 'k stack managed_ops" where
  "stack_ops sysfs pl c =
     \<lparr>mo_open = context_enter sysfs pl c, mo_exit = context_exit pl,
      mo_clock = (\<lambda>s. case pl_clock pl (sk_kernel s) of (now, k) \<Rightarrow> (now, s\<lparr>sk_kernel := k\<rparr>)),
      mo_stats = (\<lambda>h s. ms_last_response_stats (fst (sk_sessions s ! h))),
      mo_etag = (\<lambda>h s. ms_last_response_etag (fst (sk_sessions s ! h))),
      mo_payload = (\<lambda>h s. ms_last_response_payload (fst (sk_sessions s ! h))),
      mo_supports_cancellable = (\<lambda>h s. supports_cancellable_bulk_reads (transport_for pl (snd (sk_sessions s ! h))))\<rparr>"

definition managed_get ::
    "('k \<Rightarrow> fs) \<Rightarrow> 'k platform \<Rightarrow> datastore_config \<Rightarrow> pystr \<Rightarrow> 'k ut get_args \<Rightarrow> ('k stack, bytes) mop" where
  "managed_get sysfs pl c path kwargs = managed_call (stack_ops sysfs pl c) (on_session pl (\<lambda>tr. sess_get tr path kwargs))"

definition managed_post ::
    "('k \<Rightarrow> fs) \<Rightarrow> 'k platform \<Rightarrow> datastore_config \<Rightarrow> pystr \<Rightarrow> bytes \<Rightarrow> query_field_value option \<Rightarrow> int \<Rightarrow>
     ('k stack, bytes) mop" where
  "managed_post sysfs pl c path json_body client timeout_ms =
     managed_call (stack_ops sysfs pl c) (on_session pl (\<lambda>tr. sess_post tr path json_body client timeout_ms))"

text \<open>The transport object changes only in its file.\<close>

lemma transport_for_fd: "transport_for pl (t\<lparr>ut_fd := fd\<rparr>) = transport_for pl t"
  by (simp add: transport_for_def usbfs_transport_def max_packet_size_def)

lemma transport_enter_same: "transport_enter sys (t, k) = (r, (t', k')) \<Longrightarrow> t' = t\<lparr>ut_fd := ut_fd t'\<rparr>"
  by (auto simp: transport_enter_def bindS_def on_kernel_def set_fd_def onErrorS_def modS_def raiseS_def
      split: prod.splits sum.splits)

interpretation fixed: world_relation "transport_for pl t" "\<lambda>s s'. fst s' = fst s" for pl t
proof unfold_locales
  show "keepsS (\<lambda>s s'. fst s' = fst s) (tr_bulk_write (transport_for pl t) frame)" for frame
    by (simp add: keepsS_def transport_for_def usbfs_transport_def transport_bulk_write_def bindS_def on_kernel_def
          retS_def raiseS_def split_def split: option.splits sum.splits)
  show "keepsS (\<lambda>s s'. fst s' = fst s) (tr_bulk_read (transport_for pl t) n ms)" for n ms
    by (simp add: keepsS_def transport_for_def usbfs_transport_def transport_bulk_read_def bindS_def onErrorS_def on_kernel_def
          retS_def raiseS_def Let_def split_def split: option.splits sum.splits)
qed (auto simp: reflp_def transp_def transport_for_def usbfs_transport_def split: prod.splits)

text \<open>The context manager in two halves is the \<open>with\<close> statement of the commands.\<close>

lemma context_is_open_datastore:
  "open_datastore pl c body k =
     (case context_enter (\<lambda>_. pl_fs pl) pl c \<lparr>sk_sessions = [], sk_kernel = k\<rparr> of
        (Inl e, s) \<Rightarrow> (Inl e, sk_kernel s)
      | (Inr h, s) \<Rightarrow>
          (case finallyS (on_session pl body h) (context_exit pl h) s of (r, s') \<Rightarrow> (r, sk_kernel s')))"
proof (cases "find_motu_device (pl_fs pl) (find_args_of c)")
  case (Inr device)
  define t where "t = transport_of device (dc_timeout_ms c)"
  obtain r t1 k1 where e: "transport_enter (pl_sys pl) (t, k) = (r, (t1, k1))" by (metis surj_pair)
  note defs = open_datastore_def context_enter_def start_session_def with_session_def Let_def
    finallyS_def on_session_def context_exit_def bindS_def
  show ?thesis
  proof (cases r)
    case ok: (Inr u)
    show ?thesis
    proof (cases "new_session (dc_seq_start c) (dc_message_seq c)")
      case (Inl x)
      then show ?thesis using Inr e ok by (simp add: defs t_def[symmetric] split: prod.splits sum.splits)
    next
      case new: (Inr d)
      obtain r2 d2 t2 k2 where i: "(if dc_no_init c then retS () else sess_init (transport_for pl t)) (d, (t1, k1)) = (r2, (d2, (t2, k2)))"
        by (metis surj_pair)
      have "t1 = t\<lparr>ut_fd := ut_fd t1\<rparr>" using transport_enter_same[OF e] .
      moreover have "keepsS (fixed.R) (if dc_no_init c then retS () else sess_init (transport_for pl t))"
        by (intro keeps_intros fixed.R_order fixed.sess_init_keeps)
      then have "t2 = t1" using i unfolding keepsS_def fixed.R_def by (metis fst_conv snd_conv)
      ultimately have tt: "transport_for pl t2 = transport_for pl t" by (metis transport_for_fd)
      show ?thesis using Inr e ok new i tt
        by (cases r2) (auto simp: defs t_def[symmetric] split: prod.splits sum.splits)
    qed
  qed (use Inr e in \<open>simp add: defs t_def[symmetric]\<close>)
qed (simp add: open_datastore_def context_enter_def)

section \<open>What a managed datastore keeps of the sessions it is given\<close>

text \<open>
  What the managed datastore relies on: \<open>holds x w\<close> says in which worlds it may be while it holds the session \<open>x\<close> (or
  none). Opening, closing and the clock keep it; then so do the calls and \<open>close\<close>.
\<close>

locale session_provider =
  fixes mo :: "'w managed_ops" and holds :: "nat option \<Rightarrow> 'w \<Rightarrow> bool"
  assumes clock_holds: "holds x w \<Longrightarrow> mo_clock mo w = (now, w') \<Longrightarrow> holds x w'"
    and open_holds: "holds None w \<Longrightarrow> mo_open mo w = (r, w') \<Longrightarrow> holds (case r of Inl _ \<Rightarrow> None | Inr h \<Rightarrow> Some h) w'"
    and exit_holds: "holds (Some h) w \<Longrightarrow> mo_exit mo h w = (q, w') \<Longrightarrow> holds None w'"
begin

lemma open_between:
  assumes "holds None w" "mo_clock mo w = (now, w1)" "mo_open mo w1 = (r, w2)" "mo_clock mo w2 = (now2, w')"
  shows "holds (case r of Inl _ \<Rightarrow> None | Inr h \<Rightarrow> Some h) w'"
  by (rule clock_holds[OF open_holds[OF clock_holds[OF assms(1,2)] assms(3)] assms(4)])

lemma ensure_holds:
  assumes "managed_wf m" "holds (md_datastore m) w" "ensure_session mo (m, w) = (r, (m', w'))"
  shows "holds (md_datastore m') w'"
  using assms(2)
  by (cases rule: ensure_session_cases[OF assms(1,3)])
    (auto simp: schedule_retry_locked_def schedule_configuration_error_retry_locked_def Let_def
      dest: clock_holds open_between)

lemma call_holds:
  assumes "managed_wf m" "holds (md_datastore m) w" "managed_call mo op (m, w) = (r, (m', w'))"
    and op: "\<And>h w r w'. holds (Some h) w \<Longrightarrow> op h w = (r, w') \<Longrightarrow> holds (Some h) w'"
  shows "holds (md_datastore m') w'"
proof -
  obtain q m1 w1 where es: "ensure_session mo (m, w) = (q, (m1, w1))" by (metis surj_pair)
  note wf1 = ensure_session_wf[OF assms(1) es] and h1 = ensure_holds[OF assms(1,2) es]
  show ?thesis
  proof (cases q)
    case (Inl e)
    then show ?thesis using managed_call_split(1)[of mo m w e _ op] es assms(3) h1 by simp
  next
    case (Inr h)
    then have d: "md_datastore m1 = Some h" "\<not> md_closed m1" using wf1(2) by auto
    have c1: "managed_call mo op (m1, w1) = (r, (m', w'))"
      using managed_call_split(2)[of mo m w h m1 w1 op] es assms(3) Inr d by simp
    obtain x w2 where x: "op h w1 = (x, w2)" by fastforce
    have h2: "holds (Some h) w2" using op[OF _ x] h1 d by simp
    obtain now w3 where k: "mo_clock mo w2 = (now, w3)" by fastforce
    obtain y w4 where e: "mo_exit mo h w3 = (y, w4)" by fastforce
    have "holds None w4" using exit_holds[OF clock_holds[OF h2 k] e] .
    then show ?thesis
      using c1 d h2 managed_call_present[where op = op and mo = mo, OF wf1(1) d x refl] k e
      by (auto simp: remembered_def schedule_retry_locked_def Let_def split: sum.splits if_splits)
  qed
qed

lemma close_holds:
  assumes "managed_wf m" "holds (md_datastore m) w" "managed_close mo (m, w) = (r, (m', w'))"
  shows "md_datastore m' = None \<and> holds None w'"
proof (cases "md_datastore m")
  case None
  then show ?thesis using assms
    by (auto simp: managed_close_def discard_session_locked_def bindS_def modS_def Let_def managed_wf_def backoff_unless_def split: if_splits)
next
  case (Some h)
  obtain y w1 where e: "mo_exit mo h w = (y, w1)" by fastforce
  have "md_context m = Some h" using assms(1) Some by (simp add: managed_wf_def)
  then show ?thesis using assms(3) Some e exit_holds[OF _ e] assms(2)
    by (cases y) (auto simp: managed_close_def discard_session_locked_def bindS_def modS_def Let_def backoff_unless_def split: if_splits)
qed

end

section \<open>The files of the process\<close>

text \<open>Beside the files that were open before, \<open>base\<close>, exactly the device file of the session that is held.\<close>

definition held_files :: "'k platform \<Rightarrow> ('k \<Rightarrow> int set) \<Rightarrow> int set \<Rightarrow> nat option \<Rightarrow> 'k stack \<Rightarrow> bool" where
  "held_files pl opened base held s \<longleftrightarrow>
     (platform_contract pl opened \<longrightarrow>
       (case held of
          None \<Rightarrow> opened (sk_kernel s) = base
        | Some h \<Rightarrow> h < length (sk_sessions s) \<and>
            (\<exists>fd. ut_fd (snd (sk_sessions s ! h)) = Some fd \<and> fd \<notin> base \<and> opened (sk_kernel s) = insert fd base)))"

lemma start_session_files:
  assumes "start_session c (transport_for pl t) s = (r, s')"
  shows "same_files pl opened s s'"
proof (cases "new_session (dc_seq_start c) (dc_message_seq c)")
  case (Inr d)
  have "keepsS (usb.R pl opened) (if dc_no_init c then retS () else sess_init (transport_for pl t))"
    by (intro keeps_intros usb.R_order usb.sess_init_keeps)
  then have "same_files pl opened s (snd (snd ((if dc_no_init c then retS () else sess_init (transport_for pl t)) (d, s))))"
    unfolding keepsS_def usb.R_def by (metis snd_conv)
  then show ?thesis using assms Inr by (auto simp: start_session_def split: prod.splits sum.splits)
qed (use assms in \<open>auto simp: start_session_def same_files_def\<close>)

lemma context_enter_files:
  assumes pc: "platform_contract pl opened" and e: "context_enter sysfs pl c s = (r, s')"
  shows "case r of
      Inl _ \<Rightarrow> opened (sk_kernel s') = opened (sk_kernel s)
    | Inr h \<Rightarrow> h < length (sk_sessions s') \<and>
        (\<exists>fd. ut_fd (snd (sk_sessions s' ! h)) = Some fd \<and> fd \<notin> opened (sk_kernel s) \<and>
           opened (sk_kernel s') = insert fd (opened (sk_kernel s)))"
proof (cases "find_motu_device (sysfs (sk_kernel s)) (find_args_of c)")
  case (Inr device)
  have fc: "files_contract (pl_sys pl) opened" using pc by (simp add: platform_contract_def)
  define t where "t = transport_of device (dc_timeout_ms c)"
  obtain q t1 k1 where n: "transport_enter (pl_sys pl) (t, sk_kernel s) = (q, (t1, k1))" by (metis surj_pair)
  show ?thesis
  proof (cases q)
    case (Inl x)
    then show ?thesis using e Inr n transport_enter_files(2)[OF fc n] by (auto simp: context_enter_def t_def Let_def)
  next
    case ok: (Inr u)
    then obtain fd where fd: "ut_fd t1 = Some fd" "fd \<notin> opened (sk_kernel s)" "opened k1 = insert fd (opened (sk_kernel s))"
      using transport_enter_files(1)[OF fc n] by auto
    obtain x t2 k2 where st: "start_session c (transport_for pl t) (t1, k1) = (x, (t2, k2))" by (metis surj_pair)
    have same: "ut_fd t2 = Some fd" "opened k2 = opened k1"
      using start_session_files[OF st, of opened] fd pc by (auto simp: same_files_def)
    obtain y t3 k3 where ex: "transport_exit (pl_sys pl) (t2, k2) = (y, (t3, k3))" by (metis surj_pair)
    have "opened k3 = opened (sk_kernel s)" using transport_exit_files(1)[OF fc same(1) ex] same fd by auto
    then show ?thesis using e Inr n ok st ex same fd unfolding t_def
      by (cases x; cases y) (auto simp: context_enter_def Let_def)
  qed
qed (use e in \<open>auto simp: context_enter_def\<close>)

interpretation files: session_provider "stack_ops sysfs pl c" "held_files pl opened base" for sysfs pl c opened base
proof unfold_locales
  fix x w now w' assume a: "held_files pl opened base x w" "mo_clock (stack_ops sysfs pl c) w = (now, w')"
  obtain n k where k: "pl_clock pl (sk_kernel w) = (n, k)" by fastforce
  then have w': "w' = w\<lparr>sk_kernel := k\<rparr>" using a(2) by (simp add: stack_ops_def)
  have "opened k = opened (sk_kernel w)" if "platform_contract pl opened"
    using that k unfolding platform_contract_def by (metis snd_conv)
  then show "held_files pl opened base x w'" using a(1) unfolding w' held_files_def by (cases x) simp_all
next
  fix h w r w' assume a: "held_files pl opened base (Some h) w" "mo_exit (stack_ops sysfs pl c) h w = (r, w')"
  obtain d t where h: "sk_sessions w ! h = (d, t)" by fastforce
  obtain y t2 k2 where x: "transport_exit (pl_sys pl) (t, sk_kernel w) = (y, (t2, k2))" by (metis surj_pair)
  have "opened k2 = base" if "platform_contract pl opened"
    using a(1) that h transport_exit_files(1)[of "pl_sys pl" opened t _ "sk_kernel w", OF _ _ x]
    by (auto simp: held_files_def platform_contract_def)
  then show "held_files pl opened base None w'"
    using a(2) h x by (auto simp: held_files_def stack_ops_def context_exit_def)
next
  fix w r w' assume "held_files pl opened base None w" "mo_open (stack_ops sysfs pl c) w = (r, w')"
  then show "held_files pl opened base (case r of Inl _ \<Rightarrow> None | Inr h \<Rightarrow> Some h) w'"
    using context_enter_files[of pl opened sysfs c w r w'] by (auto simp: held_files_def stack_ops_def split: sum.splits)
qed

text \<open>Reads and callbacks that leave the files alone; then the ways the datastore is used over time.\<close>

definition quiet_args :: "'k platform \<Rightarrow> ('k \<Rightarrow> int set) \<Rightarrow> 'k ut get_args \<Rightarrow> bool" where
  "quiet_args pl opened ga \<longleftrightarrow>
     (\<forall>t. usb.mode_keeps pl t opened (ga_read_mode ga)) \<and>
     (\<forall>f. ga_should_cancel ga = Some f \<longrightarrow> keepsS (same_files pl opened) f)"

lemma default_args_quiet: "quiet_args pl opened default_get_args"
  by (simp add: quiet_args_def default_get_args_def usb.plain_mode)

inductive service_step ::
    "('k \<Rightarrow> fs) \<Rightarrow> 'k platform \<Rightarrow> datastore_config \<Rightarrow> ('k \<Rightarrow> int set) \<Rightarrow> managed \<times> 'k stack \<Rightarrow> managed \<times> 'k stack \<Rightarrow> bool"
  for sysfs pl c opened where
  get: "quiet_args pl opened kwargs \<Longrightarrow> managed_get sysfs pl c path kwargs s = (r, s') \<Longrightarrow> service_step sysfs pl c opened s s'"
| post: "managed_post sysfs pl c path json_body client timeout_ms s = (r, s') \<Longrightarrow> service_step sysfs pl c opened s s'"
| close: "managed_close (stack_ops sysfs pl c) s = (q, s') \<Longrightarrow> service_step sysfs pl c opened s s'"
| kernel: "opened k = opened (sk_kernel s) \<Longrightarrow> service_step sysfs pl c opened (m, s) (m, s\<lparr>sk_kernel := k\<rparr>)"

inductive_cases service_stepE: "service_step sysfs pl c opened s s'"

lemma on_session_files:
  assumes op: "\<And>t. keepsS (usb.R pl opened) (op (transport_for pl t))"
    and "held_files pl opened base (Some h) s" "on_session pl op h s = (r, s')"
  shows "held_files pl opened base (Some h) s'"
proof -
  obtain d t where h: "sk_sessions s ! h = (d, t)" by fastforce
  obtain q d2 t2 k2 where o: "op (transport_for pl t) (d, (t, sk_kernel s)) = (q, (d2, (t2, k2)))" by (metis surj_pair)
  have "same_files pl opened (t, sk_kernel s) (t2, k2)"
    using op[of t] o unfolding keepsS_def usb.R_def by (metis snd_conv)
  moreover have "s' = \<lparr>sk_sessions = (sk_sessions s)[h := (d2, t2)], sk_kernel = k2\<rparr>" using assms(3) h o by (simp add: on_session_def)
  ultimately show ?thesis using assms(2) h by (auto simp: held_files_def same_files_def)
qed

lemma service_step_files:
  assumes "service_step sysfs pl c opened s s'" "managed_wf (fst s)" "held_files pl opened base (md_datastore (fst s)) (snd s)"
  shows "managed_wf (fst s') \<and> held_files pl opened base (md_datastore (fst s')) (snd s')"
proof -
  obtain m w m' w' where s: "s = (m, w)" "s' = (m', w')" by (metis surj_pair)
  have call: "managed_wf m' \<and> held_files pl opened base (md_datastore m') w'"
    if "\<And>t. keepsS (usb.R pl opened) (op (transport_for pl t))"
      "managed_call (stack_ops sysfs pl c) (on_session pl op) (m, w) = (r, (m', w'))" for op :: "'a ut transport \<Rightarrow> ('a ut, bytes) sess" and r
    using files.call_holds[OF _ _ that(2), of opened base] managed_call_wf[OF _ that(2)] on_session_files[where op = op, OF that(1)] assms(2,3) s
    by auto
  show ?thesis using assms(1)
  proof cases
    case (get kwargs path r)
    have "keepsS (usb.R pl opened) (sess_get (transport_for pl t) path kwargs)" for t
      using get(1) by (intro usb.sess_get_keeps) (auto simp: quiet_args_def)
    from call[of "\<lambda>tr. sess_get tr path kwargs", OF this] get(2) s show ?thesis by (auto simp: managed_get_def)
  next
    case (post path json_body client timeout_ms r)
    from call[of "\<lambda>tr. sess_post tr path json_body client timeout_ms", OF usb.sess_post_keeps] post s show ?thesis by (auto simp: managed_post_def)
  next
    case (close q)
    then show ?thesis using managed_close_wf[of s "stack_ops sysfs pl c" q s'] files.close_holds[of m pl opened base w sysfs c q m' w'] assms(2,3) s by auto
  next
    case (kernel k w m)
    then show ?thesis using assms(2,3) by (auto simp: held_files_def split: option.splits)
  qed
qed

text \<open>C6: No file is lost over reconnects. In every sequence of reads, writes, device losses, failed and successful
  opens, back-offs and \<open>close\<close>, on a device that may fail at any call, the process has open what it had open at the
  start and, exactly while a session is held, that session's device file. After \<open>close\<close> nothing is left open.\<close>

theorem device_files_accounted:
  assumes pc: "platform_contract pl opened"
    and run: "(service_step sysfs pl c opened)\<^sup>*\<^sup>* (managed_init i mx ce a, \<lparr>sk_sessions = [], sk_kernel = k\<rparr>) (m, s)"
  shows "(case md_datastore m of
       None \<Rightarrow> opened (sk_kernel s) = opened k
     | Some h \<Rightarrow> h < length (sk_sessions s) \<and>
         (\<exists>fd. ut_fd (snd (sk_sessions s ! h)) = Some fd \<and> fd \<notin> opened k \<and> opened (sk_kernel s) = insert fd (opened k))) \<and>
    (md_closed m \<longrightarrow> opened (sk_kernel s) = opened k)"
proof -
  let ?I = "\<lambda>s. managed_wf (fst s) \<and> held_files pl opened (opened k) (md_datastore (fst s)) (snd s)"
  have "?I (managed_init i mx ce a, \<lparr>sk_sessions = [], sk_kernel = k\<rparr>)"
    by (simp add: managed_init_wf) (simp add: held_files_def managed_init_def Let_def)
  with run have "?I (m, s)" by (induction rule: rtranclp_induct) (auto dest: service_step_files)
  then show ?thesis using pc by (auto simp: held_files_def managed_wf_def split: option.splits)
qed

text \<open>The datastore as \<open>serve\<close> creates it, and a kernel before the first open.\<close>

abbreviation fresh_managed :: managed where
  "fresh_managed \<equiv> managed_init DEFAULT_RECONNECT_INITIAL_DELAY_S DEFAULT_RECONNECT_MAX_DELAY_S
     DEFAULT_CONFIGURATION_ERROR_RETRY_DELAY_S True"

definition fresh_stack :: "'k \<Rightarrow> 'k stack" where
  "fresh_stack k = \<lparr>sk_sessions = [], sk_kernel = k\<rparr>"

lemma fresh_managed_ok: "managed_wf fresh_managed" "md_datastore fresh_managed = None" "\<not> md_closed fresh_managed"
  by (simp_all add: managed_init_wf, simp_all add: managed_init_def Let_def)

theorem device_files_accounted_witness:
  "\<exists>m s. (service_step (\<lambda>_. demo_fs) demo_platform demo_config set)\<^sup>*\<^sup>* (fresh_managed, fresh_stack [5]) (m, s) \<and>
     md_closed m \<and> set (sk_kernel s) = {5}"
proof -
  let ?step = "service_step (\<lambda>_. demo_fs) demo_platform demo_config set"
  obtain r s1 where p: "managed_post (\<lambda>_. demo_fs) demo_platform demo_config (lit ''/datastore/uid'') [] None 600 (fresh_managed, fresh_stack [5]) = (r, s1)"
    by (metis surj_pair)
  obtain q m2 s2 where c: "managed_close (stack_ops (\<lambda>_. demo_fs) demo_platform demo_config) s1 = (q, (m2, s2))"
    by (metis surj_pair)
  have one: "?step (fresh_managed, fresh_stack [5]) s1" by (rule service_step.post[OF p])
  have run: "?step\<^sup>*\<^sup>* (fresh_managed, fresh_stack [5]) (m2, s2)"
    using one service_step.close[OF c] by (metis rtranclp.rtrancl_into_rtrancl r_into_rtranclp)
  have "managed_wf (fst s1)"
    using p fresh_managed_ok(1) managed_call_wf unfolding managed_post_def by (metis prod.collapse)
  then have "md_closed m2" using managed_close_wf[OF _ c] by simp
  then show ?thesis
    using device_files_accounted[OF demo_platform_contract run[unfolded fresh_stack_def]] run by (auto simp: fresh_stack_def)
qed


end
