(* ===== verification/Motu_Traffic.thy ===== *)
theory Motu_Traffic
  imports Motu_Stack Motu_Coordinator Motu_Http
begin

text \<open>
  What leaves the machine. The locale \<open>logged_transport\<close> of the session is interpreted on the real transport of a
  machine that records its traffic, which gives the frames of a managed call, and with the coordinator and the HTTP
  dispatcher on top those of a web request.
\<close>

section \<open>Traffic of one session\<close>

context logged_transport
begin

lemma plain_silent: "silent_mode plain_read"
  by (simp add: silent_mode_def plain_read_def)

lemma drain_log: "drain_loop tr q t mx quiet reads ps w = (r, w') \<Longrightarrow> sent w' = sent w"
proof (induction "mx - reads" arbitrary: quiet reads ps w rule: less_induct)
  case less
  obtain x w1 where rd: "read_logical_frame tr plain_read (Some t) w = (x, w1)" by fastforce
  note sent1 = read_logical_frame_log[OF plain_silent rd]
  show ?case
  proof (cases "quiet < q \<and> reads < mx \<and> (\<exists>p. x = Inr p)")
    case True
    then have less': "mx - (reads + 1) < mx - reads" by auto
    have "sent w' = sent w1" if "drain_loop tr q t mx qu (reads + 1) ps' w1 = (r, w')" for qu ps'
      by (rule less.hyps[OF less' that])
    then show ?thesis using less.prems True rd sent1 drain_loop.simps[of tr q t mx quiet reads ps w]
      by (auto split: if_splits)
  next
    case False
    then show ?thesis using less.prems rd sent1 drain_loop.simps[of tr q t mx quiet reads ps w]
      by (cases x) (auto split: if_splits)
  qed
qed

lemma init_log:
  assumes "sess_init tr (d, w) = (r, (d', w'))"
  shows "host_ok d' \<and> (sent w' = sent w \<or> sent w' = sent w @ [build_init (hs_next (ms_host_seq d))])"
proof -
  let ?q = "hs_next (ms_host_seq d)"
  obtain x w1 where wr: "tr_bulk_write tr (build_init ?q) w = (x, w1)" by fastforce
  obtain y w2 where dr: "drain_quiet tr 1 200 16 w1 = (y, w2)" by fastforce
  have "sent w1 = sent w \<or> sent w1 = sent w @ [build_init ?q]" "sent w2 = sent w1"
    using write_log[OF wr] drain_log dr by (auto simp: drain_quiet_def)
  then show ?thesis using assms wr dr
    by (auto simp: sess_init_def bindS_def sess_next_host_seq_def take_host_seq_def write_frame_def onWorld_def Let_def
        split: sum.splits if_splits)
qed

lemma post_log:
  assumes "host_ok d" "sess_post tr path body client timeout_ms (d, w) = (r, (d', w'))"
  shows "host_ok d' \<and>
    (sent w' = sent w \<and> (\<exists>e. r = Inl e) \<or>
     (\<exists>request acks. build_post_frame (hs_next (ms_host_seq d)) (current_message_seq d) path body (lit ''NREK'') client = Inr request \<and>
        sent w' = sent w @ request # acks \<and> list_all host_ack acks))"
proof -
  let ?ca = "default_collect_args (current_message_seq d) timeout_ms :: 'w collect_args"
  have sc: "silent_cancel ?ca"
    using plain_silent by (simp add: silent_cancel_def default_collect_args_def)
  show ?thesis
    using request_then_collect[OF assms(1) sc assms(2)[unfolded sess_post_def prod.case Let_def]]
    by (auto split: sum.splits if_splits)
qed

definition silent_args :: "'w get_args \<Rightarrow> bool" where
  "silent_args ga \<longleftrightarrow> (\<forall>f. ga_should_cancel ga = Some f \<longrightarrow> silent f) \<and> silent_mode (ga_read_mode ga)"

lemma get_log:
  assumes "host_ok d" "silent_args ga" "sess_get tr path ga (d, w) = (r, (d', w'))"
  shows "host_ok d' \<and>
    (sent w' = sent w \<and> (\<exists>e. r = Inl e) \<or>
     (\<exists>request acks. build_get_frame (hs_next (ms_host_seq d)) (current_message_seq d) path (ga_etag ga)
         (lit ''NREK'') (ga_client ga) (ga_query_fields ga) = Inr request \<and>
        sent w' = sent w @ request # acks \<and> list_all host_ack acks \<and>
        (\<forall>response. r = Inr response \<longrightarrow>
           (\<exists>received. chunks w' = chunks w @ received \<and> authentic_response (current_message_seq d) received response))))"
proof -
  let ?ca = "(default_collect_args (current_message_seq d) (ga_timeout_ms ga))
          \<lparr>ca_should_cancel := ga_should_cancel ga,
           ca_read_timeout_slice_ms := ga_read_timeout_slice_ms ga,
           ca_read_mode := ga_read_mode ga\<rparr>"
  have sc: "silent_cancel ?ca" using assms(2) by (auto simp: silent_cancel_def silent_args_def)
  have lim: "default_limits ?ca" "ca_expected_message_seq ?ca = current_message_seq d"
    by (simp_all add: default_limits_def default_collect_args_def)
  show ?thesis
    using request_then_collect[OF assms(1) sc assms(3)[unfolded sess_get_def prod.case Let_def]] lim
    by (auto split: sum.splits if_splits)
qed

end

section \<open>A machine that records its traffic\<close>

text \<open>
  \<open>traced pl\<close> behaves as \<open>pl\<close>; beside its kernel it keeps the frames written in full and the chunks read. A time-out
  counts as an empty chunk, as the transport returns it.
\<close>

type_synonym traffic = "bytes list \<times> bytes list"

definition unlogged :: "('k, 'a) sop \<Rightarrow> ('k \<times> traffic, 'a) sop" where
  "unlogged op = (\<lambda>(k, l). case op k of (r, k') \<Rightarrow> (r, (k', l)))"

definition traced_sys :: "'k syscalls \<Rightarrow> ('k \<times> traffic) syscalls" where
  "traced_sys sys =
     \<lparr>sys_open = (\<lambda>p. unlogged (sys_open sys p)), sys_close = (\<lambda>fd. unlogged (sys_close sys fd)),
      sys_claim = (\<lambda>fd i. unlogged (sys_claim sys fd i)), sys_release = (\<lambda>fd i. unlogged (sys_release sys fd i)),
      sys_bulk_out = (\<lambda>fd ep data ms (k, out, inp). case sys_bulk_out sys fd ep data ms k of (r, k') \<Rightarrow>
        (r, (k', if r = Inr (int (length data)) then out @ [data] else out, inp))),
      sys_bulk_in = (\<lambda>fd ep n ms (k, out, inp). case sys_bulk_in sys fd ep n ms k of (r, k') \<Rightarrow>
        (r, (k', out, case r of Inr (ret, buf) \<Rightarrow> inp @ [take (nat ret) buf]
                     | Inl e \<Rightarrow> if e = OSError ETIMEDOUT \<or> e = OSError EAGAIN then inp @ [[]] else inp)))\<rparr>"

definition traced :: "'k platform \<Rightarrow> ('k \<times> traffic) platform" where
  "traced pl =
     \<lparr>pl_fs = pl_fs pl, pl_sys = traced_sys (pl_sys pl),
      pl_clock = (\<lambda>(k, l). case pl_clock pl k of (now, k') \<Rightarrow> (now, (k', l))),
      pl_begin_read = (\<lambda>n ms (t, (k, l)). case pl_begin_read pl n ms (t, k) of (r, (t', k')) \<Rightarrow> (r, (t', (k', l)))),
      pl_pending_read = (\<lambda>h (t, (k, out, inp)). case pl_pending_read pl h (t, k) of (r, (t', k')) \<Rightarrow>
        (r, (t', (k', out, case r of Inr data \<Rightarrow> inp @ [data] | Inl _ \<Rightarrow> inp))))\<rparr>"

interpretation traffic: logged_transport "transport_for (traced pl) t" "\<lambda>s. fst (snd (snd s))" "\<lambda>s. snd (snd (snd s))" for pl t
proof unfold_locales
  note d = transport_for_def usbfs_transport_def traced_def
  fix frame r n ms q h k now and w w' :: "usb_transport \<times> 'a \<times> traffic"
  obtain t1 k1 out inp where w: "w = (t1, (k1, out, inp))" by (metis surj_pair)
  show "tr_bulk_write (transport_for (traced pl) t) frame w = (r, w') \<Longrightarrow>
      fst (snd (snd w')) = fst (snd (snd w)) @ (if r = Inr (int (length frame)) then [frame] else []) \<and> snd (snd (snd w')) = snd (snd (snd w))"
    by (auto simp: w d traced_sys_def transport_bulk_write_def bindS_def on_kernel_def retS_def raiseS_def
        split: option.splits prod.splits sum.splits if_splits)
  show "tr_bulk_read (transport_for (traced pl) t) n ms w = (q, w') \<Longrightarrow>
      fst (snd (snd w')) = fst (snd (snd w)) \<and> snd (snd (snd w')) = snd (snd (snd w)) @ (case q of Inl _ \<Rightarrow> [] | Inr c \<Rightarrow> [c])"
    by (auto simp: w d traced_sys_def transport_bulk_read_def bindS_def onErrorS_def on_kernel_def retS_def raiseS_def Let_def
        split: option.splits prod.splits sum.splits if_splits)
  show "tr_pending_read (transport_for (traced pl) t) h w = (q, w') \<Longrightarrow>
      fst (snd (snd w')) = fst (snd (snd w)) \<and> snd (snd (snd w')) = snd (snd (snd w)) @ (case q of Inl _ \<Rightarrow> [] | Inr c \<Rightarrow> [c])"
    by (auto simp: w d split: prod.splits sum.splits)
  show "tr_monotonic (transport_for (traced pl) t) w = (now, w') \<Longrightarrow>
      fst (snd (snd w')) = fst (snd (snd w)) \<and> snd (snd (snd w')) = snd (snd (snd w))"
    by (auto simp: w d split: prod.splits)
  fix f y show "tr_begin_read (transport_for (traced pl) t) = Some f \<Longrightarrow> f n ms w = (y, w') \<Longrightarrow>
      fst (snd (snd w')) = fst (snd (snd w)) \<and> snd (snd (snd w')) = snd (snd (snd w))"
    by (auto simp: w d split: prod.splits)
qed

section \<open>Traffic of a managed call\<close>

abbreviation frames_sent :: "('k \<times> traffic) stack \<Rightarrow> bytes list" where
  "frames_sent s \<equiv> fst (snd (sk_kernel s))"

abbreviation chunks_read :: "('k \<times> traffic) stack \<Rightarrow> bytes list" where
  "chunks_read s \<equiv> snd (snd (sk_kernel s))"

text \<open>The session that is held exists, and its host sequence number is in the window.\<close>

definition live_session :: "nat option \<Rightarrow> 'k stack \<Rightarrow> bool" where
  "live_session held s \<longleftrightarrow>
     (\<forall>h. held = Some h \<longrightarrow> h < length (sk_sessions s) \<and> host_ok (fst (sk_sessions s ! h)))"

text \<open>What opening a session may send.\<close>

definition init_frames :: "bytes list \<Rightarrow> bool" where
  "init_frames fs \<longleftrightarrow> fs = [] \<or> (\<exists>q. fs = [build_init q])"

lemma on_kernel_unlogged [keeps_intros]: "keepsS (\<lambda>s s'. snd (snd s') = snd (snd s)) (on_kernel (unlogged op))"
  by (auto simp: keepsS_def on_kernel_def unlogged_def split: prod.splits)

lemma set_fd_unlogged [keeps_intros]: "keepsS (\<lambda>s s'. snd (snd s') = snd (snd s)) (set_fd fd)"
  by (auto simp: keepsS_def set_fd_def modS_def split: prod.splits)

lemma same_log_order: "reflp (\<lambda>s s'. snd (snd s') = snd (snd s))" "transp (\<lambda>s s'. snd (snd s') = snd (snd s))"
  by (auto simp: reflp_def transp_def)

lemma enter_exit_unlogged:
  "transport_enter (traced_sys sys) (t, (k, l)) = (r, (t', k')) \<Longrightarrow> snd k' = l"
  "transport_exit (traced_sys sys) (t, (k, l)) = (q, (t', k')) \<Longrightarrow> snd k' = l"
proof -
  let ?L = "\<lambda>(s :: usb_transport \<times> 'a \<times> traffic) s'. snd (snd s') = snd (snd s)"
  have s: "sys_open (traced_sys sys) p = unlogged (sys_open sys p)" "sys_close (traced_sys sys) fd = unlogged (sys_close sys fd)"
    "sys_claim (traced_sys sys) fd i = unlogged (sys_claim sys fd i)" "sys_release (traced_sys sys) fd i = unlogged (sys_release sys fd i)"
    for p fd i by (simp_all add: traced_sys_def)
  have at: "keepsS ?L m \<Longrightarrow> ?L (t, (k, l)) (snd (m (t, (k, l))))" for m :: "(usb_transport \<times> 'a \<times> traffic, unit) sop"
    unfolding keepsS_def by blast
  have "?L (t, (k, l)) (snd (transport_enter (traced_sys sys) (t, (k, l))))"
    unfolding transport_enter_def prod.case s by (rule at) (intro keeps_intros same_log_order)
  then show "transport_enter (traced_sys sys) (t, (k, l)) = (r, (t', k')) \<Longrightarrow> snd k' = l" by simp
  have "?L (t, (k, l)) (snd (transport_exit (traced_sys sys) (t, (k, l))))"
  proof (cases "ut_fd t")
    case (Some fd)
    show ?thesis unfolding transport_exit_def prod.case s Some option.case by (rule at) (intro keeps_intros same_log_order)
  qed (simp add: transport_exit_def)
  then show "transport_exit (traced_sys sys) (t, (k, l)) = (q, (t', k')) \<Longrightarrow> snd k' = l" by simp
qed

lemma start_session_log:
  assumes "start_session c (transport_for (traced pl) t) (t1, k1) = (r, (t2, k2))"
  shows "\<exists>greeting. fst (snd k2) = fst (snd k1) @ greeting \<and> init_frames greeting \<and> (\<forall>d. r = Inr d \<longrightarrow> host_ok d)"
proof (cases "new_session (dc_seq_start c) (dc_message_seq c)")
  case (Inr d)
  have d: "host_ok d" using Inr unfolding new_session_def bindR_Inr_iff
    by (auto simp: host_ok_def host_sequencer_init_def validate_host_seq_def bindR_Inr_iff split: if_splits)
  obtain x d2 t3 k3 where i: "sess_init (transport_for (traced pl) t) (d, (t1, k1)) = (x, (d2, (t3, k3)))" by (metis surj_pair)
  show ?thesis using assms Inr d i traffic.init_log[OF i]
    by (cases "dc_no_init c"; cases x) (auto simp: start_session_def init_frames_def)
qed (use assms in \<open>auto simp: start_session_def init_frames_def\<close>)

lemma context_enter_log:
  assumes "context_enter sysfs (traced pl) c s = (r, s')"
  shows "\<exists>greeting. frames_sent s' = frames_sent s @ greeting \<and> init_frames greeting \<and>
    (\<forall>h. r = Inr h \<longrightarrow> live_session (Some h) s')"
proof (cases "find_motu_device (sysfs (sk_kernel s)) (find_args_of c)")
  case (Inr device)
  define t where "t = transport_of device (dc_timeout_ms c)"
  have sys: "pl_sys (traced pl) = traced_sys (pl_sys pl)" by (simp add: traced_def)
  obtain k l where s: "sk_kernel s = (k, l)" by (metis surj_pair)
  obtain q t1 k1 where n: "transport_enter (traced_sys (pl_sys pl)) (t, (k, l)) = (q, (t1, k1))" by (metis surj_pair)
  obtain x t2 k2 where st: "start_session c (transport_for (traced pl) t) (t1, k1) = (x, (t2, k2))" by (metis surj_pair)
  obtain y t3 k3 where ex: "transport_exit (traced_sys (pl_sys pl)) (t2, k2) = (y, (t3, k3))" by (metis surj_pair)
  have log: "snd k1 = l" "snd k3 = snd k2"
    using enter_exit_unlogged(1)[OF n] enter_exit_unlogged(2)[of "pl_sys pl" t2 "fst k2" "snd k2"] ex by auto
  note started = start_session_log[OF st]
  show ?thesis
  proof (cases q)
    case ok: (Inr u)
    show ?thesis using assms Inr n ok st ex log s started unfolding t_def
      by (cases x; cases y) (auto simp: context_enter_def Let_def sys live_session_def)
  qed (use assms Inr n log s in \<open>auto simp: context_enter_def Let_def sys init_frames_def t_def\<close>)
qed (use assms in \<open>auto simp: context_enter_def init_frames_def\<close>)

lemma stack_ops_log:
  "mo_clock (stack_ops sysfs (traced pl) c) s = (now, s') \<Longrightarrow> snd (sk_kernel s') = snd (sk_kernel s) \<and> sk_sessions s' = sk_sessions s"
  "mo_exit (stack_ops sysfs (traced pl) c) h s = (q, s') \<Longrightarrow> snd (sk_kernel s') = snd (sk_kernel s)"
  by (auto simp: stack_ops_def context_exit_def traced_def split: prod.splits dest!: enter_exit_unlogged(2)[where k = "fst (sk_kernel s)" and l = "snd (sk_kernel s)"])
    (metis enter_exit_unlogged(2) prod.collapse)

interpretation live: session_provider "stack_ops sysfs (traced pl) c" live_session for sysfs pl c
proof unfold_locales
  fix x w now w' assume "live_session x w" "mo_clock (stack_ops sysfs (traced pl) c) w = (now, w')"
  then show "live_session x w'" using stack_ops_log(1)[of sysfs pl c w now w'] by (simp add: live_session_def)
next
  fix w r w' assume "mo_open (stack_ops sysfs (traced pl) c) w = (r, w')"
  then have "\<forall>h. r = Inr h \<longrightarrow> live_session (Some h) w'"
    using context_enter_log[of sysfs pl c w r w'] by (auto simp: stack_ops_def)
  then show "live_session (case r of Inl _ \<Rightarrow> None | Inr h \<Rightarrow> Some h) w'"
    by (cases r) (auto simp: live_session_def)
qed (simp add: live_session_def)

lemma ensure_log:
  assumes "managed_wf m" "ensure_session (stack_ops sysfs (traced pl) c) (m, s) = (r, (m', s'))"
  shows "\<exists>greeting. frames_sent s' = frames_sent s @ greeting \<and> init_frames greeting \<and> (md_datastore m \<noteq> None \<or> md_closed m \<longrightarrow> greeting = [])"
proof (cases rule: ensure_session_cases[OF assms, case_names closed present waiting failed opened])
  case (failed now w1 e w2 now2)
  then show ?thesis using stack_ops_log(1)[OF failed(3)] stack_ops_log(1)[OF failed(6)] context_enter_log[of sysfs pl c w1 "Inl e" w2]
    by (auto simp: stack_ops_def)
next
  case (opened now w1 h w2 now2)
  then show ?thesis using stack_ops_log(1)[OF opened(3)] stack_ops_log(1)[OF opened(6)] context_enter_log[of sysfs pl c w1 "Inr h" w2]
    by (auto simp: stack_ops_def)
qed (auto simp: init_frames_def dest: stack_ops_log(1))


text \<open>
  The frames of one managed call, for an operation that adds \<open>Q\<close> to the record: those of the open, then those of the
  operation, which runs at most once.
\<close>

lemma call_log:
  assumes wf: "managed_wf m" and live: "live_session (md_datastore m) s"
    and c: "managed_call (stack_ops sysfs (traced pl) c) (on_session (traced pl) op) (m, s) = (r, (m', s'))"
    and op: "\<And>d t k q d' t' k'. host_ok d \<Longrightarrow> op (transport_for (traced pl) t) (d, (t, k)) = (q, (d', (t', k'))) \<Longrightarrow>
      host_ok d' \<and> Q d (snd k) q (snd k')"
  obtains greeting where "init_frames greeting" "md_datastore m \<noteq> None \<or> md_closed m \<longrightarrow> greeting = []"
    "managed_wf m'" "live_session (md_datastore m') s'"
    "frames_sent s' = frames_sent s @ greeting \<and> (\<exists>e. r = Inl e) \<or>
     (\<exists>d l q. host_ok d \<and> fst l = frames_sent s @ greeting \<and> Q d l q (snd (sk_kernel s')) \<and> \<not> md_closed m \<and>
        (\<forall>response. r = Inr response \<longrightarrow> q = Inr response))"
proof -
  let ?mo = "stack_ops sysfs (traced pl) c" and ?op = "on_session (traced pl) op"
  have opl: "live_session (Some h) w'" if "live_session (Some h) w" "?op h w = (x, w')" for h w x w'
  proof -
    obtain d t where h: "sk_sessions w ! h = (d, t)" by fastforce
    obtain q d2 t2 k2 where o: "op (transport_for (traced pl) t) (d, (t, sk_kernel w)) = (q, (d2, (t2, k2)))" by (metis surj_pair)
    show ?thesis using that h o op[OF _ o] by (auto simp: live_session_def on_session_def)
  qed
  obtain q m1 s1 where es: "ensure_session ?mo (m, s) = (q, (m1, s1))" by (metis surj_pair)
  obtain greeting where o: "frames_sent s1 = frames_sent s @ greeting" "init_frames greeting" "md_datastore m \<noteq> None \<or> md_closed m \<longrightarrow> greeting = []"
    using ensure_log[OF wf es] by blast
  note wf1 = ensure_session_wf[OF wf es] and live1 = live.ensure_holds[OF wf live es]
  note keep = managed_call_wf[OF wf c] live.call_holds[OF wf live c opl]
  show thesis
  proof (cases q)
    case (Inl e)
    then show thesis using managed_call_split(1)[of ?mo m s e _ ?op] es c o by (intro that[of greeting] o keep) auto
  next
    case (Inr h)
    then have d: "md_datastore m1 = Some h" "\<not> md_closed m1" using wf1(2) by auto
    have nc: "\<not> md_closed m" using es Inr by (auto simp: ensure_session_def ensure_check_def bindS_def split: if_splits)
    have c1: "managed_call ?mo ?op (m1, s1) = (r, (m', s'))"
      using managed_call_split(2)[of ?mo m s h m1 s1 ?op] es c Inr d by simp
    obtain d0 t where h: "sk_sessions s1 ! h = (d0, t)" by fastforce
    obtain x d2 t2 k2 where x: "op (transport_for (traced pl) t) (d0, (t, sk_kernel s1)) = (x, (d2, (t2, k2)))" by (metis surj_pair)
    define s2 where "s2 = \<lparr>sk_sessions = (sk_sessions s1)[h := (d2, t2)], sk_kernel = k2\<rparr>"
    have ox: "?op h s1 = (x, s2)" using h x by (simp add: on_session_def s2_def)
    have ok: "host_ok d0" using live1 d h by (auto simp: live_session_def)
    obtain now s3 where k: "mo_clock ?mo s2 = (now, s3)" by fastforce
    obtain y s4 where e: "mo_exit ?mo h s3 = (y, s4)" by fastforce
    have log: "snd (sk_kernel s3) = snd k2" "snd (sk_kernel s4) = snd k2"
      using stack_ops_log(1)[OF k] stack_ops_log(2)[OF e] by (simp_all add: s2_def)
    have "snd (sk_kernel s') = snd k2 \<and> (\<forall>response. r = Inr response \<longrightarrow> x = Inr response)"
      using c1 managed_call_present[where op = ?op and mo = ?mo, OF wf1(1) d ox refl] k e log
      by (auto simp: s2_def split: sum.splits if_splits)
    then show thesis using op[OF ok x] ok o(1) nc
      by (intro that[of greeting] o keep disjI2 exI[of _ d0] exI[of _ "snd (sk_kernel s1)"] exI[of _ x]) auto
  qed
qed

text \<open>Callbacks that leave the record alone.\<close>

definition silent_callbacks :: "('k \<times> traffic) ut get_args \<Rightarrow> bool" where
  "silent_callbacks ga \<longleftrightarrow>
     (\<forall>f. ga_should_cancel ga = Some f \<longrightarrow> keepsS (\<lambda>s s'. snd (snd s') = snd (snd s)) f) \<and>
     (\<forall>f h. rm_read_started (ga_read_mode ga) = Some f \<longrightarrow> keepsS (\<lambda>s s'. snd (snd s') = snd (snd s)) (f h))"

text \<open>What one request on a session adds to the record \<open>l\<close>.\<close>

definition request_frames :: "(int \<Rightarrow> int \<Rightarrow> bytes result) \<Rightarrow> bytes list \<Rightarrow> bool" where
  "request_frames build fs \<longleftrightarrow>
     (\<exists>q n request acks. build q n = Inr request \<and> fs = request # acks \<and> list_all host_ack acks)"

abbreviation post_request_of :: "pystr \<Rightarrow> bytes \<Rightarrow> query_field_value option \<Rightarrow> int \<Rightarrow> int \<Rightarrow> bytes result" where
  "post_request_of path body client q n \<equiv> build_post_frame q n path body (lit ''NREK'') client"

abbreviation get_request_of :: "pystr \<Rightarrow> 'w get_args \<Rightarrow> int \<Rightarrow> int \<Rightarrow> bytes result" where
  "get_request_of path ga q n \<equiv> build_get_frame q n path (ga_etag ga) (lit ''NREK'') (ga_client ga) (ga_query_fields ga)"

definition post_traffic :: "pystr \<Rightarrow> bytes \<Rightarrow> query_field_value option \<Rightarrow> motu_session \<Rightarrow> traffic \<Rightarrow> bytes result \<Rightarrow> traffic \<Rightarrow> bool" where
  "post_traffic path body client d l q l' \<longleftrightarrow>
     fst l' = fst l \<and> (\<exists>e. q = Inl e) \<or>
     (\<exists>fs. fst l' = fst l @ fs \<and> request_frames (post_request_of path body client) fs)"

definition get_traffic :: "pystr \<Rightarrow> 'w get_args \<Rightarrow> motu_session \<Rightarrow> traffic \<Rightarrow> bytes result \<Rightarrow> traffic \<Rightarrow> bool" where
  "get_traffic path ga d l q l' \<longleftrightarrow>
     fst l' = fst l \<and> (\<exists>e. q = Inl e) \<or>
     (\<exists>n request acks. get_request_of path ga (hs_next (ms_host_seq d)) n = Inr request \<and>
        fst l' = fst l @ request # acks \<and> list_all host_ack acks \<and>
        (\<forall>response. q = Inr response \<longrightarrow> (\<exists>received. snd l' = snd l @ received \<and> authentic_response n received response)))"

lemma sess_post_traffic:
  assumes "host_ok d" "sess_post (transport_for (traced pl) t) path body client timeout_ms (d, (t, k)) = (q, (d', (t', k')))"
  shows "host_ok d' \<and> post_traffic path body client d (snd k) q (snd k')"
  using traffic.post_log[OF assms] unfolding post_traffic_def request_frames_def by (auto simp del: lit_simps)

lemma sess_get_traffic:
  assumes "silent_callbacks ga" "host_ok d" "sess_get (transport_for (traced pl) t) path ga (d, (t, k)) = (q, (d', (t', k')))"
  shows "host_ok d' \<and> get_traffic path ga d (snd k) q (snd k')"
proof -
  have "traffic.silent_args ga"
    using assms(1) by (auto simp: silent_callbacks_def traffic.silent_args_def traffic.silent_def traffic.silent_mode_def keepsS_def)
  from traffic.get_log[OF assms(2) this assms(3)] show ?thesis
    unfolding get_traffic_def by (auto simp del: lit_simps)
qed

lemma managed_post_frames:
  assumes "managed_wf m" "live_session (md_datastore m) s"
    and "managed_post sysfs (traced pl) c path body client timeout_ms (m, s) = (r, (m', s'))"
  obtains greeting posting where "frames_sent s' = frames_sent s @ greeting @ posting" "init_frames greeting"
    "md_datastore m \<noteq> None \<or> md_closed m \<longrightarrow> greeting = []" "managed_wf m'" "live_session (md_datastore m') s'"
    "posting = [] \<and> (\<exists>e. r = Inl e) \<or> \<not> md_closed m \<and> request_frames (post_request_of path body client) posting"
proof (rule call_log[OF assms(1,2) assms(3)[unfolded managed_post_def], where Q = "post_traffic path body client"])
  fix greeting
  assume g: "init_frames greeting" "md_datastore m \<noteq> None \<or> md_closed m \<longrightarrow> greeting = []"
      "managed_wf m'" "live_session (md_datastore m') s'"
    and cs: "frames_sent s' = frames_sent s @ greeting \<and> (\<exists>e. r = Inl e) \<or>
     (\<exists>d l q. host_ok d \<and> fst l = frames_sent s @ greeting \<and> post_traffic path body client d l q (snd (sk_kernel s')) \<and>
        \<not> md_closed m \<and> (\<forall>response. r = Inr response \<longrightarrow> q = Inr response))"
  have "\<exists>posting. frames_sent s' = frames_sent s @ greeting @ posting \<and>
      (posting = [] \<and> (\<exists>e. r = Inl e) \<or> \<not> md_closed m \<and> request_frames (post_request_of path body client) posting)"
    using cs by (cases r) (fastforce simp: post_traffic_def simp del: lit_simps)+
  then show thesis using that g by blast
qed (rule sess_post_traffic)

lemma managed_get_frames:
  assumes "managed_wf m" "live_session (md_datastore m) s" "silent_callbacks ga"
    and "managed_get sysfs (traced pl) c path ga (m, s) = (r, (m', s'))"
  obtains greeting reading where "frames_sent s' = frames_sent s @ greeting @ reading" "init_frames greeting"
    "md_datastore m \<noteq> None \<or> md_closed m \<longrightarrow> greeting = []" "managed_wf m'" "live_session (md_datastore m') s'"
    "reading = [] \<and> (\<exists>e. r = Inl e) \<or> \<not> md_closed m \<and> request_frames (get_request_of path ga) reading"
    "\<And>response. r = Inr response \<Longrightarrow> \<exists>q n received. get_request_of path ga q n = Inr (hd reading) \<and>
       suffix received (chunks_read s') \<and> authentic_response n received response"
proof (rule call_log[OF assms(1,2) assms(4)[unfolded managed_get_def], where Q = "get_traffic path ga"])
  fix greeting
  assume g: "init_frames greeting" "md_datastore m \<noteq> None \<or> md_closed m \<longrightarrow> greeting = []"
      "managed_wf m'" "live_session (md_datastore m') s'"
    and cs: "frames_sent s' = frames_sent s @ greeting \<and> (\<exists>e. r = Inl e) \<or>
     (\<exists>d l q. host_ok d \<and> fst l = frames_sent s @ greeting \<and> get_traffic path ga d l q (snd (sk_kernel s')) \<and>
        \<not> md_closed m \<and> (\<forall>response. r = Inr response \<longrightarrow> q = Inr response))"
  have "\<exists>reading. frames_sent s' = frames_sent s @ greeting @ reading \<and>
      (reading = [] \<and> (\<exists>e. r = Inl e) \<or> \<not> md_closed m \<and> request_frames (get_request_of path ga) reading) \<and>
      (\<forall>response. r = Inr response \<longrightarrow> (\<exists>q n received. get_request_of path ga q n = Inr (hd reading) \<and>
         suffix received (chunks_read s') \<and> authentic_response n received response))"
    using cs by (cases r) (fastforce simp: get_traffic_def request_frames_def suffix_def simp del: lit_simps)+
  then show thesis using that g by blast
qed (rule sess_get_traffic[OF assms(3)])

text \<open>C5: A write through the managed datastore is sent at most once, reconnects included. Whatever the device, the
  transport and the discovery do, the frames that leave the machine during \<open>post\<close> are: at most one \<open>init\<close> frame, and
  that only when a session had to be opened; then nothing (and \<open>post\<close> raises), or exactly one frame of this write
  followed only by acknowledgements. A closed datastore sends nothing. The state is fit for the next call.\<close>

theorem managed_post_once:
  assumes "managed_wf m" "live_session (md_datastore m) s"
    and "managed_post sysfs (traced pl) c path body client timeout_ms (m, s) = (r, (m', s'))"
  shows "managed_wf m' \<and> live_session (md_datastore m') s' \<and>
    (\<exists>greeting posting. frames_sent s' = frames_sent s @ greeting @ posting \<and> init_frames greeting \<and>
       (md_datastore m \<noteq> None \<or> md_closed m \<longrightarrow> greeting = []) \<and>
       (posting = [] \<and> (\<exists>e. r = Inl e) \<or>
        \<not> md_closed m \<and> request_frames (post_request_of path body client) posting))"
  by (rule managed_post_frames[OF assms]) blast

section \<open>The path of a web request\<close>

text \<open>
  The datastore behind the coordinator, for requests that own the device: they pass no callbacks to \<open>get\<close>, so the
  arguments are those of a plain read. \<open>log_line\<close> prints a poller error.
\<close>

definition foreground_args :: "'v get_args \<Rightarrow> 'w get_args" where
  "foreground_args ga =
     \<lparr>ga_etag = ga_etag ga, ga_client = ga_client ga, ga_timeout_ms = ga_timeout_ms ga, ga_should_cancel = None,
      ga_read_timeout_slice_ms = ga_read_timeout_slice_ms ga, ga_read_mode = plain_read, ga_query_fields = ga_query_fields ga\<rparr>"

definition on_datastore :: "('w, 'a) sop \<Rightarrow> ('w, 'a) cop" where
  "on_datastore op = (\<lambda>(co, w). case op w of (r, w') \<Rightarrow> (r, (co, w')))"

definition service_ops ::
    "('k \<Rightarrow> fs) \<Rightarrow> 'k platform \<Rightarrow> datastore_config \<Rightarrow> (exc \<Rightarrow> pystr \<times> pystr) \<Rightarrow> (pystr \<times> pystr \<Rightarrow> 'k \<Rightarrow> 'k) \<Rightarrow>
     (managed \<times> 'k stack) datastore_ops" where
  "service_ops sysfs pl c render log_line =
     \<lparr>do_get = (\<lambda>path ga. on_datastore (managed_get sysfs pl c path (foreground_args ga))),
      do_post = (\<lambda>path body client. on_datastore (managed_post sysfs pl c path body client DEFAULT_RESPONSE_TIMEOUT_MS)),
      do_session_generation = (\<lambda>(m, s). md_session_generation m),
      do_last_response_payload = managed_last_response_payload (stack_ops sysfs pl c),
      do_last_response_etag = managed_last_response_etag (stack_ops sysfs pl c),
      do_cancel = (\<lambda>_. retS ()),
      do_monotonic = (\<lambda>(m, s). case pl_clock pl (sk_kernel s) of (now, k) \<Rightarrow> (now, (m, s\<lparr>sk_kernel := k\<rparr>))),
      do_exc_key = render,
      do_log = (\<lambda>key (m, s). (m, s\<lparr>sk_kernel := log_line key (sk_kernel s)\<rparr>))\<rparr>"

text \<open>\<open>coordinator.post\<close> as the server runs it, from the acquisition of the device to its release.\<close>

definition served_post ::
    "(managed \<times> 'k stack) datastore_ops \<Rightarrow> pystr \<Rightarrow> bytes \<Rightarrow> pystr option \<Rightarrow> (coordinator \<times> managed \<times> 'k stack, run_result) sop" where
  "served_post dso path body client =
     bindS (coordinator_post_owned dso path body (map_option QStr client)) (\<lambda>payload. retS (Payload payload))"

definition traced_log :: "(pystr \<times> pystr \<Rightarrow> 'k \<Rightarrow> 'k) \<Rightarrow> pystr \<times> pystr \<Rightarrow> 'k \<times> traffic \<Rightarrow> 'k \<times> traffic" where
  "traced_log log_line key = (\<lambda>(k, l). (log_line key k, l))"

text \<open>The refresh of the poll path that follows a write.\<close>

definition refresh_frames :: "pystr \<Rightarrow> bytes list \<Rightarrow> bool" where
  "refresh_frames path fs \<longleftrightarrow>
     (\<exists>greeting reading. fs = greeting @ reading \<and> init_frames greeting \<and>
        (reading = [] \<or> request_frames (\<lambda>q n. build_get_frame q n path (lit ''0'') (lit ''NREK'') None NoFields) reading))"

text \<open>Steps of the coordinator that leave the datastore and the record alone.\<close>

definition same_traffic :: "coordinator \<times> managed \<times> ('k \<times> traffic) stack \<Rightarrow> coordinator \<times> managed \<times> ('k \<times> traffic) stack \<Rightarrow> bool" where
  "same_traffic s s' \<longleftrightarrow>
     (case (s, s') of ((co, m, w), (co', m', w')) \<Rightarrow> m' = m \<and> co_poll_path co' = co_poll_path co \<and>
        sk_sessions w' = sk_sessions w \<and> snd (sk_kernel w') = snd (sk_kernel w))"

lemma same_traffic_order: "reflp same_traffic" "transp same_traffic"
  by (auto simp: reflp_def transp_def same_traffic_def split: prod.splits)

lemma modC_traffic: "(\<And>c. co_poll_path (f c) = co_poll_path c) \<Longrightarrow> keepsS same_traffic (modC f)"
  by (auto simp: keepsS_def modC_def same_traffic_def split: prod.splits)

lemma poll_path_kept [simp]:
  "co_poll_path (release_io c) = co_poll_path c" "co_poll_path (clear_poller_error c) = co_poll_path c"
  "co_poll_path (reset_if_session_generation_changed g c) = co_poll_path c"
  "co_poll_path (publish_payload p org f b c) = co_poll_path c"
  "co_poll_path (snd (record_poller_error e key now c)) = co_poll_path c"
  by (auto simp: release_io_def clear_poller_error_def reset_if_session_generation_changed_def publish_payload_def Let_def
      record_poller_error_def split: option.splits)

text \<open>The whole service on a machine that records.\<close>

abbreviation traced_ops where
  "traced_ops sysfs pl c render log_line \<equiv> service_ops sysfs (traced pl) c render (traced_log log_line)"

lemma reset_traffic: "keepsS same_traffic (reset_generation dso)"
  by (auto simp: keepsS_def reset_generation_def same_traffic_def split: prod.splits)

lemma payload_traffic: "keepsS same_traffic (payload_from_response dso response)"
  unfolding payload_from_response_def
  by (rule keepsS_bindS[OF same_traffic_order(2) reset_traffic])
    (auto simp: keepsS_def same_traffic_def split: prod.splits sum.splits)

lemma record_error_traffic: "keepsS same_traffic (record_error (traced_ops sysfs pl c render log_line) e)"
proof -
  have "same_traffic (co, m, s) (snd (record_error (traced_ops sysfs pl c render log_line) e (co, m, s)))" for co m s
  proof -
    obtain k l where k: "sk_kernel s = (k, l)" by (metis surj_pair)
    obtain now k' where n: "pl_clock pl k = (now, k')" by fastforce
    obtain b co' where b: "record_poller_error e (render e) now co = (b, co')" by fastforce
    have "co_poll_path co' = co_poll_path co" using poll_path_kept(5)[of e "render e" now co] b by simp
    then show ?thesis using k n b
      by (cases b) (auto simp: record_error_def service_ops_def traced_def traced_log_def same_traffic_def)
  qed
  then show ?thesis by (auto simp: keepsS_def)
qed

lemma foreground_silent: "silent_callbacks (foreground_args ga)"
  by (simp add: silent_callbacks_def foreground_args_def plain_read_def)

lemma refresh_traffic:
  assumes wf: "managed_wf m" "live_session (md_datastore m) s"
    and run: "read_locked (traced_ops sysfs pl c render log_line) path (lit ''0'') None timeout_ms None (co, (m, s)) = (r, (co', (m', s')))"
  shows "co_poll_path co' = co_poll_path co \<and> (\<exists>after. frames_sent s' = frames_sent s @ after \<and> refresh_frames path after)"
proof -
  let ?ga = "foreground_args (foreground_get_args (lit ''0'') None timeout_ms None :: (coordinator \<times> managed \<times> ('a \<times> traffic) stack) get_args)
    :: ('a \<times> traffic) ut get_args"
  obtain q m1 s1 where g: "managed_get sysfs (traced pl) c path ?ga (m, s) = (q, (m1, s1))" by (metis surj_pair)
  have req: "get_request_of path ?ga = (\<lambda>q n. build_get_frame q n path (lit ''0'') (lit ''NREK'') None NoFields)"
    by (simp add: foreground_args_def foreground_get_args_def device_query_fields_def default_get_args_def fun_eq_iff del: lit_simps)
  obtain greeting reading where f: "frames_sent s1 = frames_sent s @ greeting @ reading" "init_frames greeting"
      "reading = [] \<or> request_frames (get_request_of path ?ga) reading"
    by (rule managed_get_frames[OF wf foreground_silent g]) blast
  have rf: "refresh_frames path (greeting @ reading)" using f(2,3) unfolding req refresh_frames_def by blast
  let ?dso = "traced_ops sysfs pl c render log_line"
  have do: "do_get ?dso path (foreground_get_args (lit ''0'') None timeout_ms None) (co, (m, s)) = (q, (co, (m1, s1)))"
    using g by (simp add: service_ops_def on_datastore_def del: lit_simps)
  have "same_traffic (co, (m1, s1)) (co', (m', s'))"
  proof (cases q)
    case (Inl e)
    then show ?thesis using run do reflpD[OF same_traffic_order(1)] by (auto simp: read_locked_def bindS_def simp del: lit_simps)
  next
    case (Inr response)
    have "keepsS same_traffic (bindS (reset_generation ?dso) (\<lambda>_. payload_from_response ?dso response))"
      by (intro keeps_intros same_traffic_order reset_traffic payload_traffic)
    then have "same_traffic (co, (m1, s1)) (snd (bindS (reset_generation ?dso) (\<lambda>_. payload_from_response ?dso response) (co, (m1, s1))))"
      unfolding keepsS_def by blast
    then show ?thesis using run do Inr by (simp add: read_locked_def bindS_apply(2)[where m = "do_get ?dso path (foreground_get_args (lit ''0'') None timeout_ms None)", OF do[unfolded Inr]] del: lit_simps)
  qed
  then show ?thesis using f(1) rf by (auto simp: same_traffic_def)
qed


lemma quadruple: obtains a b c d where "x = (a, (b, (c, d)))"
  by (cases x) auto

lemma keepsS_at: "keepsS R m \<Longrightarrow> m s = (r, t) \<Longrightarrow> R s t"
  unfolding keepsS_def by (metis snd_conv)

lemma refresh_step_traffic:
  assumes wf: "managed_wf m" "live_session (md_datastore m) s"
    and run: "(case bindS (read_locked (traced_ops sysfs pl c render log_line) path (lit ''0'') None timeout_ms None)
        (\<lambda>refresh. bindS (modC clear_poller_error) (\<lambda>_. retS refresh)) (co, (m, s)) of
          (Inl e, t) \<Rightarrow> record_error (traced_ops sysfs pl c render log_line) e t
        | (Inr refresh, t) \<Rightarrow> modC (publish_payload refresh org None True) t) = (r, (co', (m', s')))"
  shows "\<exists>after. frames_sent s' = frames_sent s @ after \<and> refresh_frames path after"
proof -
  let ?dso = "traced_ops sysfs pl c render log_line"
  obtain q co1 m1 s1 where rd: "read_locked ?dso path (lit ''0'') None timeout_ms None (co, (m, s)) = (q, (co1, (m1, s1)))"
    by (metis surj_pair)
  obtain after where a: "frames_sent s1 = frames_sent s @ after" "refresh_frames path after"
    using refresh_traffic[OF wf rd] by blast
  have "same_traffic (co1, (m1, s1)) (co', (m', s'))"
  proof (cases q)
    case (Inl e)
    then have "record_error ?dso e (co1, (m1, s1)) = (r, (co', (m', s')))"
      using run by (simp add: bindS_apply(1)[where m = "read_locked ?dso path (lit ''0'') None timeout_ms None", OF rd[unfolded Inl]] del: lit_simps)
    then show ?thesis by (rule keepsS_at[OF record_error_traffic])
  next
    case (Inr refresh)
    then have "bindS (modC clear_poller_error) (\<lambda>_. modC (publish_payload refresh org None True)) (co1, (m1, s1)) = (r, (co', (m', s')))"
      using run by (simp add: bindS_apply(2)[where m = "read_locked ?dso path (lit ''0'') None timeout_ms None", OF rd[unfolded Inr]] modC_def del: lit_simps)
    moreover have "keepsS same_traffic (bindS (modC clear_poller_error)
        (\<lambda>_. modC (publish_payload refresh org None True)) :: (coordinator \<times> managed \<times> ('a \<times> traffic) stack, unit) sop)"
      by (intro keeps_intros same_traffic_order modC_traffic) simp_all
    ultimately show ?thesis by (rule keepsS_at[rotated])
  qed
  then show ?thesis using a by (auto simp: same_traffic_def)
qed

lemma finally_release: "finallyS m (modC release_io) s = (case m s of (x, (co, w)) \<Rightarrow> (x, (release_io co, w)))"
  by (auto simp: finallyS_def modC_def split: prod.splits)

lemma served_post_frames:
  assumes wf: "managed_wf m" "live_session (md_datastore m) s"
    and run: "served_post (traced_ops sysfs pl c render log_line) path body client (co, (m, s)) = (r, (co', (m', s')))"
  shows "\<exists>greeting posting after. frames_sent s' = frames_sent s @ greeting @ posting @ after \<and> init_frames greeting \<and>
    (posting = [] \<and> after = [] \<and> (\<exists>e. r = Inl e) \<or>
     \<not> md_closed m \<and> request_frames (post_request_of path body (map_option QStr client)) posting \<and>
     refresh_frames (co_poll_path co) after)"
proof -
  let ?dso = "traced_ops sysfs pl c render log_line" and ?cl = "map_option QStr client"
  obtain q m1 s1 where p: "managed_post sysfs (traced pl) c path body ?cl DEFAULT_RESPONSE_TIMEOUT_MS (m, s) = (q, (m1, s1))"
    by (metis surj_pair)
  obtain greeting posting where f: "frames_sent s1 = frames_sent s @ greeting @ posting" "init_frames greeting"
      "managed_wf m1" "live_session (md_datastore m1) s1"
      "posting = [] \<and> (\<exists>e. q = Inl e) \<or> \<not> md_closed m \<and> request_frames (post_request_of path body ?cl) posting"
    by (rule managed_post_frames[OF wf p]) blast
  have do: "do_post ?dso path body ?cl (co, (m, s)) = (q, (co, (m1, s1)))"
    using p by (simp add: service_ops_def on_datastore_def)
  have none: "refresh_frames path' []" for path' by (simp add: refresh_frames_def init_frames_def)
  have "\<exists>after. frames_sent s' = frames_sent s1 @ after \<and> refresh_frames (co_poll_path co) after \<and>
      ((\<exists>e. q = Inl e) \<longrightarrow> after = [] \<and> (\<exists>e. r = Inl e))"
  proof (cases q)
    case (Inl e)
    then show ?thesis using run none unfolding served_post_def coordinator_post_owned_def
      by (auto simp: bindS_def[of "finallyS _ _"] finally_release bindS_apply(1)[where m = "do_post ?dso path body ?cl", OF do[unfolded Inl]] del: lit_simps)
  next
    case (Inr response)
    obtain y co2 m2 s2 where y: "payload_from_response ?dso response (co, (m1, s1)) = (y, (co2, (m2, s2)))" by (metis surj_pair)
    have same: "m2 = m1" "co_poll_path co2 = co_poll_path co" "sk_sessions s2 = sk_sessions s1" "frames_sent s2 = frames_sent s1"
      using keepsS_at[OF payload_traffic y] by (auto simp: same_traffic_def)
    show ?thesis
    proof (cases y)
      case y': (Inl e)
      then show ?thesis using run none same Inr unfolding served_post_def coordinator_post_owned_def
        by (simp add: bindS_def[of "finallyS _ _"] finally_release bindS_apply(2)[where m = "do_post ?dso path body ?cl", OF do[unfolded Inr]] bindS_apply(1)[where m = "payload_from_response ?dso response", OF y[unfolded y']] del: lit_simps)
    next
      case y': (Inr payload)
      let ?step = "case bindS (read_locked ?dso (co_poll_path co2) (lit ''0'') None DEFAULT_RESPONSE_TIMEOUT_MS None)
        (\<lambda>refresh. bindS (modC clear_poller_error) (\<lambda>_. retS refresh)) (co2, (m2, s2)) of
          (Inl e, t) \<Rightarrow> record_error ?dso e t
        | (Inr refresh, t) \<Rightarrow> modC (publish_payload refresh (client_string ?cl) None True) t"
      obtain z co3 m3 s3 where z: "?step = (z, (co3, (m3, s3)))" by (rule quadruple[of ?step])
      have live2: "live_session (md_datastore m2) s2" using f(4) same by (simp add: live_session_def)
      obtain after where a: "frames_sent s3 = frames_sent s2 @ after" "refresh_frames (co_poll_path co2) after"
        using refresh_step_traffic[OF _ live2 z] f(3) same(1) by blast
      define G :: "(coordinator \<times> managed \<times> ('a \<times> traffic) stack, unit) sop" where
        "G = (\<lambda>(c, w). case bindS (read_locked ?dso (co_poll_path c) (lit ''0'') None DEFAULT_RESPONSE_TIMEOUT_MS None)
          (\<lambda>refresh. bindS (modC clear_poller_error) (\<lambda>_. retS refresh)) (c, w) of
            (Inl e, t) \<Rightarrow> record_error ?dso e t
          | (Inr refresh, t) \<Rightarrow> modC (publish_payload refresh (client_string ?cl) None True) t)"
      have "G (co2, (m2, s2)) = (z, (co3, (m3, s3)))" unfolding G_def prod.case by (rule z)
      then obtain z' where g: "bindS G (\<lambda>_. retS payload) (co2, (m2, s2)) = (z', (co3, (m3, s3)))"
        by (cases z) (simp_all add: bindS_def)
      have "coordinator_post_owned ?dso path body ?cl (co, (m, s)) = (z', (release_io co3, (m3, s3)))"
        unfolding coordinator_post_owned_def G_def[symmetric] finally_release
          bindS_apply(2)[where m = "do_post ?dso path body ?cl", OF do[unfolded Inr]]
          bindS_apply(2)[where m = "payload_from_response ?dso response", OF y[unfolded y']] g by simp
      then have "frames_sent s' = frames_sent s3" using run by (cases z') (simp_all add: served_post_def bindS_def)
      then show ?thesis using a same Inr by auto
    qed
  qed
  then obtain after where a: "frames_sent s' = frames_sent s1 @ after" "refresh_frames (co_poll_path co) after"
    "(\<exists>e. q = Inl e) \<longrightarrow> after = [] \<and> (\<exists>e. r = Inl e)" by (elim exE conjE) (rule that)
  show ?thesis
  proof (rule exI[of _ greeting], rule exI[of _ posting], rule exI[of _ after], intro conjI)
    show "frames_sent s' = frames_sent s @ greeting @ posting @ after" using a(1) f(1) by simp
    show "init_frames greeting" by (rule f(2))
    show "posting = [] \<and> after = [] \<and> (\<exists>e. r = Inl e) \<or>
        \<not> md_closed m \<and> request_frames (post_request_of path body ?cl) posting \<and> refresh_frames (co_poll_path co) after"
      using f(5) a(2,3) by blast
  qed
qed

text \<open>A log of write attempts that only prints.\<close>

definition logs_only :: "(coordinator \<times> managed \<times> ('k \<times> traffic) stack) backend \<Rightarrow> bool" where
  "logs_only be \<longleftrightarrow> (\<forall>logger method path body. log_write be = Some logger \<longrightarrow> keepsS same_traffic (logger method path body))"

text \<open>C4: A web request writes at most once and only what was checked, from the socket to the wire. A request other
  than GET that is dispatched to the coordinator, the managed datastore, the session and the transport either sends
  nothing and raises, or it is authorised, its path is a datastore path and its body passed every check; then at most an
  \<open>init\<close> frame, at most one write frame (with exactly that path, those bytes and that client) and its
  acknowledgements, and the frames of one read of the poll path leave the machine. If no write frame was sent the request
  raises and nothing follows.\<close>

theorem web_write_sent_once:
  assumes "method \<noteq> GET" "logs_only be"
    and "run_post be = served_post (service_ops sysfs (traced pl) c render (traced_log log_line))"
    and wf: "managed_wf m" "live_session (md_datastore m) s"
    and run: "dispatch_datastore_request env cfg be method request_path raw_body content_type origin host request_token inm
      (co, (m, s)) = (r, (co', (m', s')))"
  shows "(\<exists>e. r = Inl e) \<and> frames_sent s' = frames_sent s \<or>
    write_authorised env cfg origin host request_token \<and>
    (\<exists>path text body client greeting posting after.
       device_path path \<and> body_accepted env cfg path text body client \<and>
       parse_write_body raw_body content_type = Inr text \<and> parse_client_query env request_path = Inr client \<and>
       frames_sent s' = frames_sent s @ greeting @ posting @ after \<and> init_frames greeting \<and>
       (posting = [] \<and> after = [] \<and> (\<exists>e. r = Inl e) \<or>
        \<not> md_closed m \<and> request_frames (post_request_of path body (map_option QStr client)) posting \<and>
        refresh_frames (co_poll_path co) after))"
  using write_gate_cases[OF assms(1), of env cfg be request_path raw_body content_type origin host request_token inm]
proof (elim disjE exE conjE)
  fix e assume "\<forall>s. dispatch_datastore_request env cfg be method request_path raw_body content_type origin host request_token inm s = (Inl e, s)"
  then have "r = Inl e" "s' = s" using run by auto
  then show ?thesis by blast
next
  fix path t body client
  assume a: "device_path path" "write_authorised env cfg origin host request_token"
    "parse_write_body raw_body content_type = Inr t" "body_accepted env cfg path t body client"
    "parse_client_query env request_path = Inr client"
    and eq: "dispatch_datastore_request env cfg be method request_path raw_body content_type origin host request_token inm =
         bindS (case log_write be of None \<Rightarrow> retS () | Some logger \<Rightarrow> logger method path body) (\<lambda>_.
         bindS (run_post be path body client) (\<lambda>res.
         retS \<lparr>dr_response = dp_body (coerce_datastore_payload res), dr_path = path,
               dr_etag = dp_etag (coerce_datastore_payload res), dr_status = 200,
               dr_content_type = dp_content_type (coerce_datastore_payload res)\<rparr>))"
  let ?log = "case log_write be of None \<Rightarrow> retS () | Some logger \<Rightarrow> logger method path body"
  obtain x co1 m1 s1 where l: "?log (co, (m, s)) = (x, (co1, (m1, s1)))" by (metis surj_pair)
  have "keepsS same_traffic ?log" using assms(2)
    by (cases "log_write be") (auto simp: logs_only_def intro: keepsS_pure(1)[OF same_traffic_order(1)])
  from keepsS_at[OF this l] have same: "m1 = m" "co_poll_path co1 = co_poll_path co" "sk_sessions s1 = sk_sessions s" "frames_sent s1 = frames_sent s"
    by (auto simp: same_traffic_def)
  show ?thesis
  proof (cases x)
    case (Inl e)
    then show ?thesis using run same unfolding eq by (auto simp: bindS_apply(1)[where m = ?log, OF l[unfolded Inl]])
  next
    case (Inr u)
    obtain y co2 m2 s2 where p: "run_post be path body client (co1, (m1, s1)) = (y, (co2, (m2, s2)))" by (metis surj_pair)
    have live1: "live_session (md_datastore m1) s1" using wf same by (simp add: live_session_def)
    have "(\<exists>e. r = Inl e) \<longleftrightarrow> (\<exists>e. y = Inl e)" "s' = s2"
      using run unfolding eq by (cases y; auto simp: bindS_apply(2)[where m = ?log, OF l[unfolded Inr]] bindS_def[of "run_post _ _ _ _"] p)+
    moreover obtain greeting posting after where "frames_sent s2 = frames_sent s1 @ greeting @ posting @ after" "init_frames greeting"
      "posting = [] \<and> after = [] \<and> (\<exists>e. y = Inl e) \<or>
       \<not> md_closed m1 \<and> request_frames (post_request_of path body (map_option QStr client)) posting \<and> refresh_frames (co_poll_path co1) after"
      using served_post_frames[OF wf(1)[folded same(1)] live1 p[unfolded assms(3)]] by blast
    ultimately show ?thesis using a same by metis
  qed
qed

text \<open>A machine with a device that takes every frame and answers nothing; its world is the list of its open files.\<close>

definition mute_platform :: "int list platform" where
  "mute_platform = demo_platform\<lparr>pl_sys := (pl_sys demo_platform)
     \<lparr>sys_bulk_out := \<lambda>_ _ data _ k. (Inr (int (length data)), k), sys_bulk_in := \<lambda>_ _ _ _ k. (Inl (OSError ETIMEDOUT), k)\<rparr>\<rparr>"

lemma fresh_live: "live_session (md_datastore fresh_managed) (fresh_stack k)"
  by (simp add: live_session_def fresh_managed_ok)

theorem managed_post_once_witness:
  "\<exists>r m' s' greeting posting.
     managed_post (\<lambda>_. demo_fs) (traced mute_platform) demo_config (lit ''/datastore/uid'') (blit ''{}'') None 600
       (fresh_managed, fresh_stack ([5], [], [])) = (r, (m', s')) \<and>
     frames_sent s' = greeting @ posting \<and> init_frames greeting \<and>
     (posting = [] \<or> request_frames (post_request_of (lit ''/datastore/uid'') (blit ''{}'') None) posting)"
proof -
  obtain r m' s' where p: "managed_post (\<lambda>_. demo_fs) (traced mute_platform) demo_config (lit ''/datastore/uid'') (blit ''{}'') None 600
       (fresh_managed, fresh_stack ([5], [], [])) = (r, (m', s'))" by (metis surj_pair)
  have "frames_sent (fresh_stack ([5], [], [])) = []" by (simp add: fresh_stack_def)
  then show ?thesis using managed_post_once[OF fresh_managed_ok(1) fresh_live p] p by (metis append_Nil)
qed

definition web_backend :: "(coordinator \<times> managed \<times> (int list \<times> traffic) stack) backend" where
  "web_backend = \<lparr>run_get = (\<lambda>_ _ _ _. raiseS RuntimeError),
     run_post = served_post (service_ops (\<lambda>_. demo_fs) (traced mute_platform) demo_config (\<lambda>_. ([], [])) (traced_log (\<lambda>_ k. k))),
     log_write = None, status_provider = None\<rparr>"

theorem web_write_sent_once_witness:
  "\<exists>e co' m' s'. dispatch_datastore_request any_env demo_dispatcher web_backend (lit ''POST'') (lit ''/datastore/host/os'')
     (lit ''{}'') [] None (Some (lit ''localhost'')) None None (coordinator_init True 1, (fresh_managed, fresh_stack ([5], [], []))) =
       (Inl e, (co', (m', s'))) \<and> frames_sent s' = []"
proof -
  have m: "lit ''POST'' \<noteq> GET" by (simp add: GET_def)
  have lo: "logs_only web_backend" by (simp add: logs_only_def web_backend_def)
  have rp: "run_post web_backend = served_post (service_ops (\<lambda>_. demo_fs) (traced mute_platform) demo_config (\<lambda>_. ([], [])) (traced_log (\<lambda>_ k. k)))"
    by (simp add: web_backend_def)
  obtain r co' m' s' where d: "dispatch_datastore_request any_env demo_dispatcher web_backend (lit ''POST'') (lit ''/datastore/host/os'')
     (lit ''{}'') [] None (Some (lit ''localhost'')) None None (coordinator_init True 1, (fresh_managed, fresh_stack ([5], [], []))) = (r, (co', (m', s')))"
    by (rule quadruple)
  have "\<not> write_authorised any_env demo_dispatcher None (Some (lit ''localhost'')) None"
    by (simp add: write_authorised_def demo_dispatcher_def truthy_def del: lit_simps)
  then have "(\<exists>e. r = Inl e) \<and> frames_sent s' = frames_sent (fresh_stack ([5], [], []) :: (int list \<times> traffic) stack)"
    using web_write_sent_once[OF m lo rp fresh_managed_ok(1) fresh_live d] by blast
  then show ?thesis using d by (auto simp: fresh_stack_def)
qed

end
