(* ===== verification/Motu_Wait.thy ===== *)
theory Motu_Wait
  imports Motu_Coordinator
begin

text \<open>
  The blocking calls of \<open>DatastoreCoordinator\<close> (\<^verbatim>\<open>motu_proxy/datastore.py\<close>) as one thread runs them: acquiring the
  device, \<open>read\<close>, \<open>post\<close>, \<open>get\<close>, \<open>wait_for_change\<close>, the poller's loop, \<open>start\<close> and \<open>close\<close>. \<open>wait\<close> is
  \<open>Condition.wait\<close> with its time-out: other threads run there, and in the operations of the datastore, and may change
  the coordinator in any way. The loops are \<^theory_text>\<open>partial_function (option)\<close>, since a call may block for ever.
\<close>

text \<open>A call that may block for ever: \<open>None\<close> is a call that does not return.\<close>

type_synonym ('w, 'a) blocking = "coordinator \<times> 'w \<Rightarrow> ('a result \<times> coordinator \<times> 'w) option"

definition returning :: "('w, 'a) cop \<Rightarrow> ('w, 'a) blocking" where
  "returning m = (\<lambda>s. Some (m s))"

definition bindB :: "('w, 'a) blocking \<Rightarrow> ('a \<Rightarrow> ('w, 'b) blocking) \<Rightarrow> ('w, 'b) blocking" where
  "bindB m f = (\<lambda>s. case m s of
     None \<Rightarrow> None
   | Some (Inl e, t) \<Rightarrow> Some (Inl e, t)
   | Some (Inr x, t) \<Rightarrow> f x t)"

definition finallyB :: "('w, 'a) blocking \<Rightarrow> (coordinator \<Rightarrow> coordinator) \<Rightarrow> ('w, 'a) blocking" where
  "finallyB m f = (\<lambda>s. case m s of None \<Rightarrow> None | Some (r, (c, w)) \<Rightarrow> Some (r, (f c, w)))"

section \<open>Acquiring the device\<close>

text \<open>
  One test of the loop of \<open>_acquire_foreground_io\<close>: \<open>None\<close> when the device is acquired, else the preemption deadline for
  the next test. The cancellation runs before the clock is read.
\<close>

definition acquire_round ::
    "'w datastore_ops \<Rightarrow> (rat option \<Rightarrow> ('w, unit) cop) \<Rightarrow> rat option \<Rightarrow> ('w, rat option option) cop" where
  "acquire_round dso wait deadline = (\<lambda>(c, w).
     if \<not> co_io_busy c then (Inr None, (c\<lparr>co_io_busy := True, co_io_owner := Some OwnerForeground\<rparr>, w))
     else if co_io_owner c = Some OwnerPoller then
       (case request_active_poll_cancel_locked c of (h, c1) \<Rightarrow>
          bindS (case h of None \<Rightarrow> retS () | Some h \<Rightarrow> do_cancel dso h) (\<lambda>_ (c, w).
            case (if h \<noteq> None \<and> deadline = None
                  then (case do_monotonic dso w of (now, w) \<Rightarrow> (Some (now + of_int (co_foreground_preemption_budget_ms c) / 1000), w))
                  else (deadline, w)) of (preemption_deadline, w) \<Rightarrow>
              (case preemption_deadline of
                 None \<Rightarrow> bindS (wait None) (\<lambda>_. retS (Some None)) (c, w)
               | Some d \<Rightarrow>
                   (case do_monotonic dso w of (now, w) \<Rightarrow>
                      if d - now \<le> 0 then (Inl DatastoreTimeout, (c, w))
                      else bindS (wait (Some (d - now))) (\<lambda>_. retS (Some (Some d))) (c, w)))) (c1, w))
     else bindS (wait None) (\<lambda>_. retS (Some deadline)) (c, w))"

partial_function (option) acquire_loop ::
    "'w datastore_ops \<Rightarrow> (rat option \<Rightarrow> ('w, unit) cop) \<Rightarrow> rat option \<Rightarrow> ('w, unit) blocking" where
  "acquire_loop dso wait deadline s =
     (case acquire_round dso wait deadline s of
        (Inl e, t) \<Rightarrow> Some (Inl e, t)
      | (Inr None, t) \<Rightarrow> Some (Inr (), t)
      | (Inr (Some d), t) \<Rightarrow> acquire_loop dso wait d t)"

definition acquire_foreground_io ::
    "'w datastore_ops \<Rightarrow> (rat option \<Rightarrow> ('w, unit) cop) \<Rightarrow> ('w, unit) blocking" where
  "acquire_foreground_io dso wait =
     bindB (returning (modC foreground_enter)) (\<lambda>_. finallyB (acquire_loop dso wait None) foreground_leave)"

text \<open>\<open>_acquire_poller_io\<close>\<close>

partial_function (option) acquire_poller_io ::
    "(rat option \<Rightarrow> ('w, unit) cop) \<Rightarrow> ('w, bool) blocking" where
  "acquire_poller_io wait s =
     (case poller_check (fst s) of
        Some (b, c) \<Rightarrow> Some (Inr b, (c, snd s))
      | None \<Rightarrow> (case wait None s of (Inl e, t) \<Rightarrow> Some (Inl e, t) | (Inr _, t) \<Rightarrow> acquire_poller_io wait t))"

section \<open>Requests\<close>

definition coordinator_read ::
    "'w datastore_ops \<Rightarrow> (rat option \<Rightarrow> ('w, unit) cop) \<Rightarrow> pystr \<Rightarrow> pystr \<Rightarrow> query_field_value option \<Rightarrow> int \<Rightarrow>
     query_field list option \<Rightarrow> ('w, datastore_payload) blocking" where
  "coordinator_read dso wait path etag client timeout_ms flds =
     bindB (acquire_foreground_io dso wait) (\<lambda>_. returning (coordinator_read_owned dso path etag client timeout_ms flds))"

definition coordinator_post ::
    "'w datastore_ops \<Rightarrow> (rat option \<Rightarrow> ('w, unit) cop) \<Rightarrow> pystr \<Rightarrow> bytes \<Rightarrow> query_field_value option \<Rightarrow>
     ('w, datastore_payload) blocking" where
  "coordinator_post dso wait path json_body client =
     bindB (acquire_foreground_io dso wait) (\<lambda>_. returning (coordinator_post_owned dso path json_body client))"

section \<open>Waiting for a change\<close>

text \<open>The readings of the clock in one round.\<close>

definition wait_clocks :: "'w datastore_ops \<Rightarrow> pystr \<Rightarrow> pystr option \<Rightarrow> rat \<Rightarrow> coordinator \<Rightarrow> 'w \<Rightarrow> rat \<times> rat \<times> 'w" where
  "wait_clocks dso etag client_id deadline c w =
     (if find_wait_outcome_locked etag client_id c \<noteq> (None, False) then (0, 0, w)
      else case do_monotonic dso w of (now1, w) \<Rightarrow>
        if deadline - now1 \<le> 0 \<or> co_closed c \<or> co_native_long_poll_available c then (now1, now1, w)
        else case do_monotonic dso w of (now, w) \<Rightarrow> (now1, now, w))"

text \<open>The refresh of the poll path in a round without native long polling: these three errors are only recorded.\<close>

definition degraded_refresh ::
    "'w datastore_ops \<Rightarrow> (rat option \<Rightarrow> ('w, unit) cop) \<Rightarrow> int \<Rightarrow> ('w, unit) blocking" where
  "degraded_refresh dso wait timeout_ms =
     finallyB
       (\<lambda>(c, w). case coordinator_read dso wait (co_poll_path c) (lit ''0'') None timeout_ms None (c, w) of
          None \<Rightarrow> None
        | Some (Inr _, t) \<Rightarrow> Some (modC clear_poller_error t)
        | Some (Inl e, t) \<Rightarrow>
            if e \<in> {DatastoreDeviceUnavailable, DatastoreNoResponse, DatastoreTimeout}
            then Some (record_error dso e t) else Some (Inl e, t))
       refresh_done"

text \<open>One round: \<open>Some\<close> leaves the loop, with a payload or (\<open>None\<close>) for a read of the device.\<close>

definition wait_round ::
    "'w datastore_ops \<Rightarrow> (rat option \<Rightarrow> ('w, unit) cop) \<Rightarrow> pystr \<Rightarrow> pystr \<Rightarrow> pystr option \<Rightarrow> bool \<Rightarrow> rat \<Rightarrow>
     ('w, datastore_payload option option) blocking" where
  "wait_round dso wait path etag client_id cacheable deadline = (\<lambda>(c, w).
     case wait_clocks dso etag client_id deadline c w of (now1, now, w) \<Rightarrow>
       (case wait_check path etag client_id cacheable deadline now1 now c of
          WaitCached p \<Rightarrow> Some (Inr (Some (Some p)), (c, w))
        | WaitReadDevice \<Rightarrow> Some (Inr (Some None), (c, w))
        | WaitNotModified p \<Rightarrow> Some (Inr (Some (Some p)), (c, w))
        | WaitFor t \<Rightarrow> returning (bindS (wait (Some t)) (\<lambda>_. retS None)) (c, w)
        | WaitRefresh ms c' \<Rightarrow> bindB (degraded_refresh dso wait ms) (\<lambda>_. returning (retS None)) (c', w)))"

partial_function (option) wait_loop ::
    "'w datastore_ops \<Rightarrow> (rat option \<Rightarrow> ('w, unit) cop) \<Rightarrow> pystr \<Rightarrow> pystr \<Rightarrow> pystr option \<Rightarrow> bool \<Rightarrow> rat \<Rightarrow>
     ('w, datastore_payload option) blocking" where
  "wait_loop dso wait path etag client_id cacheable deadline s =
     Option.bind (wait_round dso wait path etag client_id cacheable deadline s) (\<lambda>(r, t).
       case r of
         Inl e \<Rightarrow> Some (Inl e, t)
       | Inr (Some out) \<Rightarrow> Some (Inr out, t)
       | Inr None \<Rightarrow> wait_loop dso wait path etag client_id cacheable deadline t)"

definition wait_for_change ::
    "'w datastore_ops \<Rightarrow> (rat option \<Rightarrow> ('w, unit) cop) \<Rightarrow> pystr \<Rightarrow> pystr \<Rightarrow> query_field_value option \<Rightarrow>
     query_field list option \<Rightarrow> ('w, datastore_payload) blocking" where
  "wait_for_change dso wait path etag client flds = (\<lambda>(c, w).
     case do_monotonic dso w of (now, w) \<Rightarrow>
       bindB (wait_loop dso wait path etag (client_string client) (long_poll_query_fields_cacheable flds)
                (now + of_int (co_http_wait_timeout_ms c) / 1000))
         (\<lambda>out. case out of
            Some p \<Rightarrow> returning (retS p)
          | None \<Rightarrow> coordinator_read dso wait path (lit ''0'') client DEFAULT_RESPONSE_TIMEOUT_MS flds) (c, w))"

definition coordinator_get ::
    "'w datastore_ops \<Rightarrow> (rat option \<Rightarrow> ('w, unit) cop) \<Rightarrow> pystr \<Rightarrow> query_field_value option \<Rightarrow> pystr option \<Rightarrow>
     query_field list option \<Rightarrow> ('w, datastore_payload) blocking" where
  "coordinator_get dso wait path client if_none_match flds =
     (case coordinator_get_plan path if_none_match of
        PlanRead etag \<Rightarrow> coordinator_read dso wait path etag client DEFAULT_RESPONSE_TIMEOUT_MS flds
      | PlanWait etag \<Rightarrow> wait_for_change dso wait path etag client flds)"

section \<open>The poller\<close>

partial_function (option) poll_loop ::
    "'w datastore_ops \<Rightarrow> (rat option \<Rightarrow> ('w, unit) cop) \<Rightarrow> ('w, unit) blocking" where
  "poll_loop dso wait s =
     (if co_closed (fst s) then Some (Inr (), s)
      else Option.bind (acquire_poller_io wait s) (\<lambda>(a, s1).
        case a of
          Inl e \<Rightarrow> Some (Inl e, s1)
        | Inr acquired \<Rightarrow>
            if \<not> acquired then Some (Inr (), s1)
            else (case poll_round dso (co_latest_etag (fst s)) s1 of
               (Inl e, t) \<Rightarrow> Some (Inl e, t)
             | (Inr go_on, t) \<Rightarrow>
                 if \<not> go_on then Some (Inr (), t)
                 else (case wait (Some (co_poll_interval_s (fst t))) t of
                    (Inl e, u) \<Rightarrow> Some (Inl e, u)
                  | (Inr _, u) \<Rightarrow> poll_loop dso wait u))))"


section \<open>Start and close\<close>

text \<open>
  \<open>worker\<close> says whether the poller thread was created, \<open>is_current\<close> whether it is the caller; \<open>start_thread\<close> and
  \<open>join\<close> are those of \<open>threading\<close>.
\<close>

definition coordinator_start :: "('w, unit) cop \<Rightarrow> bool \<Rightarrow> ('w, bool) cop" where
  "coordinator_start start_thread worker = (\<lambda>(c, w).
     if \<not> co_native_long_poll_available c then (Inr worker, (c, w))
     else if worker then (Inr worker, (c, w))
     else bindS start_thread (\<lambda>_. retS True) (c, w))"

definition coordinator_close ::
    "'w datastore_ops \<Rightarrow> (rat option \<Rightarrow> ('w, unit) cop) \<Rightarrow> bool \<Rightarrow> bool \<Rightarrow> rat option \<Rightarrow> ('w, unit) cop" where
  "coordinator_close dso join worker is_current timeout = (\<lambda>(c, w).
     case close_locked c of (active_poll_read, c) \<Rightarrow>
       bindS (case active_poll_read of None \<Rightarrow> retS () | Some h \<Rightarrow> do_cancel dso h) (\<lambda>_.
       if worker \<and> \<not> is_current then join timeout else retS ()) (c, w))"

section \<open>What a blocking call guarantees\<close>

lemma acquire_round_owner:
  assumes "acquire_round dso wait d s = (Inr None, (c, w))"
  shows "co_io_busy c \<and> co_io_owner c = Some OwnerForeground"
proof (cases "co_io_busy (fst s)")
  case False
  then show ?thesis using assms by (cases s) (auto simp: acquire_round_def)
next
  case True
  then show ?thesis using assms
    by (cases s) (auto simp: acquire_round_def bindS_def split: prod.splits sum.splits option.splits if_splits)
qed

text \<open>A result that, unless it is an error, leaves the device with the foreground.\<close>

definition owns :: "'a result \<times> coordinator \<times> 'w \<Rightarrow> bool" where
  "owns y \<longleftrightarrow> (case y of (Inl _, _) \<Rightarrow> True | (Inr _, (c, w)) \<Rightarrow> co_io_busy c \<and> co_io_owner c = Some OwnerForeground)"

lemma acquire_loop_owner: "acquire_loop dso wait d s = Some y \<Longrightarrow> owns y"
proof (rule acquire_loop.raw_induct[where P = "\<lambda>dso wait d s y. owns y"])
  fix f :: "'a datastore_ops \<Rightarrow> (rat option \<Rightarrow> ('a, unit) cop) \<Rightarrow> rat option \<Rightarrow> ('a, unit) blocking"
    and dso wait d s y
  assume ih: "\<And>dso wait d s y. f dso wait d s = Some y \<Longrightarrow> owns y"
    and y: "(case acquire_round dso wait d s of
        (Inl e, t) \<Rightarrow> Some (Inl e, t) | (Inr None, t) \<Rightarrow> Some (Inr (), t) | (Inr (Some d), t) \<Rightarrow> f dso wait d t) = Some y"
  obtain r c w where ar: "acquire_round dso wait d s = (r, (c, w))" by (metis surj_pair)
  show "owns y"
  proof (cases r)
    case (Inr x)
    then show ?thesis using y ih[of dso wait "the x" "(c, w)" y] acquire_round_owner[of dso wait d s c w] unfolding ar
      by (cases x) (auto simp: owns_def)
  qed (use y in \<open>auto simp: ar owns_def\<close>)
qed

lemma acquire_poller_cases:
  "acquire_poller_io wait s = Some y \<Longrightarrow> (\<forall>t. y = (Inr False, t) \<longrightarrow> co_closed (fst t))"
proof (rule acquire_poller_io.raw_induct[where P = "\<lambda>wait s y. \<forall>t. y = (Inr False, t) \<longrightarrow> co_closed (fst t)"])
  fix f :: "(rat option \<Rightarrow> ('a, unit) cop) \<Rightarrow> ('a, bool) blocking" and wait s y
  assume "\<And>wait s y. f wait s = Some y \<Longrightarrow> \<forall>t. y = (Inr False, t) \<longrightarrow> co_closed (fst t)"
    and "(case poller_check (fst s) of
        Some (b, c) \<Rightarrow> Some (Inr b, (c, snd s))
      | None \<Rightarrow> (case wait None s of (Inl e, t) \<Rightarrow> Some (Inl e, t) | (Inr _, t) \<Rightarrow> f wait t)) = Some y"
  then show "\<forall>t. y = (Inr False, t) \<longrightarrow> co_closed (fst t)"
    by (cases "poller_check (fst s)")
      (auto simp: poller_check_def split: sum.splits prod.splits if_splits)
qed

lemma poll_round_stops:
  assumes "poll_round dso latest s = (Inr False, t)"
  shows "co_closed (fst t)"
  using assms unfolding poll_round_def is_closed_def
  by (auto simp: bindS_def split: prod.splits sum.splits exc.splits if_splits)

text \<open>The poller returns only when the coordinator is closed.\<close>

lemma poll_loop_stops: "poll_loop dso wait s = Some y \<Longrightarrow> (\<forall>u t. y = (Inr u, t) \<longrightarrow> co_closed (fst t))"
proof (rule poll_loop.raw_induct[where P = "\<lambda>dso wait s y. \<forall>u t. y = (Inr u, t) \<longrightarrow> co_closed (fst t)"])
  fix f :: "'a datastore_ops \<Rightarrow> (rat option \<Rightarrow> ('a, unit) cop) \<Rightarrow> ('a, unit) blocking" and dso wait s y
  assume ih: "\<And>dso wait s y. f dso wait s = Some y \<Longrightarrow> \<forall>u t. y = (Inr u, t) \<longrightarrow> co_closed (fst t)"
    and y: "(if co_closed (fst s) then Some (Inr (), s)
      else Option.bind (acquire_poller_io wait s) (\<lambda>(a, s1).
        case a of
          Inl e \<Rightarrow> Some (Inl e, s1)
        | Inr acquired \<Rightarrow>
            if \<not> acquired then Some (Inr (), s1)
            else (case poll_round dso (co_latest_etag (fst s)) s1 of
               (Inl e, t) \<Rightarrow> Some (Inl e, t)
             | (Inr go_on, t) \<Rightarrow>
                 if \<not> go_on then Some (Inr (), t)
                 else (case wait (Some (co_poll_interval_s (fst t))) t of
                    (Inl e, u) \<Rightarrow> Some (Inl e, u)
                  | (Inr _, u) \<Rightarrow> f dso wait u)))) = Some y"
  show "\<forall>u t. y = (Inr u, t) \<longrightarrow> co_closed (fst t)"
  proof (cases "co_closed (fst s)")
    case False
    then obtain a s1 where a: "acquire_poller_io wait s = Some (a, s1)" using y by (auto simp: bind_eq_Some_conv)
    obtain r t where r: "poll_round dso (co_latest_etag (fst s)) s1 = (r, t)" by (metis surj_pair)
    obtain x u where x: "wait (Some (co_poll_interval_s (fst t))) t = (x, u)" by (metis surj_pair)
    have stop: "r = Inr False \<Longrightarrow> co_closed (fst t)" "a = Inr False \<Longrightarrow> co_closed (fst s1)"
      using poll_round_stops[of dso "co_latest_etag (fst s)" s1 t] r acquire_poller_cases[OF a] by simp_all
    show ?thesis using y False a r x stop ih[of dso wait u y]
      by (cases a; cases r; cases x) (auto split: if_splits)
  qed (use y in auto)
qed

section \<open>Every wait ends\<close>

text \<open>
  The clock never goes back, printing does not turn it back, and every \<open>Condition.wait\<close> returns after at least \<open>\<delta>\<close>,
  however early it is woken, as does a read or a cancellation on the device.
\<close>

definition time_passes :: "'w datastore_ops \<Rightarrow> (rat option \<Rightarrow> ('w, unit) cop) \<Rightarrow> ('w \<Rightarrow> rat) \<Rightarrow> rat \<Rightarrow> bool" where
  "time_passes dso wait time \<delta> \<longleftrightarrow>
     0 < \<delta> \<and>
     (\<forall>w. fst (do_monotonic dso w) = time w \<and> time w \<le> time (snd (do_monotonic dso w))) \<and>
     (\<forall>k w. time w \<le> time (do_log dso k w)) \<and>
     (\<forall>t s. fst (wait t s) = Inr () \<and> time (snd s) + \<delta> \<le> time (snd (snd (wait t s)))) \<and>
     (\<forall>path a s. time (snd s) + \<delta> \<le> time (snd (snd (do_get dso path a s)))) \<and>
     (\<forall>h s. time (snd s) + \<delta> \<le> time (snd (snd (do_cancel dso h s))))"

text \<open>
  The owner of the device gives it up: each \<open>wait\<close> with a busy device finds it free or lowers \<open>rank\<close>, the number of
  wake-ups until then. A cancellation runs under the lock.
\<close>

definition device_released :: "'w datastore_ops \<Rightarrow> (rat option \<Rightarrow> ('w, unit) cop) \<Rightarrow> ('w \<Rightarrow> nat) \<Rightarrow> bool" where
  "device_released dso wait rank \<longleftrightarrow>
     (\<forall>t s. co_io_busy (fst s) \<and> co_io_busy (fst (snd (wait t s))) \<longrightarrow> rank (snd (snd (wait t s))) < rank (snd s)) \<and>
     (\<forall>h s. fst (snd (do_cancel dso h s)) = fst s \<and> rank (snd (snd (do_cancel dso h s))) \<le> rank (snd s)) \<and>
     (\<forall>w. rank (snd (do_monotonic dso w)) \<le> rank w)"

text \<open>A read of the device returns, some time later.\<close>

definition reads_return :: "'w datastore_ops \<Rightarrow> (rat option \<Rightarrow> ('w, unit) cop) \<Rightarrow> ('w \<Rightarrow> rat) \<Rightarrow> rat \<Rightarrow> bool" where
  "reads_return dso wait time \<delta> \<longleftrightarrow>
     (\<forall>path client timeout_ms flds s. \<exists>r t. coordinator_read dso wait path (lit ''0'') client timeout_ms flds s = Some (r, t) \<and>
        time (snd s) + \<delta> \<le> time (snd t))"

lemma time_passesD:
  assumes "time_passes dso wait time \<delta>"
  shows "0 < \<delta>" "do_monotonic dso w = (now, w') \<Longrightarrow> now = time w \<and> time w \<le> time w'" "time w \<le> time (do_log dso k w)"
    "wait t s = (x, s') \<Longrightarrow> x = Inr () \<and> time (snd s) + \<delta> \<le> time (snd s')"
    "do_get dso path a s = (g, s') \<Longrightarrow> time (snd s) + \<delta> \<le> time (snd s')"
    "do_cancel dso h s = (u, s') \<Longrightarrow> time (snd s) + \<delta> \<le> time (snd s')"
  using assms unfolding time_passes_def by (metis fst_conv snd_conv)+

lemma device_releasedD:
  assumes "device_released dso wait rank"
  shows "wait t s = (x, s') \<Longrightarrow> co_io_busy (fst s) \<Longrightarrow> co_io_busy (fst s') \<Longrightarrow> rank (snd s') < rank (snd s)"
    "do_cancel dso h s = (u, s') \<Longrightarrow> fst s' = fst s \<and> rank (snd s') \<le> rank (snd s)"
    "do_monotonic dso w = (now, w') \<Longrightarrow> rank w' \<le> rank w"
  using assms unfolding device_released_def by (metis snd_conv)+

text \<open>What one test of the acquiring loop does to the clock and to the rank.\<close>

definition round_ok :: "('w \<Rightarrow> rat) \<Rightarrow> rat \<Rightarrow> ('w \<Rightarrow> nat) \<Rightarrow> bool \<Rightarrow> 'w \<Rightarrow> rat option option result \<times> coordinator \<times> 'w \<Rightarrow> bool" where
  "round_ok time \<delta> rank fresh w y \<longleftrightarrow>
     (case y of (r, (c', w')) \<Rightarrow>
        time w \<le> time w' \<and> (\<forall>e. r = Inl e \<and> fresh \<longrightarrow> time w + \<delta> \<le> time w') \<and>
        (\<forall>d. r = Inr (Some d) \<longrightarrow> time w + \<delta> \<le> time w' \<and> (co_io_busy c' \<longrightarrow> rank w' < rank w)))"

lemma round_ok_wait:
  assumes "time_passes dso wait time \<delta>" "device_released dso wait rank" "co_io_busy c" "time w \<le> time w1" "rank w1 \<le> rank w"
  shows "round_ok time \<delta> rank fresh w (bindS (wait t) (\<lambda>_. retS (Some d)) (c, w1))"
proof -
  obtain x s' where x: "wait t (c, w1) = (x, s')" by (metis surj_pair)
  then show ?thesis using time_passesD(1)[OF assms(1)] time_passesD(4)[OF assms(1) x] device_releasedD(1)[OF assms(2) x] assms(3-5)
    by (cases s') (auto simp: round_ok_def bindS_def)
qed

lemma acquire_round_ok:
  assumes tp: "time_passes dso wait time \<delta>" "device_released dso wait rank"
  shows "round_ok time \<delta> rank (d = None) w (acquire_round dso wait d (c, w))"
proof (cases "co_io_busy c \<and> co_io_owner c = Some OwnerPoller")
  case False
  then show ?thesis using round_ok_wait[OF tp, of c w w] by (auto simp: acquire_round_def round_ok_def[of _ _ _ _ _ "(_, _)"])
next
  case True
  obtain h c1 where h: "request_active_poll_cancel_locked c = (h, c1)" by fastforce
  then have busy: "co_io_busy c1" using True by (auto simp: request_active_poll_cancel_locked_def split: if_splits)
  show ?thesis
  proof (cases h)
    case None
    obtain now w2 where m: "do_monotonic dso w = (now, w2)" by fastforce
    note t = time_passesD(2)[OF tp(1) m] device_releasedD(3)[OF tp(2) m]
    show ?thesis using True h None m t round_ok_wait[OF tp busy, of w w] round_ok_wait[OF tp busy, of w w2]
      by (cases d) (auto simp: acquire_round_def bindS_def[of "retS ()"] round_ok_def[of _ _ _ _ _ "(_, _)"])
  next
    case (Some n)
    obtain x c2 w1 where x: "do_cancel dso n (c1, w) = (x, (c2, w1))" by (metis surj_pair)
    note k = time_passesD(1)[OF tp(1)] time_passesD(6)[OF tp(1) x] device_releasedD(2)[OF tp(2) x]
    obtain now w2 where m: "do_monotonic dso w1 = (now, w2)" by fastforce
    obtain now' w3 where m': "do_monotonic dso w2 = (now', w3)" by fastforce
    note t = time_passesD(2)[OF tp(1) m] device_releasedD(3)[OF tp(2) m] time_passesD(2)[OF tp(1) m'] device_releasedD(3)[OF tp(2) m']
    show ?thesis using True h Some x k m m' t busy round_ok_wait[OF tp, of c2 w w3] round_ok_wait[OF tp, of c2 w w2]
      by (cases x; cases d) (auto simp: acquire_round_def bindS_def[of "do_cancel dso n"] round_ok_def[of _ _ _ _ _ "(_, _)"])
  qed
qed

lemma acquire_loop_returns:
  assumes tp: "time_passes dso wait time \<delta>" "device_released dso wait rank"
  shows "\<exists>r t. acquire_loop dso wait d (c, w) = Some (r, t) \<and> time w \<le> time (snd t) \<and>
    (\<forall>e. r = Inl e \<and> d = None \<longrightarrow> time w + \<delta> \<le> time (snd t))"
proof (induction "if co_io_busy c then Suc (rank w) else 0" arbitrary: c w d rule: less_induct)
  case less
  obtain r c1 w1 where r: "acquire_round dso wait d (c, w) = (r, (c1, w1))" by (metis surj_pair)
  note ok = acquire_round_ok[OF tp, of d w c, unfolded r round_ok_def prod.case]
  show ?case
  proof (cases "\<exists>d'. r = Inr (Some d')")
    case True
    then obtain d' where d': "r = Inr (Some d')" by blast
    have "co_io_busy c" using r d' by (cases "co_io_busy c") (auto simp: acquire_round_def)
    then have "(if co_io_busy c1 then Suc (rank w1) else 0) < (if co_io_busy c then Suc (rank w) else 0)" using ok d' by auto
    from less[OF this, of d'] obtain r' t where t: "acquire_loop dso wait d' (c1, w1) = Some (r', t)" "time w1 \<le> time (snd t)" by blast
    then show ?thesis using ok d' r by (subst acquire_loop.simps) auto
  next
    case False
    then show ?thesis using ok r by (subst acquire_loop.simps) (auto split: sum.splits option.splits)
  qed
qed

lemma reads_return_when_released:
  assumes tp: "time_passes dso wait time \<delta>" "device_released dso wait rank"
  shows "reads_return dso wait time \<delta>"
  unfolding reads_return_def
proof (intro allI)
  fix path client timeout_ms flds and s :: "coordinator \<times> 'a"
  obtain c w where s: "s = (c, w)" by fastforce
  obtain r c1 w1 where a: "acquire_loop dso wait None (foreground_enter c, w) = Some (r, (c1, w1))"
    "time w \<le> time w1" "\<forall>e. r = Inl e \<longrightarrow> time w + \<delta> \<le> time w1"
    using acquire_loop_returns[OF tp, of None "foreground_enter c" w] by auto
  have own: "time w2 + \<delta> \<le> time (snd (snd (coordinator_read_owned dso path (lit ''0'') client timeout_ms flds (c2, w2))))" for c2 w2
  proof -
    obtain g c3 w3 where g: "do_get dso path (foreground_get_args (lit ''0'') client timeout_ms flds) (c2, w2) = (g, (c3, w3))"
      by (metis surj_pair)
    show ?thesis using time_passesD(5)[OF tp(1) g] g
      by (cases g)
        (auto simp: coordinator_read_owned_def finallyS_def bindS_def modC_def payload_from_response_def reset_generation_def Let_def
          split: option.splits prod.splits sum.splits if_splits simp del: lit_simps)
  qed
  show "\<exists>r t. coordinator_read dso wait path (lit ''0'') client timeout_ms flds s = Some (r, t) \<and> time (snd s) + \<delta> \<le> time (snd t)"
    using a own[of w1 "foreground_leave c1"]
    by (cases r; cases "coordinator_read_owned dso path (lit ''0'') client timeout_ms flds (foreground_leave c1, w1)")
      (auto simp: s coordinator_read_def acquire_foreground_io_def bindB_def finallyB_def returning_def modC_def simp del: lit_simps)
qed

lemma record_error_time:
  assumes "time_passes dso wait time \<delta>" "record_error dso e s = (r, t)"
  shows "time (snd s) \<le> time (snd t)"
proof -
  obtain c w where s: "s = (c, w)" by fastforce
  obtain now w1 where m: "do_monotonic dso w = (now, w1)" by fastforce
  obtain b c' where b: "record_poller_error e (do_exc_key dso e) now c = (b, c')" by fastforce
  have "snd t = w1 \<or> snd t = do_log dso (do_exc_key dso e) w1" using assms(2) by (cases b) (auto simp: s record_error_def m b)
  then show ?thesis using time_passesD(2)[OF assms(1) m] time_passesD(3)[OF assms(1), of w1 "do_exc_key dso e"] s by auto
qed

lemma degraded_refresh_time:
  assumes "time_passes dso wait time \<delta>" "reads_return dso wait time \<delta>"
  shows "\<exists>r t. degraded_refresh dso wait ms s = Some (r, t) \<and> time (snd s) + \<delta> \<le> time (snd t)"
proof -
  obtain c w where s: "s = (c, w)" by fastforce
  obtain r t where rd: "coordinator_read dso wait (co_poll_path c) (lit ''0'') None ms None (c, w) = Some (r, t)" "time w + \<delta> \<le> time (snd t)"
    using assms(2) unfolding reads_return_def by (metis snd_conv)
  obtain c1 w1 where t: "t = (c1, w1)" by fastforce
  show ?thesis
  proof (cases "\<exists>e. r = Inl e \<and> e \<in> {DatastoreDeviceUnavailable, DatastoreNoResponse, DatastoreTimeout}")
    case True
    then obtain e where e: "r = Inl e" "e \<in> {DatastoreDeviceUnavailable, DatastoreNoResponse, DatastoreTimeout}" by blast
    obtain x c2 w2 where x: "record_error dso e t = (x, (c2, w2))" by (metis surj_pair)
    show ?thesis using record_error_time[OF assms(1) x] rd e x
      by (auto simp: s degraded_refresh_def finallyB_def simp del: lit_simps)
  next
    case False
    then show ?thesis using rd
      by (cases r) (auto simp: s t degraded_refresh_def finallyB_def modC_def simp del: lit_simps)
  qed
qed

lemma wait_clocks_time:
  assumes "time_passes dso wait time \<delta>" "wait_clocks dso etag client_id deadline c w = (now1, now, w')"
  shows "time w \<le> time w'"
    "find_wait_outcome_locked etag client_id c = (None, False) \<Longrightarrow> now1 = time w"
  using assms(2) time_passesD(2)[OF assms(1)]
  by (auto simp: wait_clocks_def split: if_splits prod.splits dest!: time_passesD(2)[OF assms(1)])

lemma wait_round_time:
  assumes tp: "time_passes dso wait time \<delta>" "reads_return dso wait time \<delta>"
  shows "\<exists>r t. wait_round dso wait path etag client_id cacheable deadline s = Some (r, t) \<and>
    (r = Inr None \<longrightarrow> time (snd s) < deadline \<and> time (snd s) + \<delta> \<le> time (snd t))"
proof -
  obtain c w where s: "s = (c, w)" by fastforce
  obtain now1 now w1 where k: "wait_clocks dso etag client_id deadline c w = (now1, now, w1)" by (metis surj_pair)
  note kt = wait_clocks_time[OF tp(1) k]
  let ?chk = "wait_check path etag client_id cacheable deadline now1 now c"
  have before: "time w < deadline" if "(\<exists>t. ?chk = WaitFor t) \<or> (\<exists>ms c'. ?chk = WaitRefresh ms c')"
  proof -
    have "find_wait_outcome_locked etag client_id c = (None, False)" "now1 < deadline"
      using that by (auto simp: wait_check_def Let_def split: prod.splits option.splits if_splits)
    then show ?thesis using kt(2) by simp
  qed
  show ?thesis
  proof (cases ?chk)
    case (WaitFor t)
    obtain x s' where x: "wait (Some t) (c, w1) = (x, s')" by (metis surj_pair)
    show ?thesis using k WaitFor x kt(1) before time_passesD(4)[OF tp(1) x]
      by (auto simp: s wait_round_def returning_def bindS_def)
  next
    case (WaitRefresh ms c')
    obtain r t where rt: "degraded_refresh dso wait ms (c', w1) = Some (r, t)" "time w1 + \<delta> \<le> time (snd t)"
      using degraded_refresh_time[OF tp, of ms "(c', w1)"] by auto
    show ?thesis using k WaitRefresh rt kt(1) before
      by (cases r) (auto simp: s wait_round_def returning_def bindB_def)
  qed (use k in \<open>simp_all add: s wait_round_def\<close>)
qed

lemma wait_loop_returns:
  assumes tp: "time_passes dso wait time \<delta>" "reads_return dso wait time \<delta>"
  shows "deadline - time (snd s) < of_nat n * \<delta> \<Longrightarrow>
    \<exists>r t. wait_loop dso wait path etag client_id cacheable deadline s = Some (r, t)"
proof (induction n arbitrary: s)
  case 0
  obtain r t where "wait_round dso wait path etag client_id cacheable deadline s = Some (r, t)" "r \<noteq> Inr None"
    using wait_round_time[OF tp, of path etag client_id cacheable deadline s] 0 by fastforce
  then show ?case by (subst wait_loop.simps) (auto split: sum.splits option.splits)
next
  case (Suc n)
  obtain r t where r: "wait_round dso wait path etag client_id cacheable deadline s = Some (r, t)"
      "r = Inr None \<longrightarrow> time (snd s) + \<delta> \<le> time (snd t)"
    using wait_round_time[OF tp, of path etag client_id cacheable deadline s] by blast
  show ?case
  proof (cases "r = Inr None")
    case True
    have "deadline - time (snd t) < of_nat n * \<delta>" using Suc.prems r(2) True by (simp add: algebra_simps)
    from Suc.IH[OF this] show ?thesis using r(1) True by (subst wait_loop.simps) simp
  next
    case False
    then show ?thesis using r(1) by (subst wait_loop.simps) (auto split: sum.splits option.splits)
  qed
qed


text \<open>What the answer of a wait is: from the history, or 304.\<close>

definition known_answer :: "('w \<Rightarrow> rat) \<Rightarrow> pystr \<Rightarrow> pystr \<Rightarrow> pystr option \<Rightarrow> rat \<Rightarrow> coordinator \<times> 'w \<Rightarrow> datastore_payload \<Rightarrow> bool" where
  "known_answer time path etag client_id deadline s p \<longleftrightarrow>
     (case s of (c, w) \<Rightarrow>
        path = co_poll_path c \<and> (\<exists>t\<in>set (co_history c). answers etag client_id t \<and> dp_body p = dt_body t \<and> dp_etag p = Some (dt_to_etag t)) \<or>
        not_modified p \<and> dp_etag p = Some etag \<and> (deadline \<le> time w \<or> co_closed c) \<and>
        (co_latest_etag c = None \<or> co_latest_etag c = Some etag \<or>
         (\<exists>t\<in>set (co_history c). own_transition etag client_id t \<and> co_latest_etag c = Some (dt_to_etag t))))"

lemma wait_round_answer:
  assumes tp: "time_passes dso wait time \<delta>"
    and r: "wait_round dso wait path etag client_id cacheable deadline s = Some (Inr (Some (Some p)), t)"
  shows "known_answer time path etag client_id deadline t p"
proof -
  obtain c w where s: "s = (c, w)" by fastforce
  obtain now1 now w1 where k: "wait_clocks dso etag client_id deadline c w = (now1, now, w1)" by (metis surj_pair)
  note kt = wait_clocks_time[OF tp k]
  let ?chk = "wait_check path etag client_id cacheable deadline now1 now c"
  have t: "t = (c, w1)" "?chk = WaitCached p \<or> ?chk = WaitNotModified p"
    using r k by (auto simp: s wait_round_def returning_def bindB_def bindS_def split: wait_outcome.splits option.splits prod.splits sum.splits)
  have "now1 = time w" if "?chk = WaitNotModified p"
    using kt(2) that by (auto simp: wait_check_def Let_def split: prod.splits option.splits if_splits)
  then show ?thesis using t kt(1) wait_check_sound[of path etag client_id cacheable deadline now1 now c p 0 p]
    unfolding known_answer_def by auto
qed

lemma wait_loop_answer:
  assumes tp: "time_passes dso wait time \<delta>"
  shows "wait_loop dso wait path etag client_id cacheable deadline s = Some y \<Longrightarrow>
    (\<forall>p t. y = (Inr (Some p), t) \<longrightarrow> known_answer time path etag client_id deadline t p)"
proof (rule wait_loop.raw_induct[where P = "\<lambda>dso wait path etag client_id cacheable deadline s y.
    time_passes dso wait time \<delta> \<longrightarrow> (\<forall>p t. y = (Inr (Some p), t) \<longrightarrow> known_answer time path etag client_id deadline t p)", THEN mp, OF _ _ tp])
  fix f :: "'a datastore_ops \<Rightarrow> (rat option \<Rightarrow> ('a, unit) cop) \<Rightarrow> pystr \<Rightarrow> pystr \<Rightarrow> pystr option \<Rightarrow> bool \<Rightarrow> rat \<Rightarrow>
     ('a, datastore_payload option) blocking" and dso wait path etag client_id cacheable deadline s y
  assume ih: "\<And>dso wait path etag client_id cacheable deadline s y. f dso wait path etag client_id cacheable deadline s = Some y \<Longrightarrow>
      time_passes dso wait time \<delta> \<longrightarrow> (\<forall>p t. y = (Inr (Some p), t) \<longrightarrow> known_answer time path etag client_id deadline t p)"
    and y: "Option.bind (wait_round dso wait path etag client_id cacheable deadline s) (\<lambda>(r, t).
       case r of Inl e \<Rightarrow> Some (Inl e, t) | Inr None \<Rightarrow> f dso wait path etag client_id cacheable deadline t
       | Inr (Some out) \<Rightarrow> Some (Inr out, t)) = Some y"
  obtain r t where r: "wait_round dso wait path etag client_id cacheable deadline s = Some (r, t)"
    using y by (auto simp: bind_eq_Some_conv)
  show "time_passes dso wait time \<delta> \<longrightarrow> (\<forall>p t. y = (Inr (Some p), t) \<longrightarrow> known_answer time path etag client_id deadline t p)"
  proof (cases r)
    case (Inr x)
    then show ?thesis using y r ih[of dso wait path etag client_id cacheable deadline t y]
        wait_round_answer[of dso wait time \<delta> path etag client_id cacheable deadline s _ t]
      by (cases x) auto
  qed (use y r in auto)
qed

text \<open>C7: A long poll ends, with a true answer. Whatever other threads do while it waits, however often it is woken, in
  native and in degraded mode, \<open>wait_for_change\<close> returns (when waits and exchanges with the device take time and the owner of the device
  gives it up), and a
  payload it returns is the body of a recorded change from the client's ETag that another client made, or 304 after
  the waiting time or at closing while nothing known had changed, or what a read of the device returned.\<close>

theorem wait_for_change_answers:
  assumes "time_passes dso wait time \<delta>" "device_released dso wait rank"
  shows "\<exists>r t. wait_for_change dso wait path etag client flds (c, w) = Some (r, t) \<and>
    (\<forall>p. r = Inr p \<longrightarrow>
       known_answer time path etag (client_string client) (time w + of_int (co_http_wait_timeout_ms c) / 1000) t p \<or>
       (\<exists>u. coordinator_read dso wait path (lit ''0'') client DEFAULT_RESPONSE_TIMEOUT_MS flds u = Some (Inr p, t)))"
proof -
  note reads = reads_return_when_released[OF assms]
  obtain now w1 where m: "do_monotonic dso w = (now, w1)" by fastforce
  have now: "now = time w" using time_passesD(2)[OF assms(1) m] by simp
  let ?deadline = "now + of_int (co_http_wait_timeout_ms c) / 1000" and ?cacheable = "long_poll_query_fields_cacheable flds"
  have "\<delta> > 0" by (rule time_passesD(1)[OF assms(1)])
  then obtain n where "?deadline - time w1 < of_nat n * \<delta>" using ex_less_of_nat_mult by blast
  then obtain x u where l: "wait_loop dso wait path etag (client_string client) ?cacheable ?deadline (c, w1) = Some (x, u)"
    using wait_loop_returns[OF assms(1) reads, of ?deadline "(c, w1)" n path etag "client_string client" ?cacheable] by auto
  have run: "wait_for_change dso wait path etag client flds (c, w) =
      (case x of Inl e \<Rightarrow> Some (Inl e, u)
       | Inr (Some p) \<Rightarrow> Some (Inr p, u)
       | Inr None \<Rightarrow> coordinator_read dso wait path (lit ''0'') client DEFAULT_RESPONSE_TIMEOUT_MS flds u)"
    unfolding wait_for_change_def prod.case m bindB_def l
    by (auto simp: returning_def split: sum.splits option.splits simp del: lit_simps)
  show ?thesis
  proof (cases "x = Inr None")
    case True
    obtain r t where rd: "coordinator_read dso wait path (lit ''0'') client DEFAULT_RESPONSE_TIMEOUT_MS flds u = Some (r, t)"
      using reads unfolding reads_return_def by blast
    then have "wait_for_change dso wait path etag client flds (c, w) = Some (r, t)" using run True by (simp del: lit_simps)
    then show ?thesis using rd by blast
  next
    case False
    then obtain r where r: "wait_for_change dso wait path etag client flds (c, w) = Some (r, u)" "\<And>p. r = Inr p \<Longrightarrow> x = Inr (Some p)"
      using run by (cases x) (auto split: option.splits simp del: lit_simps)
    then show ?thesis using wait_loop_answer[OF assms(1) l] unfolding now by blast
  qed
qed

text \<open>A request runs on the device only while its thread owns it, and gives it back.\<close>

lemma acquired_owner:
  assumes "acquire_foreground_io dso wait s = Some (Inr (), (c, w))"
  shows "co_io_busy c \<and> co_io_owner c = Some OwnerForeground"
proof -
  obtain r c1 w1 where "acquire_loop dso wait None (foreground_enter (fst s), snd s) = Some (r, (c1, w1))" "r = Inr ()" "c = foreground_leave c1"
    using assms by (cases s) (auto simp: acquire_foreground_io_def bindB_def finallyB_def returning_def modC_def split: option.splits)
  then show ?thesis using acquire_loop_owner[of dso wait None "(foreground_enter (fst s), snd s)" "(r, (c1, w1))"]
    by (simp add: owns_def foreground_leave_def)
qed


text \<open>Closing stops the poller at its next look.\<close>

lemma close_stops_poller:
  assumes "\<And>h s. co_closed (fst (snd (do_cancel dso h s))) = co_closed (fst s)" "fst (coordinator_close dso join False b timeout s) = Inr ()"
  shows "poll_loop dso wait (snd (coordinator_close dso join False b timeout s)) = Some (Inr (), snd (coordinator_close dso join False b timeout s))"
proof -
  obtain h c w where c: "close_locked (fst s) = (h, c)" "snd s = w" by (metis surj_pair)
  have "co_closed c" using c(1) by (auto simp: close_locked_def request_active_poll_cancel_locked_def split: if_splits)
  then have "co_closed (fst (snd (coordinator_close dso join False b timeout s)))"
    using assms(1)[of _ "(c, w)"] c
    by (cases s; cases h; cases "do_cancel dso (the h) (c, w)"; cases "fst (do_cancel dso (the h) (c, w))")
      (auto simp: coordinator_close_def bindS_def, (metis fst_conv snd_conv)+)
  then show ?thesis by (subst poll_loop.simps) simp
qed

section \<open>Waiting on concrete data\<close>

definition ticking :: "rat datastore_ops" where
  "ticking =
     \<lparr>do_get = (\<lambda>_ _ (c, w). (Inl DatastoreNoResponse, (c, w + 1))), do_post = (\<lambda>_ _ _ (c, w). (Inl DatastoreNoResponse, (c, w + 1))),
      do_session_generation = (\<lambda>_. 1), do_last_response_payload = (\<lambda>_. None), do_last_response_etag = (\<lambda>_. None),
      do_cancel = (\<lambda>_ (c, w). (Inr (), (c, w + 1))), do_monotonic = (\<lambda>w. (w, w + 1)), do_exc_key = (\<lambda>_. ([], [])), do_log = (\<lambda>_ w. w)\<rparr>"

definition releasing_wait :: "rat option \<Rightarrow> (rat, unit) cop" where
  "releasing_wait t = (\<lambda>(c, w). (Inr (), (release_io c, w + 1)))"

lemma ticking_time: "time_passes ticking releasing_wait (\<lambda>w. w) 1"
  by (auto simp: time_passes_def ticking_def releasing_wait_def split: prod.splits)

lemma ticking_released: "device_released ticking releasing_wait (\<lambda>_. 0)"
  by (auto simp: device_released_def ticking_def releasing_wait_def release_io_def split: prod.splits)

theorem wait_for_change_answers_witness:
  "\<exists>r t. wait_for_change ticking releasing_wait (lit ''/datastore'') (lit ''1'') None None (demo_cache, 0) = Some (r, t) \<and>
    (\<forall>p. r = Inr p \<longrightarrow>
       known_answer (\<lambda>w. w) (lit ''/datastore'') (lit ''1'') None (of_int (co_http_wait_timeout_ms demo_cache) / 1000) t p \<or>
       (\<exists>u. coordinator_read ticking releasing_wait (lit ''/datastore'') (lit ''0'') None DEFAULT_RESPONSE_TIMEOUT_MS None u = Some (Inr p, t)))"
proof -
  have c: "client_string None = None" by (simp add: client_string_def)
  show ?thesis
    using wait_for_change_answers[OF ticking_time ticking_released, of "lit ''/datastore''" "lit ''1''" None None demo_cache 0]
    by (simp add: c del: lit_simps)
qed

end
