(* ===== verification/Motu_Options.thy ===== *)
theory Motu_Options
  imports Motu_Serve
begin

text \<open>
  The command line of \<open>src/motu_proxy/cli.py\<close>: the tables of arguments that \<open>add_usb_args\<close> and
  \<open>build_parser\<close> declare, and what \<open>parse_args\<close> makes of them. An \<open>arg_spec\<close> is one call of
  \<open>add_argument\<close>: its name, destination, action, default and whether it is required. Splitting \<open>argv\<close>
  into arguments is done by \<open>argparse\<close> and stays outside: the model starts from the arguments in the order
  they were given, each with its value. \<open>path_of\<close> is the constructor of \<open>pathlib.Path\<close>. The lemmas show
  that a destination only ever holds its default or what its action stores, that a switch is on exactly when
  it was given, and from both what the commands rely on.
\<close>

section \<open>Arguments of a parser\<close>

datatype arg_value = VNone | VStr pystr | VInt int | VBool bool | VList "pystr list"

text \<open>\<open>Store\<close> has the \<open>type\<close> of the argument: \<open>None\<close> is its \<open>ArgumentTypeError\<close>.\<close>

datatype arg_action = Store "pystr \<Rightarrow> arg_value option" | StoreTrue | StoreConst arg_value | Append

record arg_spec =
  ag_name :: pystr
  ag_dest :: pystr
  ag_action :: arg_action
  ag_default :: arg_value
  ag_required :: bool

type_synonym namespace = "pystr \<rightharpoonup> arg_value"

text \<open>An argument as \<open>argparse\<close> has split it from the command line: the name of its argument, and its value.\<close>

type_synonym occurrence = "pystr \<times> pystr option"

definition store_str :: "pystr \<Rightarrow> arg_value option" where
  "store_str s = Some (VStr s)"

definition store_int :: "(pystr \<Rightarrow> int option) \<Rightarrow> pystr \<Rightarrow> arg_value option" where
  "store_int parser s = map_option VInt (parser s)"

text \<open>\<open>add_argument\<close> of an option and of a positional argument.\<close>

definition opt :: "string \<Rightarrow> string \<Rightarrow> arg_action \<Rightarrow> arg_value \<Rightarrow> arg_spec" where
  "opt name dest action dflt = \<lparr>ag_name = lit name, ag_dest = lit dest, ag_action = action, ag_default = dflt, ag_required = False\<rparr>"

definition positional :: "string \<Rightarrow> arg_spec" where
  "positional name = \<lparr>ag_name = lit name, ag_dest = lit name, ag_action = Store store_str, ag_default = VNone, ag_required = True\<rparr>"

text \<open>Defaults are set in the order of the arguments; the first default of a destination stays.\<close>

definition default_namespace :: "arg_spec list \<Rightarrow> namespace" where
  "default_namespace specs = map_of (map (\<lambda>a. (ag_dest a, ag_default a)) specs)"

definition take_action :: "arg_spec \<Rightarrow> pystr option \<Rightarrow> namespace \<Rightarrow> namespace option" where
  "take_action a v ns =
     (case (ag_action a, v) of
        (Store parser, Some s) \<Rightarrow> map_option (\<lambda>x. ns(ag_dest a \<mapsto> x)) (parser s)
      | (StoreTrue, None) \<Rightarrow> Some (ns(ag_dest a \<mapsto> VBool True))
      | (StoreConst x, None) \<Rightarrow> Some (ns(ag_dest a \<mapsto> x))
      | (Append, Some s) \<Rightarrow>
          Some (ns(ag_dest a \<mapsto> VList ((case ns (ag_dest a) of Some (VList xs) \<Rightarrow> xs | _ \<Rightarrow> []) @ [s])))
      | _ \<Rightarrow> None)"

fun take_actions :: "arg_spec list \<Rightarrow> occurrence list \<Rightarrow> namespace \<Rightarrow> namespace option" where
  "take_actions specs [] ns = Some ns"
| "take_actions specs ((name, v) # occs) ns =
     (case find (\<lambda>a. ag_name a = name) specs of
        None \<Rightarrow> None
      | Some a \<Rightarrow> Option.bind (take_action a v ns) (take_actions specs occs))"

text \<open>\<open>parse_args\<close>, from the split command line: \<open>None\<close> is a usage error, with exit status 2.\<close>

definition parse_args :: "arg_spec list \<Rightarrow> occurrence list \<Rightarrow> namespace option" where
  "parse_args specs occs =
     (if list_all (\<lambda>a. ag_required a \<longrightarrow> ag_name a \<in> fst ` set occs) specs
      then take_actions specs occs (default_namespace specs) else None)"

section \<open>The commands\<close>

definition DEFAULT_SYSFS_ROOT :: pystr where "DEFAULT_SYSFS_ROOT = lit ''/sys/bus/usb/devices''"
definition DEFAULT_DEVFS_ROOT :: pystr where "DEFAULT_DEVFS_ROOT = lit ''/dev/bus/usb''"
definition DEFAULT_WRITE_TOKEN_FILE :: pystr where "DEFAULT_WRITE_TOKEN_FILE = lit ''/run/motu-proxy/write-token''"

definition add_usb_args :: "arg_spec list" where
  "add_usb_args =
     [opt ''--vid'' ''vid'' (Store (store_int u16_arg)) (VInt MOTU_VID),
      opt ''--pid'' ''pid'' (Store (store_int u16_arg)) (VInt MOTU_AVB_PID),
      opt ''--serial'' ''serial'' (Store store_str) VNone,
      opt ''--interface'' ''interface'' (Store (store_int interface_arg)) VNone,
      opt ''--ep-out'' ''ep_out'' (Store (store_int ep_out_arg)) VNone,
      opt ''--ep-in'' ''ep_in'' (Store (store_int ep_in_arg)) VNone,
      opt ''--timeout-ms'' ''timeout_ms'' (Store (store_int positive_int_arg)) (VInt DEFAULT_TIMEOUT_MS),
      opt ''--seq-start'' ''seq_start'' (Store (store_int host_seq_arg)) (VInt DEFAULT_SEQ_START),
      opt ''--message-seq'' ''message_seq'' (Store (store_int message_seq_arg)) (VInt DEFAULT_MESSAGE_SEQ),
      opt ''--no-init'' ''no_init'' StoreTrue (VBool False),
      opt ''--debug'' ''debug'' StoreTrue (VBool False),
      opt ''--sysfs-root'' ''sysfs_root'' (Store store_str) (VStr DEFAULT_SYSFS_ROOT),
      opt ''--devfs-root'' ''devfs_root'' (Store store_str) (VStr DEFAULT_DEVFS_ROOT)]"

definition get_parser :: "arg_spec list" where
  "get_parser = add_usb_args @
     [(opt ''path'' ''path'' (Store store_str) (VStr (lit ''/datastore/uid''))),
      opt ''--etag'' ''etag'' (Store store_str) (VStr (lit ''0'')),
      opt ''--raw'' ''raw'' StoreTrue (VBool False), opt ''--compact'' ''compact'' StoreTrue (VBool False)]"

definition meters_parser :: "arg_spec list" where
  "meters_parser = add_usb_args @
     [positional ''group'', opt ''--etag'' ''etag'' (Store store_str) (VStr (lit ''0'')),
      opt ''--raw'' ''raw'' StoreTrue (VBool False), opt ''--compact'' ''compact'' StoreTrue (VBool False)]"

definition info_parser :: "arg_spec list" where
  "info_parser = add_usb_args @ [opt ''--json'' ''json'' StoreTrue (VBool False)]"

definition post_parser :: "arg_spec list" where
  "post_parser = add_usb_args @
     [positional ''path'', positional ''json_body'',
      opt ''--raw'' ''raw'' StoreTrue (VBool False), opt ''--compact'' ''compact'' StoreTrue (VBool False),
      opt ''--no-validate'' ''no_validate'' StoreTrue (VBool False),
      opt ''--allow-unknown-writes'' ''allow_unknown_writes'' StoreTrue (VBool False)]"

definition probe_parser :: "arg_spec list" where
  "probe_parser = add_usb_args @ [opt ''--compact'' ''compact'' StoreTrue (VBool False)]"

definition smoke_parser :: "arg_spec list" where
  "smoke_parser = add_usb_args @
     [opt ''--path'' ''paths'' Append VNone, opt ''--compact'' ''compact'' StoreTrue (VBool False),
      opt ''--no-body'' ''no_body'' StoreTrue (VBool False),
      opt ''--continue-on-error'' ''continue_on_error'' StoreTrue (VBool False)]"

definition serve_parser :: "arg_spec list" where
  "serve_parser = add_usb_args @
     [opt ''--listen'' ''listen'' (Store store_str) (VStr (lit ''127.0.0.1'')),
      opt ''--port'' ''port'' (Store (store_int port_arg)) (VInt 1280),
      opt ''--allow-writes'' ''allow_writes'' StoreTrue (VBool False),
      opt ''--require-write-token'' ''require_write_token'' StoreTrue (VBool False),
      opt ''--write-token-file'' ''write_token_file'' (Store store_str) (VStr DEFAULT_WRITE_TOKEN_FILE),
      opt ''--no-write-token-file'' ''write_token_file'' (StoreConst VNone) VNone,
      opt ''--unsafe-allow-remote-writes'' ''unsafe_allow_remote_writes'' StoreTrue (VBool False),
      opt ''--max-write-body-bytes'' ''max_write_body_bytes'' (Store (store_int max_write_body_bytes_arg)) (VInt DEFAULT_MAX_WRITE_BODY_BYTES),
      opt ''--no-validate'' ''no_validate'' StoreTrue (VBool False),
      opt ''--allow-unknown-writes'' ''allow_unknown_writes'' StoreTrue (VBool False)]"

datatype command = GetCommand | MetersCommand | InfoCommand | PostCommand | ProbeCommand | SmokeCommand | ServeCommand | SelftestCommand

definition build_parser :: "(pystr \<times> command \<times> arg_spec list) list" where
  "build_parser =
     [(lit ''get'', GetCommand, get_parser), (lit ''meters'', MetersCommand, meters_parser), (lit ''info'', InfoCommand, info_parser),
      (lit ''post'', PostCommand, post_parser), (lit ''probe'', ProbeCommand, probe_parser), (lit ''smoke'', SmokeCommand, smoke_parser),
      (lit ''serve'', ServeCommand, serve_parser), (lit ''selftest'', SelftestCommand, [])]"

definition parse_command :: "pystr \<Rightarrow> occurrence list \<Rightarrow> (command \<times> namespace) option" where
  "parse_command name occs =
     (case map_of build_parser name of
        None \<Rightarrow> None
      | Some (f, specs) \<Rightarrow> map_option (\<lambda>ns. (f, ns)) (parse_args specs occs))"

section \<open>Reading a namespace\<close>

fun as_int :: "arg_value option \<Rightarrow> int" where "as_int (Some (VInt n)) = n" | "as_int _ = 0"
fun as_int_option :: "arg_value option \<Rightarrow> int option" where "as_int_option (Some (VInt n)) = Some n" | "as_int_option _ = None"
fun as_str_option :: "arg_value option \<Rightarrow> pystr option" where "as_str_option (Some (VStr s)) = Some s" | "as_str_option _ = None"
fun as_str :: "arg_value option \<Rightarrow> pystr" where "as_str (Some (VStr s)) = s" | "as_str _ = []"
fun as_bool :: "arg_value option \<Rightarrow> bool" where "as_bool (Some (VBool b)) = b" | "as_bool _ = False"

definition config_of :: "(pystr \<Rightarrow> path) \<Rightarrow> namespace \<Rightarrow> datastore_config" where
  "config_of path_of ns =
     \<lparr>dc_vid = as_int (ns (lit ''vid'')), dc_pid = as_int (ns (lit ''pid'')), dc_serial = as_str_option (ns (lit ''serial'')),
      dc_interface = as_int_option (ns (lit ''interface'')), dc_ep_out = as_int_option (ns (lit ''ep_out'')),
      dc_ep_in = as_int_option (ns (lit ''ep_in'')), dc_timeout_ms = as_int (ns (lit ''timeout_ms'')),
      dc_seq_start = as_int (ns (lit ''seq_start'')), dc_message_seq = as_int (ns (lit ''message_seq'')),
      dc_no_init = as_bool (ns (lit ''no_init'')), dc_debug = as_bool (ns (lit ''debug'')),
      dc_sysfs_root = path_of (as_str (ns (lit ''sysfs_root''))), dc_devfs_root = path_of (as_str (ns (lit ''devfs_root'')))\<rparr>"

definition serve_args_of :: "(pystr \<Rightarrow> path) \<Rightarrow> namespace \<Rightarrow> serve_args" where
  "serve_args_of path_of ns =
     \<lparr>sa_usb = config_of path_of ns, sa_listen = as_str (ns (lit ''listen'')), sa_port = as_int (ns (lit ''port'')),
      sa_allow_writes = as_bool (ns (lit ''allow_writes'')), sa_require_write_token = as_bool (ns (lit ''require_write_token'')),
      sa_write_token_file = map_option path_of (as_str_option (ns (lit ''write_token_file''))),
      sa_unsafe_allow_remote_writes = as_bool (ns (lit ''unsafe_allow_remote_writes'')),
      sa_max_write_body_bytes = as_int (ns (lit ''max_write_body_bytes'')), sa_no_validate = as_bool (ns (lit ''no_validate'')),
      sa_allow_unknown_writes = as_bool (ns (lit ''allow_unknown_writes''))\<rparr>"

section \<open>Facts\<close>

lemma take_action_other: "take_action a v ns = Some ns' \<Longrightarrow> ag_dest a \<noteq> d \<Longrightarrow> ns' d = ns d"
  by (auto simp: take_action_def split: arg_action.splits option.splits)

text \<open>The values an action may leave in its destination.\<close>

definition action_ok :: "(arg_value \<Rightarrow> bool) \<Rightarrow> arg_action \<Rightarrow> bool" where
  "action_ok P action =
     (case action of Store parser \<Rightarrow> (\<forall>s x. parser s = Some x \<longrightarrow> P x) | StoreTrue \<Rightarrow> P (VBool True)
      | StoreConst x \<Rightarrow> P x | Append \<Rightarrow> (\<forall>xs. P (VList xs)))"

lemma take_action_own: "take_action a v ns = Some ns' \<Longrightarrow> action_ok P (ag_action a) \<Longrightarrow> \<exists>x. ns' (ag_dest a) = Some x \<and> P x"
  by (auto simp: take_action_def action_ok_def split: arg_action.splits option.splits)

lemma take_actions_inv:
  assumes "take_actions specs occs ns = Some ns'" "\<exists>x. ns d = Some x \<and> P x"
    and "\<forall>a\<in>set specs. ag_dest a = d \<longrightarrow> action_ok P (ag_action a)"
  shows "\<exists>x. ns' d = Some x \<and> P x"
  using assms(1,2)
proof (induction occs arbitrary: ns)
  case (Cons occ occs)
  obtain name v where o: "occ = (name, v)" by fastforce
  obtain a ns1 where a: "find (\<lambda>a. ag_name a = name) specs = Some a" "take_action a v ns = Some ns1" "take_actions specs occs ns1 = Some ns'"
    using Cons.prems(1) by (auto simp: o bind_eq_Some_conv split: option.splits)
  have "a \<in> set specs" using a(1) by (auto simp: find_Some_iff)
  then have "\<exists>x. ns1 d = Some x \<and> P x"
    using assms(3) take_action_own[OF a(2), of P] take_action_other[OF a(2), of d] Cons.prems(2) by (cases "ag_dest a = d") auto
  from Cons.IH[OF a(3) this] show ?case .
qed auto

text \<open>A typed destination: its default and all its actions satisfy \<open>P\<close>.\<close>

definition dest_ok :: "arg_spec list \<Rightarrow> pystr \<Rightarrow> (arg_value \<Rightarrow> bool) \<Rightarrow> bool" where
  "dest_ok specs d P \<longleftrightarrow>
     (\<exists>x. default_namespace specs d = Some x \<and> P x) \<and> (\<forall>a\<in>set specs. ag_dest a = d \<longrightarrow> action_ok P (ag_action a))"

lemma parse_args_typed: "parse_args specs occs = Some ns \<Longrightarrow> dest_ok specs d P \<Longrightarrow> \<exists>x. ns d = Some x \<and> P x"
  using take_actions_inv[of specs occs "default_namespace specs" ns d P] by (auto simp: parse_args_def dest_ok_def split: if_splits)

lemma take_actions_untouched:
  assumes "take_actions specs occs ns = Some ns'" "\<forall>a\<in>set specs. ag_dest a = d \<longrightarrow> ag_name a \<notin> fst ` set occs"
  shows "ns' d = ns d"
  using assms
proof (induction occs arbitrary: ns)
  case (Cons occ occs)
  obtain name v where o: "occ = (name, v)" by fastforce
  obtain a ns1 where a: "find (\<lambda>a. ag_name a = name) specs = Some a" "take_action a v ns = Some ns1" "take_actions specs occs ns1 = Some ns'"
    using Cons.prems(1) by (auto simp: o bind_eq_Some_conv split: option.splits)
  have "ag_dest a \<noteq> d" using a(1) Cons.prems(2) by (auto simp: o find_Some_iff)
  then show ?case using Cons.IH[OF a(3)] take_action_other[OF a(2)] Cons.prems(2) by (auto simp: o)
qed simp

text \<open>A flag is set exactly when it was given.\<close>

definition flag_spec :: "arg_spec list \<Rightarrow> pystr \<Rightarrow> pystr \<Rightarrow> bool" where
  "flag_spec specs name d \<longleftrightarrow>
     default_namespace specs d = Some (VBool False) \<and>
     (\<exists>a. find (\<lambda>a. ag_name a = name) specs = Some a \<and> ag_dest a = d \<and> ag_action a = StoreTrue) \<and>
     (\<forall>a\<in>set specs. ag_dest a = d \<longrightarrow> ag_name a = name)"

lemma take_actions_flag:
  assumes "take_actions specs occs ns = Some ns'" "flag_spec specs name d"
  shows "ns' d = (if name \<in> fst ` set occs then Some (VBool True) else ns d)"
  using assms(1)
proof (induction occs arbitrary: ns)
  case (Cons occ occs)
  obtain nm v where o: "occ = (nm, v)" by fastforce
  obtain a ns1 where a: "find (\<lambda>a. ag_name a = nm) specs = Some a" "take_action a v ns = Some ns1" "take_actions specs occs ns1 = Some ns'"
    using Cons.prems(1) by (auto simp: o bind_eq_Some_conv split: option.splits)
  have "ns1 d = (if nm = name then Some (VBool True) else ns d)"
  proof (cases "nm = name")
    case True
    then have "ag_dest a = d" "ag_action a = StoreTrue" using assms(2) a(1) by (auto simp: flag_spec_def)
    then show ?thesis using a(2) True by (auto simp: take_action_def split: option.splits)
  next
    case False
    have "a \<in> set specs \<and> ag_name a = nm" using a(1) by (auto simp: find_Some_iff)
    then have "ag_dest a \<noteq> d" using assms(2) False unfolding flag_spec_def by blast
    then show ?thesis using take_action_other[OF a(2)] False by simp
  qed
  then show ?case by (simp add: Cons.IH[OF a(3)] o)
qed simp

lemma parse_args_flag: "parse_args specs occs = Some ns \<Longrightarrow> flag_spec specs name d \<Longrightarrow> as_bool (ns d) \<longleftrightarrow> name \<in> fst ` set occs"
  using take_actions_flag[of specs occs "default_namespace specs" ns name d] by (auto simp: parse_args_def flag_spec_def split: if_splits)

lemma parse_args_default:
  "parse_args specs occs = Some ns \<Longrightarrow> \<forall>a\<in>set specs. ag_dest a = d \<longrightarrow> ag_name a \<notin> fst ` set occs \<Longrightarrow> ns d = default_namespace specs d"
  using take_actions_untouched[of specs occs "default_namespace specs" ns d] by (auto simp: parse_args_def split: if_splits)

lemma lit_eq_iff: "lit a = lit b \<longleftrightarrow> a = b"
  by (simp add: lit_def inj_map_eq_map inj_def)

lemmas parser_tables = get_parser_def meters_parser_def info_parser_def post_parser_def probe_parser_def smoke_parser_def serve_parser_def

lemma default_namespace_append:
  "default_namespace (xs @ ys) d = (case default_namespace xs d of None \<Rightarrow> default_namespace ys d | Some x \<Rightarrow> Some x)"
  by (simp add: default_namespace_def map_add_def split: option.splits)

lemma dest_ok_append: "dest_ok xs d P \<Longrightarrow> d \<notin> ag_dest ` set ys \<Longrightarrow> dest_ok (xs @ ys) d P"
  by (auto simp: dest_ok_def default_namespace_append)

lemma action_ok_int: "(\<And>s v. p s = Some v \<Longrightarrow> P (VInt v)) \<Longrightarrow> action_ok P (Store (store_int p))"
  by (auto simp: action_ok_def store_int_def)

lemma action_ok_str: "(\<And>s. P (VStr s)) \<Longrightarrow> action_ok P (Store store_str)"
  by (auto simp: action_ok_def store_str_def)

lemmas table_simps = default_namespace_def opt_def positional_def lit_eq_iff

definition int_in :: "int \<Rightarrow> int \<Rightarrow> arg_value \<Rightarrow> bool" where
  "int_in lo hi x \<longleftrightarrow> (\<exists>v. x = VInt v \<and> lo \<le> v \<and> v \<le> hi)"

definition no_int_or_in :: "int \<Rightarrow> int \<Rightarrow> arg_value \<Rightarrow> bool" where
  "no_int_or_in lo hi x \<longleftrightarrow> x = VNone \<or> int_in lo hi x"

lemma usb_dests:
  "dest_ok add_usb_args (lit ''vid'') (int_in 0 0xFFFF)"
  "dest_ok add_usb_args (lit ''pid'') (int_in 0 0xFFFF)"
  "dest_ok add_usb_args (lit ''interface'') (no_int_or_in 0 0xFF)"
  "dest_ok add_usb_args (lit ''ep_out'') (no_int_or_in 1 0x0F)"
  "dest_ok add_usb_args (lit ''ep_in'') (no_int_or_in 0x81 0x8F)"
  "dest_ok add_usb_args (lit ''timeout_ms'') (\<lambda>x. \<exists>v. x = VInt v \<and> 1 \<le> v)"
  "dest_ok add_usb_args (lit ''seq_start'') (int_in 0x20 0x3F)"
  "dest_ok add_usb_args (lit ''message_seq'') (int_in 0 MAX_MESSAGE_SEQ)"
  unfolding dest_ok_def add_usb_args_def
  by (simp_all add: table_simps int_in_def no_int_or_in_def MOTU_VID_def MOTU_AVB_PID_def session_consts action_ok_int u16_arg_def interface_arg_def message_seq_arg_def
      bounded_int_arg_range endpoint_arg_range positive_int_arg_range host_seq_arg_range)

lemma config_wf_of_dests:
  assumes "parse_args (add_usb_args @ ys) occs = Some ns" "\<forall>y\<in>set ys. ag_dest y \<notin> set (map ag_dest add_usb_args)"
  shows "config_wf (config_of path_of ns)"
proof -
  have v: "\<exists>x. ns d = Some x \<and> P x" if "dest_ok add_usb_args d P" for d P
  proof -
    have "d \<in> set (map ag_dest add_usb_args)"
      using that map_of_SomeD by (fastforce simp: dest_ok_def default_namespace_def)
    then show ?thesis using parse_args_typed[OF assms(1) dest_ok_append[OF that]] assms(2) by (metis imageE)
  qed
  note v = usb_dests[THEN v]
  have range: "lo \<le> as_int (ns d) \<and> as_int (ns d) \<le> hi" if "\<exists>x. ns d = Some x \<and> int_in lo hi x" for d lo hi
    using that by (auto simp: int_in_def)
  have range_option: "\<forall>i\<in>set_option (as_int_option (ns d)). lo \<le> i \<and> i \<le> hi" if "\<exists>x. ns d = Some x \<and> no_int_or_in lo hi x" for d lo hi
    using that by (auto simp: no_int_or_in_def int_in_def)
  have "1 \<le> as_int (ns (lit ''timeout_ms''))" using v(6) by auto
  then show ?thesis
    using range[OF v(1)] range[OF v(2)] range_option[OF v(3)] range_option[OF v(4)] range_option[OF v(5)] range[OF v(7)] range[OF v(8)]
    unfolding config_wf_def config_of_def by simp
qed

definition usb_table :: "arg_spec list \<Rightarrow> bool" where
  "usb_table p \<longleftrightarrow> (\<exists>ys. p = add_usb_args @ ys \<and> (\<forall>y\<in>set ys. ag_dest y \<notin> set (map ag_dest add_usb_args)))"

lemma usb_tableI: "\<forall>y\<in>set ys. ag_dest y \<notin> set (map ag_dest add_usb_args) \<Longrightarrow> usb_table (add_usb_args @ ys)"
  unfolding usb_table_def by blast

lemma usb_tables:
  "usb_table get_parser" "usb_table meters_parser" "usb_table info_parser" "usb_table post_parser" "usb_table probe_parser"
  "usb_table smoke_parser" "usb_table serve_parser"
  unfolding parser_tables by (rule usb_tableI; simp add: add_usb_args_def table_simps)+

lemma command_table:
  assumes "map_of build_parser name = Some (f, specs)" "f \<noteq> SelftestCommand"
  shows "usb_table specs"
proof -
  have "list_all (\<lambda>(n, f, specs). f = SelftestCommand \<or> usb_table specs) build_parser"
    by (simp add: build_parser_def usb_tables)
  then show ?thesis using map_of_SomeD[OF assms(1)] assms(2) by (auto simp: list_all_iff)
qed

lemma commands_config_wf:
  assumes "parse_command name occs = Some (f, ns)" "f \<noteq> SelftestCommand"
  shows "config_wf (config_of path_of ns)"
proof -
  obtain specs where s: "map_of build_parser name = Some (f, specs)" "parse_args specs occs = Some ns"
    using assms(1) by (auto simp: parse_command_def split: option.splits)
  obtain ys where "specs = add_usb_args @ ys" "\<forall>y\<in>set ys. ag_dest y \<notin> set (map ag_dest add_usb_args)"
    using command_table[OF s(1) assms(2)] unfolding usb_table_def by blast
  then show ?thesis using s(2) config_wf_of_dests[of ys occs ns] by blast
qed

lemma serve_only: "map_of build_parser name = Some (ServeCommand, specs) \<Longrightarrow> specs = serve_parser"
  using map_of_SomeD[of build_parser name "(ServeCommand, specs)"] by (auto simp: build_parser_def)

lemma MAX_CONFIGURABLE_WRITE_BODY_BYTES_eq: "MAX_CONFIGURABLE_WRITE_BODY_BYTES = Inr 65409"
proof -
  have "\<exists>r. post_request DATASTORE None = Inr r \<and> length r = 66" by (simp add: DATASTORE_def frame_eval Let_def)
  moreover have "header_bytes (lit ''NREK'') = Inr (map of_nat (lit ''NREK''))" by (simp add: header_bytes_def ascii_str_def)
  ultimately show ?thesis using max_post_json_body_bytes_eq unfolding MAX_CONFIGURABLE_WRITE_BODY_BYTES_def by fastforce
qed

lemma max_write_body_bytes_arg_range: "max_write_body_bytes_arg s = Some v \<Longrightarrow> 1 \<le> v \<and> v \<le> 65409"
  using positive_int_arg_range[of s v]
  by (auto simp: max_write_body_bytes_arg_def MAX_CONFIGURABLE_WRITE_BODY_BYTES_eq split: option.splits if_splits)

lemma serve_dests:
  "dest_ok serve_parser (lit ''port'') (int_in 1 65535)"
  "dest_ok serve_parser (lit ''max_write_body_bytes'') (int_in 1 65409)"
  unfolding dest_ok_def serve_parser_def add_usb_args_def
  by (simp_all add: table_simps int_in_def action_ok_int port_arg_def bounded_int_arg_range max_write_body_bytes_arg_range
      DEFAULT_MAX_WRITE_BODY_BYTES_def)

lemma serve_flags:
  "flag_spec serve_parser (lit ''--allow-writes'') (lit ''allow_writes'')"
  "flag_spec serve_parser (lit ''--require-write-token'') (lit ''require_write_token'')"
  "flag_spec serve_parser (lit ''--unsafe-allow-remote-writes'') (lit ''unsafe_allow_remote_writes'')"
  "flag_spec serve_parser (lit ''--no-validate'') (lit ''no_validate'')"
  "flag_spec serve_parser (lit ''--allow-unknown-writes'') (lit ''allow_unknown_writes'')"
  unfolding flag_spec_def serve_parser_def add_usb_args_def by (simp_all add: table_simps)

lemma as_int_range: "\<exists>x. v = Some x \<and> int_in lo hi x \<Longrightarrow> lo \<le> as_int v \<and> as_int v \<le> hi"
  by (auto simp: int_in_def)

lemma serve_command_parsed: "parse_command name occs = Some (ServeCommand, ns) \<Longrightarrow> parse_args serve_parser occs = Some ns"
  using serve_only[of name] by (auto simp: parse_command_def split: option.splits)

lemma serve_default_dests:
  assumes "parse_args serve_parser occs = Some ns"
  shows "lit ''--listen'' \<notin> fst ` set occs \<Longrightarrow> ns (lit ''listen'') = Some (VStr (lit ''127.0.0.1''))"
    and "lit ''--write-token-file'' \<notin> fst ` set occs \<Longrightarrow> lit ''--no-write-token-file'' \<notin> fst ` set occs \<Longrightarrow>
      ns (lit ''write_token_file'') = Some (VStr DEFAULT_WRITE_TOKEN_FILE)"
  using parse_args_default[OF assms, of "lit ''listen''"] parse_args_default[OF assms, of "lit ''write_token_file''"]
  by (simp_all add: serve_parser_def add_usb_args_def table_simps)

text \<open>C38: What \<open>main\<close> hands to a command. Every command that opens the device gets identifiers, endpoints, a
  time-out and sequence numbers in their ranges, whatever was typed. For \<open>serve\<close>, the port is a TCP port, the
  limit on write bodies is positive and at most 65409 bytes, the largest body that fits a frame for
  \<open>/datastore\<close>, each switch is on exactly when it was given, and without \<open>--listen\<close> the server binds the
  loopback address and without a token-file option the token goes to the default file.\<close>

theorem command_line_typed:
  assumes "parse_command name occs = Some (f, ns)"
  shows "(f \<noteq> SelftestCommand \<longrightarrow> config_wf (config_of path_of ns)) \<and>
    (f = ServeCommand \<longrightarrow>
      (let a = serve_args_of path_of ns; given = (\<lambda>option. lit option \<in> fst ` set occs)
       in 1 \<le> sa_port a \<and> sa_port a \<le> 65535 \<and>
          1 \<le> sa_max_write_body_bytes a \<and> sa_max_write_body_bytes a \<le> 65409 \<and> MAX_CONFIGURABLE_WRITE_BODY_BYTES = Inr 65409 \<and>
          (sa_allow_writes a \<longleftrightarrow> given ''--allow-writes'') \<and>
          (sa_require_write_token a \<longleftrightarrow> given ''--require-write-token'') \<and>
          (sa_unsafe_allow_remote_writes a \<longleftrightarrow> given ''--unsafe-allow-remote-writes'') \<and>
          (sa_no_validate a \<longleftrightarrow> given ''--no-validate'') \<and>
          (sa_allow_unknown_writes a \<longleftrightarrow> given ''--allow-unknown-writes'') \<and>
          (\<not> given ''--listen'' \<longrightarrow> sa_listen a = lit ''127.0.0.1'') \<and>
          (\<not> given ''--write-token-file'' \<and> \<not> given ''--no-write-token-file'' \<longrightarrow>
             sa_write_token_file a = Some (path_of DEFAULT_WRITE_TOKEN_FILE))))"
proof (cases "f = ServeCommand")
  case True
  then have p: "parse_args serve_parser occs = Some ns" using assms serve_command_parsed by blast
  note facts = serve_flags[THEN parse_args_flag[OF p]] serve_dests[THEN parse_args_typed[OF p], THEN as_int_range] serve_default_dests[OF p]
  then show ?thesis
    using True commands_config_wf[OF assms] by (simp add: serve_args_of_def Let_def MAX_CONFIGURABLE_WRITE_BODY_BYTES_eq)
qed (use commands_config_wf[OF assms] in simp)

definition sample_serve :: "occurrence list" where
  "sample_serve = [(lit ''--port'', Some (lit ''0x2a'')), (lit ''--allow-writes'', None), (lit ''--no-write-token-file'', None)]"

theorem command_line_typed_witness:
  "\<exists>ns. parse_command (lit ''serve'') sample_serve = Some (ServeCommand, ns) \<and>
     (let a = serve_args_of (\<lambda>s. [s]) ns
      in sa_port a = 42 \<and> sa_allow_writes a \<and> \<not> sa_require_write_token a \<and> sa_listen a = lit ''127.0.0.1'' \<and>
         sa_write_token_file a = None)"
proof -
  obtain ns where ns: "parse_command (lit ''serve'') sample_serve = Some (ServeCommand, ns)" "ns (lit ''port'') = Some (VInt 42)"
    "ns (lit ''write_token_file'') = Some VNone"
    by (simp add: parse_command_def build_parser_def table_simps parse_args_def sample_serve_def serve_parser_def add_usb_args_def
        take_action_def store_int_def port_arg_def bounded_int_arg_def int_arg_examples(3)[simplified])
  show ?thesis
    using command_line_typed[OF ns(1), of "\<lambda>s. [s]"] ns
    by (intro exI[of _ ns]) (simp add: Let_def sample_serve_def lit_eq_iff serve_args_of_def)
qed

end
