(* ===== verification/Motu_Preempt.thy ===== *)
theory Motu_Preempt
  imports Motu_Wait Motu_Info
begin

text \<open>
  \<open>src/tools/live_validate_foreground_preemption.py\<close>: the tool that checks on a device that a foreground read or
  write overtakes the long poll that the coordinator's thread holds. It runs on the coordinator of \<open>Motu_Wait\<close>;
  the threads it starts and the waits of its conditions are operations of \<open>tool_ops\<close>, and what they leave in the
  recorder and in the coordinator is not restricted. Opening the device, the options and the printed lines are not
  modelled; the two times that are printed are the result.
\<close>

section \<open>Recorded writes\<close>

record write_event =
  we_timestamp :: rat
  we_data :: bytes

text \<open>\<open>bulk_write\<close> of the recorder: the writes of the wrapped transport, in order, each with the time after it.\<close>

definition recorder_bulk_write ::
    "('w \<Rightarrow> rat \<times> 'w) \<Rightarrow> (bytes \<Rightarrow> ('w, int) sop) \<Rightarrow> bytes \<Rightarrow> (write_event list \<times> 'w, int) sop" where
  "recorder_bulk_write clock wrapped data = (\<lambda>(writes, w).
     case wrapped data w of
       (Inl e, w) \<Rightarrow> (Inl e, (writes, w))
     | (Inr written, w) \<Rightarrow> (case clock w of (now, w) \<Rightarrow>
         (Inr written, (writes @ [\<lparr>we_timestamp = now, we_data = data\<rparr>], w))))"

text \<open>A request that a thread of the tool runs on the coordinator.\<close>

datatype tool_request = ReadRequest pystr | PostRequest pystr pystr

text \<open>
  The tool runs beside the poller: \<open>to_wait\<close> is \<open>wait\<close> of the coordinator's and of the recorder's condition,
  \<open>to_writes\<close> the list of the recorder, \<open>to_start\<close> starts a thread with a request, whose result or exception it
  keeps, and \<open>to_join\<close> waits for that thread: \<open>None\<close> when it is still alive. \<open>to_start_poller\<close> and
  \<open>to_join_poller\<close> are those of the coordinator's own thread.
\<close>

record 'w tool_ops =
  to_dso :: "'w datastore_ops"
  to_wait :: "rat option \<Rightarrow> ('w, unit) cop"
  to_writes :: "'w \<Rightarrow> write_event list"
  to_start :: "tool_request \<Rightarrow> ('w, unit) cop"
  to_join :: "rat \<Rightarrow> ('w, datastore_payload result option) cop"
  to_start_poller :: "('w, unit) cop"
  to_join_poller :: "rat option \<Rightarrow> ('w, unit) cop"

text \<open>The loop of \<open>wait_for_write\<close> and of \<open>wait_for_active_poll\<close>: test, look at the clock, wait.\<close>

partial_function (option) wait_until ::
    "(coordinator \<times> 'w \<Rightarrow> 'a option) \<Rightarrow> 'w datastore_ops \<Rightarrow> (rat option \<Rightarrow> ('w, unit) cop) \<Rightarrow> rat \<Rightarrow> ('w, 'a option) blocking" where
  "wait_until test dso wait deadline s =
     (case test s of
        Some x \<Rightarrow> Some (Inr (Some x), s)
      | None \<Rightarrow>
          (case do_monotonic dso (snd s) of (now, w) \<Rightarrow>
             if deadline - now \<le> 0 then Some (Inr None, (fst s, w))
             else (case wait (Some (deadline - now)) (fst s, w) of
                (Inl e, t) \<Rightarrow> Some (Inl e, t)
              | (Inr _, t) \<Rightarrow> wait_until test dso wait deadline t)))"

definition timed :: "'w tool_ops \<Rightarrow> (coordinator \<times> 'w \<Rightarrow> 'a option) \<Rightarrow> rat \<Rightarrow> ('w, 'a option) blocking" where
  "timed ops test timeout_s = (\<lambda>(c, w).
     case do_monotonic (to_dso ops) w of (now, w) \<Rightarrow> wait_until test (to_dso ops) (to_wait ops) (now + timeout_s) (c, w))"

definition wait_for_write :: "'w tool_ops \<Rightarrow> (write_event \<Rightarrow> bool) \<Rightarrow> rat \<Rightarrow> ('w, write_event option) blocking" where
  "wait_for_write ops predicate timeout_s = timed ops (\<lambda>(c, w). find predicate (to_writes ops w)) timeout_s"

definition wait_for_active_poll :: "'w tool_ops \<Rightarrow> rat \<Rightarrow> ('w, bool) blocking" where
  "wait_for_active_poll ops timeout_s =
     bindB (timed ops (\<lambda>(c, w). if co_active_poll_read c = None then None else Some ()) timeout_s)
       (\<lambda>found. returning (retS (found \<noteq> None)))"

section \<open>Payloads\<close>

definition payload_value :: "json_env \<Rightarrow> datastore_payload \<Rightarrow> json result" where
  "payload_value je payload =
     (let body = strip_by byte_space (dp_body payload)
      in if body = [] then Inr JNull
         else bindR (bindR (utf8_decode body) (json_loads_std (je_load_limit je))) (\<lambda>decoded. Inr (value_of decoded)))"

text \<open>\<open>json.dumps\<close> with the separators \<open>,\<close> and \<open>:\<close>.\<close>

primrec json_compact :: "(pyfloat \<Rightarrow> pystr) \<Rightarrow> json \<Rightarrow> pystr" where
  "json_compact float_text JNull = lit ''null''"
| "json_compact float_text (JBool b) = (if b then lit ''true'' else lit ''false'')"
| "json_compact float_text (JInt i) = str_int i"
| "json_compact float_text (JFloat f) = float_text f"
| "json_compact float_text (JStr s) = dump_string s"
| "json_compact float_text (JList xs) = [91] @ join_with (lit '','') (map (json_compact float_text) xs) @ [93]"
| "json_compact float_text (JObj kvs) =
     [123] @ join_with (lit '','') (map (\<lambda>(k, t). dump_string k @ lit '':'' @ t) (map (map_prod id (json_compact float_text)) kvs)) @ [125]"

definition dumps_compact :: "json_env \<Rightarrow> json \<Rightarrow> pystr result" where
  "dumps_compact je v = (if je_dump_limit je < json_depth v then Inl OtherException else Inr (json_compact (je_float_text je) v))"

section \<open>The checks\<close>

definition UID_PATH :: pystr where "UID_PATH = lit ''/datastore/uid''"
definition HOST_OS_PATH :: pystr where "HOST_OS_PATH = lit ''/datastore/host/os''"

definition fail_unless :: "bool \<Rightarrow> ('w, unit) blocking" where
  "fail_unless b = returning (if b then retS () else raiseS RuntimeError)"

text \<open>The time after which a request must have been written.\<close>

definition dispatch_timeout_s :: "int \<Rightarrow> rat" where
  "dispatch_timeout_s budget_ms = max 1 (of_int budget_ms / 1000)"

text \<open>
  The common part of both checks: start the thread, wait until its frame was written, join it, and look at its result.
  The time is that from the start of the thread to the write, in milliseconds.
\<close>

definition timed_request :: "'w tool_ops \<Rightarrow> tool_request \<Rightarrow> pystr \<Rightarrow> int \<Rightarrow> rat \<Rightarrow> ('w, datastore_payload \<times> rat) blocking" where
  "timed_request ops request needle budget_ms join_timeout = (\<lambda>(c, w).
     case do_monotonic (to_dso ops) w of (started, w) \<Rightarrow>
       bindB (returning (to_start ops request)) (\<lambda>_.
       bindB (wait_for_write ops (\<lambda>item. started \<le> we_timestamp item \<and> contains (map of_nat needle) (we_data item))
                (dispatch_timeout_s budget_ms)) (\<lambda>event.
       (case event of
          None \<Rightarrow> returning (raiseS RuntimeError)
        | Some item \<Rightarrow>
            bindB (returning (to_join ops join_timeout)) (\<lambda>outcome.
              case outcome of
                Some (Inr payload) \<Rightarrow> returning (retS (payload, (we_timestamp item - started) * 1000))
              | _ \<Rightarrow> returning (raiseS RuntimeError))))) (c, w))"

definition validate_foreground_read :: "'w tool_ops \<Rightarrow> json_env \<Rightarrow> pystr option \<Rightarrow> int \<Rightarrow> ('w, rat) blocking" where
  "validate_foreground_read ops je serial budget_ms =
     bindB (wait_for_active_poll ops 5) (\<lambda>active.
     bindB (fail_unless active) (\<lambda>_.
     bindB (timed_request ops (ReadRequest UID_PATH) UID_PATH budget_ms 5) (\<lambda>(payload, dispatch_ms).
     bindB (returning (\<lambda>s. (payload_value je payload, s))) (\<lambda>v.
     bindB (fail_unless (case serial of None \<Rightarrow> True | Some expected \<Rightarrow> v = JStr expected)) (\<lambda>_.
     bindB (wait_for_active_poll ops 5) (\<lambda>active.
     bindB (fail_unless active) (\<lambda>_. returning (retS dispatch_ms))))))))"

definition validate_idempotent_write :: "'w tool_ops \<Rightarrow> json_env \<Rightarrow> int \<Rightarrow> ('w, pystr \<times> rat) blocking" where
  "validate_idempotent_write ops je budget_ms =
     bindB (coordinator_read (to_dso ops) (to_wait ops) HOST_OS_PATH (lit ''0'') None DEFAULT_RESPONSE_TIMEOUT_MS None) (\<lambda>current.
     bindB (returning (\<lambda>s. (bindR (payload_value je current) (\<lambda>v. dumps_compact je (JObj [(lit ''value'', v)])), s))) (\<lambda>body.
     bindB (wait_for_active_poll ops 5) (\<lambda>active.
     bindB (fail_unless active) (\<lambda>_.
     bindB (timed_request ops (PostRequest HOST_OS_PATH body) HOST_OS_PATH budget_ms 10) (\<lambda>(payload, dispatch_ms).
     bindB (wait_for_active_poll ops 5) (\<lambda>active.
     bindB (fail_unless active) (\<lambda>_. returning (retS (body, dispatch_ms)))))))))"

text \<open>The cycles of reads, then the write; \<open>max\<close> of no time at all raises \<open>ValueError\<close>.\<close>

fun read_cycles :: "'w tool_ops \<Rightarrow> json_env \<Rightarrow> pystr option \<Rightarrow> int \<Rightarrow> nat \<Rightarrow> ('w, rat list) blocking" where
  "read_cycles ops je serial budget_ms 0 = returning (retS [])"
| "read_cycles ops je serial budget_ms (Suc n) =
     bindB (validate_foreground_read ops je serial budget_ms) (\<lambda>ms.
     bindB (read_cycles ops je serial budget_ms n) (\<lambda>rest. returning (retS (ms # rest))))"

definition validate_all ::
    "'w tool_ops \<Rightarrow> json_env \<Rightarrow> pystr option \<Rightarrow> int \<Rightarrow> int \<Rightarrow> bool \<Rightarrow> ('w, rat \<times> (pystr \<times> rat) option) blocking" where
  "validate_all ops je serial budget_ms cycles include_idempotent_write =
     bindB (read_cycles ops je serial budget_ms (nat cycles)) (\<lambda>read_dispatch_ms.
     bindB (if include_idempotent_write then bindB (validate_idempotent_write ops je budget_ms) (\<lambda>x. returning (retS (Some x)))
            else returning (retS None)) (\<lambda>written.
     returning (if read_dispatch_ms = [] then raiseS ValueError else retS (Max (set read_dispatch_ms), written))))"

text \<open>\<open>finally\<close> with a call that may raise itself.\<close>

definition finally_call :: "('w, 'a) blocking \<Rightarrow> ('w, unit) cop \<Rightarrow> ('w, 'a) blocking" where
  "finally_call m f = (\<lambda>s. case m s of None \<Rightarrow> None | Some (r, t) \<Rightarrow> Some (finallyS (\<lambda>t. (r, t)) f t))"

text \<open>The body of \<open>main\<close> once the device is open and the coordinator is created.\<close>

definition validate_preemption ::
    "'w tool_ops \<Rightarrow> json_env \<Rightarrow> pystr option \<Rightarrow> int \<Rightarrow> int \<Rightarrow> bool \<Rightarrow> ('w, rat \<times> (pystr \<times> rat) option) blocking" where
  "validate_preemption ops je serial budget_ms cycles include_idempotent_write =
     bindB (\<lambda>(c, w). fail_unless (co_native_long_poll_available c) (c, w)) (\<lambda>_.
     bindB (coordinator_read (to_dso ops) (to_wait ops) DEFAULT_POLL_PATH (lit ''0'') None DEFAULT_RESPONSE_TIMEOUT_MS None) (\<lambda>initial.
     bindB (returning (coordinator_start (to_start_poller ops) False)) (\<lambda>worker.
     finally_call (validate_all ops je serial budget_ms cycles include_idempotent_write)
       (coordinator_close (to_dso ops) (to_join_poller ops) worker False (Some 2)))))"

section \<open>Every check ends\<close>

lemma wait_until_returns:
  assumes tp: "time_passes dso wait time \<delta>"
  shows "deadline - time (snd s) < of_nat n * \<delta> \<Longrightarrow>
    \<exists>x t. wait_until test dso wait deadline s = Some (Inr x, t) \<and> (\<forall>y. x = Some y \<longrightarrow> test t = Some y) \<and>
      (x = None \<longrightarrow> deadline \<le> time (snd t))"
proof (induction n arbitrary: s)
  case (Suc n)
  show ?case
  proof (cases "test s")
    case None
    obtain now w where m: "do_monotonic dso (snd s) = (now, w)" by fastforce
    note now = time_passesD(2)[OF tp m]
    obtain u t where x: "wait (Some (deadline - now)) (fst s, w) = (u, t)" by (metis surj_pair)
    note wt = time_passesD(4)[OF tp x]
    show ?thesis
    proof (cases "deadline - now \<le> 0")
      case True
      then show ?thesis using None m now by (subst (1) wait_until.simps) auto
    next
      case False
      have "deadline - time (snd t) < of_nat n * \<delta>" using Suc.prems now wt by (simp add: algebra_simps)
      from Suc.IH[OF this] show ?thesis using None m x wt False by (subst (1) wait_until.simps) auto
    qed
  qed (subst wait_until.simps, simp)
next
  case 0
  obtain now w where m: "do_monotonic dso (snd s) = (now, w)" by fastforce
  then show ?case using 0 time_passesD(2)[OF tp m]
    by (cases s; cases "test s") (subst (1) wait_until.simps, auto)+
qed

lemma timed_returns:
  assumes "time_passes (to_dso ops) (to_wait ops) time \<delta>"
  shows "\<exists>x t. timed ops test timeout_s s = Some (Inr x, t) \<and> (\<forall>y. x = Some y \<longrightarrow> test t = Some y) \<and>
    (x = None \<longrightarrow> time (snd s) + timeout_s \<le> time (snd t))"
proof -
  obtain c w where s: "s = (c, w)" by fastforce
  obtain now w1 where m: "do_monotonic (to_dso ops) w = (now, w1)" by fastforce
  obtain n where "now + timeout_s - time (snd (c, w1)) < of_nat n * \<delta>"
    using ex_less_of_nat_mult time_passesD(1)[OF assms] by blast
  from wait_until_returns[OF assms this, of test] show ?thesis
    using m time_passesD(2)[OF assms m] unfolding s timed_def by auto
qed

lemma wait_for_active_poll_returns:
  assumes "time_passes (to_dso ops) (to_wait ops) time \<delta>"
  shows "\<exists>b t. wait_for_active_poll ops timeout_s s = Some (Inr b, t) \<and> (b \<longrightarrow> co_active_poll_read (fst t) \<noteq> None)"
proof -
  obtain x t where "timed ops (\<lambda>(c, w). if co_active_poll_read c = None then None else Some ()) timeout_s s = Some (Inr x, t)"
    "\<forall>y. x = Some y \<longrightarrow> (\<lambda>(c, w). if co_active_poll_read c = None then None else Some ()) t = Some y"
    using timed_returns[OF assms, of "\<lambda>(c, w). if co_active_poll_read c = None then None else Some ()" timeout_s s] by blast
  then show ?thesis by (cases x) (auto simp: wait_for_active_poll_def bindB_def returning_def split: if_splits prod.splits)
qed

text \<open>A frame with the path that was written after \<open>started\<close>.\<close>

definition dispatched :: "pystr \<Rightarrow> rat \<Rightarrow> write_event \<Rightarrow> bool" where
  "dispatched needle started item \<longleftrightarrow> started \<le> we_timestamp item \<and> contains (map of_nat needle) (we_data item)"

text \<open>
  A request that overtook the poll, step by step: the clock shows \<open>started\<close>, then the thread is started with the request,
  then the recorder has a frame with the path that was written at \<open>started\<close> or later, and joining the thread gives the payload.
\<close>

definition request_run ::
    "'w tool_ops \<Rightarrow> tool_request \<Rightarrow> pystr \<Rightarrow> int \<Rightarrow> rat \<Rightarrow> coordinator \<times> 'w \<Rightarrow> datastore_payload \<Rightarrow> rat \<Rightarrow> coordinator \<times> 'w \<Rightarrow> bool" where
  "request_run ops request needle budget_ms join_timeout s p ms t \<longleftrightarrow>
     (\<exists>started w s1 u item. do_monotonic (to_dso ops) (snd s) = (started, w) \<and> to_start ops request (fst s, w) = (Inr (), s1) \<and>
        wait_for_write ops (dispatched needle started) (dispatch_timeout_s budget_ms) s1 = Some (Inr (Some item), u) \<and>
        item \<in> set (to_writes ops (snd u)) \<and> dispatched needle started item \<and> ms = (we_timestamp item - started) * 1000 \<and>
        to_join ops join_timeout u = (Inr (Some (Inr p)), t))"

lemma timed_request_returns:
  assumes "time_passes (to_dso ops) (to_wait ops) time \<delta>"
  shows "\<exists>r t. timed_request ops request needle budget_ms join_timeout s = Some (r, t) \<and>
    (\<forall>p ms. r = Inr (p, ms) \<longrightarrow> request_run ops request needle budget_ms join_timeout s p ms t)"
proof -
  obtain c w where s: "s = (c, w)" by fastforce
  obtain started w1 where m: "do_monotonic (to_dso ops) w = (started, w1)" by fastforce
  obtain x s1 where st: "to_start ops request (c, w1) = (x, s1)" by (metis surj_pair)
  have pred: "(\<lambda>item. started \<le> we_timestamp item \<and> contains (map of_nat needle) (we_data item)) = dispatched needle started"
    by (simp add: dispatched_def fun_eq_iff)
  obtain ev u where ev: "wait_for_write ops (dispatched needle started) (dispatch_timeout_s budget_ms) s1 = Some (Inr ev, u)"
      "\<forall>item. ev = Some item \<longrightarrow> find (dispatched needle started) (to_writes ops (snd u)) = Some item"
    using timed_returns[OF assms, of "\<lambda>(c, w). find (dispatched needle started) (to_writes ops w)" "dispatch_timeout_s budget_ms" s1]
    unfolding wait_for_write_def by (auto simp: case_prod_beta)
  obtain j t where j: "to_join ops join_timeout u = (j, t)" by (metis surj_pair)
  have run: "timed_request ops request needle budget_ms join_timeout s =
      (case (x, ev) of
         (Inl e, _) \<Rightarrow> Some (Inl e, s1)
       | (Inr _, None) \<Rightarrow> Some (Inl RuntimeError, u)
       | (Inr _, Some item) \<Rightarrow>
           (case j of Inl e \<Rightarrow> Some (Inl e, t)
            | Inr (Some (Inr p)) \<Rightarrow> Some (Inr (p, (we_timestamp item - started) * 1000), t) | Inr _ \<Rightarrow> Some (Inl RuntimeError, t)))"
    unfolding timed_request_def s prod.case m pred
    using st ev(1) j by (cases x; cases ev) (simp_all add: bindB_def returning_def split: sum.splits option.splits)
  show ?thesis
  proof (cases "\<exists>item p. x = Inr () \<and> ev = Some item \<and> j = Inr (Some (Inr p))")
    case True
    then obtain item p where xi: "x = Inr ()" "ev = Some item" "j = Inr (Some (Inr p))" by blast
    have "item \<in> set (to_writes ops (snd u))" "dispatched needle started item" using ev(2) xi(2) by (auto simp: find_Some_iff)
    then have "request_run ops request needle budget_ms join_timeout s p ((we_timestamp item - started) * 1000) t"
      unfolding request_run_def s fst_conv snd_conv using m st ev(1) j unfolding xi by blast
    then show ?thesis using run xi by simp
  next
    case False
    then have "\<exists>e t. timed_request ops request needle budget_ms join_timeout s = Some (Inl e, t)"
      using run by (cases x) (auto split: sum.splits option.splits)
    then show ?thesis by blast
  qed
qed

lemma bindB_Some: "m s = Some (Inr x, t) \<Longrightarrow> bindB m f s = f x t" "m s = Some (Inl e, t) \<Longrightarrow> bindB m f s = Some (Inl e, t)"
  by (simp_all add: bindB_def)

lemma bindB_returning: "bindB (returning m) f s = (case m s of (Inl e, t) \<Rightarrow> Some (Inl e, t) | (Inr x, t) \<Rightarrow> f x t)"
  by (auto simp: bindB_def returning_def split: prod.splits sum.splits)

lemma bindB_fail_unless: "bindB (fail_unless b) f s = (if b then f () s else Some (Inl RuntimeError, s))"
  by (simp add: fail_unless_def bindB_returning)

text \<open>C39: The check of a foreground read ends, and a pass means that the read overtook the poll. \<open>validate_foreground_read\<close>
  returns whatever the device and the threads do, when waits take time. When it passes, the poller held a poll at the
  beginning; then the clock was read, then the thread with the read was started, and after that a frame with the path was
  recorded whose time is not before the one read; the reported time is the difference of the two in
  milliseconds; the thread ended with a payload with the expected serial number, and after that the poller is polling again.\<close>

theorem foreground_read_validated:
  assumes "time_passes (to_dso ops) (to_wait ops) time \<delta>"
  shows "\<exists>r t. validate_foreground_read ops je serial budget_ms s = Some (r, t) \<and>
    (\<forall>ms. r = Inr ms \<longrightarrow> 0 \<le> ms \<and>
       (\<exists>s1 started w s2 u item p s3 v.
          wait_for_active_poll ops 5 s = Some (Inr True, s1) \<and> co_active_poll_read (fst s1) \<noteq> None \<and>
          do_monotonic (to_dso ops) (snd s1) = (started, w) \<and> started = time (snd s1) \<and>
          to_start ops (ReadRequest UID_PATH) (fst s1, w) = (Inr (), s2) \<and>
          wait_for_write ops (dispatched UID_PATH started) (dispatch_timeout_s budget_ms) s2 = Some (Inr (Some item), u) \<and>
          item \<in> set (to_writes ops (snd u)) \<and> dispatched UID_PATH started item \<and> ms = (we_timestamp item - started) * 1000 \<and>
          to_join ops 5 u = (Inr (Some (Inr p)), s3) \<and> payload_value je p = Inr v \<and>
          (\<forall>expected. serial = Some expected \<longrightarrow> v = JStr expected) \<and>
          wait_for_active_poll ops 5 s3 = Some (Inr True, t) \<and> co_active_poll_read (fst t) \<noteq> None))"
proof -
  obtain b s1 where a: "wait_for_active_poll ops 5 s = Some (Inr b, s1)" "b \<longrightarrow> co_active_poll_read (fst s1) \<noteq> None"
    using wait_for_active_poll_returns[OF assms, of 5 s] by blast
  obtain r t where r: "timed_request ops (ReadRequest UID_PATH) UID_PATH budget_ms 5 s1 = Some (r, t)"
    "\<forall>p ms. r = Inr (p, ms) \<longrightarrow> request_run ops (ReadRequest UID_PATH) UID_PATH budget_ms 5 s1 p ms t"
    using timed_request_returns[OF assms, of "ReadRequest UID_PATH" UID_PATH budget_ms 5 s1] by (elim exE conjE) (rule that)
  obtain b' t' where a': "wait_for_active_poll ops 5 t = Some (Inr b', t')" "b' \<longrightarrow> co_active_poll_read (fst t') \<noteq> None"
    using wait_for_active_poll_returns[OF assms, of 5 t] by blast
  let ?ok = "\<lambda>v. case serial of None \<Rightarrow> True | Some expected \<Rightarrow> v = JStr expected"
  have run: "validate_foreground_read ops je serial budget_ms s =
      (if \<not> b then Some (Inl RuntimeError, s1)
       else case r of Inl e \<Rightarrow> Some (Inl e, t) | Inr (p, ms) \<Rightarrow>
         (case payload_value je p of Inl e \<Rightarrow> Some (Inl e, t) | Inr v \<Rightarrow>
            if \<not> ?ok v then Some (Inl RuntimeError, t) else if \<not> b' then Some (Inl RuntimeError, t') else Some (Inr ms, t')))"
    unfolding validate_foreground_read_def bindB_Some(1)[where m = "wait_for_active_poll ops 5", OF a(1)] bindB_fail_unless
    using r(1) a'(1) by (cases r) (simp_all add: bindB_Some bindB_returning bindB_fail_unless returning_def split: prod.splits sum.splits)
  show ?thesis
  proof (cases "\<exists>p ms v. b \<and> b' \<and> r = Inr (p, ms) \<and> payload_value je p = Inr v \<and> ?ok v")
    case True
    then obtain p ms v where ok: "b" "b'" "r = Inr (p, ms)" "payload_value je p = Inr v" "?ok v" by blast
    obtain started w s2 u item where i: "do_monotonic (to_dso ops) (snd s1) = (started, w)"
      "to_start ops (ReadRequest UID_PATH) (fst s1, w) = (Inr (), s2)"
      "wait_for_write ops (dispatched UID_PATH started) (dispatch_timeout_s budget_ms) s2 = Some (Inr (Some item), u)"
      "item \<in> set (to_writes ops (snd u))" "dispatched UID_PATH started item" "ms = (we_timestamp item - started) * 1000"
      "to_join ops 5 u = (Inr (Some (Inr p)), t)"
      using r(2) ok(3) unfolding request_run_def by (elim allE impE exE conjE) (assumption, rule that)
    have "started = time (snd s1)" using time_passesD(2)[OF assms i(1)] by simp
    moreover have "0 \<le> ms" using i(5,6) by (simp add: dispatched_def)
    moreover have "\<forall>expected. serial = Some expected \<longrightarrow> v = JStr expected" using ok(5) by auto
    moreover have "validate_foreground_read ops je serial budget_ms s = Some (Inr ms, t')" using run ok by simp
    moreover have "b = True" "b' = True" using ok(1,2) by auto
    ultimately show ?thesis using i ok(4) a a' by blast
  next
    case False
    then have "\<exists>e t. validate_foreground_read ops je serial budget_ms s = Some (Inl e, t)"
      using run by (auto split: sum.splits prod.splits)
    then show ?thesis by blast
  qed
qed

section \<open>A slow dispatch\<close>

definition slow_item :: write_event where
  "slow_item = \<lparr>we_timestamp = 9 / 10, we_data = map of_nat UID_PATH\<rparr>"

definition slow_ops :: "rat tool_ops" where
  "slow_ops =
     \<lparr>to_dso = ticking\<lparr>do_monotonic := \<lambda>w. (w, w)\<rparr>, to_wait = (\<lambda>_ (c, w). (Inr (), (c, w + 9 / 10))),
      to_writes = (\<lambda>w. if w < 9 / 10 then [] else [slow_item]), to_start = (\<lambda>_ s. (Inr (), s)),
      to_join = (\<lambda>_ s. (Inr (Some (Inr \<lparr>dp_body = [], dp_etag = None, dp_status = Some 200, dp_content_type = None\<rparr>)), s)),
      to_start_poller = (\<lambda>s. (Inr (), s)), to_join_poller = (\<lambda>_ s. (Inr (), s))\<rparr>"

definition polling :: coordinator where
  "polling = demo_cache\<lparr>co_active_poll_read := Some 0\<rparr>"

lemma slow_time: "time_passes (to_dso slow_ops) (to_wait slow_ops) (\<lambda>w. w) (9 / 10)"
  by (auto simp: time_passes_def slow_ops_def ticking_def split: prod.splits)

lemma slow_item_matches: "contains (map of_nat UID_PATH) (we_data slow_item)"
  by (simp add: contains_def slow_item_def UID_PATH_def)

lemma slow_item_at: "we_timestamp slow_item = 9 / 10"
  by (simp add: slow_item_def)

lemma slow_active: "wait_for_active_poll slow_ops 5 (polling, w) = Some (Inr True, (polling, w))"
  by (simp add: wait_for_active_poll_def timed_def slow_ops_def polling_def wait_until.simps bindB_def returning_def)

lemma slow_run: "validate_foreground_read slow_ops je None 50 (polling, 0) = Some (Inr 900, (polling, 9 / 10))"
proof -
  note active = slow_active
  have "timed_request slow_ops (ReadRequest UID_PATH) UID_PATH 50 5 (polling, 0) =
      Some (Inr (\<lparr>dp_body = [], dp_etag = None, dp_status = Some 200, dp_content_type = None\<rparr>, 900), (polling, 9 / 10))"
    using slow_item_matches slow_item_at
    by (simp add: timed_request_def wait_for_write_def timed_def slow_ops_def dispatch_timeout_s_def wait_until.simps bindB_def returning_def)
  then show ?thesis
    using active by (simp add: validate_foreground_read_def bindB_def returning_def fail_unless_def payload_value_def strip_by_def)
qed

text \<open>The budget is a lower limit only: with a budget of 50 ms, a read that is written after 900 ms passes.\<close>

theorem slow_dispatch_passes:
  "\<exists>ms t. validate_foreground_read slow_ops je None 50 (polling, 0) = Some (Inr ms, t) \<and> 50 < ms"
  using slow_run[of je] by (intro exI conjI, assumption) simp

theorem foreground_read_validated_witness:
  "\<exists>s1 w s2 u item s3 p. do_monotonic (to_dso slow_ops) (snd s1) = (0, w) \<and>
     to_start slow_ops (ReadRequest UID_PATH) (fst s1, w) = (Inr (), s2) \<and>
     item \<in> set (to_writes slow_ops (snd u)) \<and> dispatched UID_PATH 0 item \<and> we_timestamp item = 9 / 10 \<and>
     to_join slow_ops 5 u = (Inr (Some (Inr p)), s3) \<and> wait_for_active_poll slow_ops 5 s3 = Some (Inr True, (polling, 9 / 10))"
proof -
  obtain s1 started w s2 u item p s3 where x: "wait_for_active_poll slow_ops 5 (polling, 0) = Some (Inr True, s1)"
      "do_monotonic (to_dso slow_ops) (snd s1) = (started, w)" "started = snd s1"
      "to_start slow_ops (ReadRequest UID_PATH) (fst s1, w) = (Inr (), s2)"
      "item \<in> set (to_writes slow_ops (snd u))" "dispatched UID_PATH started item" "900 = (we_timestamp item - started) * 1000"
      "to_join slow_ops 5 u = (Inr (Some (Inr p)), s3)" "wait_for_active_poll slow_ops 5 s3 = Some (Inr True, (polling, 9 / 10))"
    using foreground_read_validated[OF slow_time, of sample_env None 50 "(polling, 0)"] slow_run[of sample_env] by auto
  have "s1 = (polling, 0)" using x(1) slow_active[of 0] by simp
  then have "started = 0" "we_timestamp item = 9 / 10" using x(3,7) by simp_all
  then show ?thesis using x by blast
qed

end
