(* ===== verification/Motu_Live.thy ===== *)
theory Motu_Live
  imports Motu_Options Motu_Validate
begin

text \<open>
  The live tools as programs: the options of both tools, and \<open>main\<close> of \<open>src/tools/live_validate_response_frames.py\<close>,
  which opens the device as the commands do, captures every path with \<open>capture_get\<close> and reports. What it prints is
  not modelled; \<open>live_frames_run\<close> returns the captured results.
\<close>

section \<open>The options of the tools\<close>

definition tool_usb_args :: "int \<Rightarrow> arg_spec list" where
  "tool_usb_args timeout_ms =
     [opt ''--vid'' ''vid'' (Store (store_int int_arg)) (VInt MOTU_VID), opt ''--pid'' ''pid'' (Store (store_int int_arg)) (VInt MOTU_AVB_PID),
      opt ''--serial'' ''serial'' (Store store_str) VNone, opt ''--interface'' ''interface'' (Store (store_int int_arg)) VNone,
      opt ''--ep-out'' ''ep_out'' (Store (store_int int_arg)) VNone, opt ''--ep-in'' ''ep_in'' (Store (store_int int_arg)) VNone,
      opt ''--timeout-ms'' ''timeout_ms'' (Store (store_int py_int)) (VInt timeout_ms),
      opt ''--seq-start'' ''seq_start'' (Store (store_int int_arg)) (VInt DEFAULT_SEQ_START),
      opt ''--message-seq'' ''message_seq'' (Store (store_int py_int)) (VInt DEFAULT_MESSAGE_SEQ),
      opt ''--no-init'' ''no_init'' StoreTrue (VBool False), opt ''--debug'' ''debug'' StoreTrue (VBool False),
      opt ''--sysfs-root'' ''sysfs_root'' (Store store_str) (VStr DEFAULT_SYSFS_ROOT),
      opt ''--devfs-root'' ''devfs_root'' (Store store_str) (VStr DEFAULT_DEVFS_ROOT)]"

definition frames_parser :: "arg_spec list" where
  "frames_parser = tool_usb_args DEFAULT_TIMEOUT_MS @
     [opt ''--etag'' ''etag'' (Store store_str) (VStr (lit ''0'')),
      opt ''--max-bytes'' ''max_bytes'' (Store (store_int py_int)) (VInt (1024 * 1024)),
      opt ''--response-timeout-ms'' ''response_timeout_ms'' (Store (store_int py_int)) (VInt 10000),
      opt ''--max-reads'' ''max_reads'' (Store (store_int py_int)) (VInt 512),
      opt ''--max-ignored-packets'' ''max_ignored_packets'' (Store (store_int py_int)) (VInt 32),
      opt ''--max-response-frames'' ''max_response_frames'' (Store (store_int py_int)) (VInt 256),
      opt ''--path'' ''paths'' Append VNone, opt ''--include-full-datastore'' ''include_full_datastore'' StoreTrue (VBool False)]"

definition preemption_parser :: "arg_spec list" where
  "preemption_parser = tool_usb_args 600 @
     [opt ''--cycles'' ''cycles'' (Store (store_int py_int)) (VInt 3),
      opt ''--preemption-budget-ms'' ''preemption_budget_ms'' (Store (store_int py_int)) (VInt 500),
      opt ''--include-idempotent-write'' ''include_idempotent_write'' StoreTrue (VBool False)]"

section \<open>The frame validator\<close>

definition DEFAULT_PATHS :: "pystr list" where
  "DEFAULT_PATHS = [lit ''/datastore/uid'', lit ''/datastore/host/mode'']"

definition live_paths :: "namespace \<Rightarrow> pystr list" where
  "live_paths ns =
     (let paths = (case ns (lit ''paths'') of Some (VList (p # ps)) \<Rightarrow> p # ps | _ \<Rightarrow> DEFAULT_PATHS)
      in if as_bool (ns (lit ''include_full_datastore'')) \<and> DATASTORE \<notin> set paths then paths @ [DATASTORE] else paths)"

definition limits_of :: "namespace \<Rightarrow> capture_limits" where
  "limits_of ns =
     \<lparr>cl_max_bytes = as_int (ns (lit ''max_bytes'')), cl_response_timeout_ms = as_int (ns (lit ''response_timeout_ms'')),
      cl_max_reads = as_int (ns (lit ''max_reads'')), cl_max_ignored_packets = as_int (ns (lit ''max_ignored_packets'')),
      cl_max_response_frames = as_int (ns (lit ''max_response_frames''))\<rparr>"

fun capture_all :: "'w transport \<Rightarrow> (pystr \<Rightarrow> bool) \<Rightarrow> pystr \<Rightarrow> capture_limits \<Rightarrow> pystr list \<Rightarrow> ('w, capture_result list) sess" where
  "capture_all tr netloc_ok etag cl [] = retS []"
| "capture_all tr netloc_ok etag cl (path # paths) =
     bindS (capture_get tr netloc_ok path etag cl) (\<lambda>result.
     bindS (capture_all tr netloc_ok etag cl paths) (\<lambda>results. retS (result # results)))"

definition live_frames_run :: "'k platform \<Rightarrow> (pystr \<Rightarrow> bool) \<Rightarrow> (pystr \<Rightarrow> path) \<Rightarrow> namespace \<Rightarrow> ('k, capture_result list) sop" where
  "live_frames_run pl netloc_ok path_of ns =
     open_datastore pl (config_of path_of ns) (\<lambda>tr. capture_all tr netloc_ok (as_str (ns (lit ''etag''))) (limits_of ns) (live_paths ns))"

definition live_frames_status :: "capture_result list \<Rightarrow> int" where
  "live_frames_status results = (if list_all capture_ok results then 0 else 1)"

definition live_frames_main :: "'k platform \<Rightarrow> (pystr \<Rightarrow> bool) \<Rightarrow> (pystr \<Rightarrow> path) \<Rightarrow> namespace \<Rightarrow> ('k, int) sop" where
  "live_frames_main pl netloc_ok path_of ns =
     bindS (live_frames_run pl netloc_ok path_of ns) (\<lambda>results. retS (live_frames_status results))"

section \<open>What the validator does\<close>

context world_relation
begin

lemma capture_packet_keeps: "keepsS R (capture_packet tr cl cp packet)"
  unfolding capture_packet_def Let_def
  by (intro keeps_intros R_order next_host_seq_keeps write_frame_keeps)

lemma capture_iteration_keeps: "keepsS R (capture_iteration tr cl deadline cp)"
  unfolding capture_iteration_def Let_def
  by (intro keeps_intros R_order monotonic_keeps on_world read_logical_frame_keeps plain_mode capture_packet_keeps)

lemma capture_loop_keeps: "keepsS R (capture_loop tr cl deadline cp)"
  unfolding keepsS_def
proof
  fix s
  show "R s (snd (capture_loop tr cl deadline cp s))"
  proof (induction "nat (cl_max_reads cl - int (cp_reads cp))" arbitrary: cp s rule: less_induct)
    case less
    obtain r t where it: "capture_iteration tr cl deadline cp s = (r, t)" by (metis surj_pair)
    have 1: "R s t" using capture_iteration_keeps it by (metis keepsS_def snd_conv)
    show ?case
    proof (cases "\<exists>cp'. r = Inr (cp', False) \<and> cp_quiet_reads cp < 2")
      case True
      then obtain cp' where cp': "r = Inr (cp', False)" "cp_quiet_reads cp < 2" by blast
      note reads = capture_iteration_reads[OF it[unfolded cp'(1)]]
      have "R t (snd (capture_loop tr cl deadline cp' t))" by (rule less) (use reads in linarith)
      then have "R s (snd (capture_loop tr cl deadline cp' t))" by (rule transpD[OF R_order(2) 1])
      then show ?thesis using it cp' by (subst capture_loop.simps) simp
    next
      case False
      then show ?thesis using it 1 reflpD[OF R_order(1)] by (subst capture_loop.simps) (auto split: sum.splits)
    qed
  qed
qed

lemma capture_get_keeps: "keepsS R (capture_get tr netloc_ok path etag cl)"
  unfolding capture_get_def Let_def
  by (intro keeps_split keeps_intros R_order next_host_seq_keeps write_frame_keeps monotonic_keeps capture_loop_keeps)
    (use W_refl in \<open>auto simp: R_def reflp_def\<close>)

lemma capture_all_keeps: "keepsS R (capture_all tr netloc_ok etag cl paths)"
proof (induction paths)
  case (Cons path paths)
  then show ?case unfolding capture_all.simps by (intro keeps_intros R_order capture_get_keeps)
qed (unfold capture_all.simps, intro keeps_intros R_order)

end

lemma capture_get_result:
  assumes "capture_get tr netloc_ok path etag cl s = (Inr r, s')"
  shows "normalize_path netloc_ok path = Inr (cr_path r) \<and>
    check_packets (cr_path r) (cr_message_seq r) (cp_response_packets (cr_capture r)) = Inr (cr_frame_checks r, cr_joined_response r)"
  using assms by (cases s) (auto simp: capture_get_def Let_def result_simps bindS_Inr_iff split: prod.splits)

text \<open>A captured result is fine exactly when the parser of the proxy accepts its frames.\<close>

definition frames_accepted :: "capture_result \<Rightarrow> bool" where
  "frames_accepted r \<longleftrightarrow>
     cp_response_packets (cr_capture r) \<noteq> [] \<and> cp_unexpected_packets (cr_capture r) = [] \<and>
     join_response_frames (cp_response_packets (cr_capture r)) (cr_message_seq r) = Inr (cr_joined_response r)"

lemma capture_ok_accepted:
  assumes "capture_get tr netloc_ok path etag cl s = (Inr r, s')"
  shows "capture_ok r \<longleftrightarrow> frames_accepted r"
proof -
  let ?packets = "cp_response_packets (cr_capture r)"
  obtain checks joined fault where a: "check_packets (cr_path r) (cr_message_seq r) ?packets = Inr (checks, joined)"
    "join_response_frames ?packets (cr_message_seq r) = (if list_all check_ok checks then Inr joined else Inl (ResponseFrameError fault))"
    using check_packets_agree by metis
  then show ?thesis using capture_get_result[OF assms] by (auto simp: capture_ok_def frames_accepted_def)
qed

lemma capture_all_results:
  "capture_all tr netloc_ok etag cl paths s = (Inr results, s') \<Longrightarrow>
   list_all2 (\<lambda>path r. normalize_path netloc_ok path = Inr (cr_path r) \<and> (capture_ok r \<longleftrightarrow> frames_accepted r)) paths results"
proof (induction paths arbitrary: s results)
  case (Cons path paths)
  obtain r t rs where c: "capture_get tr netloc_ok path etag cl s = (Inr r, t)" "capture_all tr netloc_ok etag cl paths t = (Inr rs, s')"
      "results = r # rs"
    using Cons.prems unfolding capture_all.simps bindS_Inr_iff by (auto simp del: surj_pair)
  show ?case unfolding c(3) list_all2_Cons using capture_get_result[OF c(1)] capture_ok_accepted[OF c(1)] Cons.IH[OF c(2)] by blast
qed simp

text \<open>What an opened datastore returns, its body has returned.\<close>

lemma open_datastore_body:
  assumes "open_datastore pl c body k = (Inr x, k')"
  shows "\<exists>t s s'. body (transport_for pl t) s = (Inr x, s')"
  using assms unfolding open_datastore_def with_session_def Let_def finallyS_def
  by (auto simp: bindS_Inr_iff split: sum.splits prod.splits) blast+

text \<open>C40: The live frame validator reports what the proxy would accept, and gives the device back. Whatever the device
  answers, after the tool the same files are open as before; when all paths were captured, the results are those of
  the paths in order, and the exit status is 0 exactly when every response came without stray packets and the
  proxy's own parser joins its frames to the same bytes.\<close>

theorem live_frames_validated:
  assumes "platform_contract pl opened"
  shows "opened (snd (live_frames_main pl netloc_ok path_of ns k)) = opened k \<and>
    (\<forall>results k'. live_frames_run pl netloc_ok path_of ns k = (Inr results, k') \<longrightarrow>
       list_all2 (\<lambda>path r. normalize_path netloc_ok path = Inr (cr_path r)) (live_paths ns) results \<and>
       live_frames_main pl netloc_ok path_of ns k = (Inr (if \<forall>r\<in>set results. frames_accepted r then 0 else 1), k'))"
proof (intro conjI allI impI)
  have o: "opened (snd (live_frames_run pl netloc_ok path_of ns k)) = opened k"
    unfolding live_frames_run_def by (rule open_datastore_files[OF assms]) (rule usb.capture_all_keeps)
  obtain x k1 where "live_frames_run pl netloc_ok path_of ns k = (x, k1)" by (metis surj_pair)
  then show "opened (snd (live_frames_main pl netloc_ok path_of ns k)) = opened k"
    using o by (cases x) (simp_all add: live_frames_main_def bindS_def)
next
  fix results k'
  assume run: "live_frames_run pl netloc_ok path_of ns k = (Inr results, k')"
  obtain t s s' where b: "capture_all (transport_for pl t) netloc_ok (as_str (ns (lit ''etag''))) (limits_of ns) (live_paths ns) s = (Inr results, s')"
    using open_datastore_body[OF run[unfolded live_frames_run_def]] by (elim exE) (rule that)
  note r = capture_all_results[OF b]
  show "list_all2 (\<lambda>path r. normalize_path netloc_ok path = Inr (cr_path r)) (live_paths ns) results"
    using r by (rule list_all2_mono) simp
  have "list_all capture_ok results \<longleftrightarrow> (\<forall>r\<in>set results. frames_accepted r)"
    using r by (auto simp: list_all_length all_set_conv_all_nth list_all2_conv_all_nth)
  then show "live_frames_main pl netloc_ok path_of ns k = (Inr (if \<forall>r\<in>set results. frames_accepted r then 0 else 1), k')"
    using run by (simp add: live_frames_main_def bindS_def live_frames_status_def)
qed

theorem live_frames_validated_witness:
  "platform_contract demo_platform set \<and>
   set (snd (live_frames_main demo_platform (\<lambda>_. True) (\<lambda>s. [s]) (default_namespace frames_parser) [5])) = {5}"
  using demo_platform_contract live_frames_validated[OF demo_platform_contract, of "\<lambda>_. True" "\<lambda>s. [s]" "default_namespace frames_parser" "[5]"]
  by simp

end
