(* ===== verification/Spec2Isabelle.thy ===== *)
theory Spec2Isabelle
  imports Motu_Prelude Motu_Protocol Motu_Text Motu_Parser Motu_Session Motu_Managed
    Motu_Coordinator Motu_Paths Motu_Schema Motu_Json Motu_Access Motu_Http Motu_Device Motu_Usbfs
    Motu_Effort Motu_Validate Motu_Info Motu_Status Motu_Args Motu_Cli Motu_Serve
    Motu_Stack Motu_Traffic Motu_Wait Motu_Options Motu_Preempt Motu_Live
begin

text \<open>
  A verification development for \<^verbatim>\<open>motu-proxy\<close>, a Python program that makes the datastore of a MOTU AVB audio
  interface, which the vendor serves over the network, available over USB: as commands and as an HTTP server
  on the local machine.

  \<^bold>\<open>How the program works.\<close> \<^verbatim>\<open>device.py\<close> finds the device in sysfs; \<^verbatim>\<open>transports/usbfs.py\<close> claims its control
  interface and moves bytes through bulk endpoints. \<open>MotuUsbDatastore\<close> (\<^verbatim>\<open>datastore.py\<close>) is one session: it frames
  requests (\<^verbatim>\<open>protocol.py\<close>), acknowledges and collects the segments of a response and has it parsed (\<^verbatim>\<open>parser.py\<close>).
  \<open>ManagedDatastore\<close> opens sessions on demand, drops them when the device is lost and backs off.
  \<open>DatastoreCoordinator\<close> shares one managed datastore among the threads of the server: requests have precedence
  over a background long poll, whose pending read they cancel, and changes are kept for waiting clients. The
  HTTP server (\<^verbatim>\<open>http_server.py\<close>) maps requests to it; a write passes the checks of host, origin and token, a JSON
  decoder (\<^verbatim>\<open>json_body.py\<close>), the schema of the datastore (\<^verbatim>\<open>schema.py\<close>), the path rules (\<^verbatim>\<open>paths.py\<close>) and the size check
  of the frame before it reaches the device. The commands (\<^verbatim>\<open>cli.py\<close>) open one session each, or start the server.

  \<^bold>\<open>Theories.\<close> The theories follow the calls from the wire up; each names the functions it translates.

  \<^item> \<open>Motu_Prelude\<close>, \<open>Motu_Text\<close>: bytes, strings as code points, exceptions (one constructor per class), the
    result type and the state-and-exception monad \<open>sop\<close>, little-endian fields, UTF-8, and the operations of
    \<open>str\<close> and \<open>bytes\<close> that the program uses. The locales \<open>wire_codec\<close> and \<open>cyclic_counter\<close> are interpreted on
    the 16- and 32-bit fields and on the two sequence counters.
  \<^item> \<open>Motu_Protocol\<close> (\<^verbatim>\<open>protocol.py\<close>, \<^verbatim>\<open>fixtures.py\<close>): CRC-32 and the request frames. Frames are unambiguous, the
    size check of a write is exact, the host sequence stays in its window, the captured frames are reproduced.
  \<^item> \<open>Motu_Parser\<close> (\<^verbatim>\<open>parser.py\<close>): the frame parser accepts exactly the wire format, rejects corruption, joins exactly
    the complete ordered sets of segments, and never raises on what a device returns.
  \<^item> \<open>Motu_Session\<close> (\<open>MotuUsbDatastore\<close>): the record \<open>motu_session\<close>, the collecting loop and \<open>get\<close>, \<open>post\<close>, \<open>init\<close>. For any
    transport a returned response is made of frames of this request, a correct device is always heard, and a
    write is sent at most once. The locales \<open>logged_transport\<close> and \<open>session_relation\<close> carry facts of single
    transport operations to whole calls.
  \<^item> \<open>Motu_Managed\<close> (\<open>ManagedDatastore\<close>): the invariant of the record \<open>managed\<close>, no replay of a call, device loss,
    the back-off between attempts while the device is gone, and that closing is final.
  \<^item> \<open>Motu_Coordinator\<close> (\<open>DatastoreCoordinator\<close>): each critical section is a function on the record \<open>coordinator\<close>, and
    the threads are a step relation. Mutual exclusion, precedence of requests, the bounded history and the
    answers to waiting clients.
  \<^item> \<open>Motu_Paths\<close>, \<open>Motu_Schema\<close>, \<open>Motu_Json\<close>, \<open>Motu_Access\<close>: path normalisation is confined; the schema lookup is the
    best match of the table and validation accepts exactly the conforming writes; JSON texts are read back
    as written; who may write.
  \<^item> \<open>Motu_Http\<close> (\<^verbatim>\<open>http_server.py\<close>): dispatch and the request handler on a connection. A write reaches the device only
    when every check passed, a refused one is not even read, and every request is answered once.
  \<^item> \<open>Motu_Device\<close> (\<^verbatim>\<open>device.py\<close>): discovery over an arbitrary file system.
  \<^item> \<open>Motu_Usbfs\<close> (\<^verbatim>\<open>transports/usbfs.py\<close>): the transport, and the cancellable read as interleaved steps of the reader, a
    cancelling thread, the device and the clock. The outcome of a read meets its specification, and a
    cancelled read does not hang. The locale \<open>schedule_invariant\<close> is interpreted on its three invariants.
  \<^item> \<open>Motu_Effort\<close>: how much a request reads at most, for any device and any clock.
  \<^item> \<open>Motu_Info\<close> (\<open>response_to_text\<close>, \<open>read_device_capability_info\<close>): the decoder with the JSON constants, the indenting
    encoder, and the capability report, which has what the device holds. Printed texts of values without doubles keep the value
    the device sent.
  \<^item> \<open>Motu_Status\<close> (\<open>DatastoreCoordinator.status\<close>): the status page of the server.
  \<^item> \<open>Motu_Args\<close>, \<open>Motu_Cli\<close>, \<open>Motu_Serve\<close> (\<^verbatim>\<open>cli.py\<close>, \<open>open_datastore\<close>, \<open>serve\<close>): option values and the configuration they give,
    the commands over discovery, transport and session, the token file and the server command. Every command closes
    the device it opened: the locale \<open>world_relation\<close>, interpreted on the usbfs transport, carries what system calls keep
    to whole commands. \<open>served_write_authorised\<close> at the end of this theory puts command line and write gate together.
  \<^item> \<open>Motu_Options\<close> (\<open>build_parser\<close> of \<^verbatim>\<open>cli.py\<close>): the argument tables of all commands and what \<open>parse_args\<close> makes of them. Whatever is
    accepted is in range, a switch is on exactly when it was given, and the defaults are the safe ones.
  \<^item> \<open>Motu_Stack\<close>: the composition that \<open>serve\<close> uses, \<open>ManagedDatastore\<close> over \<open>open_datastore\<close>, \<open>MotuUsbDatastore\<close> and
    \<open>UsbFsTransport\<close>, with sessions as objects in a list. The locale \<open>session_provider\<close> is the contract of the opener;
    interpreted on the stack, it shows that the open device files are exactly that of the held session.
  \<^item> \<open>Motu_Traffic\<close>: the same stack with the frames on the wire recorded, from the dispatcher of a request down. \<open>logged_transport\<close>
    is interpreted on the traced transport, \<open>session_provider\<close> on live sessions. A web request writes at most once, and only what
    was checked.
  \<^item> \<open>Motu_Wait\<close> (\<open>DatastoreCoordinator\<close>): its blocking calls as one thread runs them, with other threads inside \<open>wait\<close>: acquiring the
    device, \<open>read\<close>, \<open>post\<close>, \<open>get\<close>, \<open>wait_for_change\<close>, the poller, \<open>start\<close> and \<open>close\<close>. Long polls end, with a true answer.
  \<^item> \<open>Motu_Validate\<close>, \<open>Motu_Live\<close> (\<^verbatim>\<open>tools/live_validate_response_frames.py\<close>): the second implementation of the frame checks
    agrees with the parser; the tool as a program reports just that and closes the device.
  \<^item> \<open>Motu_Preempt\<close> (\<^verbatim>\<open>tools/live_validate_foreground_preemption.py\<close>): the tool on the coordinator of \<open>Motu_Wait\<close>. Its checks end, and
    what a pass means; its budget is not a bound below one second (\<open>slow_dispatch_passes\<close>).

  \<^bold>\<open>Parameters.\<close> Code outside the repository is an argument. A transport, clock or file system is a record of
  operations that may return anything or raise; theorems that need more name it (\<open>kernel_contract\<close>,
  \<open>files_contract\<close>, \<open>platform_contract\<close>, \<open>file_contract\<close>, and for waiting threads \<open>time_passes\<close> and \<open>device_released\<close>) and have a concrete instance as witness. \<open>py_env\<close> and \<open>json_env\<close> collect what depends on the Python version.
  \<open>wait\<close> of a condition is an operation in which other threads change the shared state in any way.
  Exceptions keep their class and the numbers the program reads from them; their messages are dropped, except
  those the HTTP server sends and those of response frames, which the capability report searches.

  \<^bold>\<open>Loops and bounds.\<close> No definition uses fuel: the loop that collects a response is bounded by its own limit
  of reads, the others by the bytes left, and each has a termination proof. The loops of \<open>Motu_Wait\<close> and
  \<open>Motu_Preempt\<close> that may block for ever are partial functions with \<open>None\<close> for a call that does not return; that they
  return is proved. A blocked \<open>poll\<close> or \<open>REAPURB\<close> is a state without a step of the reader, so that hanging is visible in
  the statements. Times are exact (rational seconds, or integer milliseconds in \<open>Motu_Usbfs\<close>) where the program uses doubles.

  \<^bold>\<open>Not modelled.\<close> How \<open>argparse\<close> splits the command line into arguments (\<open>Motu_Options\<close> starts from the split arguments),
  the socket server and the request line parser of the standard library, the \<open>ctypes\<close> layouts of \<open>usbfs.py\<close>, and the text of log,
  debug and progress lines other than those of \<open>serve\<close> and \<open>info\<close>, with the reports that the live tools print. \<open>Motu_Traffic\<close>
  covers foreground requests; the frames of the background poll, whose reads are cancellable, are those of \<open>Motu_Session\<close> for
  one request at a time. The scripts under \<^verbatim>\<open>research\<close> are experiments on hardware or captures and no part of the proxy.

  \<^bold>\<open>What is left.\<close> JSON texts with doubles in the round trip, which needs the rounding of \<open>float.__repr__\<close>, and a joint
  schedule of the coordinator's threads and the cancellable read of \<open>Motu_Usbfs\<close>, which are related here only through the
  contract of \<open>cancel\<close>.
\<close>

section \<open>Serving: what the command line promises about writes\<close>

text \<open>The token that \<open>secrets.token_urlsafe\<close> gives to the command when it is run in the state \<open>s\<close>, once the coordinator is started.\<close>

definition generated_token :: "'s serve_ops \<Rightarrow> serve_args \<Rightarrow> 's \<Rightarrow> pystr \<Rightarrow> bool" where
  "generated_token so sa s t \<longleftrightarrow>
     (\<exists>c s1 s2. config_from_args (sa_usb sa) = Inr c \<and> so_start so c s = (Inr (), s1) \<and> fo_token (so_files so) s1 = (Inr t, s2))"

text \<open>The server that \<open>command_serve\<close> may start with these arguments in the state \<open>s\<close>.\<close>

definition safe_server :: "py_env \<Rightarrow> 's serve_ops \<Rightarrow> serve_args \<Rightarrow> 's \<Rightarrow> server \<Rightarrow> bool" where
  "safe_server env so sa s sv \<longleftrightarrow>
     (if sa_allow_writes sa \<and> sa_require_write_token sa then \<exists>t. generated_token so sa s t \<and> sv = server_of sa (Some t)
      else sv = server_of sa None) \<and>
     (sa_allow_writes sa \<longrightarrow> sa_unsafe_allow_remote_writes sa \<or> is_loopback_listen_address env (sa_listen sa))"

lemma dispatch_write_needs_authority:
  assumes "method \<noteq> GET"
    and "snd (dispatch_datastore_request env cfg be method request_path raw_body content_type origin host request_token inm s) \<noteq> s"
  shows "write_authorised env cfg origin host request_token"
proof -
  obtain u path where "urlparse (env_netloc_ok env) True request_path = Inr u" "normalize_path (env_netloc_ok env) (url_path u) = Inr path"
    "snd (dispatch_write env cfg be method path request_path raw_body content_type origin host request_token s) \<noteq> s"
    using assms by (cases "urlparse (env_netloc_ok env) True request_path";
        cases "normalize_path (env_netloc_ok env) (url_path (projr (urlparse (env_netloc_ok env) True request_path)))")
      (auto simp: dispatch_datastore_request_def)
  then obtain body client where
    "check_write env cfg method path request_path raw_body content_type origin host request_token = Inr (body, client)"
    by (cases "check_write env cfg method path request_path raw_body content_type origin host request_token")
      (auto simp: dispatch_write_def)
  then show ?thesis by (rule check_write_Inr(1)[OF assms(1)])
qed

lemma serve_token_generated:
  assumes "serve_token fo sa s = (Inr (token, fl), s')"
  shows "if sa_allow_writes sa \<and> sa_require_write_token sa then \<exists>t u. fo_token fo s = (Inr t, u) \<and> token = Some t else token = None"
  using assms by (auto simp: serve_token_def prepare_write_token_def result_simps split: option.splits)

lemma command_serve_run:
  assumes "config_from_args (sa_usb sa) = Inr c" "so_start so c s = (Inr (), s1)" "serve_token (so_files so) sa s1 = (Inr (token, f), s2)"
    and "validate_serve_write_safety env (sa_listen sa) (sa_allow_writes sa) (sa_unsafe_allow_remote_writes sa) = Inr u"
  shows "command_serve env so sa s =
    finallyS (bindS (so_bind so (sa_listen sa) (sa_port sa) (server_of sa token)) (\<lambda>_.
        serve so (server_of sa token) (map_option (so_path_text so) f))) (serve_cleanup so f token) s2"
  using assms by (simp add: command_serve_def bindS_apply[where m = "so_start so c"])

lemma serves_safe_servers:
  "command_serve env so sa s =
   command_serve env (so\<lparr>so_serve_forever := \<lambda>sv. if safe_server env so sa s sv then so_serve_forever so sv else other sv\<rparr>) sa s"
proof -
  let ?so = "so\<lparr>so_serve_forever := \<lambda>sv. if safe_server env so sa s sv then so_serve_forever so sv else other sv\<rparr>"
  have lines: "print_lines ?so ls = print_lines so ls" for ls by (induction ls) simp_all
  have clean: "serve_cleanup ?so = serve_cleanup so" by (intro ext) (simp add: serve_cleanup_def)
  show ?thesis
  proof (cases "config_from_args (sa_usb sa)")
    case (Inr c)
    note cfg = this
    show ?thesis
    proof (cases "validate_serve_write_safety env (sa_listen sa) (sa_allow_writes sa) (sa_unsafe_allow_remote_writes sa)")
      case (Inl e)
      then show ?thesis using cfg by (simp add: command_serve_def)
    next
      case (Inr u)
      then have listen: "sa_allow_writes sa \<Longrightarrow> sa_unsafe_allow_remote_writes sa \<or> is_loopback_listen_address env (sa_listen sa)"
        by (auto simp: validate_serve_write_safety_def split: if_splits)
      obtain x s1 where st: "so_start so c s = (x, s1)" by fastforce
      obtain y s2 where tk: "serve_token (so_files so) sa s1 = (y, s2)" by fastforce
      have srv: "serve ?so (server_of sa token) fl = serve so (server_of sa token) fl"
        if "x = Inr ()" "y = Inr (token, f)" for token f fl
      proof -
        have "safe_server env so sa s (server_of sa token)"
          using serve_token_generated[of "so_files so" sa s1 token f s2] tk that st cfg listen
          unfolding safe_server_def generated_token_def by (auto split: if_splits)
        then show ?thesis by (intro ext) (simp add: serve_def lines)
      qed
      show ?thesis
      proof (cases "\<exists>token f. x = Inr () \<and> y = Inr (token, f)")
        case True
        then obtain token f where xy: "x = Inr ()" "y = Inr (token, f)" by blast
        have "command_serve env ?so sa s = finallyS (bindS (so_bind so (sa_listen sa) (sa_port sa) (server_of sa token)) (\<lambda>_.
            serve ?so (server_of sa token) (map_option (so_path_text so) f))) (serve_cleanup ?so f token) s2"
          using command_serve_run[OF cfg _ _ Inr, of ?so s s1 token f s2] st tk xy by simp
        then show ?thesis using command_serve_run[OF cfg _ _ Inr, of so s s1 token f s2] st tk xy by (simp only: srv[OF xy] clean)
      next
        case False
        then show ?thesis using cfg Inr st tk clean by (cases x; cases y) (auto simp: command_serve_def bindS_def)
      qed
    qed
  qed (simp add: command_serve_def)
qed

text \<open>C8: \<open>motu-proxy serve\<close> lets nobody write who was not allowed to. Whatever the arguments, the server that is
  started is the one they describe, with the token generated in this run when one is required and none otherwise
  (replacing what would happen for any other server changes nothing), and when a request other than GET changes anything
  behind such a server, then \<open>--allow-writes\<close> was given, the listening address is a loopback address or
  \<open>--unsafe-allow-remote-writes\<close> was given, host and origin of the request are acceptable, and with
  \<open>--require-write-token\<close> the request carries exactly the token that was generated.\<close>

theorem served_write_authorised:
  "command_serve env so sa s0 =
     command_serve env (so\<lparr>so_serve_forever := \<lambda>sv. if safe_server env so sa s0 sv then so_serve_forever so sv else other sv\<rparr>) sa s0 \<and>
   (safe_server env so sa s0 sv \<and> method \<noteq> GET \<and>
      snd (dispatch_datastore_request env (sv_dispatcher sv) be method request_path raw_body content_type origin host
        request_token inm s) \<noteq> s \<longrightarrow>
    sa_allow_writes sa \<and> (sa_unsafe_allow_remote_writes sa \<or> is_loopback_listen_address env (sa_listen sa)) \<and>
    write_authorised env (sv_dispatcher sv) origin host request_token \<and>
    (sa_require_write_token sa \<longrightarrow>
       (\<exists>t b. generated_token so sa s0 t \<and> write_token (sv_dispatcher sv) = Some t \<and> truthy request_token \<and>
          token_bytes t = Inr b \<and> token_bytes (the request_token) = Inr b)))"
proof (intro conjI impI)
  show "command_serve env so sa s0 =
     command_serve env (so\<lparr>so_serve_forever := \<lambda>sv. if safe_server env so sa s0 sv then so_serve_forever so sv else other sv\<rparr>) sa s0"
    by (rule serves_safe_servers)
next
  assume a: "safe_server env so sa s0 sv \<and> method \<noteq> GET \<and>
      snd (dispatch_datastore_request env (sv_dispatcher sv) be method request_path raw_body content_type origin host
        request_token inm s) \<noteq> s"
  then have "method \<noteq> GET" and ch: "snd (dispatch_datastore_request env (sv_dispatcher sv) be method request_path raw_body content_type
      origin host request_token inm s) \<noteq> s" by simp_all
  then have w: "write_authorised env (sv_dispatcher sv) origin host request_token"
    by (rule dispatch_write_needs_authority)
  show all: "sa_allow_writes sa" using w a by (auto simp: write_authorised_def safe_server_def server_of_def split: if_splits)
  show "sa_unsafe_allow_remote_writes sa \<or> is_loopback_listen_address env (sa_listen sa)"
    using a all by (simp add: safe_server_def)
  show "write_authorised env (sv_dispatcher sv) origin host request_token" by (rule w)
  assume "sa_require_write_token sa"
  then obtain t where "generated_token so sa s0 t" "write_token (sv_dispatcher sv) = Some t"
    using a all by (auto simp: safe_server_def server_of_def)
  then show "\<exists>t b. generated_token so sa s0 t \<and> write_token (sv_dispatcher sv) = Some t \<and> truthy request_token \<and>
          token_bytes t = Inr b \<and> token_bytes (the request_token) = Inr b"
    using w by (auto simp: write_authorised_def)
qed

text \<open>A server with a token, and a write that carries it.\<close>

definition demo_env :: py_env where
  "demo_env = any_env\<lparr>env_json_limit := Suc 0\<rparr>"

definition demo_serve_args :: serve_args where
  "demo_serve_args =
     \<lparr>sa_usb = demo_config, sa_listen = lit ''0.0.0.0'', sa_port = 1280, sa_allow_writes = True, sa_require_write_token = True,
      sa_write_token_file = None, sa_unsafe_allow_remote_writes = True, sa_max_write_body_bytes = 1000, sa_no_validate = True,
      sa_allow_unknown_writes = False\<rparr>"

lemma demo_path:
  "urlparse (\<lambda>_. True) True (lit ''/datastore/uid'') = Inr \<lparr>url_scheme = [], url_netloc = [], url_path = lit ''/datastore/uid'', url_params = [], url_query = [], url_fragment = []\<rparr>"
  "normalize_path (\<lambda>_. True) (lit ''/datastore/uid'') = Inr (lit ''/datastore/uid'')"
  by code_simp+

lemma demo_client: "parse_client_query demo_env (lit ''/datastore/uid'') = Inr None"
  using demo_path(1) by (simp add: parse_client_query_def demo_env_def any_env_def parse_qsl_def qs_values_def del: lit_simps)

lemma demo_body: "load_json_object (Suc 0) (lit ''{}'') = Inr []" "parse_write_body (lit ''{}'') [] = Inr (lit ''{}'')"
  "utf8_encode (lit ''{}'') = Inr (blit ''{}'')"
  by (simp_all add: load_json_object_def json_loads_def scan_items_def json_ws_def dict_of_def parse_write_body_def utf8_encode_def utf8_char_def)

lemma demo_size: "validate_post_frame_size (lit ''/datastore/uid'') (blit ''{}'') (lit ''NREK'') None = Inr ()"
  by code_simp

definition demo_serve_ops :: "unit serve_ops" where
  "demo_serve_ops =
     \<lparr>so_files =
        \<lparr>fo_token = retS (lit ''k''), fo_mkdir_parents = (\<lambda>_. retS ()), fo_lstat = (\<lambda>_. raiseS (OSError 2)), fo_open = (\<lambda>_. retS 3),
         fo_fchmod = (\<lambda>_ _. retS ()), fo_write = (\<lambda>_ _. retS ()), fo_close = (\<lambda>_. retS ()), fo_read_text = (\<lambda>_. retS []),
         fo_unlink = (\<lambda>_. retS ())\<rparr>,
      so_start = (\<lambda>_. retS ()), so_close_coordinator = retS (), so_close_datastore = retS (), so_bind = (\<lambda>_ _ _. retS ()),
      so_server_address = (\<lambda>_. ([], 1280)), so_serve_forever = (\<lambda>_. retS ()), so_server_close = retS (), so_print = (\<lambda>_. retS ()),
      so_path_text = (\<lambda>_. [])\<rparr>"

theorem served_write_authorised_witness:
  "safe_server demo_env demo_serve_ops demo_serve_args () (server_of demo_serve_args (Some (lit ''k''))) \<and>
   (\<exists>t b. generated_token demo_serve_ops demo_serve_args () t \<and> token_bytes t = Inr b \<and> token_bytes (lit ''k'') = Inr b)"
proof -
  let ?sv = "server_of demo_serve_args (Some (lit ''k''))" and ?p = "lit ''/datastore/uid''"
  have "config_from_args (sa_usb demo_serve_args) = Inr demo_config" by (simp add: demo_serve_args_def) code_simp
  then have "generated_token demo_serve_ops demo_serve_args () (lit ''k'')"
    by (simp add: generated_token_def demo_serve_ops_def del: lit_simps)
  then have safe: "safe_server demo_env demo_serve_ops demo_serve_args () ?sv"
    unfolding safe_server_def by (auto simp: demo_serve_args_def simp del: lit_simps)
  have m: "lit ''POST'' \<noteq> GET" by (simp add: GET_def)
  have env: "env_netloc_ok demo_env = (\<lambda>_. True)" "env_json_limit demo_env = Suc 0" by (simp_all add: demo_env_def any_env_def)
  have tok: "token_bytes (lit ''k'') = Inr [107]" "lit ''k'' \<noteq> []" by code_simp+
  have "check_write demo_env (sv_dispatcher ?sv) (lit ''POST'') ?p ?p (lit ''{}'') [] None None (Some (lit ''k'')) = Inr (blit ''{}'', None)"
    using demo_client demo_body demo_size m
    by (simp add: check_write_def server_of_def demo_serve_args_def env validate_write_host_def validate_write_origin_def
        validate_write_token_def truthy_def tok del: lit_simps)
  then have "snd (dispatch_datastore_request demo_env (sv_dispatcher ?sv) demo_backend (lit ''POST'') ?p (lit ''{}'') [] None None
      (Some (lit ''k'')) None 0) = 1"
    using demo_path m
    by (simp add: dispatch_datastore_request_def env dispatch_write_def demo_backend_def bindS_def Let_def del: lit_simps)
  then show ?thesis
    using served_write_authorised[of demo_env demo_serve_ops demo_serve_args "()" "so_serve_forever demo_serve_ops" ?sv "lit ''POST''" demo_backend ?p
        "lit ''{}''" "[]" None None "Some (lit ''k'')" None 0, THEN conjunct2] safe m
    by (auto simp: demo_serve_args_def simp del: lit_simps)
qed

end
